(* ===== verification/Prelude.thy ===== *)
theory Prelude
  imports Main "HOL-Library.Word"
begin

unbundle bit_operations_syntax

text \<open>
  Shared ground of the development: the machine types of the C code, the page
  geometry of the target (\<^verbatim>\<open>test_mck/src/arch/arm64/include/arch_test_mck.h\<close> and
  the memory macros of \<^verbatim>\<open>test_mck/src/test_mck.h\<close>), C's integer conversions, and the
  generic lemmas on lists and words the component theories use. The page sizes are an
  interface (\<^verbatim>\<open>page_geometry\<close>) interpreted for the three sizes the code defines.
\<close>


type_synonym u64 = "64 word"
type_synonym u32 = "32 word"
type_synonym byte = "8 word"

section \<open>C integer conversions\<close>

text \<open>
  Conversion of a mathematical integer to a signed 32-bit \<^verbatim>\<open>int\<close> and a signed 64-bit
  \<^verbatim>\<open>long\<close> (two's complement, as on the target).
\<close>

definition to_int32 :: "int \<Rightarrow> int" where
  "to_int32 x = (x + 2 ^ 31) mod 2 ^ 32 - 2 ^ 31"

definition to_int64 :: "int \<Rightarrow> int" where
  "to_int64 x = (x + 2 ^ 63) mod 2 ^ 64 - 2 ^ 63"

lemma to_int32_bounds: "- (2 ^ 31) \<le> to_int32 x \<and> to_int32 x < 2 ^ 31"
  using pos_mod_bound [of "2 ^ 32" "x + 2 ^ 31"] pos_mod_sign [of "2 ^ 32" "x + 2 ^ 31"]
  by (simp add: to_int32_def)

lemma to_int32_id: "- (2 ^ 31) \<le> x \<Longrightarrow> x < 2 ^ 31 \<Longrightarrow> to_int32 x = x"
  unfolding to_int32_def by (subst mod_pos_pos_trivial) auto

lemma to_int64_id: "- (2 ^ 63) \<le> x \<Longrightarrow> x < 2 ^ 63 \<Longrightarrow> to_int64 x = x"
  unfolding to_int64_def by (subst mod_pos_pos_trivial) auto

lemma to_int32_eq_minus1: "to_int32 x = -1 \<longleftrightarrow> x mod 2 ^ 32 = 2 ^ 32 - 1"
proof -
  have "to_int32 x = -1 \<longleftrightarrow> (x + 2 ^ 31) mod 2 ^ 32 = (2 ^ 31 - 1) mod 2 ^ 32"
    by (simp add: to_int32_def)
  also have "\<dots> \<longleftrightarrow> 2 ^ 32 dvd x + 1" unfolding mod_eq_dvd_iff by (simp add: add.commute)
  also have "\<dots> \<longleftrightarrow> 2 ^ 32 dvd x - (2 ^ 32 - 1)"
    using dvd_add_left_iff [of "2 ^ 32" "2 ^ 32" "x - (2 ^ 32 - 1)"] by (simp add: algebra_simps)
  also have "\<dots> \<longleftrightarrow> x mod 2 ^ 32 = (2 ^ 32 - 1) mod 2 ^ 32" by (simp only: mod_eq_dvd_iff)
  finally show ?thesis by simp
qed

section \<open>Words\<close>

lemma unat_push_bit_1: "n < LENGTH('a) \<Longrightarrow> unat (push_bit n 1 :: 'a::len word) = 2 ^ n"
proof -
  assume n: "n < LENGTH('a)"
  have "unat (push_bit n (1::'a word)) = take_bit LENGTH('a) (push_bit n (unat (1::'a word)))"
    by (rule unsigned_push_bit_eq)
  then show ?thesis using n by (simp add: take_bit_eq_mod)
qed

lemma clear_low_bits_unat:
  fixes a :: "'a::len word"
  assumes "n < LENGTH('a)"
  shows "unat (a AND NOT (push_bit n 1 - 1)) = unat a div 2 ^ n * 2 ^ n"
proof -
  have mask: "push_bit n 1 - 1 = (mask n :: 'a word)"
    by (simp add: mask_eq_decr_exp push_bit_eq_mult)
  have "a AND NOT (mask n) = push_bit n (drop_bit n a)"
    by (rule bit_word_eqI) (auto simp: bit_simps)
  then have "unat (a AND NOT (mask n)) = take_bit LENGTH('a) (push_bit n (drop_bit n (unat a)))"
    by (simp only: unsigned_push_bit_eq unat_drop_bit_eq)
  also have "\<dots> = unat a div 2 ^ n * 2 ^ n mod 2 ^ LENGTH('a)"
    by (simp only: take_bit_eq_mod push_bit_eq_mult drop_bit_eq_div)
  also have "\<dots> = unat a div 2 ^ n * 2 ^ n"
    by (rule mod_less) (meson div_times_less_eq_dividend le_less_trans unsigned_less)
  finally show ?thesis unfolding mask .
qed

section \<open>Alignment and page geometry\<close>

text \<open>The macros \<^verbatim>\<open>align_down\<close> and \<^verbatim>\<open>align_up\<close> of \<^verbatim>\<open>test_mck.h\<close>, on 64-bit values.\<close>

definition align_down :: "u64 \<Rightarrow> u64 \<Rightarrow> u64" where
  "align_down addr sz = addr AND NOT (sz - 1)"

definition align_up :: "u64 \<Rightarrow> u64 \<Rightarrow> u64" where
  "align_up addr sz = align_down (addr + sz - 1) sz"

text \<open>
  The build chooses 4 KiB or 64 KiB pages (\<^verbatim>\<open>CONFIG_ARM64_64K_PAGES\<close>); everything below
  is parametric in that choice.
\<close>

datatype page_config = Pages4K | Pages64K

instantiation page_config :: enum
begin

definition enum_page_config_def: "enum_class.enum = [Pages4K, Pages64K]"

definition enum_all_page_config_def: "enum_class.enum_all P = (P Pages4K \<and> P Pages64K)"

definition enum_ex_page_config_def: "enum_class.enum_ex P = (P Pages4K \<or> P Pages64K)"

instance
proof
  show "UNIV = set (enum_class.enum :: page_config list)"
    using page_config.exhaust by (auto simp: enum_page_config_def)
  show "distinct (enum_class.enum :: page_config list)"
    by (simp add: enum_page_config_def)
  show "enum_class.enum_all P = Ball UNIV P" for P :: "page_config \<Rightarrow> bool"
    by (auto simp: enum_all_page_config_def) (metis page_config.exhaust)
  show "enum_class.enum_ex P = Bex UNIV P" for P :: "page_config \<Rightarrow> bool"
    by (auto simp: enum_ex_page_config_def) (metis page_config.exhaust)
qed

end

fun PAGE_SHIFT :: "page_config \<Rightarrow> nat" where
  "PAGE_SHIFT Pages4K = 12"
| "PAGE_SHIFT Pages64K = 16"

definition LARGE_PAGE_SHIFT :: "page_config \<Rightarrow> nat" where
  "LARGE_PAGE_SHIFT c = PAGE_SHIFT c + 9 + (PAGE_SHIFT c - 12)"

definition LARGEST_PAGE_SHIFT :: "page_config \<Rightarrow> nat" where
  "LARGEST_PAGE_SHIFT c = LARGE_PAGE_SHIFT c + 9 + (PAGE_SHIFT c - 12)"

definition PAGE_SIZE :: "page_config \<Rightarrow> u64" where
  "PAGE_SIZE c = push_bit (PAGE_SHIFT c) 1"

definition PAGE_OFFSET :: "page_config \<Rightarrow> u64" where
  "PAGE_OFFSET c = PAGE_SIZE c - 1"

definition PAGE_MASK :: "page_config \<Rightarrow> u64" where
  "PAGE_MASK c = NOT (PAGE_OFFSET c)"

definition LARGE_PAGE_SIZE :: "page_config \<Rightarrow> u64" where
  "LARGE_PAGE_SIZE c = push_bit (LARGE_PAGE_SHIFT c) 1"

definition LARGEST_PAGE_SIZE :: "page_config \<Rightarrow> u64" where
  "LARGEST_PAGE_SIZE c = push_bit (LARGEST_PAGE_SHIFT c) 1"


text \<open>
  What every page size promises its users: it is a power of two below the word length,
  so the two macros round to its multiples.
\<close>

locale page_geometry =
  fixes shift :: nat and psize :: u64
  assumes shift_small: "shift < 63"
    and psize_def: "psize = push_bit shift 1"
begin

lemma unat_psize: "unat psize = 2 ^ shift"
  using shift_small by (simp add: psize_def unat_push_bit_1 del: push_bit_of_1)

lemma align_down_unat: "unat (align_down a psize) = unat a div 2 ^ shift * 2 ^ shift"
  using shift_small clear_low_bits_unat [of shift a]
  by (simp add: align_down_def psize_def del: push_bit_of_1)

lemma align_up_unat:
  assumes "unat a + 2 ^ shift \<le> 2 ^ 64"
  shows "unat (align_up a psize) = (unat a + 2 ^ shift - 1) div 2 ^ shift * 2 ^ shift"
proof -
  have "1 \<le> unat a + unat psize" by (simp add: unat_psize Suc_le_eq)
  then have "a + psize - 1 = of_nat (unat a + unat psize - 1)"
    by (subst of_nat_diff) simp_all
  then have "a + psize - 1 = of_nat (unat a + 2 ^ shift - 1)" by (simp only: unat_psize)
  moreover have "unat a + 2 ^ shift - 1 < 2 ^ 64" using assms
    zero_less_power [of "2::nat" shift] by linarith
  ultimately have "unat (a + psize - 1) = unat a + 2 ^ shift - 1"
    by (simp add: unat_of_nat)
  then show ?thesis by (simp add: align_up_def align_down_unat)
qed

lemma align_up_least:
  assumes "unat a + 2 ^ shift \<le> 2 ^ 64"
  shows "unat a \<le> unat (align_up a psize) \<and> unat (align_up a psize) < unat a + 2 ^ shift
    \<and> 2 ^ shift dvd unat (align_up a psize)"
proof -
  let ?p = "2 ^ shift :: nat" and ?x = "unat a + 2 ^ shift - 1"
  have p: "0 < ?p" by simp
  have eq: "unat (align_up a psize) = ?x div ?p * ?p" by (rule align_up_unat [OF assms])
  define q r where "q = ?x div ?p * ?p" and "r = ?x mod ?p"
  have "q + r = ?x" unfolding q_def r_def by (rule div_mult_mod_eq)
  moreover have "r < ?p" unfolding r_def using p by (rule mod_less_divisor)
  ultimately have "unat a \<le> q" and "q < unat a + ?p" using p by linarith+
  moreover have "?p dvd q" by (simp add: q_def)
  ultimately show ?thesis by (simp only: eq q_def)
qed

end

lemma page_shift_bounds: "12 \<le> PAGE_SHIFT c" "PAGE_SHIFT c \<le> 16"
  by (cases c; simp)+

lemma large_page_shift_bounds: "LARGE_PAGE_SHIFT c \<le> 29" "LARGEST_PAGE_SHIFT c \<le> 42"
  by (cases c; simp add: LARGE_PAGE_SHIFT_def LARGEST_PAGE_SHIFT_def)+

interpretation small_page: page_geometry "PAGE_SHIFT c" "PAGE_SIZE c" for c
proof
  show "PAGE_SHIFT c < 63" using page_shift_bounds(2) [of c] by linarith
qed (rule PAGE_SIZE_def)

interpretation large_page: page_geometry "LARGE_PAGE_SHIFT c" "LARGE_PAGE_SIZE c" for c
proof
  show "LARGE_PAGE_SHIFT c < 63" using large_page_shift_bounds(1) [of c] by linarith
qed (rule LARGE_PAGE_SIZE_def)

interpretation largest_page: page_geometry "LARGEST_PAGE_SHIFT c" "LARGEST_PAGE_SIZE c" for c
proof
  show "LARGEST_PAGE_SHIFT c < 63" using large_page_shift_bounds(2) [of c] by linarith
qed (rule LARGEST_PAGE_SIZE_def)

lemma unat_lt2p64: "unat (w :: u64) < 2 ^ 64"
proof -
  have "unat w < 2 ^ LENGTH(64)" by (rule unsigned_less)
  then show ?thesis by simp
qed

lemma sint_small: "unat (w :: u64) < 2 ^ 63 \<Longrightarrow> sint w = int (unat w)"
proof -
  assume "unat w < 2 ^ 63"
  then have "uint w < 2 ^ 63" unfolding uint_nat by (metis of_nat_less_iff of_nat_numeral of_nat_power)
  moreover have "- (2 ^ 63) \<le> uint w" by (rule order.trans [of _ 0]) simp_all
  ultimately have "signed_take_bit 63 (uint w) = uint w" by (intro signed_take_bit_int_eq_self)
  then show ?thesis by (simp add: sint_uint)
qed

section \<open>Little-endian words\<close>

text \<open>
  Bytes stored at the start of a zeroed 64-bit variable, and the bytes of a word.
\<close>

fun le_word :: "byte list \<Rightarrow> u64" where
  "le_word [] = 0"
| "le_word (b # bs) = ucast b OR push_bit 8 (le_word bs)"

fun le_bytes :: "nat \<Rightarrow> u64 \<Rightarrow> byte list" where
  "le_bytes 0 w = []"
| "le_bytes (Suc n) w = ucast w # le_bytes n (drop_bit 8 w)"

lemma length_le_bytes [simp]: "length (le_bytes n w) = n"
  by (induction n arbitrary: w) simp_all

lemma le_word_bytes: "le_word (le_bytes n w) = take_bit (8 * n) w"
proof (induction n arbitrary: w)
  case (Suc n)
  have "ucast (ucast w :: byte) OR push_bit 8 (take_bit (8 * n) (drop_bit 8 w)) = take_bit (8 + 8 * n) w"
    by (rule bit_word_eqI) (auto simp: bit_simps)
  with Suc show ?case by simp
qed simp

end
