(* ===== verification/Machine.thy ===== *)
theory Machine
  imports Prelude
begin

text \<open>
  The execution model shared by all programs of the repository. A C function that talks to
  the operating system is a state transformer \<open>('k, 'a) prog\<close>: it takes the process state
  (\<open>'k machine\<close>) and returns either a value or the way the process ended, with the new
  state. The kernel under test is not part of the repository; its state \<open>'k\<close> and its
  system calls are parameters (the record \<open>vm_os\<close> here, further records in the components
  that use other calls), so every theorem quantifies over all kernels.

  The process state keeps \<^verbatim>\<open>errno\<close>, the installed signal handlers, the static variables of
  the test files (by name, as words; \<open>None\<close> is the initial value, and a static pointer to a
  heap array holds the words of the array) and the trace of the calls and prints made so far
  (a print is its format, without the final newline, and its arguments). The C library's calling convention (return \<open>-1\<close> or
  \<^verbatim>\<open>MAP_FAILED\<close> and set \<^verbatim>\<open>errno\<close>) is \<open>sys_call\<close>; a memory access that faults
  delivers a signal.
\<close>

named_theorems run_simps \<open>rewrite rules that execute programs symbolically\<close>

section \<open>Outcomes, traces, process state\<close>

text \<open>
  A process ends by \<^verbatim>\<open>exit\<close>, by a signal, or the C code reaches undefined behaviour.
\<close>

datatype halt = Exited int | Killed int | Undefined string

datatype 'a run = Val 'a | Halt halt

datatype arg = AInt int | AStr string

datatype sysname =
    Mmap | Munmap | Mremap | Sigaction
  | Open | Close | Stat | Fstat | Lseek | Read | Write | Fsync | Unlink | Msync | Mkstemp
  | Asprintf | Malloc | Free
  | Lib string

datatype event =
    Printed string "arg list"
  | Called sysname "arg list" int

text \<open>
  Only handlers whose body is \<^verbatim>\<open>exit(n)\<close> occur in the modelled code; a handler is the
  status it exits with.
\<close>

record 'k machine =
  errno :: int
  handlers :: "int \<Rightarrow> int option"
  statics :: "string \<Rightarrow> u64 list option"
  trace :: "event list"
  kern :: 'k

type_synonym ('k, 'a) prog = "'k machine \<Rightarrow> 'a run \<times> 'k machine"

section \<open>Sequencing\<close>

definition ret :: "'a \<Rightarrow> ('k, 'a) prog" where
  "ret a s = (Val a, s)"

definition stop :: "halt \<Rightarrow> ('k, 'a) prog" where
  "stop h s = (Halt h, s)"

definition exec :: "('k, 'a) prog \<Rightarrow> ('a \<Rightarrow> ('k, 'b) prog) \<Rightarrow> ('k, 'b) prog" where
  "exec m f s = (case m s of (Val a, t) \<Rightarrow> f a t | (Halt h, t) \<Rightarrow> (Halt h, t))"

lemma exec_Val [run_simps]: "m s = (Val a, t) \<Longrightarrow> exec m f s = f a t"
  by (simp add: exec_def)

lemma exec_Halt [run_simps]: "m s = (Halt h, t) \<Longrightarrow> exec m f s = (Halt h, t)"
  by (simp add: exec_def)

lemma exec_ret [run_simps, simp]: "exec (ret a) f = f a"
  by (simp add: exec_def ret_def fun_eq_iff)

lemma exec_stop [run_simps, simp]: "exec (stop h) f = stop h"
  by (simp add: exec_def stop_def fun_eq_iff)

lemma exec_ret_right [simp]: "exec m ret = m"
  by (auto simp: exec_def ret_def fun_eq_iff split: prod.splits run.splits)

lemma exec_assoc: "exec (exec m f) g = exec m (\<lambda>a. exec (f a) g)"
  by (auto simp: exec_def fun_eq_iff split: prod.splits run.splits)

lemma exec_cases:
  assumes "exec m f s = (r, u)"
  obtains (val) a t where "m s = (Val a, t)" and "f a t = (r, u)"
    | (halt) h where "m s = (Halt h, u)" and "r = Halt h"
  using assms by (auto simp: exec_def split: prod.splits run.splits)

text \<open>
  \<^verbatim>\<open>tp_assert(test, msg)\<close> leaves the test function with \<open>msg\<close> when the test fails; the
  continuation is the rest of the function. A test function returns \<^verbatim>\<open>NULL\<close> (\<open>None\<close>) when
  it passes.
\<close>

definition tp_assert :: "bool \<Rightarrow> string option \<Rightarrow> ('k, string option) prog \<Rightarrow> ('k, string option) prog" where
  "tp_assert test msg k = (if \<not> test then ret msg else k)"

lemma tp_assert_simps [run_simps, simp]:
  "tp_assert True msg k = k"
  "tp_assert False msg k = ret msg"
  by (simp_all add: tp_assert_def)

text \<open>A test function passes by returning \<^verbatim>\<open>NULL\<close> or by exiting with status 0.\<close>

definition passed :: "string option run \<Rightarrow> bool" where
  "passed r \<longleftrightarrow> r = Val None \<or> r = Halt (Exited 0)"

section \<open>The C library's side of a system call\<close>

definition get_errno :: "('k, int) prog" where
  "get_errno s = (Val (errno s), s)"

definition set_errno :: "int \<Rightarrow> ('k, unit) prog" where
  "set_errno e s = (Val (), s\<lparr>errno := e\<rparr>)"

definition get_static :: "string \<Rightarrow> ('k, u64 list option) prog" where
  "get_static x s = (Val (statics s x), s)"

definition set_static :: "string \<Rightarrow> u64 list option \<Rightarrow> ('k, unit) prog" where
  "set_static x v s = (Val (), s\<lparr>statics := (statics s)(x := v)\<rparr>)"

text \<open>
  The state after a call: \<^verbatim>\<open>errno\<close>, the kernel state, and one more event in the trace.
\<close>

definition after :: "int \<Rightarrow> 'k \<Rightarrow> event \<Rightarrow> 'k machine \<Rightarrow> 'k machine" where
  "after e k ev s = s\<lparr>errno := e, kern := k, trace := trace s @ [ev]\<rparr>"

definition logged :: "event list \<Rightarrow> 'k machine \<Rightarrow> 'k machine" where
  "logged evs s = s\<lparr>trace := trace s @ evs\<rparr>"

lemma after_simps [simp]:
  "errno (after e k ev s) = e" "kern (after e k ev s) = k"
  "trace (after e k ev s) = trace s @ [ev]" "handlers (after e k ev s) = handlers s"
  "statics (after e k ev s) = statics s"
  by (simp_all add: after_def)

lemma logged_simps [simp]:
  "errno (logged evs s) = errno s" "kern (logged evs s) = kern s"
  "trace (logged evs s) = trace s @ evs" "handlers (logged evs s) = handlers s"
  "statics (logged evs s) = statics s"
  "logged [] s = s" "logged evs' (logged evs s) = logged (evs @ evs') s"
  by (simp_all add: logged_def)

definition emit :: "event \<Rightarrow> ('k, unit) prog" where
  "emit ev s = (Val (), logged [ev] s)"

abbreviation printf :: "string \<Rightarrow> arg list \<Rightarrow> ('k, unit) prog" where
  "printf fmt args \<equiv> emit (Printed fmt args)"

text \<open>
  A call returns the kernel's value, or \<open>fail\<close> with \<^verbatim>\<open>errno\<close> set; \<open>enc\<close> is the
  value as the trace records it.
\<close>

definition sys_call ::
    "sysname \<Rightarrow> arg list \<Rightarrow> ('a \<Rightarrow> int) \<Rightarrow> 'a \<Rightarrow> ('k \<Rightarrow> (int + 'a) \<times> 'k) \<Rightarrow> ('k, 'a) prog" where
  "sys_call nm args enc fail f s =
     (case f (kern s) of
        (Inl e, k) \<Rightarrow> (Val fail, after e k (Called nm args (enc fail)) s)
      | (Inr v, k) \<Rightarrow> (Val v, after (errno s) k (Called nm args (enc v)) s))"

abbreviation sys_int :: "sysname \<Rightarrow> arg list \<Rightarrow> ('k \<Rightarrow> (int + int) \<times> 'k) \<Rightarrow> ('k, int) prog" where
  "sys_int nm args f \<equiv> sys_call nm args (\<lambda>v. v) (-1) f"

definition MAP_FAILED :: u64 where
  "MAP_FAILED = -1"

abbreviation sys_ptr :: "sysname \<Rightarrow> arg list \<Rightarrow> ('k \<Rightarrow> (int + u64) \<times> 'k) \<Rightarrow> ('k, u64) prog" where
  "sys_ptr nm args f \<equiv> sys_call nm args uint MAP_FAILED f"

lemma sys_call_never_halts: "\<exists>v t. sys_call nm args enc fail f s = (Val v, t)"
  by (auto simp: sys_call_def split: prod.splits sum.splits)

text \<open>Running a call whose answer is known, and one whose answer is not used.\<close>

lemma exec_sys_call_Inr [run_simps]:
  "f (kern s) = (Inr v, k) \<Longrightarrow>
   exec (sys_call nm args enc fail f) g s = g v (after (errno s) k (Called nm args (enc v)) s)"
  by (simp add: exec_def sys_call_def)

lemma exec_sys_call_Inl [run_simps]:
  "f (kern s) = (Inl e, k) \<Longrightarrow>
   exec (sys_call nm args enc fail f) g s = g fail (after e k (Called nm args (enc fail)) s)"
  by (simp add: exec_def sys_call_def)

lemma exec_sys_call_ignored [run_simps]: "fst (exec (sys_call nm args enc fail f) (\<lambda>_. ret r) s) = Val r"
  by (auto simp: exec_def sys_call_def ret_def split: prod.splits sum.splits)

section \<open>Weakest preconditions\<close>

text \<open>
  \<open>wp m Q s\<close>: running \<open>m\<close> from \<open>s\<close> ends in an outcome and a state that satisfy \<open>Q\<close>.
  The rules in \<open>wp_rules\<close> decompose a program; a system call is taken by \<open>wp_sys_call\<close>,
  which covers every answer the kernel can give, so what they prove holds for every kernel.
\<close>

definition wp :: "('k, 'a) prog \<Rightarrow> ('a run \<Rightarrow> 'k machine \<Rightarrow> bool) \<Rightarrow> 'k machine \<Rightarrow> bool" where
  "wp m Q s = (case m s of (r, t) \<Rightarrow> Q r t)"

named_theorems wp_rules \<open>introduction rules for \<open>wp\<close>\<close>

lemma wpI: "(\<And>r t. m s = (r, t) \<Longrightarrow> Q r t) \<Longrightarrow> wp m Q s"
  by (simp add: wp_def split: prod.splits)

lemma wpD: "wp m Q s \<Longrightarrow> m s = (r, t) \<Longrightarrow> Q r t"
  by (simp add: wp_def)

lemma wp_conj: "wp m P s \<Longrightarrow> wp m Q s \<Longrightarrow> wp m (\<lambda>r t. P r t \<and> Q r t) s"
  by (auto simp: wp_def split: prod.splits)

lemma wp_mono: "wp m P s \<Longrightarrow> (\<And>r t. P r t \<Longrightarrow> Q r t) \<Longrightarrow> wp m Q s"
  by (auto simp: wp_def)

lemma wp_ret [wp_rules]: "Q (Val a) s \<Longrightarrow> wp (ret a) Q s"
  by (simp add: wp_def ret_def)

lemma wp_stop [wp_rules]: "Q (Halt h) s \<Longrightarrow> wp (stop h) Q s"
  by (simp add: wp_def stop_def)

lemma wp_exec [wp_rules]:
  "wp m (\<lambda>r t. case r of Val a \<Rightarrow> wp (f a) Q t | Halt h \<Rightarrow> Q (Halt h) t) s \<Longrightarrow> wp (exec m f) Q s"
  by (auto simp: wp_def exec_def split: prod.splits run.splits)

lemma wp_emit [wp_rules]: "Q (Val ()) (logged [ev] s) \<Longrightarrow> wp (emit ev) Q s"
  by (simp add: wp_def emit_def)

lemma wp_get_errno [wp_rules]: "Q (Val (errno s)) s \<Longrightarrow> wp get_errno Q s"
  by (simp add: wp_def get_errno_def)

lemma wp_set_errno [wp_rules]: "Q (Val ()) (s\<lparr>errno := e\<rparr>) \<Longrightarrow> wp (set_errno e) Q s"
  by (simp add: wp_def set_errno_def)

lemma wp_get_static [wp_rules]: "Q (Val (statics s x)) s \<Longrightarrow> wp (get_static x) Q s"
  by (simp add: wp_def get_static_def)

lemma wp_set_static [wp_rules]: "Q (Val ()) (s\<lparr>statics := (statics s)(x := v)\<rparr>) \<Longrightarrow> wp (set_static x v) Q s"
  by (simp add: wp_def set_static_def)

lemma wp_sys_call [wp_rules]:
  assumes "\<And>r e k. Q (Val r) (after e k (Called nm args (enc r)) s)"
  shows "wp (sys_call nm args enc fail f) Q s"
  using assms by (auto simp: wp_def sys_call_def split: prod.splits sum.splits)

lemma wp_sys_call_Inr:
  "f (kern s) = (Inr v, k) \<Longrightarrow> Q (Val v) (after (errno s) k (Called nm args (enc v)) s)
   \<Longrightarrow> wp (sys_call nm args enc fail f) Q s"
  by (simp add: wp_def sys_call_def)

lemma wp_sys_call_Inl:
  "fst (f (kern s)) = Inl e \<Longrightarrow> (\<And>t. errno t = e \<Longrightarrow> Q (Val fail) t) \<Longrightarrow> wp (sys_call nm args enc fail f) Q s"
  by (auto simp: wp_def sys_call_def split: prod.splits)

lemma wp_if [wp_rules]: "(b \<Longrightarrow> wp m Q s) \<Longrightarrow> (\<not> b \<Longrightarrow> wp n Q s) \<Longrightarrow> wp (if b then m else n) Q s"
  by simp

lemma wp_case_option [wp_rules]:
  "(x = None \<Longrightarrow> wp m Q s) \<Longrightarrow> (\<And>a. x = Some a \<Longrightarrow> wp (f a) Q s)
   \<Longrightarrow> wp (case x of None \<Rightarrow> m | Some a \<Rightarrow> f a) Q s"
  by (cases x) auto

lemma wp_case_prod [wp_rules]:
  "(\<And>a b. x = (a, b) \<Longrightarrow> wp (f a b) Q s) \<Longrightarrow> wp (case x of (a, b) \<Rightarrow> f a b) Q s"
  by (cases x) auto

lemma wp_Let [wp_rules]: "(\<And>a. a = x \<Longrightarrow> wp (f a) Q s) \<Longrightarrow> wp (let a = x in f a) Q s"
  by simp

lemma wp_tp_assert [wp_rules]:
  "(test \<Longrightarrow> wp k Q s) \<Longrightarrow> (\<not> test \<Longrightarrow> Q (Val msg) s) \<Longrightarrow> wp (tp_assert test msg k) Q s"
  by (simp add: tp_assert_def wp_def ret_def)

lemma run_case_Val [wp_rules]: "P a \<Longrightarrow> (case Val a of Val a \<Rightarrow> P a | Halt h \<Rightarrow> R h)"
  by simp

lemma run_case_Halt [wp_rules]: "R h \<Longrightarrow> (case Halt h of Val a \<Rightarrow> P a | Halt h \<Rightarrow> R h)"
  by simp

section \<open>The virtual-memory calls of the kernel\<close>

text \<open>
  Each call maps its arguments and the kernel state to an error number or a value. A load
  or store that faults yields the signal number.
\<close>

record 'k vm_os =
  os_pagesize :: int
  os_mmap :: "u64 \<Rightarrow> u64 \<Rightarrow> u32 \<Rightarrow> u32 \<Rightarrow> int \<Rightarrow> u64 \<Rightarrow> 'k \<Rightarrow> (int + u64) \<times> 'k"
  os_munmap :: "u64 \<Rightarrow> u64 \<Rightarrow> 'k \<Rightarrow> (int + int) \<times> 'k"
  os_mremap :: "u64 \<Rightarrow> u64 \<Rightarrow> u64 \<Rightarrow> u32 \<Rightarrow> u64 \<Rightarrow> 'k \<Rightarrow> (int + u64) \<times> 'k"
  os_sigaction :: "int \<Rightarrow> 'k \<Rightarrow> (int + int) \<times> 'k"
  os_load :: "u64 \<Rightarrow> 'k \<Rightarrow> (int + byte) \<times> 'k"
  os_store :: "u64 \<Rightarrow> byte \<Rightarrow> 'k \<Rightarrow> (int + unit) \<times> 'k"

definition PROT_NONE :: u32 where "PROT_NONE = 0"
definition PROT_READ :: u32 where "PROT_READ = 1"
definition PROT_WRITE :: u32 where "PROT_WRITE = 2"
definition PROT_EXEC :: u32 where "PROT_EXEC = 4"

definition MAP_SHARED :: u32 where "MAP_SHARED = 1"
definition MAP_PRIVATE :: u32 where "MAP_PRIVATE = 2"
definition MAP_FIXED :: u32 where "MAP_FIXED = 0x10"
definition MAP_ANONYMOUS :: u32 where "MAP_ANONYMOUS = 0x20"

definition MREMAP_MAYMOVE :: u32 where "MREMAP_MAYMOVE = 1"
definition MREMAP_FIXED :: u32 where "MREMAP_FIXED = 2"

definition EPERM :: int where "EPERM = 1"
definition EIO :: int where "EIO = 5"
definition ENOMEM :: int where "ENOMEM = 12"
definition EACCES :: int where "EACCES = 13"
definition EFAULT :: int where "EFAULT = 14"
definition EINVAL :: int where "EINVAL = 22"

definition SIGBUS :: int where "SIGBUS = 7"
definition SIGSEGV :: int where "SIGSEGV = 11"

definition mmap :: "('k, 'z) vm_os_scheme \<Rightarrow> u64 \<Rightarrow> u64 \<Rightarrow> u32 \<Rightarrow> u32 \<Rightarrow> int \<Rightarrow> u64 \<Rightarrow> ('k, u64) prog" where
  "mmap K addr len prot flags fd off =
     sys_ptr Mmap [AInt (uint addr), AInt (uint len), AInt (uint prot), AInt (uint flags), AInt fd, AInt (uint off)]
       (os_mmap K addr len prot flags fd off)"

definition munmap :: "('k, 'z) vm_os_scheme \<Rightarrow> u64 \<Rightarrow> u64 \<Rightarrow> ('k, int) prog" where
  "munmap K addr len = sys_int Munmap [AInt (uint addr), AInt (uint len)] (os_munmap K addr len)"

definition mremap :: "('k, 'z) vm_os_scheme \<Rightarrow> u64 \<Rightarrow> u64 \<Rightarrow> u64 \<Rightarrow> u32 \<Rightarrow> u64 \<Rightarrow> ('k, u64) prog" where
  "mremap K addr old_size new_size flags new_addr =
     sys_ptr Mremap [AInt (uint addr), AInt (uint old_size), AInt (uint new_size), AInt (uint flags), AInt (uint new_addr)]
       (os_mremap K addr old_size new_size flags new_addr)"

text \<open>Delivery of a signal: the installed handler exits the process, the default kills it.\<close>

definition raise_signal :: "int \<Rightarrow> ('k, 'a) prog" where
  "raise_signal sig s =
     (case handlers s sig of None \<Rightarrow> stop (Killed sig) s | Some status \<Rightarrow> stop (Exited status) s)"

definition load :: "('k, 'z) vm_os_scheme \<Rightarrow> u64 \<Rightarrow> ('k, byte) prog" where
  "load K a s =
     (case os_load K a (kern s) of
        (Inl sig, k) \<Rightarrow> raise_signal sig (s\<lparr>kern := k\<rparr>)
      | (Inr b, k) \<Rightarrow> (Val b, s\<lparr>kern := k\<rparr>))"

definition store :: "('k, 'z) vm_os_scheme \<Rightarrow> u64 \<Rightarrow> byte \<Rightarrow> ('k, unit) prog" where
  "store K a b s =
     (case os_store K a b (kern s) of
        (Inl sig, k) \<Rightarrow> raise_signal sig (s\<lparr>kern := k\<rparr>)
      | (Inr _, k) \<Rightarrow> (Val (), s\<lparr>kern := k\<rparr>))"

text \<open>\<^verbatim>\<open>memset(addr, ch, n)\<close>: ascending stores.\<close>

fun memset :: "('k, 'z) vm_os_scheme \<Rightarrow> u64 \<Rightarrow> byte \<Rightarrow> nat \<Rightarrow> ('k, unit) prog" where
  "memset K a ch 0 = ret ()"
| "memset K a ch (Suc n) = exec (store K a ch) (\<lambda>_. memset K (a + 1) ch n)"

definition sigaction_exit :: "('k, 'z) vm_os_scheme \<Rightarrow> int \<Rightarrow> int \<Rightarrow> ('k, int) prog" where
  "sigaction_exit K signum status =
     exec (sys_int Sigaction [AInt signum] (os_sigaction K signum)) (\<lambda>r s.
       (Val r, if r = 0 then s\<lparr>handlers := (handlers s)(signum := Some status)\<rparr> else s))"

end
