(* ===== verification/Libc.thy ===== *)
theory Libc
  imports Machine
begin

text \<open>
  The parts of the C library the programs' own argument handling rests on: the number
  parser behind \<^verbatim>\<open>strtoll\<close>, \<^verbatim>\<open>strtoul\<close> and \<^verbatim>\<open>atoi\<close>, and GNU
  \<^verbatim>\<open>getopt\<close> with its permutation of the argument vector. Printing functions for
  decimal and hexadecimal numerals are given so that parsing can be stated as a round trip.
\<close>

section \<open>Digits\<close>

definition char_code :: "char \<Rightarrow> nat" where
  "char_code c = of_char c"

definition digit_val :: "char \<Rightarrow> nat option" where
  "digit_val c =
     (let n = char_code c in
      if 48 \<le> n \<and> n \<le> 57 then Some (n - 48)
      else if 97 \<le> n \<and> n \<le> 122 then Some (n - 87)
      else if 65 \<le> n \<and> n \<le> 90 then Some (n - 55)
      else None)"

definition digit_char :: "nat \<Rightarrow> char" where
  "digit_char d = char_of (if d < 10 then d + 48 else d + 87)"

lemma code_digit_char: "d < 36 \<Longrightarrow> char_code (digit_char d) = (if d < 10 then d + 48 else d + 87)"
  by (simp add: char_code_def digit_char_def)

lemma digit_val_digit_char [simp]: "d < 36 \<Longrightarrow> digit_val (digit_char d) = Some d"
  by (simp add: digit_val_def code_digit_char)

text \<open>\<open>scan b s acc\<close>: value and number of the digits of base \<open>b\<close> that start \<open>s\<close>.\<close>

fun scan :: "nat \<Rightarrow> string \<Rightarrow> nat \<Rightarrow> nat \<times> nat" where
  "scan b [] acc = (acc, 0)"
| "scan b (c # cs) acc =
     (case digit_val c of
        Some d \<Rightarrow> if d < b then (let (v, n) = scan b cs (acc * b + d) in (v, Suc n)) else (acc, 0)
      | None \<Rightarrow> (acc, 0))"

text \<open>Printing in base \<open>b\<close>, most significant digit first.\<close>

fun show_base :: "nat \<Rightarrow> nat \<Rightarrow> string" where
  "show_base b n = (if b \<le> 1 \<or> n < b then [digit_char n] else show_base b (n div b) @ [digit_char (n mod b)])"

declare show_base.simps [simp del]

definition stops :: "nat \<Rightarrow> string \<Rightarrow> bool" where
  "stops b s \<longleftrightarrow> (case s of [] \<Rightarrow> True | c # _ \<Rightarrow> (case digit_val c of None \<Rightarrow> True | Some d \<Rightarrow> b \<le> d))"

lemma scan_stops: "stops b s \<Longrightarrow> scan b s acc = (acc, 0)"
  by (cases s) (auto simp: stops_def split: option.splits)

lemma scan_append:
  assumes "\<forall>c \<in> set ds. \<exists>d < b. digit_val c = Some d"
  shows "scan b (ds @ s) acc = (let (v, n) = scan b s (fst (scan b ds acc)) in (v, length ds + n))"
  using assms
proof (induction ds arbitrary: acc)
  case (Cons c ds)
  then obtain d where "d < b" "digit_val c = Some d" by auto
  with Cons show ?case by (auto simp: Let_def split: prod.splits)
qed simp

lemma show_base_digits:
  assumes "2 \<le> b" and "b \<le> 36"
  shows "\<forall>c \<in> set (show_base b n). \<exists>d < b. digit_val c = Some d"
  using assms
proof (induction b n rule: show_base.induct)
  case (1 b n)
  have digit: "\<exists>d < b. digit_val (digit_char k) = Some d" if "k < b" for k
    using that 1(3) by simp
  show ?case
  proof (cases "n < b")
    case True
    then show ?thesis using digit by (subst show_base.simps) simp
  next
    case False
    with 1 have "\<forall>c \<in> set (show_base b (n div b)). \<exists>d < b. digit_val c = Some d" by simp
    moreover have "n mod b < b" using 1(2) by simp
    ultimately show ?thesis using False digit 1(2) by (subst show_base.simps) auto
  qed
qed

lemma show_base_nonempty [simp]: "show_base b n \<noteq> []"
  by (subst show_base.simps) simp

lemma scan_show_base:
  assumes "2 \<le> b" and "b \<le> 36"
  shows "scan b (show_base b n) 0 = (n, length (show_base b n))"
  using assms
proof (induction b n rule: show_base.induct)
  case (1 b n)
  show ?case
  proof (cases "n < b")
    case True
    with 1 show ?thesis by (simp add: show_base.simps [of b n])
  next
    case False
    with 1 have IH: "scan b (show_base b (n div b)) 0 = (n div b, length (show_base b (n div b)))"
      by simp
    have "n mod b < b" using 1(2) by simp
    then have "n mod b < 36" using 1(3) by simp
    have "scan b (show_base b (n div b) @ [digit_char (n mod b)]) 0 = (n, Suc (length (show_base b (n div b))))"
      using 1(2,3) \<open>n mod b < b\<close> \<open>n mod b < 36\<close>
      by (subst scan_append) (auto simp: show_base_digits IH)
    with False 1(2) show ?thesis by (simp add: show_base.simps [of b n])
  qed
qed

lemma scan_show_base_stops:
  assumes "2 \<le> b" and "b \<le> 36" and "stops b s"
  shows "scan b (show_base b n @ s) 0 = (n, length (show_base b n))"
  using assms by (simp add: scan_append show_base_digits scan_show_base scan_stops)

section \<open>strtoll, strtoul, atoi\<close>

definition c_isspace :: "char \<Rightarrow> bool" where
  "c_isspace c \<longleftrightarrow> (9 \<le> char_code c \<and> char_code c \<le> 13) \<or> char_code c = 32"

definition strip_sign :: "string \<Rightarrow> bool \<times> string \<times> nat" where
  "strip_sign s =
     (case s of
        [] \<Rightarrow> (False, [], 0)
      | c # cs \<Rightarrow> if c = CHR ''-'' then (True, cs, 1) else if c = CHR ''+'' then (False, cs, 1) else (False, s, 0))"

text \<open>Base 0 selects hexadecimal after \<^verbatim>\<open>0x\<close>, octal after \<^verbatim>\<open>0\<close>, decimal otherwise.\<close>

fun hex_prefix :: "string \<Rightarrow> bool" where
  "hex_prefix (c # x # d # _) =
     (c = CHR ''0'' \<and> (x = CHR ''x'' \<or> x = CHR ''X'') \<and> (case digit_val d of None \<Rightarrow> False | Some v \<Rightarrow> v < 16))"
| "hex_prefix _ = False"

definition detect_base :: "nat \<Rightarrow> string \<Rightarrow> nat \<times> nat" where
  "detect_base base s =
     (if (base = 0 \<or> base = 16) \<and> hex_prefix s then (16, 2)
      else if base = 0 then (case s of c # _ \<Rightarrow> if c = CHR ''0'' then (8, 0) else (10, 0) | [] \<Rightarrow> (10, 0))
      else (base, 0))"

text \<open>Sign, magnitude and number of characters consumed; 0 characters when there is no digit.\<close>

definition strto_raw :: "nat \<Rightarrow> string \<Rightarrow> bool \<times> nat \<times> nat" where
  "strto_raw base s =
     (let t = dropWhile c_isspace s;
          (neg, u, sl) = strip_sign t;
          (b, p) = detect_base base u;
          (v, n) = scan b (drop p u) 0
      in if n = 0 then (False, 0, 0) else (neg, v, length s - length t + sl + p + n))"

text \<open>Value, characters consumed, and whether \<^verbatim>\<open>errno\<close> is set to \<^verbatim>\<open>ERANGE\<close>.\<close>

definition strtoll :: "nat \<Rightarrow> string \<Rightarrow> int \<times> nat \<times> bool" where
  "strtoll base s =
     (let (neg, v, n) = strto_raw base s; x = (if neg then - int v else int v)
      in if x < - (2 ^ 63) then (- (2 ^ 63), n, True)
         else if 2 ^ 63 - 1 < x then (2 ^ 63 - 1, n, True)
         else (x, n, False))"

definition strtoul :: "nat \<Rightarrow> string \<Rightarrow> u64 \<times> nat \<times> bool" where
  "strtoul base s =
     (let (neg, v, n) = strto_raw base s
      in if 2 ^ 64 - 1 < v then (- 1, n, True)
         else (if neg then - of_nat v else of_nat v, n, False))"

definition atoi :: "string \<Rightarrow> int" where
  "atoi s = to_int32 (fst (strtoll 10 s))"

lemma digit_not_space_or_sign:
  assumes "digit_val c = Some d"
  shows "\<not> c_isspace c" and "c \<noteq> CHR ''-''" and "c \<noteq> CHR ''+''"
  using assms by (auto simp: digit_val_def c_isspace_def Let_def char_code_def split: if_splits)

lemma strto_raw_digits:
  assumes "\<exists>d. digit_val c = Some d"
  shows "strto_raw base (c # cs) =
    (let (b, p) = detect_base base (c # cs); (v, n) = scan b (drop p (c # cs)) 0
     in if n = 0 then (False, 0, 0) else (False, v, p + n))"
proof -
  obtain d where "digit_val c = Some d" using assms by auto
  note facts = digit_not_space_or_sign [OF this]
  have "dropWhile c_isspace (c # cs) = c # cs" using facts by simp
  moreover have "strip_sign (c # cs) = (False, c # cs, 0)" using facts by (simp add: strip_sign_def)
  ultimately show ?thesis by (simp add: strto_raw_def Let_def case_prod_beta)
qed

lemma strto_raw_decimal:
  "strto_raw 10 (show_base 10 n) = (False, n, length (show_base 10 n))"
proof -
  obtain c cs where eq: "show_base 10 n = c # cs" by (cases "show_base 10 n") auto
  have "\<exists>d. digit_val c = Some d" using show_base_digits [of 10 n] eq by auto
  then show ?thesis
    using scan_show_base [of 10 n]
    by (simp add: eq strto_raw_digits detect_base_def)
qed

lemma strto_raw_hex:
  "strto_raw 0 (''0x'' @ show_base 16 n) = (False, n, length (show_base 16 n) + 2)"
proof -
  obtain c cs where eq: "show_base 16 n = c # cs" by (cases "show_base 16 n") auto
  have "\<exists>d < 16. digit_val c = Some d" using show_base_digits [of 16 n] eq by auto
  moreover have "digit_val (CHR ''0'') = Some 0" by (simp add: digit_val_def char_code_def)
  ultimately show ?thesis
    using scan_show_base [of 16 n]
    by (auto simp: eq strto_raw_digits detect_base_def)
qed

lemma atoi_show_base: "n < 2 ^ 31 \<Longrightarrow> atoi (show_base 10 n) = int n"
  by (simp add: atoi_def strtoll_def strto_raw_decimal to_int32_id)

section \<open>getopt\<close>

text \<open>
  GNU \<^verbatim>\<open>getopt\<close>, called until it returns \<open>-1\<close>: the values it returns in order (an
  option with its argument, or \<^verbatim>\<open>'?'\<close>), and the permuted argument vector. Elements that
  are options (with their arguments, and a terminating \<^verbatim>\<open>--\<close>) move to the front, the
  others follow; \<^verbatim>\<open>optind\<close> is the index of the first of the others.
\<close>

datatype optres = Opt char "string option" | BadOpt

fun optspec :: "string \<Rightarrow> char \<Rightarrow> bool option" where
  "optspec [] c = None"
| "optspec [x] c = (if x = c then Some False else None)"
| "optspec (x # y # r) c =
     (if y = CHR '':'' then (if x = c then Some True else optspec r c)
      else if x = c then Some False else optspec (y # r) c)"

text \<open>One element \<^verbatim>\<open>-abc\<close>; the flag says that the next element was taken as an argument.\<close>

fun getopt_cluster :: "(char \<Rightarrow> bool option) \<Rightarrow> string \<Rightarrow> string option \<Rightarrow> optres list \<times> bool" where
  "getopt_cluster spec [] nxt = ([], False)"
| "getopt_cluster spec (c # cs) nxt =
     (case spec c of
        None \<Rightarrow> (let (r, b) = getopt_cluster spec cs nxt in (BadOpt # r, b))
      | Some False \<Rightarrow> (let (r, b) = getopt_cluster spec cs nxt in (Opt c None # r, b))
      | Some True \<Rightarrow>
          if cs \<noteq> [] then ([Opt c (Some cs)], False)
          else (case nxt of None \<Rightarrow> ([BadOpt], False) | Some a \<Rightarrow> ([Opt c (Some a)], True)))"

definition is_option :: "string \<Rightarrow> bool" where
  "is_option a \<longleftrightarrow> (case a of c # _ # _ \<Rightarrow> c = CHR ''-'' | _ \<Rightarrow> False)"

function getopt_args ::
    "(char \<Rightarrow> bool option) \<Rightarrow> string list \<Rightarrow> optres list \<times> string list \<times> string list" where
  "getopt_args spec [] = ([], [], [])"
| "getopt_args spec (a # as) =
     (if a = ''--'' then ([], [a], as)
      else if \<not> is_option a then (let (r, os, ns) = getopt_args spec as in (r, os, a # ns))
      else (let (r, took) = getopt_cluster spec (tl a) (case as of [] \<Rightarrow> None | b # _ \<Rightarrow> Some b)
            in if took
               then (let (r', os, ns) = getopt_args spec (tl as) in (r @ r', a # take 1 as @ os, ns))
               else (let (r', os, ns) = getopt_args spec as in (r @ r', a # os, ns))))"
  by pat_completeness auto
termination
  by (relation "measure (\<lambda>(spec, as). length as)") auto

text \<open>\<open>getopt\<close> on a whole \<^verbatim>\<open>argv\<close>: returned values, permuted vector, \<^verbatim>\<open>optind\<close>.\<close>

definition getopt :: "string \<Rightarrow> string list \<Rightarrow> optres list \<times> string list \<times> nat" where
  "getopt optstring argv =
     (case argv of
        [] \<Rightarrow> ([], [], 0)
      | a0 # as \<Rightarrow> (let (r, os, ns) = getopt_args (optspec optstring) as in (r, a0 # os @ ns, Suc (length os))))"

section \<open>getopt\_long\<close>

text \<open>
  \<^verbatim>\<open>getopt_long\<close>: an element \<^verbatim>\<open>--name\<close> or \<^verbatim>\<open>--name=value\<close> selects the long option with that
  name, or the only one it is a prefix of; an option that requires an argument takes the
  value or the next element. The callers use the returned options only.
\<close>

fun starts_with :: "string \<Rightarrow> string \<Rightarrow> bool" where
  "starts_with [] s = True"
| "starts_with (c # cs) [] = False"
| "starts_with (c # cs) (d # ds) = (c = d \<and> starts_with cs ds)"

definition long_match :: "(string \<times> bool \<times> char) list \<Rightarrow> string \<Rightarrow> (bool \<times> char) option" where
  "long_match longs name =
     (case filter (\<lambda>(n, r). n = name) longs of
        (n, r) # _ \<Rightarrow> Some r
      | [] \<Rightarrow> (case filter (\<lambda>(n, r). starts_with name n) longs of [(n, r)] \<Rightarrow> Some r | _ \<Rightarrow> None))"

definition split_value :: "string \<Rightarrow> string \<times> string option" where
  "split_value a =
     (let name = takeWhile (\<lambda>c. c \<noteq> CHR ''='') a; rest = dropWhile (\<lambda>c. c \<noteq> CHR ''='') a
      in (name, if rest = [] then None else Some (tl rest)))"

text \<open>One element \<^verbatim>\<open>--...\<close>; the flag says that the next element was taken as an argument.\<close>

definition getopt_long_element ::
    "(string \<times> bool \<times> char) list \<Rightarrow> string \<Rightarrow> string option \<Rightarrow> optres list \<times> bool" where
  "getopt_long_element longs a nxt =
     (let (name, val) = split_value (drop 2 a) in
      case long_match longs name of
        None \<Rightarrow> ([BadOpt], False)
      | Some (False, c) \<Rightarrow> (if val = None then [Opt c None] else [BadOpt], False)
      | Some (True, c) \<Rightarrow>
          (case val of
             Some v \<Rightarrow> ([Opt c (Some v)], False)
           | None \<Rightarrow> (case nxt of None \<Rightarrow> ([BadOpt], False) | Some v \<Rightarrow> ([Opt c (Some v)], True))))"

function getopt_long_args ::
    "(char \<Rightarrow> bool option) \<Rightarrow> (string \<times> bool \<times> char) list \<Rightarrow> string list \<Rightarrow> optres list" where
  "getopt_long_args spec longs [] = []"
| "getopt_long_args spec longs (a # as) =
     (if a = ''--'' then []
      else if \<not> is_option a then getopt_long_args spec longs as
      else
        let nxt = (case as of [] \<Rightarrow> None | b # _ \<Rightarrow> Some b);
            (r, took) = (if starts_with ''--'' a then getopt_long_element longs a nxt else getopt_cluster spec (tl a) nxt)
        in r @ getopt_long_args spec longs (if took then tl as else as))"
  by pat_completeness auto
termination
  by (relation "measure (\<lambda>(spec, longs, as). length as)") auto

definition getopt_long :: "string \<Rightarrow> (string \<times> bool \<times> char) list \<Rightarrow> string list \<Rightarrow> optres list" where
  "getopt_long optstring longs argv = getopt_long_args (optspec optstring) longs (tl argv)"

end
