(* ===== verification/Files.thy ===== *)
theory Files
  imports Libc
begin

text \<open>
  The file-system calls the programs make, as an extension of the kernel record, and the
  resource accounting on traces: which file descriptors and which mappings a trace leaves
  open. The properties "no descriptor leaks on any path" of the components are stated with
  \<open>open_fds\<close> and hold for every kernel.
\<close>

record 'k file_os = "'k vm_os" +
  os_alloc :: "nat \<Rightarrow> 'k \<Rightarrow> bool \<times> 'k"
  os_mkstemp :: "string \<Rightarrow> 'k \<Rightarrow> (int + int \<times> string) \<times> 'k"
  os_open :: "string \<Rightarrow> int \<Rightarrow> 'k \<Rightarrow> (int + int) \<times> 'k"
  os_close :: "int \<Rightarrow> 'k \<Rightarrow> (int + int) \<times> 'k"
  os_stat :: "string \<Rightarrow> 'k \<Rightarrow> (int + int) \<times> 'k"
  os_fstat :: "int \<Rightarrow> 'k \<Rightarrow> (int + int) \<times> 'k"
  os_lseek :: "int \<Rightarrow> int \<Rightarrow> int \<Rightarrow> 'k \<Rightarrow> (int + int) \<times> 'k"
  os_read :: "int \<Rightarrow> nat \<Rightarrow> 'k \<Rightarrow> (int + byte list) \<times> 'k"
  os_write :: "int \<Rightarrow> byte list \<Rightarrow> 'k \<Rightarrow> (int + int) \<times> 'k"
  os_fsync :: "int \<Rightarrow> 'k \<Rightarrow> (int + int) \<times> 'k"
  os_unlink :: "string \<Rightarrow> 'k \<Rightarrow> (int + int) \<times> 'k"
  os_msync :: "u64 \<Rightarrow> u64 \<Rightarrow> int \<Rightarrow> 'k \<Rightarrow> (int + int) \<times> 'k"

definition O_RDONLY :: int where "O_RDONLY = 0"
definition O_WRONLY :: int where "O_WRONLY = 1"
definition O_RDWR :: int where "O_RDWR = 2"
definition O_CREAT :: int where "O_CREAT = 64"
definition SEEK_SET :: int where "SEEK_SET = 0"

definition c_open :: "('k, 'z) file_os_scheme \<Rightarrow> string \<Rightarrow> int \<Rightarrow> ('k, int) prog" where
  "c_open K path flags = sys_int Open [AStr path, AInt flags] (os_open K path flags)"

definition c_close :: "('k, 'z) file_os_scheme \<Rightarrow> int \<Rightarrow> ('k, int) prog" where
  "c_close K fd = sys_int Close [AInt fd] (os_close K fd)"

text \<open>\<^verbatim>\<open>stat\<close> and \<^verbatim>\<open>fstat\<close> return the status and the field \<^verbatim>\<open>st_size\<close> the callers read.\<close>

definition status_of :: "(int + int) \<times> 'k \<Rightarrow> (int + int \<times> int) \<times> 'k" where
  "status_of r = (case r of (Inl e, k) \<Rightarrow> (Inl e, k) | (Inr sz, k) \<Rightarrow> (Inr (0, sz), k))"

definition c_stat :: "('k, 'z) file_os_scheme \<Rightarrow> string \<Rightarrow> ('k, int \<times> int) prog" where
  "c_stat K path = sys_call Stat [AStr path] fst (-1, 0) (\<lambda>k. status_of (os_stat K path k))"

definition c_fstat :: "('k, 'z) file_os_scheme \<Rightarrow> int \<Rightarrow> ('k, int \<times> int) prog" where
  "c_fstat K fd = sys_call Fstat [AInt fd] fst (-1, 0) (\<lambda>k. status_of (os_fstat K fd k))"

definition c_lseek :: "('k, 'z) file_os_scheme \<Rightarrow> int \<Rightarrow> int \<Rightarrow> int \<Rightarrow> ('k, int) prog" where
  "c_lseek K fd off whence = sys_int Lseek [AInt fd, AInt off, AInt whence] (os_lseek K fd off whence)"

definition c_write :: "('k, 'z) file_os_scheme \<Rightarrow> int \<Rightarrow> byte list \<Rightarrow> ('k, int) prog" where
  "c_write K fd bs = sys_int Write [AInt fd, AInt (int (length bs))] (os_write K fd bs)"

text \<open>\<^verbatim>\<open>read\<close> returns the count and the bytes stored into the buffer.\<close>

definition c_read :: "('k, 'z) file_os_scheme \<Rightarrow> int \<Rightarrow> nat \<Rightarrow> ('k, int \<times> byte list) prog" where
  "c_read K fd n =
     sys_call Read [AInt fd, AInt (int n)] fst (-1, [])
       (\<lambda>k. case os_read K fd n k of
              (Inl e, k') \<Rightarrow> (Inl e, k')
            | (Inr bs, k') \<Rightarrow> (Inr (int (length (take n bs)), take n bs), k'))"

definition c_fsync :: "('k, 'z) file_os_scheme \<Rightarrow> int \<Rightarrow> ('k, int) prog" where
  "c_fsync K fd = sys_int Fsync [AInt fd] (os_fsync K fd)"

definition c_unlink :: "('k, 'z) file_os_scheme \<Rightarrow> string \<Rightarrow> ('k, int) prog" where
  "c_unlink K path = sys_int Unlink [AStr path] (os_unlink K path)"

definition c_msync :: "('k, 'z) file_os_scheme \<Rightarrow> u64 \<Rightarrow> u64 \<Rightarrow> int \<Rightarrow> ('k, int) prog" where
  "c_msync K a len flags = sys_int Msync [AInt (uint a), AInt (uint len), AInt flags] (os_msync K a len flags)"

text \<open>
  \<^verbatim>\<open>mkstemp\<close> returns the descriptor and replaces the template by the chosen path, which
  is what the trace records.
\<close>

definition c_mkstemp :: "('k, 'z) file_os_scheme \<Rightarrow> string \<Rightarrow> ('k, int \<times> string) prog" where
  "c_mkstemp K template s =
     (case os_mkstemp K template (kern s) of
        (Inl e, k) \<Rightarrow> (Val (-1, template), after e k (Called Mkstemp [AStr template] (-1)) s)
      | (Inr (fd, path), k) \<Rightarrow> (Val (fd, path), after (errno s) k (Called Mkstemp [AStr path] fd) s))"

text \<open>
  \<^verbatim>\<open>asprintf\<close> allocates the string; when the allocation fails it returns \<open>-1\<close> and
  leaves the pointer as it was (\<^verbatim>\<open>NULL\<close> in the callers here).
\<close>

definition c_asprintf :: "('k, 'z) file_os_scheme \<Rightarrow> string \<Rightarrow> ('k, string option) prog" where
  "c_asprintf K str s =
     (case os_alloc K (Suc (length str)) (kern s) of
        (True, k) \<Rightarrow> (Val (Some str), after (errno s) k (Called Asprintf [AStr str] (int (length str))) s)
      | (False, k) \<Rightarrow> (Val None, after (errno s) k (Called Asprintf [AStr str] (-1)) s))"

definition c_free :: "('k, unit) prog" where
  "c_free = emit (Called Free [] 0)"

text \<open>\<^verbatim>\<open>malloc\<close> and \<^verbatim>\<open>calloc\<close>: whether the allocation succeeds.\<close>

definition c_malloc :: "('k, 'z) file_os_scheme \<Rightarrow> nat \<Rightarrow> ('k, bool) prog" where
  "c_malloc K n s =
     (case os_alloc K n (kern s) of
        (ok, k) \<Rightarrow> (Val ok, after (errno s) k (Called Malloc [AInt (int n)] (if ok then 1 else 0)) s))"

lemma wp_mkstemp [wp_rules]:
  assumes "\<And>fd path e k. Q (Val (fd, path)) (after e k (Called Mkstemp [AStr path] fd) s)"
  shows "wp (c_mkstemp K template) Q s"
  using assms by (auto simp: wp_def c_mkstemp_def split: prod.splits sum.splits)

lemma wp_asprintf [wp_rules]:
  assumes "\<And>k. Q (Val (Some str)) (after (errno s) k (Called Asprintf [AStr str] (int (length str))) s)"
    and "\<And>k. Q (Val None) (after (errno s) k (Called Asprintf [AStr str] (-1)) s)"
  shows "wp (c_asprintf K str) Q s"
  using assms by (auto simp: wp_def c_asprintf_def split: prod.splits bool.splits)

lemma wp_malloc [wp_rules]:
  assumes "\<And>ok k. Q (Val ok) (after (errno s) k (Called Malloc [AInt (int n)] (if ok then 1 else 0)) s)"
  shows "wp (c_malloc K n) Q s"
  using assms by (auto simp: wp_def c_malloc_def split: prod.splits)

section \<open>Resources a trace leaves behind\<close>

text \<open>Descriptors opened and not closed.\<close>

fun fd_step :: "event \<Rightarrow> int list \<Rightarrow> int list" where
  "fd_step (Called nm args r) fds =
     (if nm = Open \<or> nm = Mkstemp then (if r = -1 then fds else r # fds)
      else if nm = Close then (case args of [AInt fd] \<Rightarrow> remove1 fd fds | _ \<Rightarrow> fds)
      else fds)"
| "fd_step (Printed fmt args) fds = fds"

definition open_fds :: "event list \<Rightarrow> int list" where
  "open_fds tr = fold fd_step tr []"

text \<open>Temporary files created and not removed.\<close>

fun temp_step :: "event \<Rightarrow> string list \<Rightarrow> string list" where
  "temp_step (Called nm args r) ps =
     (if nm = Mkstemp \<and> r \<noteq> -1 then (case args of [AStr p] \<Rightarrow> p # ps | _ \<Rightarrow> ps)
      else if nm = Unlink then (case args of [AStr p] \<Rightarrow> remove1 p ps | _ \<Rightarrow> ps)
      else ps)"
| "temp_step (Printed fmt args) ps = ps"

definition temp_files :: "event list \<Rightarrow> string list" where
  "temp_files tr = fold temp_step tr []"

text \<open>Allocations minus releases.\<close>

fun heap_step :: "event \<Rightarrow> int \<Rightarrow> int" where
  "heap_step (Called nm args r) n =
     (if nm = Asprintf \<and> r \<noteq> -1 \<or> nm = Malloc \<and> r \<noteq> 0 then n + 1
      else if nm = Free then n - 1
      else n)"
| "heap_step (Printed fmt args) n = n"

definition heap_blocks :: "event list \<Rightarrow> int" where
  "heap_blocks tr = fold heap_step tr 0"

lemma open_fds_append: "open_fds (tr @ evs) = fold fd_step evs (open_fds tr)"
  by (simp add: open_fds_def)

lemma temp_files_append: "temp_files (tr @ evs) = fold temp_step evs (temp_files tr)"
  by (simp add: temp_files_def)

lemma heap_blocks_append: "heap_blocks (tr @ evs) = fold heap_step evs (heap_blocks tr)"
  by (simp add: heap_blocks_def)

lemmas resource_simps = open_fds_append temp_files_append heap_blocks_append

lemmas file_call_defs =
  c_open_def c_close_def c_stat_def c_fstat_def c_lseek_def c_write_def c_read_def c_fsync_def
  c_unlink_def c_msync_def c_free_def

section \<open>A kernel for witnesses\<close>

text \<open>A kernel on which every call fails; witnesses override the calls they need.\<close>

definition failing_os :: "int \<Rightarrow> 'k file_os" where
  "failing_os e = \<lparr>
     os_pagesize = 4096,
     os_mmap = (\<lambda>_ _ _ _ _ _ k. (Inl e, k)), os_munmap = (\<lambda>_ _ k. (Inl e, k)),
     os_mremap = (\<lambda>_ _ _ _ _ k. (Inl e, k)), os_sigaction = (\<lambda>_ k. (Inl e, k)),
     os_load = (\<lambda>_ k. (Inl SIGSEGV, k)), os_store = (\<lambda>_ _ k. (Inl SIGSEGV, k)),
     os_alloc = (\<lambda>_ k. (False, k)), os_mkstemp = (\<lambda>_ k. (Inl e, k)),
     os_open = (\<lambda>_ _ k. (Inl e, k)), os_close = (\<lambda>_ k. (Inl e, k)),
     os_stat = (\<lambda>_ k. (Inl e, k)), os_fstat = (\<lambda>_ k. (Inl e, k)),
     os_lseek = (\<lambda>_ _ _ k. (Inl e, k)), os_read = (\<lambda>_ _ k. (Inl e, k)),
     os_write = (\<lambda>_ _ k. (Inl e, k)), os_fsync = (\<lambda>_ k. (Inl e, k)),
     os_unlink = (\<lambda>_ k. (Inl e, k)), os_msync = (\<lambda>_ _ _ k. (Inl e, k))\<rparr>"

definition fresh_process :: "'k \<Rightarrow> 'k machine" where
  "fresh_process k = \<lparr>errno = 0, handlers = (\<lambda>_. None), statics = (\<lambda>_. None), trace = [], kern = k\<rparr>"

end
