(* ===== verification/Framework.thy ===== *)
theory Framework
  imports Files "HOL-Library.Multiset"
begin

text \<open>
  The test framework, \<^verbatim>\<open>test_mck/src/test_mck.c\<close> with \<^verbatim>\<open>test_mck.h\<close>: the test-case
  table, the command line, running one test case, and the helpers every suite uses
  (temporary files, number arguments, page-map lookups). The table itself is generated by
  the build (\<^verbatim>\<open>test_case.list\<close>) and is a parameter, as are the test functions in it.
\<close>

section \<open>Test cases and the command line\<close>

record ('k, 'p) test_case =
  tc_suite :: string
  tc_num :: int
  tc_setup :: "int \<Rightarrow> string list \<Rightarrow> ('k, 'p) prog"
  tc_run :: "int \<Rightarrow> 'p \<Rightarrow> ('k, string option) prog"
  tc_teardown :: "int \<Rightarrow> 'p \<Rightarrow> ('k, unit) prog"

definition EXIT_SUCCESS :: int where "EXIT_SUCCESS = 0"
definition EXIT_FAILURE :: int where "EXIT_FAILURE = 1"
definition INT_MIN :: int where "INT_MIN = - (2 ^ 31)"

definition run_test_case :: "('k, 'p) test_case \<Rightarrow> string list \<Rightarrow> ('k, string option) prog" where
  "run_test_case tc argv =
     exec (tc_setup tc (tc_num tc) argv) (\<lambda>args.
     exec (tc_run tc (tc_num tc) args) (\<lambda>msg.
     exec (tc_teardown tc (tc_num tc) args) (\<lambda>_.
     ret msg)))"

fun find_test_case :: "('k, 'p) test_case list \<Rightarrow> string \<Rightarrow> int \<Rightarrow> ('k, 'p) test_case option" where
  "find_test_case [] ts num = None"
| "find_test_case (tc # tcs) ts num =
     (if tc_num tc = num \<and> tc_suite tc = ts then Some tc else find_test_case tcs ts num)"

fun print_each :: "string \<Rightarrow> string list \<Rightarrow> ('k, unit) prog" where
  "print_each fmt [] = ret ()"
| "print_each fmt (x # xs) = exec (printf fmt [AStr x]) (\<lambda>_. print_each fmt xs)"

definition usage :: "string \<Rightarrow> string list \<Rightarrow> ('k, unit) prog" where
  "usage the_app test_suites =
     exec (printf ''Usage: %s -s test_suite -n test_number [-h] -- [args]'' [AStr the_app]) (\<lambda>_.
     exec (printf ''   -s      test suite name.'' []) (\<lambda>_.
     exec (print_each ''             %s'' test_suites) (\<lambda>_.
     exec (printf ''   -n      test case number.'' []) (\<lambda>_.
     exec (printf ''   -h      show this message.'' []) (\<lambda>_.
     printf ''   args    test case arguments.'' [])))))"

text \<open>The \<^verbatim>\<open>getopt\<close> loop: an exit status to return at once, or the suite and the number.\<close>

fun main_opts :: "optres list \<Rightarrow> string option \<Rightarrow> int \<Rightarrow> int + string option \<times> int" where
  "main_opts [] ts num = Inr (ts, num)"
| "main_opts (Opt c optarg # rs) ts num =
     (if c = CHR ''s'' then main_opts rs optarg num
      else if c = CHR ''n'' then main_opts rs ts (atoi (the optarg))
      else if c = CHR ''h'' then Inl EXIT_SUCCESS
      else Inl EXIT_FAILURE)"
| "main_opts (BadOpt # rs) ts num = Inl EXIT_FAILURE"

text \<open>\<^verbatim>\<open>argv[optind - 1] = argv[0]; argv += (optind - 1)\<close>\<close>

definition test_argv :: "string list \<Rightarrow> nat \<Rightarrow> string list" where
  "test_argv argv optind = drop (optind - 1) (argv[optind - 1 := argv ! 0])"

definition print_info :: "('k, 'p) test_case \<Rightarrow> string list \<Rightarrow> ('k, unit) prog" where
  "print_info tc argv =
     exec (printf ''TEST_SUITE: %s'' [AStr (tc_suite tc)]) (\<lambda>_.
     exec (printf ''TEST_NUMBER: %d'' [AInt (tc_num tc)]) (\<lambda>_.
     exec (printf ''ARGS: '' []) (\<lambda>_.
     exec (print_each ''%s '' (tl argv)) (\<lambda>_.
     printf '''' []))))"

definition report :: "string option \<Rightarrow> ('k, int) prog" where
  "report result =
     (case result of
        Some msg \<Rightarrow> exec (printf ''RESULT: %s'' [AStr msg]) (\<lambda>_. ret EXIT_FAILURE)
      | None \<Rightarrow> exec (printf ''RESULT: ok'' []) (\<lambda>_. ret EXIT_SUCCESS))"

definition main :: "string list \<Rightarrow> ('k, 'p) test_case list \<Rightarrow> string list \<Rightarrow> ('k, int) prog" where
  "main test_suites test_cases argv0 =
     (let the_app = argv0 ! 0; (opts, argv1, optind) = getopt ''s:n:h'' argv0 in
      case main_opts opts None INT_MIN of
        Inl status \<Rightarrow> exec (usage the_app test_suites) (\<lambda>_. ret status)
      | Inr (ts, num) \<Rightarrow>
          let argv = test_argv argv1 optind in
          if ts = None \<or> num = INT_MIN
          then exec (usage the_app test_suites) (\<lambda>_. ret EXIT_FAILURE)
          else (case find_test_case test_cases (the ts) num of
                  None \<Rightarrow> exec (printf ''%s#%d is not found.'' [AStr (the ts), AInt num]) (\<lambda>_. ret EXIT_FAILURE)
                | Some tc \<Rightarrow>
                    exec (print_info tc argv) (\<lambda>_.
                    exec (run_test_case tc argv) report)))"

section \<open>What the command line does\<close>

lemma print_each_eq: "print_each fmt xs s = (Val (), logged (map (\<lambda>x. Printed fmt [AStr x]) xs) s)"
  by (induction xs arbitrary: s) (simp_all add: exec_def emit_def ret_def)

definition usage_events :: "string \<Rightarrow> string list \<Rightarrow> event list" where
  "usage_events app suites =
    [Printed ''Usage: %s -s test_suite -n test_number [-h] -- [args]'' [AStr app],
     Printed ''   -s      test suite name.'' []]
    @ map (\<lambda>x. Printed ''             %s'' [AStr x]) suites
    @ [Printed ''   -n      test case number.'' [], Printed ''   -h      show this message.'' [],
       Printed ''   args    test case arguments.'' []]"

lemma usage_eq: "usage app suites s = (Val (), logged (usage_events app suites) s)"
  by (simp add: usage_def exec_def emit_def print_each_eq usage_events_def)

definition info_events :: "('k, 'p) test_case \<Rightarrow> string list \<Rightarrow> event list" where
  "info_events tc argv =
    [Printed ''TEST_SUITE: %s'' [AStr (tc_suite tc)], Printed ''TEST_NUMBER: %d'' [AInt (tc_num tc)],
     Printed ''ARGS: '' []] @ map (\<lambda>x. Printed ''%s '' [AStr x]) (tl argv) @ [Printed '''' []]"

lemma print_info_eq: "print_info tc argv s = (Val (), logged (info_events tc argv) s)"
  by (simp add: print_info_def exec_def emit_def print_each_eq info_events_def)

lemma report_eq: "report r s = (Val (if r = None then 0 else 1),
    logged [case r of None \<Rightarrow> Printed ''RESULT: ok'' [] | Some m \<Rightarrow> Printed ''RESULT: %s'' [AStr m]] s)"
  by (simp add: report_def exec_def emit_def ret_def EXIT_SUCCESS_def EXIT_FAILURE_def split: option.splits)

lemma report_success: "fst (exec m report s) = Val EXIT_SUCCESS \<longleftrightarrow> (\<exists>t. m s = (Val None, t))"
  by (auto simp: exec_def report_eq EXIT_SUCCESS_def split: prod.splits run.splits)

lemma getopt_s_n:
  "getopt ''s:n:h'' ([app, ''-s'', S, ''-n'', N, ''--''] @ args)
   = ([Opt (CHR ''s'') (Some S), Opt (CHR ''n'') (Some N)],
      [app, ''-s'', S, ''-n'', N, ''--''] @ args, 6)"
  by (simp add: getopt_def is_option_def)

lemma main_selected:
  assumes "n < 2 ^ 31" and "find_test_case cases S (int n) = Some tc"
  shows "main suites cases ([app, ''-s'', S, ''-n'', show_base 10 n, ''--''] @ args) s =
    exec (run_test_case tc (app # args)) report (logged (info_events tc (app # args)) s)"
proof -
  have "int n \<noteq> INT_MIN" by (simp add: INT_MIN_def)
  moreover have "test_argv ([app, ''-s'', S, ''-n'', N, ''--''] @ args) 6 = app # args" for N
    by (simp add: test_argv_def)
  ultimately show ?thesis using assms
    by (simp add: main_def getopt_s_n atoi_show_base Let_def exec_Val [OF print_info_eq] del: append.simps)
qed

text \<open>
  C1. The documented command line \<^verbatim>\<open>-s S -n N -- args\<close>, with \<open>N\<close> the decimal notation of
  a number that fits \<^verbatim>\<open>int\<close>, prints the heading of the registered test case \<open>S#N\<close> and runs
  exactly that case, on the program name and the arguments after \<^verbatim>\<open>--\<close>, then reports it.
\<close>

theorem main_runs_selected:
  assumes "n < 2 ^ 31" and "find_test_case cases S (int n) = Some tc"
  shows "main suites cases ([app, ''-s'', S, ''-n'', show_base 10 n, ''--''] @ args) s =
    exec (run_test_case tc (app # args)) report (logged (info_events tc (app # args)) s)"
  by (rule main_selected [OF assms])

definition demo_case :: "string \<Rightarrow> int \<Rightarrow> string option \<Rightarrow> ('k, unit) test_case" where
  "demo_case ts num msg = \<lparr>tc_suite = ts, tc_num = num, tc_setup = (\<lambda>_ _. ret ()), tc_run = (\<lambda>_ _. ret msg),
     tc_teardown = (\<lambda>_ _. ret ())\<rparr>"

theorem main_runs_selected_witness:
  "(7 :: nat) < 2 ^ 31
   \<and> find_test_case [demo_case ''sample'' 0 None, demo_case ''sample'' 7 (Some ''bad'')] ''sample'' 7
       = Some (demo_case ''sample'' 7 (Some ''bad'') :: (unit, unit) test_case)
   \<and> fst (main [''sample''] [demo_case ''sample'' 0 None, demo_case ''sample'' 7 (Some ''bad'') :: (unit, unit) test_case]
        ([''test_mck'', ''-s'', ''sample'', ''-n'', show_base 10 7, ''--''] @ [''x'']) (fresh_process ())) = Val EXIT_FAILURE"
proof -
  let ?tc = "demo_case ''sample'' 7 (Some ''bad'') :: (unit, unit) test_case"
  let ?cases = "[demo_case ''sample'' 0 None, ?tc]"
  have found: "find_test_case ?cases ''sample'' (int 7) = Some ?tc" by (simp add: demo_case_def)
  have "main [''sample''] ?cases ([''test_mck'', ''-s'', ''sample'', ''-n'', show_base 10 7, ''--''] @ [''x'']) (fresh_process ())
     = exec (run_test_case ?tc [''test_mck'', ''x'']) report (logged (info_events ?tc [''test_mck'', ''x'']) (fresh_process ()))"
    by (rule main_runs_selected [OF _ found]) simp
  then show ?thesis using found
    by (simp add: run_test_case_def demo_case_def exec_def ret_def report_eq EXIT_FAILURE_def)
qed


section \<open>The registry\<close>

text \<open>
  What the command line needs of the table: a search returns an entry with the requested
  key, and fails only when there is none. With distinct keys the answer does not depend on
  the order of the generated list.
\<close>

locale test_registry =
  fixes find :: "'c list \<Rightarrow> string \<Rightarrow> int \<Rightarrow> 'c option"
    and key :: "'c \<Rightarrow> string \<times> int"
  assumes find_hit: "find cs ts n = Some c \<Longrightarrow> c \<in> set cs \<and> key c = (ts, n)"
    and find_miss: "find cs ts n = None \<Longrightarrow> c \<in> set cs \<Longrightarrow> key c \<noteq> (ts, n)"
begin

lemma find_iff:
  assumes "distinct (map key cs)"
  shows "find cs ts n = Some c \<longleftrightarrow> c \<in> set cs \<and> key c = (ts, n)"
proof
  assume rhs: "c \<in> set cs \<and> key c = (ts, n)"
  then obtain c' where c': "find cs ts n = Some c'" using find_miss by (cases "find cs ts n") auto
  with find_hit have "c' \<in> set cs" "key c' = (ts, n)" by auto
  with rhs assms have "c' = c" by (auto simp: distinct_map inj_on_def)
  with c' show "find cs ts n = Some c" by simp
qed (rule find_hit)

lemma find_perm:
  assumes "distinct (map key cs)" and "mset cs' = mset cs"
  shows "find cs' ts n = find cs ts n"
proof -
  have "set cs' = set cs" using assms(2) by (metis set_mset_mset)
  moreover have "distinct (map key cs')"
    using assms by (metis distinct_map mset_eq_imp_distinct_iff set_mset_mset)
  ultimately have "find cs' ts n = Some c \<longleftrightarrow> find cs ts n = Some c" for c
    using assms(1) by (simp add: find_iff)
  then show ?thesis by (metis not_None_eq)
qed

end

definition tc_key :: "('k, 'p) test_case \<Rightarrow> string \<times> int" where
  "tc_key tc = (tc_suite tc, tc_num tc)"

interpretation test_table: test_registry find_test_case tc_key
proof
  show "find_test_case cs ts n = Some c \<Longrightarrow> c \<in> set cs \<and> tc_key c = (ts, n)" for cs ts n c
    by (induction cs) (auto simp: tc_key_def split: if_splits)
  show "find_test_case cs ts n = None \<Longrightarrow> c \<in> set cs \<Longrightarrow> tc_key c \<noteq> (ts, n)" for cs ts n c
    by (induction cs) (auto simp: tc_key_def split: if_splits)
qed

text \<open>
  C3. The order of the generated table is irrelevant: if no two entries share suite and
  number, the program behaves the same for every permutation of the table.
\<close>

theorem main_table_order:
  assumes "distinct (map tc_key cases)" and "mset cases' = mset cases"
  shows "main suites cases' argv = main suites cases argv"
proof -
  have "find_test_case cases' = find_test_case cases"
    by (intro ext) (rule test_table.find_perm [OF assms])
  then show ?thesis unfolding main_def by (elim ssubst) (rule refl)
qed

theorem main_table_order_witness:
  "distinct (map tc_key [demo_case ''a'' 0 None, demo_case ''a'' 1 None :: (unit, unit) test_case])
   \<and> main [] [demo_case ''a'' 1 None, demo_case ''a'' 0 None] [''test_mck'']
     = main [] [demo_case ''a'' 0 None, demo_case ''a'' 1 None :: (unit, unit) test_case] [''test_mck'']"
  using main_table_order [of "[demo_case ''a'' 0 None, demo_case ''a'' 1 None :: (unit, unit) test_case]"
      "[demo_case ''a'' 1 None, demo_case ''a'' 0 None]" "[]" "[''test_mck'']"]
  by (simp add: tc_key_def demo_case_def)

section \<open>Numbers\<close>

definition test_mck_strtoul :: "string option \<Rightarrow> u64 \<Rightarrow> u64" where
  "test_mck_strtoul nptr default_value =
     (case nptr of
        None \<Rightarrow> default_value
      | Some str \<Rightarrow>
          let (v, endptr, erange) = strtoll 0 str; r = (of_int v :: u64) in
          if r = 0 \<and> endptr = 0 then default_value
          else if (r = of_int (- (2 ^ 63)) \<or> r = of_int (2 ^ 63 - 1)) \<and> erange then default_value
          else r)"

text \<open>
  C4. Number arguments: \<^verbatim>\<open>test_mck_strtoul\<close> returns the scanned value modulo \<open>2 ^ 64\<close>,
  and the default exactly when nothing was scanned or the value is outside the range of
  \<^verbatim>\<open>long long\<close> (the conversion is done by \<^verbatim>\<open>strtoll\<close>).
\<close>

theorem test_mck_strtoul_spec:
  "test_mck_strtoul (Some str) d =
    (let (neg, v, n) = strto_raw 0 str; x = (if neg then - int v else int v) in
     if n = 0 \<or> x < - (2 ^ 63) \<or> 2 ^ 63 \<le> x then d else of_int x)"
proof -
  obtain neg v n where raw: "strto_raw 0 str = (neg, v, n)" by (cases "strto_raw 0 str")
  define x where "x = (if neg then - int v else int v)"
  have n0: "v = 0" if "n = 0"
    using raw that by (auto simp: strto_raw_def Let_def split: prod.splits if_splits)
  show ?thesis
  proof (cases "x < - (2 ^ 63) \<or> 2 ^ 63 \<le> x")
    case True
    then have "n \<noteq> 0" using n0 by (cases "n = 0") (auto simp: x_def split: if_splits)
    with True raw show ?thesis
      by (auto simp: test_mck_strtoul_def strtoll_def Let_def x_def [symmetric])
  next
    case False
    moreover have "x = 0" if "n = 0" using n0 [OF that] by (simp add: x_def)
    ultimately show ?thesis using raw
      by (auto simp: test_mck_strtoul_def strtoll_def Let_def x_def [symmetric])
  qed
qed

text \<open>
  Hexadecimal round trip, and its limit: the notation of \<open>n\<close> is read back as \<open>n\<close> when
  \<open>n < 2 ^ 63\<close>; the upper half of the unsigned range gives the default instead.
\<close>

theorem test_mck_strtoul_hex:
  "test_mck_strtoul (Some (''0x'' @ show_base 16 n)) d = (if n < 2 ^ 63 then of_nat n else d)"
  by (auto simp: test_mck_strtoul_def strtoll_def strto_raw_hex Let_def simp del: append_Cons)


section \<open>Temporary files\<close>

definition temp_file_fail :: "('k, 'z) file_os_scheme \<Rightarrow> int \<Rightarrow> string option \<Rightarrow> ('k, string option) prog" where
  "temp_file_fail K fd path =
     exec (if fd \<noteq> -1 then exec (c_close K fd) (\<lambda>_. exec (c_unlink K (the path)) (\<lambda>_. ret ())) else ret ()) (\<lambda>_.
     exec (if path \<noteq> None then c_free else ret ()) (\<lambda>_.
     ret None))"

definition test_mck_create_temp_file :: "('k, 'z) file_os_scheme \<Rightarrow> string \<Rightarrow> u64 \<Rightarrow> ('k, string option) prog" where
  "test_mck_create_temp_file K prefix sz =
     exec (c_asprintf K (prefix @ ''-XXXXXX'')) (\<lambda>path.
     case path of
       None \<Rightarrow> temp_file_fail K (-1) None
     | Some template \<Rightarrow>
         exec (c_mkstemp K template) (\<lambda>(fd, path).
         if fd = -1 then temp_file_fail K fd (Some path) else
         exec (c_lseek K fd (sint (sz - 1)) 0) (\<lambda>off.
         let state = to_int32 off in
         if state = -1 then temp_file_fail K fd (Some path) else
         exec (c_write K fd [0x5A]) (\<lambda>_.
         exec (c_fsync K fd) (\<lambda>_.
         exec (c_close K fd) (\<lambda>_.
         ret (Some path)))))))"

definition test_mck_delete_temp_file :: "('k, 'z) file_os_scheme \<Rightarrow> string option \<Rightarrow> ('k, unit) prog" where
  "test_mck_delete_temp_file K path =
     (case path of
        None \<Rightarrow> ret ()
      | Some p \<Rightarrow> exec (c_unlink K p) (\<lambda>_. c_free))"

lemmas temp_file_defs = test_mck_create_temp_file_def temp_file_fail_def test_mck_delete_temp_file_def


text \<open>What \<^verbatim>\<open>test_mck_create_temp_file\<close> holds when it returns \<open>r\<close>: a path it owns, or nothing.\<close>

definition owned_paths :: "string option run \<Rightarrow> string list" where
  "owned_paths r = (case r of Val (Some p) \<Rightarrow> [p] | _ \<Rightarrow> [])"

lemma create_temp_file_fds:
  "wp (test_mck_create_temp_file K prefix sz) (\<lambda>r t. open_fds (trace t) = open_fds (trace s)) s"
  unfolding temp_file_defs file_call_defs
  apply (intro wp_rules)
  apply (simp_all add: resource_simps)
  done

lemma create_temp_file_paths:
  "wp (test_mck_create_temp_file K prefix sz) (\<lambda>r t. temp_files (trace t) = owned_paths r @ temp_files (trace s)) s"
  unfolding temp_file_defs file_call_defs
  apply (intro wp_rules)
  apply (simp_all add: resource_simps owned_paths_def)
  done

lemma create_temp_file_heap:
  "wp (test_mck_create_temp_file K prefix sz)
     (\<lambda>r t. heap_blocks (trace t) = heap_blocks (trace s) + int (length (owned_paths r))) s"
  unfolding temp_file_defs file_call_defs
  apply (intro wp_rules)
  apply (simp_all add: resource_simps owned_paths_def)
  done

lemma create_temp_file_returns:
  "wp (test_mck_create_temp_file K prefix sz) (\<lambda>r t. \<exists>v. r = Val v) s"
  unfolding temp_file_defs file_call_defs
  apply (intro wp_rules)
  apply (simp_all)
  done

text \<open>
  C6. Creating a temporary file releases everything on every path, whatever the kernel
  answers: no descriptor stays open, and the file and the path string remain exactly when
  the path is returned to the caller.
\<close>

theorem create_temp_file_resources:
  "wp (test_mck_create_temp_file K prefix sz)
     (\<lambda>r t. (\<exists>v. r = Val v) \<and> open_fds (trace t) = open_fds (trace s)
        \<and> temp_files (trace t) = owned_paths r @ temp_files (trace s)
        \<and> heap_blocks (trace t) = heap_blocks (trace s) + int (length (owned_paths r))) s"
  by (intro wp_conj create_temp_file_returns create_temp_file_fds create_temp_file_paths create_temp_file_heap)

lemma delete_temp_file_resources:
  "wp (test_mck_delete_temp_file K path)
     (\<lambda>r t. r = Val () \<and> open_fds (trace t) = open_fds (trace s)
        \<and> temp_files (trace t) = (case path of None \<Rightarrow> temp_files (trace s) | Some p \<Rightarrow> remove1 p (temp_files (trace s)))
        \<and> heap_blocks (trace t) = heap_blocks (trace s) - (if path = None then 0 else 1)) s"
  unfolding temp_file_defs file_call_defs
  apply (intro wp_rules)
  apply (simp_all add: resource_simps)
  done

text \<open>
  C7. \<^verbatim>\<open>test_mck_delete_temp_file\<close> undoes \<^verbatim>\<open>test_mck_create_temp_file\<close>: after the pair, no
  descriptor, no file and no heap block is left that was not there before.
\<close>

theorem delete_undoes_create:
  "wp (exec (test_mck_create_temp_file K prefix sz) (test_mck_delete_temp_file K))
     (\<lambda>r t. r = Val () \<and> open_fds (trace t) = open_fds (trace s) \<and> temp_files (trace t) = temp_files (trace s)
        \<and> heap_blocks (trace t) = heap_blocks (trace s)) s"
proof (rule wpI, goal_cases)
  case (1 r t)
  then show ?case
  proof (cases rule: exec_cases)
    case (val path u)
    note create = wpD [OF create_temp_file_fds val(1)] wpD [OF create_temp_file_paths val(1)]
      wpD [OF create_temp_file_heap val(1)]
    show ?thesis using create wpD [OF delete_temp_file_resources val(2)]
      by (cases path) (auto simp: owned_paths_def)
  next
    case (halt h)
    with wpD [OF create_temp_file_returns halt(1)] show ?thesis by simp
  qed
qed

lemma sint_pred_low32:
  fixes sz :: u64
  assumes "2 ^ 32 dvd uint sz"
  shows "to_int32 (sint (sz - 1)) = -1"
proof -
  obtain q where q: "uint sz = 2 ^ 32 * q" using assms by blast
  have "sint (sz - 1) mod 2 ^ 64 = uint (sz - 1)"
    using uint_sint [of "sz - 1"] by (simp add: take_bit_eq_mod)
  also have "\<dots> = (uint sz - 1) mod 2 ^ 64" using uint_sub_lem uint_word_ariths(2) [of sz 1] by simp
  finally have e: "sint (sz - 1) mod 2 ^ 64 mod 2 ^ 32 = (uint sz - 1) mod 2 ^ 64 mod 2 ^ 32" by (simp only:)
  have d: "(2::int) ^ 32 dvd 2 ^ 64" by (simp add: le_imp_power_dvd)
  have "sint (sz - 1) mod 2 ^ 32 = (uint sz - 1) mod 2 ^ 32" using e unfolding mod_mod_cancel [OF d] .
  also have "uint sz - 1 = (2 ^ 32 - 1) + (q - 1) * 2 ^ 32" unfolding q by (simp add: algebra_simps)
  also have "\<dots> mod 2 ^ 32 = (2 ^ 32 - 1) mod (2 ^ 32 :: int)" by (rule mod_mult_self1)
  also have "\<dots> = 2 ^ 32 - 1" by (rule mod_pos_pos_trivial) simp_all
  finally show ?thesis by (simp only: to_int32_eq_minus1)
qed
lemma temp_file_fail_None: "fst (temp_file_fail K f p u) = Val None"
proof -
  have "wp (temp_file_fail K f p) (\<lambda>r t. r = Val None) u"
    unfolding temp_file_fail_def file_call_defs by (intro wp_rules) simp_all
  then show ?thesis by (simp add: wp_def split: prod.splits)
qed

text \<open>
  C8. The result of \<^verbatim>\<open>lseek\<close> is kept in an \<^verbatim>\<open>int\<close>: on every kernel that positions the file
  as asked, a size that is a multiple of 4 GiB is taken for a failed seek and no file
  is returned.
\<close>

theorem create_temp_file_4GiB:
  assumes "os_alloc K (Suc (length (prefix @ ''-XXXXXX''))) (kern s) = (True, k1)"
    and "os_mkstemp K (prefix @ ''-XXXXXX'') k1 = (Inr (fd, path), k2)"
    and "os_lseek K fd (sint (sz - 1)) 0 k2 = (Inr (sint (sz - 1)), k3)"
    and "2 ^ 32 dvd uint sz"
  shows "fst (test_mck_create_temp_file K prefix sz s) = Val None"
  using assms(1-3) sint_pred_low32 [OF assms(4)]
  by (simp add: test_mck_create_temp_file_def c_asprintf_def c_mkstemp_def c_lseek_def sys_call_def exec_def
      temp_file_fail_None Let_def)

definition seek_os :: "unit file_os" where
  "seek_os = (failing_os EIO)\<lparr>os_alloc := (\<lambda>_ k. (True, k)), os_mkstemp := (\<lambda>_ k. (Inr (3, ''tmp-000000''), k)),
     os_lseek := (\<lambda>_ off _ k. (Inr off, k))\<rparr>"

theorem create_temp_file_4GiB_witness:
  "(2::int) ^ 32 dvd uint (0x100000000 :: u64)
   \<and> os_lseek seek_os 3 (sint (0x100000000 - 1 :: u64)) 0 () = (Inr (sint (0x100000000 - 1 :: u64)), ())
   \<and> fst (test_mck_create_temp_file seek_os ''tmp'' 0x100000000 (fresh_process ())) = Val None"
  using create_temp_file_4GiB [of seek_os "''tmp''" "fresh_process ()" "()" 3 "''tmp-000000''" "()" "0x100000000" "()"]
  by (simp add: seek_os_def)

section \<open>Page-map lookups\<close>

definition PM_ENTRY_BYTES :: nat where "PM_ENTRY_BYTES = 8"
definition PM_STATUS_BITS :: nat where "PM_STATUS_BITS = 3"
definition PM_STATUS_OFFSET :: nat where "PM_STATUS_OFFSET = 64 - PM_STATUS_BITS"
definition PM_STATUS_MASK :: u64 where "PM_STATUS_MASK = push_bit PM_STATUS_OFFSET (push_bit PM_STATUS_BITS 1 - 1)"
definition PM_STATUS :: "u64 \<Rightarrow> u64" where "PM_STATUS nr = push_bit PM_STATUS_OFFSET nr AND PM_STATUS_MASK"
definition PM_PSHIFT_BITS :: nat where "PM_PSHIFT_BITS = 6"
definition PM_PSHIFT_OFFSET :: nat where "PM_PSHIFT_OFFSET = PM_STATUS_OFFSET - PM_PSHIFT_BITS"
definition PM_PSHIFT_MASK :: u64 where "PM_PSHIFT_MASK = push_bit PM_PSHIFT_OFFSET (push_bit PM_PSHIFT_BITS 1 - 1)"
definition PM_PSHIFT :: "u64 \<Rightarrow> u64" where "PM_PSHIFT x = push_bit PM_PSHIFT_OFFSET x AND PM_PSHIFT_MASK"
definition PM_PFRAME_MASK :: u64 where "PM_PFRAME_MASK = push_bit PM_PSHIFT_OFFSET 1 - 1"
definition PM_PFRAME :: "u64 \<Rightarrow> u64" where "PM_PFRAME x = x AND PM_PFRAME_MASK"
definition PM_PRESENT :: u64 where "PM_PRESENT = PM_STATUS 4"
definition PM_SWAP :: u64 where "PM_SWAP = PM_STATUS 2"

record memory_info =
  phys :: u64
  pgsize :: u64
  present :: u64
  swap :: u64

text \<open>The assignments to \<^verbatim>\<open>*info\<close> from one page-map entry.\<close>

definition decode_pagemap :: "page_config \<Rightarrow> u64 \<Rightarrow> u64 \<Rightarrow> memory_info" where
  "decode_pagemap cfg virt pagemap = \<lparr>
     phys = push_bit (PAGE_SHIFT cfg) (pagemap AND PM_PFRAME_MASK) OR (virt AND PAGE_OFFSET cfg),
     pgsize = push_bit (unat (drop_bit PM_PSHIFT_OFFSET (pagemap AND PM_PSHIFT_MASK))) 1,
     present = (if pagemap AND PM_PRESENT \<noteq> 0 then 1 else 0),
     swap = (if pagemap AND PM_SWAP \<noteq> 0 then 1 else 0)\<rparr>"

text \<open>
  \<^verbatim>\<open>__get_memory_info\<close>; \<open>info\<close> is the structure before the call, \<open>None\<close> for a null pointer,
  and the result is the status with the structure after it. \<^verbatim>\<open>pagemap\<close> is 0 before
  \<^verbatim>\<open>read\<close> stores its bytes at the start of the little-endian variable.
\<close>

definition get_memory_info_path ::
    "('k, 'z) file_os_scheme \<Rightarrow> page_config \<Rightarrow> string \<Rightarrow> u64 \<Rightarrow> memory_info option \<Rightarrow> ('k, int \<times> memory_info option) prog" where
  "get_memory_info_path K cfg path virt info =
     (if info = None then ret (- EINVAL, None)
      else
        let zero = \<lparr>phys = 0, pgsize = 0, present = 0, swap = 0\<rparr> in
        exec (c_open K path O_RDONLY) (\<lambda>fd.
        if fd = -1 then
          exec get_errno (\<lambda>e.
          exec (printf ''%s open() failed. %d'' [AStr path, AInt e]) (\<lambda>_.
          ret (- EIO, Some zero)))
        else
          let offset = (virt AND PAGE_MASK cfg) div PAGE_SIZE cfg * of_nat PM_ENTRY_BYTES in
          exec (exec (c_lseek K fd (sint offset) SEEK_SET) (\<lambda>pos.
            if pos = -1 then
              exec get_errno (\<lambda>e.
              exec (printf ''%s lseek() failed. %d'' [AStr path, AInt e]) (\<lambda>_.
              ret (- EIO, Some zero)))
            else
              exec (c_read K fd PM_ENTRY_BYTES) (\<lambda>(n, bs).
              if n = -1 then
                exec get_errno (\<lambda>e.
                exec (printf ''%s offset:%lx read() failed. %d'' [AStr path, AInt (uint offset), AInt e]) (\<lambda>_.
                ret (- EIO, Some zero)))
              else ret (0, Some (decode_pagemap cfg virt (le_word bs)))))) (\<lambda>r.
          exec (c_close K fd) (\<lambda>_.
          ret r))))"

definition get_memory_info_self where
  "get_memory_info_self K cfg virt info = get_memory_info_path K cfg ''/proc/self/pagemap'' virt info"

definition show_int :: "int \<Rightarrow> string" where
  "show_int i = (if i < 0 then ''-'' @ show_base 10 (nat (- i)) else show_base 10 (nat i))"

text \<open>\<^verbatim>\<open>snprintf(path, sizeof(path), ...)\<close> keeps at most 63 characters.\<close>

definition get_memory_info where
  "get_memory_info K cfg pid virt info =
     get_memory_info_path K cfg (take 63 (''/proc/'' @ show_int pid @ ''/pagemap'')) virt info"

text \<open>\<^verbatim>\<open>gettid\<close> narrows the result of the raw system call, a parameter, to \<^verbatim>\<open>pid_t\<close>.\<close>

definition gettid :: "('k \<Rightarrow> (int + int) \<times> 'k) \<Rightarrow> ('k, int) prog" where
  "gettid sys_gettid = exec (sys_int (Lib ''gettid'') [] sys_gettid) (\<lambda>r. ret (to_int32 r))"

text \<open>
  C9. A page-map lookup closes what it opens on every path of every kernel, returns one of
  its three statuses, fills the structure exactly when it returns 0 and leaves it zeroed
  when it returns \<^verbatim>\<open>-EIO\<close>.
\<close>

theorem get_memory_info_total:
  "wp (get_memory_info_path K cfg path virt info)
     (\<lambda>r t. open_fds (trace t) = open_fds (trace s) \<and>
        (r = Val (- EINVAL, None) \<and> info = None
         \<or> r = Val (- EIO, Some \<lparr>phys = 0, pgsize = 0, present = 0, swap = 0\<rparr>) \<and> info \<noteq> None
         \<or> (\<exists>pagemap. r = Val (0, Some (decode_pagemap cfg virt pagemap)) \<and> info \<noteq> None))) s"
  unfolding get_memory_info_path_def file_call_defs
  apply (intro wp_rules)
  apply (auto simp: resource_simps)
  done

lemma PM_masks:
  "PM_PFRAME_MASK = mask 55" "PM_PSHIFT_MASK = push_bit 55 (mask 6)" "PM_STATUS_MASK = push_bit 61 (mask 3)"
  "PM_PRESENT = push_bit 63 1" "PM_SWAP = push_bit 62 1" "PM_PSHIFT_OFFSET = 55" "PM_STATUS_OFFSET = 61"
  by (simp_all add: PM_PFRAME_MASK_def PM_PSHIFT_MASK_def PM_STATUS_MASK_def PM_PRESENT_def PM_SWAP_def PM_STATUS_def
      PM_PSHIFT_OFFSET_def PM_STATUS_OFFSET_def PM_STATUS_BITS_def PM_PSHIFT_BITS_def mask_eq_exp_minus_1)

lemma PM_flag_bits: "bit PM_PRESENT n \<longleftrightarrow> n = 63" "bit PM_SWAP n \<longleftrightarrow> n = 62"
  unfolding PM_masks bit_push_bit_iff by (auto simp: bit_1_iff)

text \<open>The fields of an entry are independent of each other.\<close>

lemma pm_entry_fields:
  fixes pfn sh st :: u64
  defines "entry \<equiv> PM_PFRAME pfn OR PM_PSHIFT sh OR PM_STATUS st"
  shows "entry AND PM_PFRAME_MASK = PM_PFRAME pfn"
    and "drop_bit PM_PSHIFT_OFFSET (entry AND PM_PSHIFT_MASK) = sh AND mask 6"
    and "entry AND PM_PRESENT = (if bit st 2 then PM_PRESENT else 0)"
    and "entry AND PM_SWAP = (if bit st 1 then PM_SWAP else 0)"
  unfolding entry_def PM_PFRAME_def PM_PSHIFT_def PM_STATUS_def PM_masks(1,2,3,6,7)
  by (rule bit_word_eqI; auto simp: bit_simps PM_flag_bits dest: le_neq_implies_less)+


lemma decode_pm_entry:
  "decode_pagemap cfg virt (PM_PFRAME pfn OR PM_PSHIFT sh OR PM_STATUS st) =
     \<lparr>phys = push_bit (PAGE_SHIFT cfg) (PM_PFRAME pfn) OR (virt AND PAGE_OFFSET cfg),
      pgsize = push_bit (unat (sh AND mask 6)) 1,
      present = of_bool (bit st 2), swap = of_bool (bit st 1)\<rparr>"
proof -
  have "PM_PRESENT \<noteq> 0" "PM_SWAP \<noteq> 0" using PM_flag_bits [of 63] PM_flag_bits [of 62] by auto
  then show ?thesis by (simp add: decode_pagemap_def pm_entry_fields del: drop_bit_and drop_bit_or)
qed

lemma pagemap_offset:
  "sint ((virt AND PAGE_MASK cfg) div PAGE_SIZE cfg * of_nat PM_ENTRY_BYTES) = 8 * (uint virt div 2 ^ PAGE_SHIFT cfg)"
proof -
  let ?q = "(virt AND PAGE_MASK cfg) div PAGE_SIZE cfg"
  have "virt AND PAGE_MASK cfg = align_down virt (PAGE_SIZE cfg)"
    by (simp add: align_down_def PAGE_MASK_def PAGE_OFFSET_def)
  then have q: "unat ?q = unat virt div 2 ^ PAGE_SHIFT cfg"
    by (simp add: unat_div small_page.align_down_unat small_page.unat_psize)
  have "unat virt div 2 ^ PAGE_SHIFT cfg \<le> unat virt div 2 ^ 12"
    by (rule div_le_mono2) (simp_all only: page_shift_bounds power_increasing, simp_all)
  also have "\<dots> < 2 ^ 52"
  proof (rule less_mult_imp_div_less)
    show "unat virt < 2 ^ 52 * 2 ^ 12" using unat_lt2p64 [of virt] by simp
  qed
  finally have small: "unat ?q * 8 < 2 ^ 55" unfolding q by simp
  then have mult: "unat (?q * 8) = unat ?q * 8"
    unfolding unat_word_ariths by simp
  have "unat (?q * 8) < 2 ^ 63" unfolding mult using small by (rule less_trans) simp
  then have "sint (?q * 8) = int (unat (?q * 8))" by (rule sint_small)
  also have "\<dots> = 8 * (uint virt div 2 ^ PAGE_SHIFT cfg)"
    unfolding mult q uint_nat by (simp only: of_nat_mult zdiv_int of_nat_power of_nat_numeral mult.commute)
  finally show ?thesis by (simp only: PM_ENTRY_BYTES_def of_nat_numeral)
qed

text \<open>
  C10. Page-map round trip. On a kernel that opens the file, positions it at byte
  \<open>8 * page number\<close> and there delivers the eight bytes of an entry composed of a frame number,
  a page shift and status bits, the lookup of \<open>virt\<close> returns 0 with the physical address
  (frame and page offset), the page size and the two status flags of that entry.
\<close>

theorem get_memory_info_roundtrip:
  assumes "os_open K path O_RDONLY (kern s) = (Inr fd, k1)" and "fd \<noteq> -1"
    and "os_lseek K fd (8 * (uint virt div 2 ^ PAGE_SHIFT cfg)) SEEK_SET k1 = (Inr pos, k2)" and "pos \<noteq> -1"
    and "os_read K fd 8 k2 = (Inr (le_bytes 8 (PM_PFRAME pfn OR PM_PSHIFT sh OR PM_STATUS st)), k3)"
  shows "fst (get_memory_info_path K cfg path virt (Some info) s) =
    Val (0, Some \<lparr>phys = push_bit (PAGE_SHIFT cfg) (PM_PFRAME pfn) OR (virt AND PAGE_OFFSET cfg),
                   pgsize = push_bit (unat (sh AND mask 6)) 1,
                   present = of_bool (bit st 2), swap = of_bool (bit st 1)\<rparr>)"
proof -
  define entry where "entry = PM_PFRAME pfn OR PM_PSHIFT sh OR PM_STATUS st"
  have "le_word (le_bytes 8 entry) = entry" unfolding le_word_bytes by (simp add: take_bit_word_eq_self)
  with assms(1-4) assms(5) [folded entry_def] show ?thesis
    unfolding decode_pm_entry [symmetric] entry_def [symmetric] get_memory_info_path_def
    by (simp add: c_open_def c_lseek_def c_read_def c_close_def run_simps exec_assoc Let_def
        pagemap_offset [unfolded PM_ENTRY_BYTES_def of_nat_numeral] PM_ENTRY_BYTES_def)
qed

definition pagemap_os :: "unit file_os" where
  "pagemap_os = (failing_os EIO)\<lparr>os_open := (\<lambda>_ _ k. (Inr 3, k)), os_lseek := (\<lambda>_ off _ k. (Inr off, k)),
     os_read := (\<lambda>_ _ k. (Inr (le_bytes 8 (PM_PFRAME 0x1234 OR PM_PSHIFT 16 OR PM_STATUS 4)), k)),
     os_close := (\<lambda>_ k. (Inr 0, k))\<rparr>"

theorem get_memory_info_roundtrip_witness:
  "fst (get_memory_info_path pagemap_os Pages64K ''/proc/self/pagemap'' 0x7F0012345
       (Some \<lparr>phys = 1, pgsize = 2, present = 3, swap = 4\<rparr>) (fresh_process ())) =
   Val (0, Some \<lparr>phys = 0x12342345, pgsize = 0x10000, present = 1, swap = 0\<rparr>)"
  by (subst get_memory_info_roundtrip
        [where fd = 3 and pos = "8 * (0x7F0012345 div 2 ^ 16)" and ?k1.0 = "()" and ?k2.0 = "()" and ?k3.0 = "()"
           and pfn = "0x1234" and sh = 16 and st = 4])
     (simp_all add: pagemap_os_def PAGE_OFFSET_def PAGE_SIZE_def PM_PFRAME_def PM_masks mask_eq_exp_minus_1)

end
