(* ===== verification/Vm.thy ===== *)
theory Vm
  imports Files
begin

text \<open>
  What the virtual-memory programs rely on of the kernel under test. The kernel's state is
  seen through a view \<open>V\<close>, the contents of the address space byte by byte, and a bound \<open>A\<close>
  on the memory that is still available; \<open>vm_contract\<close> collects, call by call, the
  behaviour documented in \<^verbatim>\<open>mmap(2)\<close>, \<^verbatim>\<open>munmap(2)\<close>, \<^verbatim>\<open>mremap(2)\<close> and
  \<^verbatim>\<open>sigaction(2)\<close> that the tests expect. Theorems about the tests take it as hypothesis; a
  reference kernel at the end satisfies it.
\<close>

section \<open>Address spaces\<close>

text \<open>
  A mapped byte has its protection, for a shared mapping the number of bytes of the shared
  object that follow it (\<open>None\<close> when private), and its value (\<open>None\<close> beyond the end of the
  object).
\<close>

record cell =
  c_prot :: u32
  c_back :: "nat option"
  c_data :: "byte option"

type_synonym space = "u64 \<Rightarrow> cell option"

definition SPACE :: nat where "SPACE = 2 ^ 64"

definition readable :: "cell \<Rightarrow> bool" where
  "readable c \<longleftrightarrow> c_prot c AND PROT_READ \<noteq> 0"

definition writable :: "cell \<Rightarrow> bool" where
  "writable c \<longleftrightarrow> c_prot c AND PROT_WRITE \<noteq> 0"

text \<open>Replacing the \<open>n\<close> bytes from \<open>a\<close>.\<close>

definition fill :: "space \<Rightarrow> u64 \<Rightarrow> nat \<Rightarrow> (nat \<Rightarrow> cell option) \<Rightarrow> space" where
  "fill V a n f x = (if unat (x - a) < n then f (unat (x - a)) else V x)"

definition vacant :: "space \<Rightarrow> u64 \<Rightarrow> nat \<Rightarrow> bool" where
  "vacant V a n \<longleftrightarrow> (\<forall>i<n. V (a + of_nat i) = None)"

definition occupied :: "space \<Rightarrow> u64 \<Rightarrow> nat \<Rightarrow> bool" where
  "occupied V a n \<longleftrightarrow> (\<forall>i<n. V (a + of_nat i) \<noteq> None)"

text \<open>Byte \<open>i\<close> of a new anonymous mapping of \<open>n\<close> bytes, and the bytes a mapping grows by.\<close>

definition new_cell :: "u32 \<Rightarrow> bool \<Rightarrow> nat \<Rightarrow> nat \<Rightarrow> cell option" where
  "new_cell prot shared n i =
     Some \<lparr>c_prot = prot, c_back = (if shared then Some (n - Suc i) else None), c_data = Some 0\<rparr>"

definition grown_cell :: "cell \<Rightarrow> cell option" where
  "grown_cell c = Some (c\<lparr>c_data := (if c_back c = None then Some 0 else None)\<rparr>)"

definition fits :: "u64 \<Rightarrow> nat \<Rightarrow> bool" where
  "fits a n \<longleftrightarrow> unat a + n < SPACE"

definition page_multiple :: "page_config \<Rightarrow> nat \<Rightarrow> bool" where
  "page_multiple cfg n \<longleftrightarrow> 2 ^ PAGE_SHIFT cfg dvd n"

text \<open>The bytes from \<open>a\<close> belong to one mapping, whose last byte is \<open>c\<close>.\<close>

definition one_mapping :: "space \<Rightarrow> u64 \<Rightarrow> nat \<Rightarrow> cell \<Rightarrow> bool" where
  "one_mapping V a n c \<longleftrightarrow> 0 < n \<and> V (a + of_nat (n - 1)) = Some c \<and>
     (\<forall>i<n. \<exists>b. V (a + of_nat i) = Some b \<and> c_prot b = c_prot c \<and> (c_back b = None \<longleftrightarrow> c_back c = None))"

definition overlap :: "u64 \<Rightarrow> nat \<Rightarrow> u64 \<Rightarrow> nat \<Rightarrow> bool" where
  "overlap a m b n \<longleftrightarrow> unat a < unat b + n \<and> unat b < unat a + m"

lemma SPACE_unat: "unat (w :: u64) < SPACE"
  unfolding SPACE_def by (rule unat_lt2p64)

lemma unat_of_nat_SPACE: "n < SPACE \<Longrightarrow> unat (of_nat n :: u64) = n"
proof -
  assume "n < SPACE"
  then have "n mod 2 ^ LENGTH(64) = n" by (intro mod_less) (simp add: SPACE_def)
  then show ?thesis by (simp only: unat_of_nat)
qed

lemma of_nat_SPACE: "(of_nat SPACE :: u64) = 0"
  unfolding SPACE_def by (rule word_unat_eq_iff [THEN iffD2]) (simp add: unat_of_nat)

lemma unat_add_fits: "unat a + n < SPACE \<Longrightarrow> unat (a + of_nat n :: u64) = unat a + n"
  using unat_of_nat_SPACE [of "unat a + n"] by simp

lemma unat_diff_window:
  assumes "d < SPACE" and "o' < SPACE"
  shows "unat (of_nat d - of_nat o' :: u64) = (if o' \<le> d then d - o' else SPACE + d - o')"
proof (cases "o' \<le> d")
  case True
  then have "of_nat d - of_nat o' = (of_nat (d - o') :: u64)" by (simp only: of_nat_diff)
  with True assms show ?thesis by (simp only: unat_of_nat_SPACE less_imp_diff_less if_True)
next
  case False
  have "(of_nat (SPACE + d - o') :: u64) = of_nat SPACE + of_nat d - of_nat o'"
    using False assms by (subst of_nat_diff) simp_all
  then have eq: "of_nat d - of_nat o' = (of_nat (SPACE + d - o') :: u64)" unfolding of_nat_SPACE by simp
  have "SPACE + d - o' < SPACE" using False assms by linarith
  then show ?thesis unfolding eq using False by (simp only: unat_of_nat_SPACE if_False)
qed

text \<open>A filled range read at offsets from a common base.\<close>

lemma fill_window:
  assumes "d < SPACE" and "o' + n \<le> SPACE" and "o' < SPACE"
  shows "fill V (a + of_nat o') n f (a + of_nat d) = (if o' \<le> d \<and> d < o' + n then f (d - o') else V (a + of_nat d))"
  using assms by (auto simp: fill_def unat_diff_window)

lemma fill_window0:
  "d < SPACE \<Longrightarrow> fill V a n f (a + of_nat d) = (if d < n then f d else V (a + of_nat d))"
  by (simp add: fill_def unat_of_nat_SPACE)

section \<open>The contract\<close>

text \<open>Loads and stores: the protection decides, then the end of the backing object.\<close>

definition load_law :: "('k, 'z) vm_os_scheme \<Rightarrow> ('k \<Rightarrow> space) \<Rightarrow> ('k \<Rightarrow> nat) \<Rightarrow> bool" where
  "load_law K V A \<longleftrightarrow> (\<forall>k a.
     case V k a of
       None \<Rightarrow> fst (os_load K a k) = Inl SIGSEGV
     | Some c \<Rightarrow>
         if \<not> readable c then fst (os_load K a k) = Inl SIGSEGV
         else (case c_data c of
                 None \<Rightarrow> fst (os_load K a k) = Inl SIGBUS
               | Some b \<Rightarrow> \<exists>k'. os_load K a k = (Inr b, k') \<and> V k' = V k \<and> A k' = A k))"

definition store_law :: "('k, 'z) vm_os_scheme \<Rightarrow> ('k \<Rightarrow> space) \<Rightarrow> ('k \<Rightarrow> nat) \<Rightarrow> bool" where
  "store_law K V A \<longleftrightarrow> (\<forall>k a b c d.
     V k a = Some c \<and> writable c \<and> c_data c = Some d \<longrightarrow>
     (\<exists>k'. os_store K a b k = (Inr (), k') \<and> V k' = (V k)(a \<mapsto> c\<lparr>c_data := Some b\<rparr>) \<and> A k' = A k))"

definition sigaction_law :: "('k, 'z) vm_os_scheme \<Rightarrow> ('k \<Rightarrow> space) \<Rightarrow> ('k \<Rightarrow> nat) \<Rightarrow> bool" where
  "sigaction_law K V A \<longleftrightarrow> (\<forall>k sig. sig = SIGSEGV \<or> sig = SIGBUS \<longrightarrow>
     (\<exists>k'. os_sigaction K sig k = (Inr 0, k') \<and> V k' = V k \<and> A k' = A k))"

definition anon_flags :: "bool \<Rightarrow> u32" where
  "anon_flags shared = MAP_ANONYMOUS OR (if shared then MAP_SHARED else MAP_PRIVATE)"

text \<open>A new anonymous mapping at an address the kernel chooses.\<close>

definition mmap_law :: "page_config \<Rightarrow> ('k, 'z) vm_os_scheme \<Rightarrow> ('k \<Rightarrow> space) \<Rightarrow> ('k \<Rightarrow> nat) \<Rightarrow> bool" where
  "mmap_law cfg K V A \<longleftrightarrow> (\<forall>k len prot shared.
     page_multiple cfg (unat len) \<and> 0 < unat len \<and> unat len \<le> A k \<longrightarrow>
     (\<exists>a k'. os_mmap K 0 len prot (anon_flags shared) (-1) 0 k = (Inr a, k')
        \<and> a \<noteq> 0 \<and> page_multiple cfg (unat a) \<and> fits a (unat len) \<and> vacant (V k) a (unat len)
        \<and> V k' = fill (V k) a (unat len) (new_cell prot shared (unat len)) \<and> A k \<le> A k' + unat len))"

text \<open>\<^verbatim>\<open>MAP_FIXED\<close> replaces what is mapped at the address.\<close>

definition mmap_fixed_law :: "page_config \<Rightarrow> ('k, 'z) vm_os_scheme \<Rightarrow> ('k \<Rightarrow> space) \<Rightarrow> ('k \<Rightarrow> nat) \<Rightarrow> bool" where
  "mmap_fixed_law cfg K V A \<longleftrightarrow> (\<forall>k a len prot shared.
     page_multiple cfg (unat a) \<and> page_multiple cfg (unat len) \<and> 0 < unat len \<and> unat len \<le> A k
       \<and> fits a (unat len) \<and> occupied (V k) a (unat len) \<longrightarrow>
     (\<exists>k'. os_mmap K a len prot (MAP_FIXED OR anon_flags shared) (-1) 0 k = (Inr a, k')
        \<and> V k' = fill (V k) a (unat len) (new_cell prot shared (unat len)) \<and> A k \<le> A k' + unat len))"

definition munmap_law :: "page_config \<Rightarrow> ('k, 'z) vm_os_scheme \<Rightarrow> ('k \<Rightarrow> space) \<Rightarrow> ('k \<Rightarrow> nat) \<Rightarrow> bool" where
  "munmap_law cfg K V A \<longleftrightarrow> (\<forall>k a len.
     page_multiple cfg (unat a) \<and> page_multiple cfg (unat len) \<and> 0 < unat len \<and> fits a (unat len) \<longrightarrow>
     (\<exists>k'. os_munmap K a len k = (Inr 0, k') \<and> V k' = fill (V k) a (unat len) (\<lambda>_. None) \<and> A k \<le> A k'))"

text \<open>
  \<^verbatim>\<open>mremap\<close> with flags 0: the same size changes nothing, a smaller size unmaps the tail, a
  larger size needs the bytes after the mapping to be free and fails with \<^verbatim>\<open>ENOMEM\<close> when the
  next byte is not.
\<close>

definition mremap_same_law :: "page_config \<Rightarrow> ('k, 'z) vm_os_scheme \<Rightarrow> ('k \<Rightarrow> space) \<Rightarrow> bool" where
  "mremap_same_law cfg K V \<longleftrightarrow> (\<forall>k a n na.
     page_multiple cfg (unat a) \<and> page_multiple cfg (unat n) \<and> 0 < unat n \<and> V k a \<noteq> None \<longrightarrow>
     (\<exists>k'. os_mremap K a n n 0 na k = (Inr a, k') \<and> V k' = V k))"

definition mremap_shrink_law :: "page_config \<Rightarrow> ('k, 'z) vm_os_scheme \<Rightarrow> ('k \<Rightarrow> space) \<Rightarrow> bool" where
  "mremap_shrink_law cfg K V \<longleftrightarrow> (\<forall>k a m n na.
     page_multiple cfg (unat a) \<and> page_multiple cfg (unat m) \<and> page_multiple cfg (unat n)
       \<and> 0 < unat n \<and> unat n < unat m \<and> fits a (unat m) \<and> occupied (V k) a (unat m) \<longrightarrow>
     (\<exists>k'. os_mremap K a m n 0 na k = (Inr a, k')
        \<and> V k' = fill (V k) (a + n) (unat m - unat n) (\<lambda>_. None)))"

text \<open>A mapping that can grow is private, or ends where its object ends.\<close>

definition growable :: "page_config \<Rightarrow> space \<Rightarrow> u64 \<Rightarrow> u64 \<Rightarrow> u64 \<Rightarrow> cell \<Rightarrow> bool" where
  "growable cfg V a m n c \<longleftrightarrow>
     page_multiple cfg (unat a) \<and> page_multiple cfg (unat m) \<and> page_multiple cfg (unat n)
       \<and> unat m < unat n \<and> one_mapping V a (unat m) c \<and> (c_back c = None \<or> c_back c = Some 0)"

definition mremap_grow_law :: "page_config \<Rightarrow> ('k, 'z) vm_os_scheme \<Rightarrow> ('k \<Rightarrow> space) \<Rightarrow> ('k \<Rightarrow> nat) \<Rightarrow> bool" where
  "mremap_grow_law cfg K V A \<longleftrightarrow> (\<forall>k a m n na c.
     growable cfg (V k) a m n c \<and> fits a (unat n) \<and> unat n \<le> A k \<and> vacant (V k) (a + m) (unat n - unat m) \<longrightarrow>
     (\<exists>k'. os_mremap K a m n 0 na k = (Inr a, k')
        \<and> V k' = fill (V k) (a + m) (unat n - unat m) (\<lambda>_. grown_cell c)))"

definition mremap_blocked_law :: "page_config \<Rightarrow> ('k, 'z) vm_os_scheme \<Rightarrow> ('k \<Rightarrow> space) \<Rightarrow> bool" where
  "mremap_blocked_law cfg K V \<longleftrightarrow> (\<forall>k a m n na c.
     growable cfg (V k) a m n c \<and> fits a (unat n) \<and> V k (a + m) \<noteq> None \<longrightarrow>
     fst (os_mremap K a m n 0 na k) = Inl ENOMEM)"

text \<open>\<^verbatim>\<open>MREMAP_MAYMOVE\<close>: a mapping that cannot grow in place is moved, with its contents.\<close>

definition mremap_move_law :: "page_config \<Rightarrow> ('k, 'z) vm_os_scheme \<Rightarrow> ('k \<Rightarrow> space) \<Rightarrow> ('k \<Rightarrow> nat) \<Rightarrow> bool" where
  "mremap_move_law cfg K V A \<longleftrightarrow> (\<forall>k a m n na c.
     growable cfg (V k) a m n c \<and> fits a (unat n) \<and> unat n \<le> A k \<and> V k (a + m) \<noteq> None \<longrightarrow>
     (\<exists>b k'. os_mremap K a m n MREMAP_MAYMOVE na k = (Inr b, k')
        \<and> b \<noteq> 0 \<and> page_multiple cfg (unat b) \<and> fits b (unat n) \<and> vacant (V k) b (unat n)
        \<and> V k' = fill (fill (V k) a (unat m) (\<lambda>_. None)) b (unat n)
                   (\<lambda>i. if i < unat m then V k (a + of_nat i) else grown_cell c)))"

text \<open>
  \<^verbatim>\<open>MREMAP_FIXED\<close>: the mapping goes to the requested range, replacing what is there; the
  two ranges must not overlap.
\<close>

definition mremap_fixed_law :: "page_config \<Rightarrow> ('k, 'z) vm_os_scheme \<Rightarrow> ('k \<Rightarrow> space) \<Rightarrow> bool" where
  "mremap_fixed_law cfg K V \<longleftrightarrow> (\<forall>k a n na c.
     page_multiple cfg (unat a) \<and> page_multiple cfg (unat na) \<and> page_multiple cfg (unat n) \<and> na \<noteq> 0
       \<and> fits a (unat n) \<and> fits na (unat n) \<and> \<not> overlap a (unat n) na (unat n)
       \<and> one_mapping (V k) a (unat n) c \<longrightarrow>
     (\<exists>k'. os_mremap K a n n (MREMAP_MAYMOVE OR MREMAP_FIXED) na k = (Inr na, k')
        \<and> V k' = fill (fill (V k) a (unat n) (\<lambda>_. None)) na (unat n) (\<lambda>i. V k (a + of_nat i))))"

definition mremap_overlap_law :: "page_config \<Rightarrow> ('k, 'z) vm_os_scheme \<Rightarrow> bool" where
  "mremap_overlap_law cfg K \<longleftrightarrow> (\<forall>k a m n na.
     page_multiple cfg (unat a) \<and> page_multiple cfg (unat na) \<and> page_multiple cfg (unat m) \<and> page_multiple cfg (unat n)
       \<and> 0 < unat m \<and> 0 < unat n \<and> fits a (unat m) \<and> fits na (unat n) \<and> overlap a (unat m) na (unat n) \<longrightarrow>
     fst (os_mremap K a m n (MREMAP_MAYMOVE OR MREMAP_FIXED) na k) = Inl EINVAL)"

definition vm_contract :: "page_config \<Rightarrow> ('k, 'z) vm_os_scheme \<Rightarrow> ('k \<Rightarrow> space) \<Rightarrow> ('k \<Rightarrow> nat) \<Rightarrow> bool" where
  "vm_contract cfg K V A \<longleftrightarrow>
     os_pagesize K = uint (PAGE_SIZE cfg) \<and>
     load_law K V A \<and> store_law K V A \<and> sigaction_law K V A \<and>
     mmap_law cfg K V A \<and> mmap_fixed_law cfg K V A \<and> munmap_law cfg K V A \<and>
     mremap_same_law cfg K V \<and> mremap_shrink_law cfg K V \<and> mremap_grow_law cfg K V A \<and>
     mremap_blocked_law cfg K V \<and> mremap_move_law cfg K V A \<and>
     mremap_fixed_law cfg K V \<and> mremap_overlap_law cfg K"

section \<open>Programs on such a kernel\<close>

text \<open>
  \<open>t\<close> is reached from \<open>s\<close> with the address space \<open>W\<close>, using at most \<open>n\<close> bytes; \<^verbatim>\<open>errno\<close> and the
  signal handlers are as before.
\<close>

definition becomes :: "('k \<Rightarrow> space) \<Rightarrow> ('k \<Rightarrow> nat) \<Rightarrow> space \<Rightarrow> nat \<Rightarrow> 'k machine \<Rightarrow> 'k machine \<Rightarrow> bool" where
  "becomes V A W n s t \<longleftrightarrow>
     V (kern t) = W \<and> A (kern s) \<le> A (kern t) + n \<and> errno t = errno s \<and> handlers t = handlers s"

lemma becomes_trans:
  "becomes V A W m s t \<Longrightarrow> becomes V A X n t u \<Longrightarrow> becomes V A X (m + n) s u"
  by (simp add: becomes_def)

lemma becomes_view: "becomes V A W n s t \<Longrightarrow> V (kern t) = W"
  by (simp add: becomes_def)

lemma becomes_avail: "becomes V A W n s t \<Longrightarrow> m + n \<le> A (kern s) \<Longrightarrow> m \<le> A (kern t)"
  by (simp add: becomes_def)

text \<open>A byte that can be read and holds \<open>b\<close>; bytes that can be read and written.\<close>

definition holds :: "byte \<Rightarrow> cell option \<Rightarrow> bool" where
  "holds b x \<longleftrightarrow> (\<exists>c. x = Some c \<and> readable c \<and> c_data c = Some b)"

definition usable :: "cell option \<Rightarrow> bool" where
  "usable x \<longleftrightarrow> (\<exists>c d. x = Some c \<and> readable c \<and> writable c \<and> c_data c = Some d)"

definition set_data :: "byte \<Rightarrow> cell option \<Rightarrow> cell option" where
  "set_data b x = map_option (\<lambda>c. c\<lparr>c_data := Some b\<rparr>) x"

lemma usable_set_data [simp]: "usable x \<Longrightarrow> usable (set_data b x)"
  by (auto simp: usable_def set_data_def readable_def writable_def)

lemma holds_set_data [simp]: "usable x \<Longrightarrow> holds b (set_data b x)"
  by (auto simp: usable_def holds_def set_data_def readable_def)

lemma wp_load_byte:
  assumes "vm_contract cfg K V A" and "holds b (V (kern s) a)"
    and "\<And>t. becomes V A (V (kern s)) 0 s t \<Longrightarrow> Q (Val b) t"
  shows "wp (load K a) Q s"
proof -
  obtain c where c: "V (kern s) a = Some c" "readable c" "c_data c = Some b" using assms(2) by (auto simp: holds_def)
  have "load_law K V A" using assms(1) by (simp add: vm_contract_def)
  then obtain k' where "os_load K a (kern s) = (Inr b, k')" "V k' = V (kern s)" "A k' = A (kern s)"
    using c unfolding load_law_def by (elim allE [of _ "kern s"] allE [of _ a]) auto
  then show ?thesis using assms(3) by (simp add: wp_def load_def becomes_def)
qed

lemma wp_store_byte:
  assumes "vm_contract cfg K V A" and "usable (V (kern s) a)"
    and "\<And>t. becomes V A ((V (kern s))(a := set_data b (V (kern s) a))) 0 s t \<Longrightarrow> Q (Val ()) t"
  shows "wp (store K a b) Q s"
proof -
  obtain c d where c: "V (kern s) a = Some c" "writable c" "c_data c = Some d" using assms(2) by (auto simp: usable_def)
  have "store_law K V A" using assms(1) by (simp add: vm_contract_def)
  then obtain k' where "os_store K a b (kern s) = (Inr (), k')"
      "V k' = (V (kern s))(a \<mapsto> c\<lparr>c_data := Some b\<rparr>)" "A k' = A (kern s)"
    using c unfolding store_law_def by blast
  then show ?thesis using assms(3) c by (simp add: wp_def store_def becomes_def set_data_def)
qed

lemma fill_step:
  assumes "n < SPACE"
  shows "fill (V(a := f 0)) (a + 1) n (\<lambda>i. f (Suc i)) = fill V a (Suc n) f"
proof
  fix x
  define d where "d = unat (x - a)"
  have x: "x = a + of_nat d" "d < SPACE" by (simp_all add: d_def SPACE_unat)
  have "1 < SPACE" by (simp add: SPACE_def)
  then have next_byte: "unat (x - (a + 1)) = (if 1 \<le> d then d - 1 else SPACE + d - 1)"
    using unat_diff_window [of d 1] x by simp
  have first: "x = a \<longleftrightarrow> d = 0" by (simp add: d_def unat_eq_0)
  show "fill (V(a := f 0)) (a + 1) n (\<lambda>i. f (Suc i)) x = fill V a (Suc n) f x"
    unfolding fill_def next_byte d_def [symmetric] fun_upd_apply first using assms by (cases d) auto
qed

lemma wp_memset:
  assumes "vm_contract cfg K V A" and "n \<le> SPACE" and "\<forall>i<n. usable (V (kern s) (a + of_nat i))"
    and "\<And>t. becomes V A (fill (V (kern s)) a n (\<lambda>i. set_data ch (V (kern s) (a + of_nat i)))) 0 s t \<Longrightarrow> Q (Val ()) t"
  shows "wp (memset K a ch n) Q s"
  using assms(2-)
proof (induction n arbitrary: a s)
  case 0
  then show ?case by (auto simp: wp_def ret_def becomes_def fill_def fun_eq_iff)
next
  case (Suc n)
  let ?V = "V (kern s)"
  have "usable (?V a)" using Suc.prems(2) [rule_format, of 0] by simp
  moreover have "wp (memset K (a + 1) ch n) Q t"
    if t: "becomes V A (?V(a := set_data ch (?V a))) 0 s t" for t
  proof (rule Suc.IH)
    have view: "V (kern t) (a + 1 + of_nat i) = ?V (a + of_nat (Suc i))" if "i < n" for i
    proof -
      have "unat (of_nat (Suc i) :: u64) = Suc i" using that Suc.prems(1) by (intro unat_of_nat_SPACE) simp
      then have "(of_nat (Suc i) :: u64) \<noteq> 0" by (rule contrapos_pn) (simp only: unat_0 nat.distinct not_False_eq_True)
      then have ne: "a + of_nat (Suc i) \<noteq> a" by simp
      have eq: "a + 1 + of_nat i = a + of_nat (Suc i)" by simp
      show ?thesis unfolding eq becomes_view [OF t] using ne by (rule fun_upd_other)
    qed
    show "n \<le> SPACE" using Suc.prems(1) by simp
    show "\<forall>i<n. usable (V (kern t) (a + 1 + of_nat i))"
      using Suc.prems(2) by (intro allI impI) (simp only: view Suc_less_eq)
    fix u
    assume u: "becomes V A (fill (V (kern t)) (a + 1) n (\<lambda>i. set_data ch (V (kern t) (a + 1 + of_nat i)))) 0 t u"
    have "fill (V (kern t)) (a + 1) n (\<lambda>i. set_data ch (V (kern t) (a + 1 + of_nat i)))
        = fill (V (kern t)) (a + 1) n (\<lambda>i. set_data ch (?V (a + of_nat (Suc i))))"
      by (intro ext) (simp only: fill_def view cong: if_cong)
    also have "\<dots> = fill ?V a (Suc n) (\<lambda>i. set_data ch (?V (a + of_nat i)))"
      using fill_step [of n ?V a "\<lambda>i. set_data ch (?V (a + of_nat i))"] becomes_view [OF t] Suc.prems(1) by simp
    finally show "Q (Val ()) u" using Suc.prems(3) becomes_trans [OF t u] by simp
  qed
  ultimately show ?case
    unfolding memset.simps by (intro wp_exec wp_store_byte [OF assms(1)] run_case_Val)
qed

text \<open>A signal: the handler installed for it ends the process.\<close>

lemma wp_load_signal:
  assumes "vm_contract cfg K V A" and "handlers s sig = Some status" and "Q (Halt (Exited status))"
    and "sig = SIGSEGV \<and> V (kern s) a = None \<or>
         sig = SIGBUS \<and> (\<exists>c. V (kern s) a = Some c \<and> readable c \<and> c_data c = None)"
  shows "wp (load K a) (\<lambda>r t. Q r) s"
proof -
  have "load_law K V A" using assms(1) by (simp add: vm_contract_def)
  then have "fst (os_load K a (kern s)) = Inl sig"
    using assms(4) unfolding load_law_def by (elim allE [of _ "kern s"] allE [of _ a]) auto
  then show ?thesis using assms(2,3)
    by (auto simp: wp_def load_def raise_signal_def stop_def split: prod.splits)
qed

lemma wp_sigaction_exit:
  assumes "vm_contract cfg K V A" and "sig = SIGSEGV \<or> sig = SIGBUS"
    and "\<And>t. V (kern t) = V (kern s) \<Longrightarrow> handlers t sig = Some status \<Longrightarrow> Q (Val 0) t"
  shows "wp (sigaction_exit K sig status) Q s"
proof -
  have "sigaction_law K V A" using assms(1) by (simp add: vm_contract_def)
  then obtain k' where "os_sigaction K sig (kern s) = (Inr 0, k')" "V k' = V (kern s)"
    using assms(2) unfolding sigaction_law_def by blast
  then show ?thesis using assms(3) by (simp add: wp_def sigaction_exit_def run_simps)
qed

lemma becomes_after [simp]:
  "becomes V A W n s (after (errno s) k ev s) \<longleftrightarrow> V k = W \<and> A (kern s) \<le> A k + n"
  by (simp add: becomes_def)

lemma wp_mmap_new:
  assumes "vm_contract cfg K V A"
    and "page_multiple cfg (unat len)" "0 < unat len" "unat len \<le> A (kern s)"
    and "\<And>a t. a \<noteq> 0 \<Longrightarrow> page_multiple cfg (unat a) \<Longrightarrow> fits a (unat len)
      \<Longrightarrow> becomes V A (fill (V (kern s)) a (unat len) (new_cell prot shared (unat len))) (unat len) s t \<Longrightarrow> Q (Val a) t"
  shows "wp (mmap K 0 len prot (anon_flags shared) (-1) 0) Q s"
proof -
  have "mmap_law cfg K V A" using assms(1) by (simp add: vm_contract_def)
  from this [unfolded mmap_law_def, rule_format, of len "kern s" prot shared] assms(2-4)
  obtain a k' where answer: "os_mmap K 0 len prot (anon_flags shared) (-1) 0 (kern s) = (Inr a, k')" and view:
    "a \<noteq> 0" "page_multiple cfg (unat a)" "fits a (unat len)"
    "V k' = fill (V (kern s)) a (unat len) (new_cell prot shared (unat len))" "A (kern s) \<le> A k' + unat len"
    by blast
  show ?thesis unfolding mmap_def by (rule wp_sys_call_Inr, rule answer) (rule assms(5), simp_all add: view)
qed

lemma wp_mmap_fixed:
  assumes "vm_contract cfg K V A"
    and "page_multiple cfg (unat a)" "page_multiple cfg (unat len)" "0 < unat len" "unat len \<le> A (kern s)"
    and "fits a (unat len)" "occupied (V (kern s)) a (unat len)"
    and "\<And>t. becomes V A (fill (V (kern s)) a (unat len) (new_cell prot shared (unat len))) (unat len) s t \<Longrightarrow> Q (Val a) t"
  shows "wp (mmap K a len prot (MAP_FIXED OR anon_flags shared) (-1) 0) Q s"
proof -
  have "mmap_fixed_law cfg K V A" using assms(1) by (simp add: vm_contract_def)
  from this [unfolded mmap_fixed_law_def, rule_format, of a len "kern s" prot shared] assms(2-7)
  obtain k' where answer: "os_mmap K a len prot (MAP_FIXED OR anon_flags shared) (-1) 0 (kern s) = (Inr a, k')" and view:
    "V k' = fill (V (kern s)) a (unat len) (new_cell prot shared (unat len))" "A (kern s) \<le> A k' + unat len"
    by blast
  show ?thesis unfolding mmap_def by (rule wp_sys_call_Inr, rule answer) (rule assms(8), simp_all add: view)
qed

lemma wp_munmap:
  assumes "vm_contract cfg K V A"
    and "page_multiple cfg (unat a)" "page_multiple cfg (unat len)" "0 < unat len" "fits a (unat len)"
    and "\<And>t. becomes V A (fill (V (kern s)) a (unat len) (\<lambda>_. None)) 0 s t \<Longrightarrow> Q (Val 0) t"
  shows "wp (munmap K a len) Q s"
proof -
  have "munmap_law cfg K V A" using assms(1) by (simp add: vm_contract_def)
  from this [unfolded munmap_law_def, rule_format, of a len "kern s"] assms(2-5)
  obtain k' where answer: "os_munmap K a len (kern s) = (Inr 0, k')" and view:
    "V k' = fill (V (kern s)) a (unat len) (\<lambda>_. None)" "A (kern s) \<le> A k'"
    by blast
  show ?thesis unfolding munmap_def by (rule wp_sys_call_Inr, rule answer) (rule assms(6), simp_all add: view)
qed

text \<open>The answers of \<^verbatim>\<open>mremap\<close>.\<close>

lemma wp_mremap_same:
  assumes "vm_contract cfg K V A"
    and "page_multiple cfg (unat a)" "page_multiple cfg (unat n)" "0 < unat n" "V (kern s) a \<noteq> None"
    and "\<And>t. V (kern t) = V (kern s) \<Longrightarrow> errno t = errno s \<Longrightarrow> Q (Val a) t"
  shows "wp (mremap K a n n 0 na) Q s"
proof -
  have "mremap_same_law cfg K V" using assms(1) by (simp add: vm_contract_def)
  from this [unfolded mremap_same_law_def, rule_format, of a n "kern s" na] assms(2-5)
  obtain k' where answer: "os_mremap K a n n 0 na (kern s) = (Inr a, k')" and view: "V k' = V (kern s)" by blast
  show ?thesis unfolding mremap_def by (rule wp_sys_call_Inr, rule answer) (rule assms(6), simp_all add: view)
qed

lemma wp_mremap_shrink:
  assumes "vm_contract cfg K V A"
    and "page_multiple cfg (unat a)" "page_multiple cfg (unat m)" "page_multiple cfg (unat n)"
    and "0 < unat n" "unat n < unat m" "fits a (unat m)" "occupied (V (kern s)) a (unat m)"
    and "\<And>t. V (kern t) = fill (V (kern s)) (a + n) (unat m - unat n) (\<lambda>_. None) \<Longrightarrow> errno t = errno s \<Longrightarrow> Q (Val a) t"
  shows "wp (mremap K a m n 0 na) Q s"
proof -
  have "mremap_shrink_law cfg K V" using assms(1) by (simp add: vm_contract_def)
  from this [unfolded mremap_shrink_law_def, rule_format, of a m n "kern s" na] assms(2-8)
  obtain k' where answer: "os_mremap K a m n 0 na (kern s) = (Inr a, k')" and view:
    "V k' = fill (V (kern s)) (a + n) (unat m - unat n) (\<lambda>_. None)" by blast
  show ?thesis unfolding mremap_def by (rule wp_sys_call_Inr, rule answer) (rule assms(9), simp_all add: view)
qed

lemma wp_mremap_grow:
  assumes "vm_contract cfg K V A"
    and "growable cfg (V (kern s)) a m n c" "fits a (unat n)" "unat n \<le> A (kern s)"
    and "vacant (V (kern s)) (a + m) (unat n - unat m)"
    and "\<And>t. V (kern t) = fill (V (kern s)) (a + m) (unat n - unat m) (\<lambda>_. grown_cell c) \<Longrightarrow> errno t = errno s \<Longrightarrow> Q (Val a) t"
  shows "wp (mremap K a m n 0 na) Q s"
proof -
  have "mremap_grow_law cfg K V A" using assms(1) by (simp add: vm_contract_def)
  from this [unfolded mremap_grow_law_def, rule_format, of "kern s" a m n c na] assms(2-5)
  obtain k' where answer: "os_mremap K a m n 0 na (kern s) = (Inr a, k')" and view:
    "V k' = fill (V (kern s)) (a + m) (unat n - unat m) (\<lambda>_. grown_cell c)" by blast
  show ?thesis unfolding mremap_def by (rule wp_sys_call_Inr, rule answer) (rule assms(6), simp_all add: view)
qed

lemma wp_mremap_blocked:
  assumes "vm_contract cfg K V A"
    and "growable cfg (V (kern s)) a m n c" "fits a (unat n)" "V (kern s) (a + m) \<noteq> None"
    and "\<And>t. errno t = ENOMEM \<Longrightarrow> Q (Val MAP_FAILED) t"
  shows "wp (mremap K a m n 0 na) Q s"
proof -
  have "mremap_blocked_law cfg K V" using assms(1) by (simp add: vm_contract_def)
  from this [unfolded mremap_blocked_law_def, rule_format, of "kern s" a m n c na] assms(2-4)
  have "fst (os_mremap K a m n 0 na (kern s)) = Inl ENOMEM" by blast
  then show ?thesis unfolding mremap_def by (rule wp_sys_call_Inl) (rule assms(5))
qed

lemma wp_mremap_move:
  assumes "vm_contract cfg K V A"
    and "growable cfg (V (kern s)) a m n c" "fits a (unat n)" "unat n \<le> A (kern s)" "V (kern s) (a + m) \<noteq> None"
    and "\<And>b t. b \<noteq> 0 \<Longrightarrow> page_multiple cfg (unat b) \<Longrightarrow> fits b (unat n) \<Longrightarrow> vacant (V (kern s)) b (unat n) \<Longrightarrow>
       V (kern t) = fill (fill (V (kern s)) a (unat m) (\<lambda>_. None)) b (unat n)
         (\<lambda>i. if i < unat m then V (kern s) (a + of_nat i) else grown_cell c) \<Longrightarrow> errno t = errno s \<Longrightarrow> Q (Val b) t"
  shows "wp (mremap K a m n MREMAP_MAYMOVE na) Q s"
proof -
  have "mremap_move_law cfg K V A" using assms(1) by (simp add: vm_contract_def)
  from this [unfolded mremap_move_law_def, rule_format, of "kern s" a m n c na] assms(2-5)
  obtain b k' where answer: "os_mremap K a m n MREMAP_MAYMOVE na (kern s) = (Inr b, k')" and view:
    "b \<noteq> 0" "page_multiple cfg (unat b)" "fits b (unat n)" "vacant (V (kern s)) b (unat n)"
    "V k' = fill (fill (V (kern s)) a (unat m) (\<lambda>_. None)) b (unat n)
         (\<lambda>i. if i < unat m then V (kern s) (a + of_nat i) else grown_cell c)" by blast
  show ?thesis unfolding mremap_def by (rule wp_sys_call_Inr, rule answer) (rule assms(6), simp_all add: view)
qed

lemma wp_mremap_fixed:
  assumes "vm_contract cfg K V A"
    and "page_multiple cfg (unat a)" "page_multiple cfg (unat na)" "page_multiple cfg (unat n)" "na \<noteq> 0"
    and "fits a (unat n)" "fits na (unat n)" "\<not> overlap a (unat n) na (unat n)" "one_mapping (V (kern s)) a (unat n) c"
    and "\<And>t. V (kern t) = fill (fill (V (kern s)) a (unat n) (\<lambda>_. None)) na (unat n) (\<lambda>i. V (kern s) (a + of_nat i))
       \<Longrightarrow> errno t = errno s \<Longrightarrow> Q (Val na) t"
  shows "wp (mremap K a n n (MREMAP_MAYMOVE OR MREMAP_FIXED) na) Q s"
proof -
  have "mremap_fixed_law cfg K V" using assms(1) by (simp add: vm_contract_def)
  from this [unfolded mremap_fixed_law_def, rule_format, of a na n "kern s" c] assms(2-9)
  obtain k' where answer: "os_mremap K a n n (MREMAP_MAYMOVE OR MREMAP_FIXED) na (kern s) = (Inr na, k')" and view:
    "V k' = fill (fill (V (kern s)) a (unat n) (\<lambda>_. None)) na (unat n) (\<lambda>i. V (kern s) (a + of_nat i))" by blast
  show ?thesis unfolding mremap_def by (rule wp_sys_call_Inr, rule answer) (rule assms(10), simp_all add: view)
qed

lemma wp_mremap_overlap:
  assumes "vm_contract cfg K V A"
    and "page_multiple cfg (unat a)" "page_multiple cfg (unat na)" "page_multiple cfg (unat m)" "page_multiple cfg (unat n)"
    and "0 < unat m" "0 < unat n" "fits a (unat m)" "fits na (unat n)" "overlap a (unat m) na (unat n)"
    and "\<And>t. errno t = EINVAL \<Longrightarrow> Q (Val MAP_FAILED) t"
  shows "wp (mremap K a m n (MREMAP_MAYMOVE OR MREMAP_FIXED) na) Q s"
proof -
  have "mremap_overlap_law cfg K" using assms(1) by (simp add: vm_contract_def)
  from this [unfolded mremap_overlap_law_def, rule_format, of a na m n "kern s"] assms(2-10)
  have "fst (os_mremap K a m n (MREMAP_MAYMOVE OR MREMAP_FIXED) na (kern s)) = Inl EINVAL" by blast
  then show ?thesis unfolding mremap_def by (rule wp_sys_call_Inl) (rule assms(11))
qed

section \<open>A kernel that meets the contract\<close>

text \<open>
  The reference kernel hands out addresses in ascending order; what it has available is the
  lower half of the address space above the last address handed out.
\<close>

record ref_mem =
  nxt :: nat
  mem :: space

definition HALF :: nat where "HALF = 2 ^ 63"

definition ref_ready :: "page_config \<Rightarrow> ref_mem \<Rightarrow> bool" where
  "ref_ready cfg k \<longleftrightarrow> page_multiple cfg (nxt k) \<and> 0 < nxt k \<and> nxt k \<le> HALF \<and> (\<forall>x. nxt k \<le> unat x \<longrightarrow> mem k x = None)"

definition ref_avail :: "page_config \<Rightarrow> ref_mem \<Rightarrow> nat" where
  "ref_avail cfg k = (if ref_ready cfg k then HALF - nxt k else 0)"

definition ref_load :: "u64 \<Rightarrow> ref_mem \<Rightarrow> (int + byte) \<times> ref_mem" where
  "ref_load a k =
     (case mem k a of
        None \<Rightarrow> (Inl SIGSEGV, k)
      | Some c \<Rightarrow>
          if \<not> readable c then (Inl SIGSEGV, k)
          else (case c_data c of None \<Rightarrow> (Inl SIGBUS, k) | Some b \<Rightarrow> (Inr b, k)))"

definition ref_store :: "u64 \<Rightarrow> byte \<Rightarrow> ref_mem \<Rightarrow> (int + unit) \<times> ref_mem" where
  "ref_store a b k =
     (case mem k a of
        None \<Rightarrow> (Inl SIGSEGV, k)
      | Some c \<Rightarrow>
          if \<not> writable c then (Inl SIGSEGV, k)
          else (case c_data c of
                  None \<Rightarrow> (Inl SIGBUS, k)
                | Some _ \<Rightarrow> (Inr (), k\<lparr>mem := (mem k)(a \<mapsto> c\<lparr>c_data := Some b\<rparr>)\<rparr>)))"

definition ref_alloc :: "nat \<Rightarrow> (space \<Rightarrow> u64 \<Rightarrow> space) \<Rightarrow> ref_mem \<Rightarrow> (int + u64) \<times> ref_mem" where
  "ref_alloc n f k =
     (if nxt k + n \<le> HALF
      then (Inr (of_nat (nxt k)), k\<lparr>nxt := nxt k + n, mem := f (mem k) (of_nat (nxt k))\<rparr>)
      else (Inl ENOMEM, k))"

definition ref_mmap :: "u64 \<Rightarrow> u64 \<Rightarrow> u32 \<Rightarrow> u32 \<Rightarrow> int \<Rightarrow> u64 \<Rightarrow> ref_mem \<Rightarrow> (int + u64) \<times> ref_mem" where
  "ref_mmap a len prot flags fd off k =
     (let cells = new_cell prot (flags AND MAP_SHARED \<noteq> 0) (unat len) in
      if flags AND MAP_FIXED \<noteq> 0 then (Inr a, k\<lparr>mem := fill (mem k) a (unat len) cells\<rparr>)
      else ref_alloc (unat len) (\<lambda>W b. fill W b (unat len) cells) k)"

definition ref_munmap :: "u64 \<Rightarrow> u64 \<Rightarrow> ref_mem \<Rightarrow> (int + int) \<times> ref_mem" where
  "ref_munmap a len k = (Inr 0, k\<lparr>mem := fill (mem k) a (unat len) (\<lambda>_. None)\<rparr>)"

definition ref_mremap :: "u64 \<Rightarrow> u64 \<Rightarrow> u64 \<Rightarrow> u32 \<Rightarrow> u64 \<Rightarrow> ref_mem \<Rightarrow> (int + u64) \<times> ref_mem" where
  "ref_mremap a m n flags na k =
     (let grown = grown_cell (the (mem k (a + of_nat (unat m - 1)))); moved = (\<lambda>i. if i < unat m then mem k (a + of_nat i) else grown) in
      if flags = MREMAP_MAYMOVE OR MREMAP_FIXED then
        if overlap a (unat m) na (unat n) then (Inl EINVAL, k)
        else (Inr na, k\<lparr>mem := fill (fill (mem k) a (unat m) (\<lambda>_. None)) na (unat n) moved\<rparr>)
      else if flags = MREMAP_MAYMOVE then
        ref_alloc (unat n) (\<lambda>W b. fill (fill W a (unat m) (\<lambda>_. None)) b (unat n) moved) k
      else if n = m then (Inr a, k)
      else if unat n < unat m then (Inr a, k\<lparr>mem := fill (mem k) (a + n) (unat m - unat n) (\<lambda>_. None)\<rparr>)
      else if mem k (a + m) \<noteq> None then (Inl ENOMEM, k)
      else (Inr a, k\<lparr>mem := fill (mem k) (a + m) (unat n - unat m) (\<lambda>_. grown)\<rparr>))"

definition ref_os :: "page_config \<Rightarrow> ref_mem vm_os" where
  "ref_os cfg = \<lparr>os_pagesize = uint (PAGE_SIZE cfg), os_mmap = ref_mmap, os_munmap = ref_munmap,
     os_mremap = ref_mremap, os_sigaction = (\<lambda>_ k. (Inr 0, k)), os_load = ref_load, os_store = ref_store\<rparr>"

definition ref_init :: "page_config \<Rightarrow> ref_mem" where
  "ref_init cfg = \<lparr>nxt = unat (PAGE_SIZE cfg), mem = (\<lambda>_. None)\<rparr>"

lemma ref_os_simps [simp]:
  "os_pagesize (ref_os cfg) = uint (PAGE_SIZE cfg)" "os_mmap (ref_os cfg) = ref_mmap" "os_munmap (ref_os cfg) = ref_munmap"
  "os_mremap (ref_os cfg) = ref_mremap" "os_sigaction (ref_os cfg) = (\<lambda>_ k. (Inr 0, k))"
  "os_load (ref_os cfg) = ref_load" "os_store (ref_os cfg) = ref_store"
  by (simp_all add: ref_os_def)

lemma HALF_SPACE: "HALF < SPACE"
  by (simp add: HALF_def SPACE_def)

text \<open>Changes below the next address keep what is available.\<close>

lemma ref_avail_mem:
  assumes "ref_ready cfg k \<Longrightarrow> (\<forall>x. nxt k \<le> unat x \<longrightarrow> W x = None)"
  shows "ref_avail cfg k \<le> ref_avail cfg (k\<lparr>mem := W\<rparr>)"
  using assms by (auto simp: ref_avail_def ref_ready_def)

lemma fill_below:
  assumes "occupied W a n" and "\<forall>x. b \<le> unat x \<longrightarrow> W x = None"
  shows "\<forall>x. b \<le> unat x \<longrightarrow> fill W a n f x = None"
proof (intro allI impI)
  fix x :: u64
  assume "b \<le> unat x"
  then have "W x = None" using assms(2) by simp
  moreover have "W x \<noteq> None" if "unat (x - a) < n" using assms(1) that unfolding occupied_def
    by (auto dest: spec [of _ "unat (x - a)"])
  ultimately show "fill W a n f x = None" by (auto simp: fill_def)
qed

lemma ref_alloc_ready:
  assumes "0 < n" "n \<le> ref_avail cfg k" "page_multiple cfg n"
    and out: "\<And>x. nxt k + n \<le> unat x \<Longrightarrow> f (mem k) (of_nat (nxt k)) x = None"
  shows "\<exists>b k'. ref_alloc n f k = (Inr b, k') \<and> b \<noteq> 0 \<and> page_multiple cfg (unat b) \<and> fits b n \<and> vacant (mem k) b n
    \<and> mem k' = f (mem k) b \<and> ref_avail cfg k \<le> ref_avail cfg k' + n"
proof -
  let ?b = "of_nat (nxt k) :: u64"
  have ready: "ref_ready cfg k" and room: "nxt k + n \<le> HALF" using assms(1,2) by (auto simp: ref_avail_def split: if_splits)
  then have b: "unat ?b = nxt k" using HALF_SPACE assms(1) by (intro unat_of_nat_SPACE) linarith
  then have nz: "?b \<noteq> 0" using ready unfolding ref_ready_def by (metis not_gr_zero unat_0)
  have "unat (?b + of_nat i) = nxt k + i" if "i < n" for i
    using unat_add_fits [of ?b i] that room HALF_SPACE b by simp
  then have "vacant (mem k) ?b n" using ready by (simp add: vacant_def ref_ready_def)
  moreover have "ref_ready cfg (k\<lparr>nxt := nxt k + n, mem := f (mem k) ?b\<rparr>)"
    using ready room assms(3) out by (simp add: ref_ready_def page_multiple_def)
  moreover have "fits ?b n" using b room HALF_SPACE by (simp add: fits_def)
  ultimately show ?thesis using ready room nz b
    by (simp add: ref_alloc_def ref_avail_def) (simp add: ref_ready_def)
qed

lemma fill_above:
  assumes "b + n \<le> unat x" and "b < SPACE"
  shows "fill W (of_nat b) n f x = W x"
proof -
  have "unat (x - of_nat b) = unat x - b"
    using unat_diff_window [of "unat x" b] assms SPACE_unat [of x] by simp
  then have "\<not> unat (x - of_nat b) < n" using assms(1) by linarith
  then show ?thesis by (simp add: fill_def)
qed

lemma ref_load_law: "load_law (ref_os cfg) mem (ref_avail cfg)"
  by (auto simp: load_law_def ref_load_def split: option.splits)

lemma ref_store_law: "store_law (ref_os cfg) mem (ref_avail cfg)"
  unfolding store_law_def
proof (intro allI impI, elim conjE)
  fix k :: ref_mem and a b c d
  assume c: "mem k a = Some c" "writable c" "c_data c = Some d"
  have "ref_ready cfg (k\<lparr>mem := (mem k)(a \<mapsto> c\<lparr>c_data := Some b\<rparr>)\<rparr>) = ref_ready cfg k"
    using c(1) by (auto simp: ref_ready_def)
  then show "\<exists>k'. os_store (ref_os cfg) a b k = (Inr (), k') \<and> mem k' = (mem k)(a \<mapsto> c\<lparr>c_data := Some b\<rparr>)
      \<and> ref_avail cfg k' = ref_avail cfg k"
    using c by (simp add: ref_store_def ref_avail_def)
qed

lemma anon_flag_tests:
  "MAP_FIXED \<noteq> 0" "anon_flags sh AND MAP_FIXED = 0" "anon_flags sh AND MAP_SHARED \<noteq> 0 \<longleftrightarrow> sh"
  "(MAP_FIXED OR anon_flags sh) AND MAP_FIXED \<noteq> 0" "(MAP_FIXED OR anon_flags sh) AND MAP_SHARED \<noteq> 0 \<longleftrightarrow> sh"
  by (simp_all add: anon_flags_def MAP_FIXED_def MAP_SHARED_def MAP_PRIVATE_def MAP_ANONYMOUS_def)

lemma ref_mmap_law: "mmap_law cfg (ref_os cfg) mem (ref_avail cfg)"
  unfolding mmap_law_def
proof (intro allI impI, elim conjE)
  fix k :: ref_mem and len :: u64 and prot sh
  let ?f = "\<lambda>W b. fill W b (unat len) (new_cell prot sh (unat len))"
  assume len: "page_multiple cfg (unat len)" "0 < unat len" "unat len \<le> ref_avail cfg k"
  have "ref_ready cfg k" "nxt k < SPACE"
    using len(2,3) HALF_SPACE by (auto simp: ref_avail_def split: if_splits)
  then have "?f (mem k) (of_nat (nxt k)) x = None" if "nxt k + unat len \<le> unat x" for x
    using that by (simp add: fill_above ref_ready_def)
  from ref_alloc_ready [OF len(2,3,1), of ?f, OF this]
  show "\<exists>a k'. os_mmap (ref_os cfg) 0 len prot (anon_flags sh) (- 1) 0 k = (Inr a, k') \<and> a \<noteq> 0 \<and> page_multiple cfg (unat a)
     \<and> fits a (unat len) \<and> vacant (mem k) a (unat len) \<and> mem k' = fill (mem k) a (unat len) (new_cell prot sh (unat len))
     \<and> ref_avail cfg k \<le> ref_avail cfg k' + unat len"
    by (simp add: ref_mmap_def anon_flag_tests)
qed

lemma ref_mmap_fixed_law: "mmap_fixed_law cfg (ref_os cfg) mem (ref_avail cfg)"
  unfolding mmap_fixed_law_def
proof (intro allI impI, elim conjE)
  fix k :: ref_mem and a len :: u64 and prot sh
  assume "occupied (mem k) a (unat len)"
  then have "ref_avail cfg k \<le> ref_avail cfg (k\<lparr>mem := fill (mem k) a (unat len) (new_cell prot sh (unat len))\<rparr>)"
    by (intro ref_avail_mem fill_below) (simp_all add: ref_ready_def)
  then show "\<exists>k'. os_mmap (ref_os cfg) a len prot (MAP_FIXED OR anon_flags sh) (- 1) 0 k = (Inr a, k')
     \<and> mem k' = fill (mem k) a (unat len) (new_cell prot sh (unat len)) \<and> ref_avail cfg k \<le> ref_avail cfg k' + unat len"
    by (simp add: ref_mmap_def anon_flag_tests)
qed

lemma ref_munmap_law: "munmap_law cfg (ref_os cfg) mem (ref_avail cfg)"
proof -
  have "ref_avail cfg k \<le> ref_avail cfg (k\<lparr>mem := fill (mem k) a n (\<lambda>_. None)\<rparr>)" for k a n
    by (rule ref_avail_mem) (simp add: ref_ready_def fill_def)
  then show ?thesis by (simp add: munmap_law_def ref_munmap_def)
qed

lemma mremap_flags:
  "MREMAP_MAYMOVE \<noteq> MREMAP_MAYMOVE OR MREMAP_FIXED" "0 \<noteq> MREMAP_MAYMOVE OR MREMAP_FIXED" "0 \<noteq> MREMAP_MAYMOVE"
  by (simp_all add: MREMAP_MAYMOVE_def MREMAP_FIXED_def)

lemmas ref_mremap_simps = ref_mremap_def Let_def mremap_flags

lemma one_mapping_last: "one_mapping W a n c \<Longrightarrow> W (a + of_nat (n - 1)) = Some c"
  by (simp only: one_mapping_def)

lemma ref_mremap_same_law: "mremap_same_law cfg (ref_os cfg) mem"
  by (simp add: mremap_same_law_def ref_mremap_simps)

lemma ref_mremap_shrink_law: "mremap_shrink_law cfg (ref_os cfg) mem"
  by (auto simp: mremap_shrink_law_def ref_mremap_simps)

lemma ref_mremap_grow_law: "mremap_grow_law cfg (ref_os cfg) mem (ref_avail cfg)"
  unfolding mremap_grow_law_def
proof (intro allI impI, elim conjE)
  fix k :: ref_mem and a m n na :: u64 and c
  assume g: "growable cfg (mem k) a m n c" and v: "vacant (mem k) (a + m) (unat n - unat m)"
  have "mem k (a + of_nat (unat m - 1)) = Some c" "unat m < unat n"
    using g one_mapping_last by (simp_all only: growable_def)
  moreover have "mem k (a + m) = None" using v \<open>unat m < unat n\<close> by (auto simp: vacant_def dest: spec [of _ 0])
  ultimately show "\<exists>k'. os_mremap (ref_os cfg) a m n 0 na k = (Inr a, k')
      \<and> mem k' = fill (mem k) (a + m) (unat n - unat m) (\<lambda>_. grown_cell c)"
    by (auto simp: ref_mremap_simps simp del: of_nat_diff)
qed

lemma ref_mremap_blocked_law: "mremap_blocked_law cfg (ref_os cfg) mem"
  by (auto simp: mremap_blocked_law_def ref_mremap_simps growable_def)

lemma ref_mremap_move_law: "mremap_move_law cfg (ref_os cfg) mem (ref_avail cfg)"
  unfolding mremap_move_law_def
proof (intro allI impI, elim conjE)
  fix k :: ref_mem and a m n na :: u64 and c
  let ?f = "\<lambda>W b. fill (fill W a (unat m) (\<lambda>_. None)) b (unat n) (\<lambda>i. if i < unat m then mem k (a + of_nat i) else grown_cell c)"
  assume g: "growable cfg (mem k) a m n c" and av: "unat n \<le> ref_avail cfg k"
  have c: "mem k (a + of_nat (unat m - 1)) = Some c" and n: "0 < unat n" "page_multiple cfg (unat n)"
    using g one_mapping_last by (auto simp only: growable_def)
  have ready: "ref_ready cfg k" "nxt k < SPACE"
    using n(1) av HALF_SPACE by (auto simp: ref_avail_def split: if_splits)
  have "?f (mem k) (of_nat (nxt k)) x = None" if "nxt k + unat n \<le> unat x" for x
    using that ready by (simp add: fill_above) (simp add: fill_def ref_ready_def)
  from ref_alloc_ready [OF n(1) av n(2), of ?f, OF this]
  show "\<exists>b k'. os_mremap (ref_os cfg) a m n MREMAP_MAYMOVE na k = (Inr b, k')
        \<and> b \<noteq> 0 \<and> page_multiple cfg (unat b) \<and> fits b (unat n) \<and> vacant (mem k) b (unat n)
        \<and> mem k' = fill (fill (mem k) a (unat m) (\<lambda>_. None)) b (unat n)
                   (\<lambda>i. if i < unat m then mem k (a + of_nat i) else grown_cell c)"
    unfolding ref_os_simps ref_mremap_def Let_def c option.sel using mremap_flags(1) by auto
qed

lemma ref_mremap_fixed_law: "mremap_fixed_law cfg (ref_os cfg) mem"
  unfolding mremap_fixed_law_def
proof (intro allI impI, elim conjE)
  fix k :: ref_mem and a n na :: u64 and c
  assume "\<not> overlap a (unat n) na (unat n)"
  then show "\<exists>k'. os_mremap (ref_os cfg) a n n (MREMAP_MAYMOVE OR MREMAP_FIXED) na k = (Inr na, k')
        \<and> mem k' = fill (fill (mem k) a (unat n) (\<lambda>_. None)) na (unat n) (\<lambda>i. mem k (a + of_nat i))"
    by (auto simp: ref_mremap_simps fill_def fun_eq_iff)
qed

lemma ref_mremap_overlap_law: "mremap_overlap_law cfg (ref_os cfg)"
  by (auto simp: mremap_overlap_law_def ref_mremap_simps)

lemma ref_contract: "vm_contract cfg (ref_os cfg) mem (ref_avail cfg)"
  unfolding vm_contract_def
  by (intro conjI ref_load_law ref_store_law ref_mmap_law ref_mmap_fixed_law ref_munmap_law ref_mremap_same_law
      ref_mremap_shrink_law ref_mremap_grow_law ref_mremap_blocked_law ref_mremap_move_law ref_mremap_fixed_law
      ref_mremap_overlap_law) (simp_all add: sigaction_law_def)

lemma ref_init_avail: "2 ^ 62 \<le> ref_avail cfg (ref_init cfg)"
  by (cases cfg) (simp_all add: ref_avail_def ref_ready_def ref_init_def page_multiple_def HALF_def PAGE_SIZE_def)

end
