(* ===== verification/Mremap_Lib.thy ===== *)
theory Mremap_Lib
  imports Framework Vm
begin

text \<open>
  The suite \<^verbatim>\<open>test_mck/src/mremap_mmap_anon\<close>: its library (\<^verbatim>\<open>mremap_mmap_anon.c\<close>,
  \<^verbatim>\<open>testsuite.h\<close>) and its 68 test cases.
\<close>

section \<open>Arguments of the suite\<close>

record mremap_args =
  arg_text :: u64
  arg_text_len :: u64
  arg_data :: u64
  arg_data_len :: u64
  arg_bss :: u64
  arg_bss_len :: u64

definition no_args :: mremap_args where
  "no_args = \<lparr>arg_text = 0, arg_text_len = 0, arg_data = 0, arg_data_len = 0, arg_bss = 0, arg_bss_len = 0\<rparr>"

definition long_options :: "(string \<times> bool \<times> char) list" where
  "long_options = [(''text'', True, CHR ''t''), (''text-len'', True, CHR ''T''), (''data'', True, CHR ''d''),
     (''data-len'', True, CHR ''D''), (''bss'', True, CHR ''b''), (''bss-len'', True, CHR ''B'')]"

fun set_arg :: "optres \<Rightarrow> mremap_args \<Rightarrow> mremap_args" where
  "set_arg (Opt c optarg) args =
     (let v = test_mck_strtoul optarg 0 in
      if c = CHR ''t'' then args\<lparr>arg_text := v\<rparr>
      else if c = CHR ''T'' then args\<lparr>arg_text_len := v\<rparr>
      else if c = CHR ''d'' then args\<lparr>arg_data := v\<rparr>
      else if c = CHR ''D'' then args\<lparr>arg_data_len := v\<rparr>
      else if c = CHR ''b'' then args\<lparr>arg_bss := v\<rparr>
      else if c = CHR ''B'' then args\<lparr>arg_bss_len := v\<rparr>
      else args)"
| "set_arg BadOpt args = args"

definition mremap_mmap_anon_parse_argument :: "string list \<Rightarrow> mremap_args" where
  "mremap_mmap_anon_parse_argument argv = fold set_arg (getopt_long ''t:T:d:D:b:B:'' long_options argv) no_args"

definition mremap_mmap_anon_verify_section_argument :: "mremap_args \<Rightarrow> string option" where
  "mremap_mmap_anon_verify_section_argument args =
     (if arg_text args = 0 then Some ''invalid argument(-t, --text).''
      else if arg_text_len args = 0 then Some ''invalid argument(-T, --text-len).''
      else if arg_data args = 0 then Some ''invalid argument(-d, --data).''
      else if arg_data_len args = 0 then Some ''invalid argument(-D, --data-len).''
      else if arg_bss args = 0 then Some ''invalid argument(-b, --bss).''
      else if arg_bss_len args = 0 then Some ''invalid argument(-B, --bss-len).''
      else None)"

section \<open>The suite's library\<close>

definition MREMAP_RANGE_SIZE :: "page_config \<Rightarrow> u64" where
  "MREMAP_RANGE_SIZE cfg = PAGE_SIZE cfg * 4"

definition MREMAP_RANGE_LARGE_SIZE :: "page_config \<Rightarrow> u64" where
  "MREMAP_RANGE_LARGE_SIZE cfg = align_up (LARGE_PAGE_SIZE cfg) (MREMAP_RANGE_SIZE cfg)"

record mremap_mmap_anon_param =
  p_addr :: u64
  p_size :: u64
  p_nopage :: bool
  p_shared :: bool
  p_prot :: u32

type_synonym params = "mremap_mmap_anon_param list"

text \<open>The first loop: the sum of the sizes, \<open>None\<close> when it wraps around.\<close>

fun total_size :: "u64 \<Rightarrow> params \<Rightarrow> u64 option \<times> params" where
  "total_size t [] = (Some t, [])"
| "total_size t (p # ps) =
     (let sum = t + p_size p in
      if sum < t then (None, p # ps)
      else let (r, ps') = total_size sum ps in (r, p\<lparr>p_addr := MAP_FAILED\<rparr> # ps'))"

text \<open>The second loop, from entry \<open>i\<close> at \<open>addr\<close>: the index it stops at, and the entries.\<close>

fun format_space :: "('k, 'z) vm_os_scheme \<Rightarrow> nat \<Rightarrow> u64 \<Rightarrow> params \<Rightarrow> ('k, nat \<times> params) prog" where
  "format_space K i addr [] = ret (i, [])"
| "format_space K i addr (p # ps) =
     (let p' = p\<lparr>p_addr := addr\<rparr> in
      if p_nopage p then
        exec (munmap K addr (p_size p)) (\<lambda>r.
        if r \<noteq> 0 then ret (i, p' # ps)
        else
          exec (format_space K (Suc i) (addr + p_size p) ps) (\<lambda>(n, ps').
          ret (n, p' # ps')))
      else
        let flags = (MAP_ANONYMOUS OR MAP_FIXED) OR (if p_shared p then MAP_SHARED else MAP_PRIVATE) in
        exec (mmap K addr (p_size p) (p_prot p) flags (-1) 0) (\<lambda>addr'.
        if addr' = MAP_FAILED then ret (i, p' # ps)
        else
          exec (if p_prot p AND PROT_WRITE \<noteq> 0 then memset K addr' (of_nat (48 + i)) (unat (p_size p)) else ret ()) (\<lambda>_.
          exec (format_space K (Suc i) (addr' + p_size p) ps) (\<lambda>(n, ps').
          ret (n, p' # ps')))))"

definition mremap_mmap_anon :: "('k, 'z) vm_os_scheme \<Rightarrow> params \<Rightarrow> ('k, nat \<times> params) prog" where
  "mremap_mmap_anon K params =
     (case total_size 0 params of
        (None, params') \<Rightarrow> ret (0, params')
      | (Some total_sz, params') \<Rightarrow>
          exec (mmap K 0 total_sz PROT_NONE (MAP_SHARED OR MAP_ANONYMOUS) (-1) 0) (\<lambda>addr.
          if addr = MAP_FAILED then ret (0, params')
          else format_space K 0 addr params'))"

fun data_check_from :: "('k, 'z) vm_os_scheme \<Rightarrow> u64 \<Rightarrow> nat \<Rightarrow> byte \<Rightarrow> ('k, string option) prog" where
  "data_check_from K pch 0 expected = ret None"
| "data_check_from K pch (Suc n) expected =
     exec (load K pch) (\<lambda>b.
     if b \<noteq> expected then ret (Some ''data check error.'') else data_check_from K (pch + 1) n expected)"

definition mremap_mmap_anon_data_check :: "('k, 'z) vm_os_scheme \<Rightarrow> u64 \<Rightarrow> u64 \<Rightarrow> byte \<Rightarrow> ('k, string option) prog" where
  "mremap_mmap_anon_data_check K addr len expected = data_check_from K addr (unat len) expected"

definition mremap_mmap_anon_access_check :: "('k, 'z) vm_os_scheme \<Rightarrow> u64 \<Rightarrow> u64 \<Rightarrow> ('k, string option) prog" where
  "mremap_mmap_anon_access_check K addr len =
     (if addr = 0 then ret (Some ''invalid address'')
      else if len = 0 then ret None
      else
        exec (store K addr 65) (\<lambda>_.
        exec (load K addr) (\<lambda>ch.
        tp_assert (ch = 65) (Some ''first page access error'') (
        exec (store K (addr + (len - 1)) 90) (\<lambda>_.
        exec (load K (addr + (len - 1))) (\<lambda>ch.
        tp_assert (ch = 90) (Some ''last page access error'') (
        exec (memset K addr 48 (unat len)) (\<lambda>_.
        ret None))))))))"

text \<open>The handler is \<^verbatim>\<open>mremap_mmap_anon_signal_handler\<close>, whose body is \<^verbatim>\<open>exit(0)\<close>.\<close>

definition mremap_mmap_anon_setup_signal_handler :: "('k, 'z) vm_os_scheme \<Rightarrow> int \<Rightarrow> ('k, string option) prog" where
  "mremap_mmap_anon_setup_signal_handler K signum =
     exec (sigaction_exit K signum 0) (\<lambda>r.
     if r \<noteq> 0 then ret (Some ''sigaction(SIGSEGV) error.'') else ret None)"

section \<open>The library on a kernel that meets the contract\<close>

lemma wp_data_check_from:
  assumes "vm_contract cfg K V A" and "\<forall>i<n. holds b (V (kern s) (a + of_nat i))"
    and "\<And>t. becomes V A (V (kern s)) 0 s t \<Longrightarrow> Q (Val None) t"
  shows "wp (data_check_from K a n b) Q s"
  using assms(2-)
proof (induction n arbitrary: a s)
  case 0
  then show ?case by (simp add: wp_ret becomes_def)
next
  case (Suc n)
  have "holds b (V (kern s) a)" using Suc.prems(1) [rule_format, of 0] by simp
  moreover have "wp (data_check_from K (a + 1) n b) Q t" if t: "becomes V A (V (kern s)) 0 s t" for t
  proof (rule Suc.IH)
    show "\<forall>i<n. holds b (V (kern t) (a + 1 + of_nat i))"
      using Suc.prems(1) [rule_format, of "Suc i" for i] by (simp add: becomes_view [OF t] add.assoc)
    show "Q (Val None) u" if "becomes V A (V (kern t)) 0 t u" for u
      using Suc.prems(2) becomes_trans [OF t that] becomes_view [OF t] by simp
  qed
  ultimately show ?case
    unfolding data_check_from.simps
    by (intro wp_exec wp_load_byte [OF assms(1), where b = b] run_case_Val wp_if) simp_all
qed

lemma wp_data_check:
  assumes "vm_contract cfg K V A" and "\<forall>i<unat len. holds b (V (kern s) (a + of_nat i))"
    and "\<And>t. becomes V A (V (kern s)) 0 s t \<Longrightarrow> Q (Val None) t"
  shows "wp (mremap_mmap_anon_data_check K a len b) Q s"
  unfolding mremap_mmap_anon_data_check_def by (rule wp_data_check_from [OF assms(1)]) (rule assms(2), rule assms(3))

lemma wp_touch:
  assumes "vm_contract cfg K V A" and "x = a + of_nat j" "j < n" "\<forall>i<n. usable (V (kern s) (a + of_nat i))"
    and "\<And>t. \<forall>i<n. usable (V (kern t) (a + of_nat i)) \<Longrightarrow> wp k Q t"
  shows "wp (exec (store K x b) (\<lambda>_. exec (load K x) (\<lambda>ch. tp_assert (ch = b) msg k))) Q s"
proof -
  have "usable (V (kern s) x)" using assms(2-4) by simp
  then show ?thesis using assms(4)
    by (intro wp_exec wp_store_byte [OF assms(1)] wp_load_byte [OF assms(1), where b = b] run_case_Val)
      (simp_all add: becomes_view assms(5))
qed

lemma wp_access_check:
  assumes "vm_contract cfg K V A" and "a \<noteq> 0" and "\<forall>i<unat len. usable (V (kern s) (a + of_nat i))"
    and "\<And>t. Q (Val None) t"
  shows "wp (mremap_mmap_anon_access_check K a len) Q s"
proof (cases "len = 0")
  case True
  then show ?thesis using assms(2,4) by (simp add: mremap_mmap_anon_access_check_def wp_ret)
next
  case False
  have pos: "0 < unat len" using False by (simp add: unat_gt_0)
  have last: "a + (len - 1) = a + of_nat (unat len - 1)" using pos by (simp add: of_nat_diff)
  have "wp (exec (memset K a 48 (unat len)) (\<lambda>_. ret None)) Q t"
    if "\<forall>i<unat len. usable (V (kern t) (a + of_nat i))" for t
    using that assms(4) SPACE_unat [of len]
    by (intro wp_exec wp_memset [OF assms(1)] run_case_Val wp_ret) simp_all
  then have "wp (exec (store K a 65) (\<lambda>_. exec (load K a) (\<lambda>ch. tp_assert (ch = 65) (Some ''first page access error'')
      (exec (store K (a + (len - 1)) 90) (\<lambda>_. exec (load K (a + (len - 1))) (\<lambda>ch.
       tp_assert (ch = 90) (Some ''last page access error'') (exec (memset K a 48 (unat len)) (\<lambda>_. ret None)))))))) Q s"
    using pos by (intro wp_touch [OF assms(1) _ _ assms(3), of a 0] wp_touch [OF assms(1) last]) simp_all
  then show ?thesis unfolding mremap_mmap_anon_access_check_def using False assms(2) by (simp only: if_False)
qed

lemma wp_setup_signal_handler:
  assumes "vm_contract cfg K V A" and "sig = SIGSEGV \<or> sig = SIGBUS"
    and "\<And>t. V (kern t) = V (kern s) \<Longrightarrow> handlers t sig = Some 0 \<Longrightarrow> Q (Val None) t"
  shows "wp (mremap_mmap_anon_setup_signal_handler K sig) Q s"
  unfolding mremap_mmap_anon_setup_signal_handler_def using assms(2,3)
  by (intro wp_exec wp_sigaction_exit [OF assms(1)] run_case_Val wp_if) (simp_all add: wp_ret)

text \<open>
  The layout \<open>mremap_mmap_anon\<close> produces: entry \<open>i\<close> is unmapped, or mapped with its
  protection and, when writable, filled with the digit \<open>i\<close>.
\<close>

definition param_cell :: "nat \<Rightarrow> mremap_mmap_anon_param \<Rightarrow> nat \<Rightarrow> cell option" where
  "param_cell i p d =
     (if p_nopage p then None
      else let c = new_cell (p_prot p) (p_shared p) (unat (p_size p)) d in
           if p_prot p AND PROT_WRITE \<noteq> 0 then set_data (of_nat (48 + i)) c else c)"

fun layout :: "nat \<Rightarrow> u64 \<Rightarrow> params \<Rightarrow> space \<Rightarrow> space" where
  "layout i a [] W = W"
| "layout i a (p # ps) W = layout (Suc i) (a + p_size p) ps (fill W a (unat (p_size p)) (param_cell i p))"

fun place :: "u64 \<Rightarrow> params \<Rightarrow> params" where
  "place a [] = []"
| "place a (p # ps) = p\<lparr>p_addr := a\<rparr> # place (a + p_size p) ps"

fun extent :: "params \<Rightarrow> nat" where
  "extent [] = 0"
| "extent (p # ps) = unat (p_size p) + extent ps"

fun cell_at :: "nat \<Rightarrow> params \<Rightarrow> nat \<Rightarrow> cell option" where
  "cell_at i [] d = None"
| "cell_at i (p # ps) d = (if d < unat (p_size p) then param_cell i p d else cell_at (Suc i) ps (d - unat (p_size p)))"

definition param_ok :: "page_config \<Rightarrow> mremap_mmap_anon_param \<Rightarrow> bool" where
  "param_ok cfg p \<longleftrightarrow> page_multiple cfg (unat (p_size p)) \<and> 0 < unat (p_size p)
     \<and> (p_prot p = PROT_NONE \<or> p_prot p = PROT_READ \<or> p_prot p = PROT_READ OR PROT_WRITE)"

lemma fill_fill: "fill (fill W a n f) a n g = fill W a n g"
  by (auto simp: fill_def fun_eq_iff)

lemma fill_cong: "(\<And>i. i < n \<Longrightarrow> f i = g i) \<Longrightarrow> fill W a n f = fill W a n g"
  by (auto simp: fill_def fun_eq_iff)

lemma usable_new_cell: "usable (new_cell (PROT_READ OR PROT_WRITE) shared n d)"
  by (simp add: usable_def new_cell_def readable_def writable_def PROT_READ_def PROT_WRITE_def)

lemma prot_write_cases:
  "PROT_NONE AND PROT_WRITE = 0" "PROT_READ AND PROT_WRITE = 0" "(PROT_READ OR PROT_WRITE) AND PROT_WRITE \<noteq> 0"
  by (simp_all add: PROT_NONE_def PROT_READ_def PROT_WRITE_def)

lemma memset_flags:
  "(MAP_ANONYMOUS OR MAP_FIXED) OR (if sh then MAP_SHARED else MAP_PRIVATE) = MAP_FIXED OR anon_flags sh"
  "MAP_SHARED OR MAP_ANONYMOUS = anon_flags True"
  by (simp_all add: anon_flags_def MAP_ANONYMOUS_def MAP_FIXED_def MAP_SHARED_def MAP_PRIVATE_def)

lemma not_MAP_FAILED:
  assumes "page_multiple cfg (unat a)"
  shows "a \<noteq> MAP_FAILED"
proof
  assume "a = MAP_FAILED"
  moreover have "unat (-1 :: u64) = SPACE - 1" using unat_diff_window [of 0 1] by (simp add: SPACE_def)
  ultimately have "odd (unat a)" by (simp add: MAP_FAILED_def SPACE_def)
  moreover have "even (2 ^ PAGE_SHIFT cfg :: nat)" using page_shift_bounds(1) [of cfg] by simp
  ultimately show False using assms dvd_trans unfolding page_multiple_def by blast
qed

text \<open>One entry of the second loop.\<close>

lemma wp_format_entry:
  assumes "vm_contract cfg K V A" and "param_ok cfg p" "\<not> p_nopage p"
    and "page_multiple cfg (unat a)" "fits a (unat (p_size p))" "occupied (V (kern s)) a (unat (p_size p))"
    and "unat (p_size p) \<le> A (kern s)"
    and "\<And>t. becomes V A (fill (V (kern s)) a (unat (p_size p)) (param_cell i p)) (unat (p_size p)) s t \<Longrightarrow> wp (k a) Q t"
  shows "wp (exec (mmap K a (p_size p) (p_prot p) (MAP_FIXED OR anon_flags (p_shared p)) (-1) 0) (\<lambda>addr'.
    if addr' = MAP_FAILED then m
    else exec (if p_prot p AND PROT_WRITE \<noteq> 0 then memset K addr' (of_nat (48 + i)) (unat (p_size p)) else ret ()) (\<lambda>_. k addr'))) Q s"
proof -
  let ?n = "unat (p_size p)" and ?f = "new_cell (p_prot p) (p_shared p) (unat (p_size p))"
  have body: "wp (exec (if p_prot p AND PROT_WRITE \<noteq> 0 then memset K a (of_nat (48 + i)) ?n else ret ()) (\<lambda>_. k a)) Q t"
    if t: "becomes V A (fill (V (kern s)) a ?n ?f) ?n s t" for t
  proof (cases "p_prot p AND PROT_WRITE \<noteq> 0")
    case False
    then have "param_cell i p = ?f" using assms(3) by (simp add: param_cell_def fun_eq_iff)
    then show ?thesis using False t assms(8) by simp
  next
    case True
    then have prot: "p_prot p = PROT_READ OR PROT_WRITE" using assms(2) prot_write_cases unfolding param_ok_def by metis
    have small: "?n < SPACE" by (rule SPACE_unat)
    have cells: "V (kern t) (a + of_nat d) = ?f d" if "d < ?n" for d
      using that small by (simp add: becomes_view [OF t] fill_window0)
    have "fill (V (kern t)) a ?n (\<lambda>d. set_data (of_nat (48 + i)) (V (kern t) (a + of_nat d)))
        = fill (V (kern t)) a ?n (param_cell i p)"
      by (rule fill_cong) (simp add: cells True assms(3) param_cell_def)
    then have eq: "fill (V (kern t)) a ?n (\<lambda>d. set_data (of_nat (48 + i)) (V (kern t) (a + of_nat d)))
        = fill (V (kern s)) a ?n (param_cell i p)" by (simp only: becomes_view [OF t] fill_fill)
    have "wp (memset K a (of_nat (48 + i)) ?n) (\<lambda>r t. case r of Val b \<Rightarrow> wp (k a) Q t | Halt h \<Rightarrow> Q (Halt h) t) t"
    proof (rule wp_memset [OF assms(1)])
      show "\<forall>d<?n. usable (V (kern t) (a + of_nat d))" by (simp add: cells prot usable_new_cell)
      fix u
      assume "becomes V A (fill (V (kern t)) a ?n (\<lambda>d. set_data (of_nat (48 + i)) (V (kern t) (a + of_nat d)))) 0 t u"
      from becomes_trans [OF t this [unfolded eq]] show "case Val () of Val b \<Rightarrow> wp (k a) Q u | Halt h \<Rightarrow> Q (Halt h) u"
        by (simp add: assms(8))
    qed (use small in simp)
    then show ?thesis using True by (simp add: wp_exec)
  qed
  show ?thesis
    using assms(2) not_MAP_FAILED [OF assms(4)] body
    by (intro wp_exec wp_mmap_fixed [OF assms(1,4)] run_case_Val) (simp_all add: param_ok_def assms(5-7))
qed

lemma occupied_rest:
  assumes "occupied W a (m + n)" "m + n < SPACE"
  shows "occupied (fill W a m f) (a + of_nat m) n"
  unfolding occupied_def
proof (intro allI impI)
  fix i
  assume "i < n"
  then have "fill W a m f (a + of_nat (m + i)) = W (a + of_nat (m + i))" using assms(2) by (subst fill_window0) simp_all
  moreover have "W (a + of_nat (m + i)) \<noteq> None" using assms(1) \<open>i < n\<close> by (simp add: occupied_def del: of_nat_add)
  ultimately show "fill W a m f (a + of_nat m + of_nat i) \<noteq> None" by (simp add: add.assoc)
qed

lemma page_multiple_add: "page_multiple cfg m \<Longrightarrow> page_multiple cfg n \<Longrightarrow> page_multiple cfg (m + n)"
  by (simp add: page_multiple_def)

lemma param_cell_nopage: "p_nopage p \<Longrightarrow> param_cell i p = (\<lambda>_. None)"
  by (simp add: param_cell_def fun_eq_iff)

lemma wp_format_space:
  assumes "vm_contract cfg K V A" and "list_all (param_ok cfg) ps"
    and "page_multiple cfg (unat a)" "fits a (extent ps)" "occupied (V (kern s)) a (extent ps)" "extent ps \<le> A (kern s)"
    and "\<And>t. becomes V A (layout i a ps (V (kern s))) (extent ps) s t \<Longrightarrow> Q (Val (i + length ps, place a ps)) t"
  shows "wp (format_space K i a ps) Q s"
  using assms(2-)
proof (induction ps arbitrary: i a s Q)
  case Nil
  then show ?case by (simp add: wp_ret becomes_def)
next
  case (Cons p ps)
  let ?n = "unat (p_size p)"
  have ok: "param_ok cfg p" and oks: "list_all (param_ok cfg) ps" using Cons.prems(1) by simp_all
  have fit: "unat a + ?n + extent ps < SPACE" using Cons.prems(3) by (simp add: fits_def)
  have a': "a + of_nat ?n = a + p_size p" by simp
  have unat_a': "unat (a + p_size p) = unat a + ?n" using fit unat_add_fits [of a ?n] by simp
  have occ: "occupied (V (kern s)) a ?n" using Cons.prems(4) by (simp add: occupied_def)
  have rest: "wp (exec (format_space K (Suc i) (a + p_size p) ps) (\<lambda>(n, ps'). ret (n, p\<lparr>p_addr := a\<rparr> # ps'))) Q t"
    if t: "becomes V A (fill (V (kern s)) a ?n (param_cell i p)) m s t" and m: "m \<le> ?n" for t m
  proof (intro wp_exec Cons.IH [OF oks])
    show "page_multiple cfg (unat (a + p_size p))"
      using Cons.prems(2) ok unat_a' by (simp add: page_multiple_add param_ok_def)
    show "fits (a + p_size p) (extent ps)" using fit unat_a' by (simp add: fits_def)
    show "occupied (V (kern t)) (a + p_size p) (extent ps)"
      using occupied_rest [of "V (kern s)" a ?n "extent ps" "param_cell i p"] Cons.prems(4) fit by (simp add: becomes_view [OF t])
    show "extent ps \<le> A (kern t)" using becomes_avail [OF t, of "extent ps"] Cons.prems(5) m by simp
    fix u
    assume "becomes V A (layout (Suc i) (a + p_size p) ps (V (kern t))) (extent ps) t u"
    from becomes_trans [OF t this]
    have "becomes V A (layout i a (p # ps) (V (kern s))) (extent (p # ps)) s u"
      using m by (simp add: becomes_view [OF t] becomes_def)
    from Cons.prems(6) [OF this]
    show "case Val (Suc i + length ps, place (a + p_size p) ps) of
        Val r \<Rightarrow> wp (case r of (n, ps') \<Rightarrow> ret (n, p\<lparr>p_addr := a\<rparr> # ps')) Q u | Halt h \<Rightarrow> Q (Halt h) u"
      by (simp add: wp_ret)
  qed
  show ?case
  proof (cases "p_nopage p")
    case True
    have "wp (munmap K a (p_size p)) (\<lambda>r t. case r of Val v \<Rightarrow> wp (if v \<noteq> 0 then ret (i, p\<lparr>p_addr := a\<rparr> # ps)
        else exec (format_space K (Suc i) (a + p_size p) ps) (\<lambda>(n, ps'). ret (n, p\<lparr>p_addr := a\<rparr> # ps'))) Q t
        | Halt h \<Rightarrow> Q (Halt h) t) s"
    proof (rule wp_munmap [OF assms(1) Cons.prems(2)])
      fix t
      assume "becomes V A (fill (V (kern s)) a ?n (\<lambda>_. None)) 0 s t"
      then show "case Val 0 of Val v \<Rightarrow> wp (if v \<noteq> 0 then ret (i, p\<lparr>p_addr := a\<rparr> # ps)
        else exec (format_space K (Suc i) (a + p_size p) ps) (\<lambda>(n, ps'). ret (n, p\<lparr>p_addr := a\<rparr> # ps'))) Q t
        | Halt h \<Rightarrow> Q (Halt h) t" using rest [of 0 t] True by (simp add: param_cell_nopage)
    qed (use ok fit in \<open>simp_all add: param_ok_def fits_def\<close>)
    then show ?thesis using True by (simp add: Let_def wp_exec)
  next
    case False
    then show ?thesis
      using fit occ Cons.prems(5) rest
      by (simp add: Let_def memset_flags)
        (rule wp_format_entry [OF assms(1) ok False Cons.prems(2)], simp_all add: fits_def)
  qed
qed

lemma total_size_fits:
  assumes "unat t + extent ps < SPACE"
  shows "total_size t ps = (Some (t + of_nat (extent ps)), map (p_addr_update (\<lambda>_. MAP_FAILED)) ps)"
  using assms
proof (induction ps arbitrary: t)
  case (Cons p ps)
  have sum: "unat (t + p_size p) = unat t + unat (p_size p)"
    using Cons.prems unat_add_fits [of t "unat (p_size p)"] by simp
  then have "\<not> t + p_size p < t" by (simp add: word_less_nat_alt)
  moreover have "t + p_size p + of_nat (extent ps) = t + of_nat (extent (p # ps))" by simp
  ultimately show ?case using Cons.IH [of "t + p_size p"] Cons.prems sum by (simp add: Let_def)
qed simp

lemma total_size_wraps:
  assumes "SPACE \<le> unat t + extent ps"
  shows "fst (total_size t ps) = None"
  using assms
proof (induction ps arbitrary: t)
  case Nil
  then show ?case using SPACE_unat [of t] by simp
next
  case (Cons p ps)
  show ?case
  proof (cases "unat t + unat (p_size p) < SPACE")
    case True
    then have "unat (t + p_size p) = unat t + unat (p_size p)" using unat_add_fits [of t "unat (p_size p)"] by simp
    then have "fst (total_size (t + p_size p) ps) = None" using Cons.IH [of "t + p_size p"] Cons.prems by simp
    then show ?thesis by (auto simp: Let_def split: prod.splits)
  next
    case False
    define u where "u = unat t + unat (p_size p)"
    have "u < 2 * SPACE" "SPACE \<le> u" using False SPACE_unat [of t] SPACE_unat [of "p_size p"] by (simp_all add: u_def)
    then have "of_nat u = (of_nat (u - SPACE) :: u64)" by (simp add: of_nat_diff of_nat_SPACE)
    then have "t + p_size p = of_nat (u - SPACE)" by (simp add: u_def)
    then have "unat (t + p_size p) = u - SPACE" using \<open>u < 2 * SPACE\<close> by (simp add: unat_of_nat_SPACE)
    also have "\<dots> < unat t" using SPACE_unat [of "p_size p"] \<open>SPACE \<le> u\<close> by (simp add: u_def)
    finally have "t + p_size p < t" by (simp add: word_less_nat_alt)
    then show ?thesis by (simp add: Let_def)
  qed
qed

lemma extent_failed [simp]: "extent (map (p_addr_update f) ps) = extent ps"
  by (induction ps) simp_all

lemma place_failed [simp]: "place a (map (p_addr_update f) ps) = place a ps"
  by (induction ps arbitrary: a) simp_all

lemma layout_failed [simp]: "layout i a (map (p_addr_update f) ps) W = layout i a ps W"
proof (induction ps arbitrary: i a W)
  case (Cons p ps)
  have "param_cell i (p_addr_update f p) = param_cell i p" by (simp add: param_cell_def fun_eq_iff)
  with Cons show ?case by simp
qed simp

lemma ok_failed [simp]: "list_all (param_ok cfg) (map (p_addr_update f) ps) = list_all (param_ok cfg) ps"
  by (induction ps) (simp_all add: param_ok_def)

lemma layout_outside:
  assumes "d < o'" and "o' + extent ps < SPACE"
  shows "layout i (a + of_nat o') ps W (a + of_nat d) = W (a + of_nat d)"
  using assms
proof (induction ps arbitrary: i o' W)
  case (Cons p ps)
  have step: "a + of_nat o' + p_size p = a + of_nat (o' + unat (p_size p))" by simp
  show ?case using Cons.IH [of "o' + unat (p_size p)"] Cons.prems
    unfolding layout.simps step by (simp add: fill_window del: of_nat_add)
qed simp

text \<open>What the layout holds at an offset from its base.\<close>

lemma layout_window:
  assumes "d < extent ps" and "o' + extent ps < SPACE"
  shows "layout i (a + of_nat o') ps W (a + of_nat (o' + d)) = cell_at i ps d"
  using assms
proof (induction ps arbitrary: i o' d W)
  case (Cons p ps)
  let ?n = "unat (p_size p)" and ?W = "fill W (a + of_nat o') (unat (p_size p)) (param_cell i p)"
  have step: "a + of_nat o' + p_size p = a + of_nat (o' + ?n)" by simp
  show ?case
  proof (cases "d < ?n")
    case True
    have "layout (Suc i) (a + of_nat (o' + ?n)) ps ?W (a + of_nat (o' + d)) = ?W (a + of_nat (o' + d))"
      using True Cons.prems by (intro layout_outside) simp_all
    also have "\<dots> = param_cell i p d" using True Cons.prems by (subst fill_window) simp_all
    finally show ?thesis using True unfolding layout.simps step by (simp del: of_nat_add)
  next
    case False
    have "layout (Suc i) (a + of_nat (o' + ?n)) ps ?W (a + of_nat (o' + ?n + (d - ?n))) = cell_at (Suc i) ps (d - ?n)"
      using False Cons.prems by (intro Cons.IH) simp_all
    then show ?thesis using False unfolding layout.simps step by (simp del: of_nat_add)
  qed
qed simp

lemma extent_page_multiple: "list_all (param_ok cfg) ps \<Longrightarrow> page_multiple cfg (extent ps)"
  by (induction ps) (simp_all add: param_ok_def page_multiple_def)

lemma occupied_new: "n < SPACE \<Longrightarrow> occupied (fill W a n (new_cell prot shared n)) a n"
  by (simp add: occupied_def fill_window0 new_cell_def)

lemma wp_mremap_mmap_anon:
  assumes "vm_contract cfg K V A" and "list_all (param_ok cfg) ps" "0 < extent ps" "extent ps < SPACE"
    and "2 * extent ps \<le> A (kern s)"
    and "\<And>a t. \<lbrakk>a \<noteq> 0; page_multiple cfg (unat a); fits a (extent ps);
        \<forall>d<extent ps. V (kern t) (a + of_nat d) = cell_at 0 ps d; A (kern s) \<le> A (kern t) + 2 * extent ps\<rbrakk>
      \<Longrightarrow> Q (Val (length ps, place a ps)) t"
  shows "wp (mremap_mmap_anon K ps) Q s"
proof -
  let ?n = "extent ps"
  have unat_n: "unat (of_nat ?n :: u64) = ?n" by (rule unat_of_nat_SPACE [OF assms(4)])
  have format: "wp (format_space K 0 a (map (p_addr_update (\<lambda>_. MAP_FAILED)) ps)) Q t"
    if a: "a \<noteq> 0" "page_multiple cfg (unat a)" "fits a ?n"
      and t: "becomes V A (fill (V (kern s)) a ?n (new_cell PROT_NONE True ?n)) ?n s t" for a t
  proof (rule wp_format_space [OF assms(1)])
    show "occupied (V (kern t)) a (extent (map (p_addr_update (\<lambda>_. MAP_FAILED)) ps))"
      using occupied_new [OF assms(4)] by (simp add: becomes_view [OF t])
    show "extent (map (p_addr_update (\<lambda>_. MAP_FAILED)) ps) \<le> A (kern t)"
      using becomes_avail [OF t, of ?n] assms(5) by simp
    fix u
    assume "becomes V A (layout 0 a (map (p_addr_update (\<lambda>_. MAP_FAILED)) ps) (V (kern t)))
      (extent (map (p_addr_update (\<lambda>_. MAP_FAILED)) ps)) t u"
    then have u: "becomes V A (layout 0 a ps (V (kern t))) ?n t u" by simp
    have "\<forall>d<?n. V (kern u) (a + of_nat d) = cell_at 0 ps d"
      using layout_window [of _ ps 0 0 a "V (kern t)"] assms(4) by (simp add: becomes_view [OF u])
    moreover have "A (kern s) \<le> A (kern u) + 2 * ?n" using t u by (simp add: becomes_def)
    ultimately show "Q (Val (0 + length (map (p_addr_update (\<lambda>_. MAP_FAILED)) ps), place a (map (p_addr_update (\<lambda>_. MAP_FAILED)) ps))) u"
      using assms(6) [OF a] by simp
  qed (use a assms(2) in simp_all)
  have "wp (mmap K 0 (of_nat ?n) PROT_NONE (anon_flags True) (-1) 0)
     (\<lambda>r t. case r of Val addr \<Rightarrow> wp (if addr = MAP_FAILED then ret (0, map (p_addr_update (\<lambda>_. MAP_FAILED)) ps)
          else format_space K 0 addr (map (p_addr_update (\<lambda>_. MAP_FAILED)) ps)) Q t | Halt h \<Rightarrow> Q (Halt h) t) s"
  proof (rule wp_mmap_new [OF assms(1)])
    fix a t
    assume a: "a \<noteq> 0" "page_multiple cfg (unat a)" "fits a (unat (of_nat ?n :: u64))"
      "becomes V A (fill (V (kern s)) a (unat (of_nat ?n :: u64)) (new_cell PROT_NONE True (unat (of_nat ?n :: u64))))
        (unat (of_nat ?n :: u64)) s t"
    show "case Val a of Val addr \<Rightarrow> wp (if addr = MAP_FAILED then ret (0, map (p_addr_update (\<lambda>_. MAP_FAILED)) ps)
          else format_space K 0 addr (map (p_addr_update (\<lambda>_. MAP_FAILED)) ps)) Q t | Halt h \<Rightarrow> Q (Halt h) t"
      using format [OF a(1,2) a(3) [unfolded unat_n] a(4) [unfolded unat_n]] not_MAP_FAILED [OF a(2)] by simp
  qed (use assms extent_page_multiple in \<open>simp_all add: unat_n\<close>)
  then show ?thesis
    using total_size_fits [of 0 ps] assms(4)
    by (simp add: mremap_mmap_anon_def memset_flags wp_exec)
qed

text \<open>
  C16. The suite's arguments survive the command line: six numbers below \<open>2 ^ 63\<close>, given in
  hexadecimal with the long options or with the short ones, are parsed back, and the section
  check accepts them exactly when none is 0.
\<close>

definition hex :: "nat \<Rightarrow> string" where
  "hex n = ''0x'' @ show_base 16 n"

definition section_args :: "nat \<Rightarrow> nat \<Rightarrow> nat \<Rightarrow> nat \<Rightarrow> nat \<Rightarrow> nat \<Rightarrow> mremap_args" where
  "section_args t t' d d' b b' = \<lparr>arg_text = of_nat t, arg_text_len = of_nat t', arg_data = of_nat d, arg_data_len = of_nat d',
     arg_bss = of_nat b, arg_bss_len = of_nat b'\<rparr>"

lemma strtoul_hex: "n < 2 ^ 63 \<Longrightarrow> test_mck_strtoul (Some (hex n)) d = of_nat n"
  by (simp add: hex_def test_mck_strtoul_def strtoll_def strto_raw_hex Let_def del: append_Cons)

lemma of_nat_zero_iff: "n < 2 ^ 63 \<Longrightarrow> (of_nat n :: u64) = 0 \<longleftrightarrow> n = 0"
proof -
  assume "n < 2 ^ 63"
  then have "n < SPACE" by (rule less_trans) (simp add: SPACE_def)
  then have "unat (of_nat n :: u64) = n" by (rule unat_of_nat_SPACE)
  then show ?thesis unfolding unat_eq_0 [symmetric] by (simp only:)
qed

theorem parse_argument_roundtrip:
  assumes "\<forall>n\<in>{t, t', d, d', b, b'}. n < 2 ^ 63"
  shows "mremap_mmap_anon_parse_argument
      [app, ''--text'', hex t, ''--text-len'', hex t', ''--data'', hex d, ''--data-len'', hex d', ''--bss'', hex b, ''--bss-len'', hex b']
      = section_args t t' d d' b b'
    \<and> mremap_mmap_anon_parse_argument
      [app, ''-t'', hex t, ''-T'', hex t', ''-d'', hex d, ''-D'', hex d', ''-b'', hex b, ''-B'', hex b']
      = section_args t t' d d' b b'
    \<and> (mremap_mmap_anon_verify_section_argument (section_args t t' d d' b b') = None \<longleftrightarrow> 0 \<notin> {t, t', d, d', b, b'})"
  using assms
  by (simp add: mremap_mmap_anon_parse_argument_def getopt_long_def is_option_def getopt_long_element_def long_match_def
      long_options_def split_value_def strtoul_hex no_args_def section_args_def mremap_mmap_anon_verify_section_argument_def
      of_nat_zero_iff)

theorem parse_argument_roundtrip_witness:
  "mremap_mmap_anon_parse_argument [''test_mck'', ''--text'', hex 4096, ''--text-len'', hex 1, ''--data'', hex 2, ''--data-len'', hex 3,
      ''--bss'', hex 4, ''--bss-len'', hex 5] = section_args 4096 1 2 3 4 5"
  using parse_argument_roundtrip [of 4096 1 2 3 4 5 "''test_mck''"] by simp

end
