(* ===== verification/Mremap_Cases.thy ===== *)
theory Mremap_Cases
  imports Mremap_Lib
begin

text \<open>
  The 68 test cases of \<^verbatim>\<open>test_mck/src/mremap_mmap_anon\<close>. The files \<^verbatim>\<open>1xx.c\<close> repeat
  \<^verbatim>\<open>0xx.c\<close> with shared mappings, \<^verbatim>\<open>2xx.c\<close> and \<^verbatim>\<open>3xx.c\<close> repeat both with ranges of a large
  page; \<open>R\<close> and \<open>shared\<close> are these two parameters, and a definition per file instantiates them.
\<close>

section \<open>The blocks the test functions consist of\<close>

definition use_space :: "u64 \<Rightarrow> u32 \<Rightarrow> bool \<Rightarrow> mremap_mmap_anon_param" where
  "use_space sz prot shared = \<lparr>p_addr = 0, p_size = sz, p_nopage = False, p_shared = shared, p_prot = prot\<rparr>"

definition free_space :: "u64 \<Rightarrow> mremap_mmap_anon_param" where
  "free_space sz = \<lparr>p_addr = 0, p_size = sz, p_nopage = True, p_shared = False, p_prot = PROT_NONE\<rparr>"

definition init_block :: "('k, 'z) vm_os_scheme \<Rightarrow> params \<Rightarrow> (params \<Rightarrow> ('k, string option) prog) \<Rightarrow> ('k, string option) prog" where
  "init_block K params k =
     exec (mremap_mmap_anon K params) (\<lambda>(maps, params').
     tp_assert (maps = length params) (Some ''mmap error.'') (k params'))"

text \<open>
  \<^verbatim>\<open>errno = 0; remap = mremap(...)\<close> and the two assertions, on the address and on \<^verbatim>\<open>errno\<close>. The
  fifth argument of \<^verbatim>\<open>mremap\<close> is left out by the tests without \<^verbatim>\<open>MREMAP_FIXED\<close>; the model
  passes 0.
\<close>

definition remap_block ::
    "('k, 'z) vm_os_scheme \<Rightarrow> u64 \<Rightarrow> u64 \<Rightarrow> u64 \<Rightarrow> u32 \<Rightarrow> u64 \<Rightarrow> (u64 \<Rightarrow> bool) \<Rightarrow> int
     \<Rightarrow> (u64 \<Rightarrow> ('k, string option) prog) \<Rightarrow> ('k, string option) prog" where
  "remap_block K addr old_size new_size flags naddr good err k =
     exec (set_errno 0) (\<lambda>_.
     exec (mremap K addr old_size new_size flags naddr) (\<lambda>remap.
     tp_assert (good remap) (Some ''mremap error.'') (
     exec get_errno (\<lambda>e.
     tp_assert (e = err) (Some ''invalid errno.'') (k remap)))))"

definition check_block :: "('k, string option) prog \<Rightarrow> ('k, string option) prog \<Rightarrow> ('k, string option) prog" where
  "check_block m k = exec m (\<lambda>msg. tp_assert (msg = None) msg k)"

definition signal_block :: "('k, 'z) vm_os_scheme \<Rightarrow> int \<Rightarrow> u64 \<Rightarrow> ('k, string option) prog" where
  "signal_block K sig a =
     check_block (mremap_mmap_anon_setup_signal_handler K sig) (
     exec (load K a) (\<lambda>ch.
     ret (Some ''signal handling error'')))"

abbreviation RW :: u32 where "RW \<equiv> PROT_READ OR PROT_WRITE"

section \<open>The test functions\<close>

definition run_same_size :: "('k, 'z) vm_os_scheme \<Rightarrow> page_config \<Rightarrow> u64 \<Rightarrow> bool \<Rightarrow> ('k, string option) prog" where
  "run_same_size K cfg R shared =
     (let params = [use_space R RW shared, use_space R PROT_NONE shared];
          old_size = p_size (params ! 0); new_size = old_size in
      init_block K params (\<lambda>params.
      remap_block K (p_addr (params ! 0)) old_size new_size 0 0 (\<lambda>remap. remap \<noteq> MAP_FAILED) 0 (\<lambda>remap.
      check_block (mremap_mmap_anon_data_check K remap old_size 48) (
      check_block (mremap_mmap_anon_access_check K remap new_size) (
      ret None)))))"

definition run_huge_size :: "('k, 'z) vm_os_scheme \<Rightarrow> page_config \<Rightarrow> u64 \<Rightarrow> bool \<Rightarrow> ('k, string option) prog" where
  "run_huge_size K cfg R shared =
     (let params = [use_space R RW shared, use_space R PROT_NONE shared];
          old_size = of_int (os_pagesize K * -2); new_size = old_size in
      init_block K params (\<lambda>params.
      remap_block K (p_addr (params ! 0)) old_size new_size 0 0 (\<lambda>remap. remap \<noteq> MAP_FAILED) 0 (\<lambda>remap.
      check_block (mremap_mmap_anon_data_check K remap (p_size (params ! 0)) 48) (
      check_block (mremap_mmap_anon_access_check K remap (p_size (params ! 0))) (
      ret None)))))"

definition run_shrink :: "('k, 'z) vm_os_scheme \<Rightarrow> page_config \<Rightarrow> u64 \<Rightarrow> bool \<Rightarrow> ('k, string option) prog" where
  "run_shrink K cfg R shared =
     (let params = [use_space (R * 2) RW shared, use_space R PROT_NONE shared];
          old_size = p_size (params ! 0); new_size = old_size - PAGE_SIZE cfg in
      init_block K params (\<lambda>params.
      remap_block K (p_addr (params ! 0)) old_size new_size 0 0 (\<lambda>remap. remap \<noteq> MAP_FAILED) 0 (\<lambda>remap.
      check_block (mremap_mmap_anon_data_check K remap new_size 48) (
      check_block (mremap_mmap_anon_access_check K remap new_size) (
      ret None)))))"

definition run_grow :: "('k, 'z) vm_os_scheme \<Rightarrow> page_config \<Rightarrow> u64 \<Rightarrow> bool \<Rightarrow> ('k, string option) prog" where
  "run_grow K cfg R shared =
     (let params = [use_space R RW shared, free_space R, use_space R PROT_NONE shared];
          old_size = p_size (params ! 0); new_size = old_size + p_size (params ! 1) in
      init_block K params (\<lambda>params.
      remap_block K (p_addr (params ! 0)) old_size new_size 0 0 (\<lambda>remap. remap \<noteq> MAP_FAILED) 0 (\<lambda>remap.
      check_block (mremap_mmap_anon_data_check K remap old_size 48) (
      check_block (mremap_mmap_anon_access_check K remap new_size) (
      ret None)))))"

text \<open>The shared variant of \<^verbatim>\<open>003.c\<close> expects \<^verbatim>\<open>SIGBUS\<close> behind the shared object.\<close>

definition run_grow_shared :: "('k, 'z) vm_os_scheme \<Rightarrow> page_config \<Rightarrow> u64 \<Rightarrow> bool \<Rightarrow> ('k, string option) prog" where
  "run_grow_shared K cfg R shared =
     (let params = [use_space R RW shared, free_space R, use_space R PROT_NONE shared];
          old_size = p_size (params ! 0); new_size = old_size + p_size (params ! 1) in
      init_block K params (\<lambda>params.
      remap_block K (p_addr (params ! 0)) old_size new_size 0 0 (\<lambda>remap. remap \<noteq> MAP_FAILED) 0 (\<lambda>remap.
      check_block (mremap_mmap_anon_data_check K remap old_size 48) (
      signal_block K SIGBUS (remap + old_size)))))"

definition run_grow_blocked :: "('k, 'z) vm_os_scheme \<Rightarrow> page_config \<Rightarrow> u64 \<Rightarrow> bool \<Rightarrow> ('k, string option) prog" where
  "run_grow_blocked K cfg R shared =
     (let params = [use_space R RW shared, use_space R PROT_NONE shared];
          old_size = p_size (params ! 0); new_size = old_size + p_size (params ! 1) in
      init_block K params (\<lambda>params.
      remap_block K (p_addr (params ! 0)) old_size new_size 0 0 (\<lambda>remap. remap = MAP_FAILED) ENOMEM (\<lambda>remap.
      ret None)))"

definition run_grow_move :: "('k, 'z) vm_os_scheme \<Rightarrow> page_config \<Rightarrow> u64 \<Rightarrow> bool \<Rightarrow> ('k, string option) prog" where
  "run_grow_move K cfg R shared =
     (let params = [use_space R RW shared, use_space R PROT_NONE shared];
          old_size = p_size (params ! 0); new_size = old_size + p_size (params ! 1) in
      init_block K params (\<lambda>params.
      remap_block K (p_addr (params ! 0)) old_size new_size MREMAP_MAYMOVE 0 (\<lambda>remap. remap \<noteq> MAP_FAILED) 0 (\<lambda>remap.
      check_block (mremap_mmap_anon_data_check K remap old_size 48) (
      check_block (mremap_mmap_anon_access_check K remap new_size) (
      ret None)))))"

definition run_grow_move_shared :: "('k, 'z) vm_os_scheme \<Rightarrow> page_config \<Rightarrow> u64 \<Rightarrow> bool \<Rightarrow> ('k, string option) prog" where
  "run_grow_move_shared K cfg R shared =
     (let params = [use_space R RW shared, use_space R PROT_NONE shared];
          old_size = p_size (params ! 0); new_size = old_size + p_size (params ! 1) in
      init_block K params (\<lambda>params.
      remap_block K (p_addr (params ! 0)) old_size new_size MREMAP_MAYMOVE 0 (\<lambda>remap. remap \<noteq> MAP_FAILED) 0 (\<lambda>remap.
      check_block (mremap_mmap_anon_data_check K remap old_size 48) (
      signal_block K SIGBUS (remap + old_size)))))"

definition FIXED :: u32 where "FIXED = MREMAP_MAYMOVE OR MREMAP_FIXED"

definition run_move_free :: "('k, 'z) vm_os_scheme \<Rightarrow> page_config \<Rightarrow> u64 \<Rightarrow> bool \<Rightarrow> ('k, string option) prog" where
  "run_move_free K cfg R shared =
     (let params = [use_space R RW shared, free_space R, use_space R PROT_NONE shared];
          old_size = p_size (params ! 0); new_size = old_size in
      init_block K params (\<lambda>params.
      let naddr = p_addr (params ! 1) in
      remap_block K (p_addr (params ! 0)) old_size new_size FIXED naddr (\<lambda>remap. remap = naddr) 0 (\<lambda>remap.
      check_block (mremap_mmap_anon_data_check K remap old_size 48) (
      check_block (mremap_mmap_anon_access_check K remap new_size) (
      ret None)))))"

definition run_move_over :: "('k, 'z) vm_os_scheme \<Rightarrow> page_config \<Rightarrow> u64 \<Rightarrow> bool \<Rightarrow> ('k, string option) prog" where
  "run_move_over K cfg R shared =
     (let params = [use_space R RW shared, use_space R PROT_NONE shared, use_space (R * 2) RW shared,
                    use_space R PROT_NONE shared];
          old_size = p_size (params ! 0); new_size = old_size in
      init_block K params (\<lambda>params.
      let naddr = p_addr (params ! 2) in
      remap_block K (p_addr (params ! 0)) old_size new_size FIXED naddr (\<lambda>remap. remap = naddr) 0 (\<lambda>remap.
      check_block (mremap_mmap_anon_data_check K remap old_size 48) (
      check_block (mremap_mmap_anon_data_check K (p_addr (params ! 2) + new_size) (p_size (params ! 2) - new_size) 50) (
      check_block (mremap_mmap_anon_access_check K remap new_size) (
      ret None))))))"

definition run_overlap_grow :: "('k, 'z) vm_os_scheme \<Rightarrow> page_config \<Rightarrow> u64 \<Rightarrow> bool \<Rightarrow> ('k, string option) prog" where
  "run_overlap_grow K cfg R shared =
     (let params = [use_space R PROT_NONE shared, use_space R PROT_READ shared, use_space R RW shared,
                    use_space R PROT_READ shared, use_space R PROT_NONE shared];
          old_size = p_size (params ! 2); new_size = p_size (params ! 1) + p_size (params ! 2) + p_size (params ! 3) in
      init_block K params (\<lambda>params.
      remap_block K (p_addr (params ! 2)) old_size new_size FIXED (p_addr (params ! 1)) (\<lambda>remap. remap = MAP_FAILED) EINVAL (\<lambda>remap.
      ret None)))"

definition run_overlap_shrink :: "('k, 'z) vm_os_scheme \<Rightarrow> page_config \<Rightarrow> u64 \<Rightarrow> bool \<Rightarrow> ('k, string option) prog" where
  "run_overlap_shrink K cfg R shared =
     (let params = [use_space R PROT_NONE shared, use_space (R * 2) RW shared, use_space R PROT_NONE shared];
          old_size = p_size (params ! 1); new_size = PAGE_SIZE cfg in
      init_block K params (\<lambda>params.
      remap_block K (p_addr (params ! 1)) old_size new_size FIXED (p_addr (params ! 1) + PAGE_SIZE cfg)
        (\<lambda>remap. remap = MAP_FAILED) EINVAL (\<lambda>remap.
      ret None)))"

definition run_overlap_below :: "('k, 'z) vm_os_scheme \<Rightarrow> page_config \<Rightarrow> u64 \<Rightarrow> bool \<Rightarrow> ('k, string option) prog" where
  "run_overlap_below K cfg R shared =
     (let params = [use_space R PROT_NONE shared, free_space R, use_space (R * 2) RW shared, use_space R PROT_NONE shared];
          old_size = p_size (params ! 2); new_size = old_size in
      init_block K params (\<lambda>params.
      remap_block K (p_addr (params ! 2)) old_size new_size FIXED (p_addr (params ! 1)) (\<lambda>remap. remap = MAP_FAILED) EINVAL (\<lambda>remap.
      ret None)))"

definition run_overlap_above :: "('k, 'z) vm_os_scheme \<Rightarrow> page_config \<Rightarrow> u64 \<Rightarrow> bool \<Rightarrow> ('k, string option) prog" where
  "run_overlap_above K cfg R shared =
     (let params = [use_space R PROT_NONE shared, use_space (R * 2) RW shared, free_space R, use_space R PROT_NONE shared];
          old_size = p_size (params ! 1); new_size = old_size in
      init_block K params (\<lambda>params.
      remap_block K (p_addr (params ! 1)) old_size new_size FIXED (p_addr (params ! 1) + PAGE_SIZE cfg)
        (\<lambda>remap. remap = MAP_FAILED) EINVAL (\<lambda>remap.
      ret None)))"

definition run_move_down :: "('k, 'z) vm_os_scheme \<Rightarrow> page_config \<Rightarrow> u64 \<Rightarrow> bool \<Rightarrow> ('k, string option) prog" where
  "run_move_down K cfg R shared =
     (let params = [use_space R PROT_NONE shared, free_space R, use_space R RW shared, use_space R PROT_NONE shared];
          old_size = p_size (params ! 2); new_size = old_size in
      init_block K params (\<lambda>params.
      let naddr = p_addr (params ! 1) in
      remap_block K (p_addr (params ! 2)) old_size new_size FIXED naddr (\<lambda>remap. remap = naddr) 0 (\<lambda>remap.
      check_block (mremap_mmap_anon_data_check K remap old_size 50) (
      check_block (mremap_mmap_anon_access_check K remap new_size) (
      ret None)))))"

definition run_move_up :: "('k, 'z) vm_os_scheme \<Rightarrow> page_config \<Rightarrow> u64 \<Rightarrow> bool \<Rightarrow> ('k, string option) prog" where
  "run_move_up K cfg R shared =
     (let params = [use_space R PROT_NONE shared, use_space R RW shared, free_space R, use_space R PROT_NONE shared];
          old_size = p_size (params ! 1); new_size = old_size in
      init_block K params (\<lambda>params.
      let naddr = p_addr (params ! 2) in
      remap_block K (p_addr (params ! 1)) old_size new_size FIXED naddr (\<lambda>remap. remap = naddr) 0 (\<lambda>remap.
      check_block (mremap_mmap_anon_data_check K remap old_size 49) (
      check_block (mremap_mmap_anon_access_check K remap new_size) (
      ret None)))))"

definition run_shrink_fault :: "('k, 'z) vm_os_scheme \<Rightarrow> page_config \<Rightarrow> u64 \<Rightarrow> bool \<Rightarrow> ('k, string option) prog" where
  "run_shrink_fault K cfg R shared =
     (let params = [use_space (R * 2) RW shared, use_space R PROT_NONE shared];
          old_size = p_size (params ! 0); new_size = old_size - PAGE_SIZE cfg in
      init_block K params (\<lambda>params.
      remap_block K (p_addr (params ! 0)) old_size new_size 0 0 (\<lambda>remap. remap \<noteq> MAP_FAILED) 0 (\<lambda>remap.
      check_block (mremap_mmap_anon_data_check K remap new_size 48) (
      signal_block K SIGSEGV (remap + new_size)))))"

definition run_move_fault :: "('k, 'z) vm_os_scheme \<Rightarrow> page_config \<Rightarrow> u64 \<Rightarrow> bool \<Rightarrow> ('k, string option) prog" where
  "run_move_fault K cfg R shared =
     (let params = [use_space R RW shared, use_space R PROT_NONE shared];
          old_size = p_size (params ! 0); new_size = old_size + p_size (params ! 1) in
      init_block K params (\<lambda>params.
      remap_block K (p_addr (params ! 0)) old_size new_size MREMAP_MAYMOVE 0 (\<lambda>remap. remap \<noteq> MAP_FAILED) 0 (\<lambda>remap.
      check_block (mremap_mmap_anon_data_check K remap old_size 48) (
      signal_block K SIGSEGV (p_addr (params ! 0))))))"

definition run_fixed_fault :: "('k, 'z) vm_os_scheme \<Rightarrow> page_config \<Rightarrow> u64 \<Rightarrow> bool \<Rightarrow> ('k, string option) prog" where
  "run_fixed_fault K cfg R shared =
     (let params = [use_space R RW shared, free_space R, use_space R PROT_NONE shared];
          old_size = p_size (params ! 0); new_size = old_size in
      init_block K params (\<lambda>params.
      let naddr = p_addr (params ! 1) in
      remap_block K (p_addr (params ! 0)) old_size new_size FIXED naddr (\<lambda>remap. remap = naddr) 0 (\<lambda>remap.
      check_block (mremap_mmap_anon_data_check K remap old_size 48) (
      signal_block K SIGSEGV (p_addr (params ! 0))))))"

section \<open>Rules for the blocks\<close>

lemma wp_init_block:
  assumes "vm_contract cfg K V A" and "list_all (param_ok cfg) ps" "0 < extent ps" "extent ps < SPACE"
    and "2 * extent ps \<le> A (kern s)"
    and "\<And>a t. \<lbrakk>a \<noteq> 0; page_multiple cfg (unat a); fits a (extent ps);
        \<forall>d<extent ps. V (kern t) (a + of_nat d) = cell_at 0 ps d; A (kern s) \<le> A (kern t) + 2 * extent ps\<rbrakk>
      \<Longrightarrow> wp (k (place a ps)) Q t"
  shows "wp (init_block K ps k) Q s"
  unfolding init_block_def
  by (intro wp_exec wp_mremap_mmap_anon [OF assms(1-5)] run_case_Val) (simp_all add: assms(6))

lemma wp_remap_block:
  assumes "wp (mremap K addr m n flags na)
     (\<lambda>r t. \<exists>v. r = Val v \<and> good v \<and> errno t = err \<and> wp (k v) Q t) (s\<lparr>errno := 0\<rparr>)"
  shows "wp (remap_block K addr m n flags na good err k) Q s"
  unfolding remap_block_def
  by (intro wp_exec wp_set_errno run_case_Val wp_mono [OF assms])
    (auto intro!: wp_exec wp_get_errno run_case_Val)

lemma wp_check_data:
  assumes "vm_contract cfg K V A" and "\<forall>i<unat len. holds b (V (kern s) (a + of_nat i))"
    and "\<And>t. V (kern t) = V (kern s) \<Longrightarrow> wp k Q t"
  shows "wp (check_block (mremap_mmap_anon_data_check K a len b) k) Q s"
  unfolding check_block_def using assms(2,3)
  by (intro wp_exec wp_data_check [OF assms(1)] run_case_Val) (simp_all add: becomes_view)

lemma wp_check_access:
  assumes "vm_contract cfg K V A" and "a \<noteq> 0" "\<forall>i<unat len. usable (V (kern s) (a + of_nat i))"
  shows "wp (check_block (mremap_mmap_anon_access_check K a len) (ret None)) (\<lambda>r t. passed r) s"
  unfolding check_block_def using assms(2,3)
  by (intro wp_exec wp_access_check [OF assms(1)] run_case_Val) (simp_all add: wp_ret passed_def)

lemma wp_signal_block:
  assumes "vm_contract cfg K V A"
    and "sig = SIGSEGV \<and> V (kern s) a = None \<or>
         sig = SIGBUS \<and> (\<exists>c. V (kern s) a = Some c \<and> readable c \<and> c_data c = None)"
  shows "wp (signal_block K sig a) (\<lambda>r t. passed r) s"
proof -
  have "wp (exec (load K a) (\<lambda>ch. ret (Some ''signal handling error''))) (\<lambda>r t. passed r) t"
    if "V (kern t) = V (kern s)" "handlers t sig = Some 0" for t
    by (rule wp_exec, rule wp_mono [OF wp_load_signal [OF assms(1) that(2), where Q = "\<lambda>r. r = Halt (Exited 0)"]])
      (use assms(2) that(1) in \<open>simp_all add: passed_def\<close>)
  then show ?thesis
    unfolding signal_block_def check_block_def using assms(2)
    by (intro wp_exec wp_setup_signal_handler [OF assms(1)] run_case_Val) auto
qed

section \<open>Ranges\<close>

definition range_ok :: "page_config \<Rightarrow> u64 \<Rightarrow> bool" where
  "range_ok cfg R \<longleftrightarrow> page_multiple cfg (unat R) \<and> 2 ^ PAGE_SHIFT cfg < unat R \<and> unat R \<le> 2 ^ 30"

lemma place_addr: "j < length ps \<Longrightarrow> p_addr (place a ps ! j) = a + of_nat (extent (take j ps))"
proof (induction ps arbitrary: a j)
  case (Cons p ps)
  then show ?case by (cases j) simp_all
qed simp

lemma place_size: "j < length ps \<Longrightarrow> p_size (place a ps ! j) = p_size (ps ! j)"
proof (induction ps arbitrary: a j)
  case (Cons p ps)
  then show ?case by (cases j) simp_all
qed simp

lemma param_cells:
  "param_cell i (use_space n RW shared) d =
     Some \<lparr>c_prot = RW, c_back = (if shared then Some (unat n - Suc d) else None), c_data = Some (of_nat (48 + i))\<rparr>"
  "param_cell i (use_space n PROT_NONE shared) d =
     Some \<lparr>c_prot = PROT_NONE, c_back = (if shared then Some (unat n - Suc d) else None), c_data = Some 0\<rparr>"
  "param_cell i (use_space n PROT_READ shared) d =
     Some \<lparr>c_prot = PROT_READ, c_back = (if shared then Some (unat n - Suc d) else None), c_data = Some 0\<rparr>"
  "param_cell i (free_space n) d = None"
  by (simp_all add: param_cell_def use_space_def free_space_def new_cell_def set_data_def
      PROT_NONE_def PROT_READ_def PROT_WRITE_def)

lemma space_fields [simp]:
  "p_size (use_space n prot shared) = n" "p_size (free_space n) = n"
  by (simp_all add: use_space_def free_space_def)

lemma space_ok:
  assumes "page_multiple cfg (unat n)" "0 < unat n"
  shows "param_ok cfg (free_space n)"
    and "prot = PROT_NONE \<or> prot = PROT_READ \<or> prot = RW \<Longrightarrow> param_ok cfg (use_space n prot shared)"
  using assms by (auto simp: param_ok_def use_space_def free_space_def)

lemma RW_cell:
  "readable \<lparr>c_prot = RW, c_back = b, c_data = d\<rparr>" "writable \<lparr>c_prot = RW, c_back = b, c_data = d\<rparr>"
  by (simp_all add: readable_def writable_def PROT_READ_def PROT_WRITE_def)

lemma RW_holds:
  "holds b (Some \<lparr>c_prot = RW, c_back = c, c_data = Some b\<rparr>)"
  "usable (Some \<lparr>c_prot = RW, c_back = c, c_data = Some b\<rparr>)"
  by (simp_all add: holds_def usable_def RW_cell)

lemma range_arith:
  assumes "range_ok cfg R"
  shows "unat (R * 2) = 2 * unat R" and "unat (R + R) = 2 * unat R" and "unat (R + R + R) = 3 * unat R"
    and "unat (R * 2 - PAGE_SIZE cfg) = 2 * unat R - 2 ^ PAGE_SHIFT cfg"
    and "unat (R * 2 - R) = unat R"
    and "8 * unat R < SPACE" and "0 < unat R"
proof -
  define r where "r = unat R"
  have R: "R = of_nat r" by (simp add: r_def)
  have r: "r \<le> 2 ^ 30" "2 ^ PAGE_SHIFT cfg < r" using assms by (simp_all add: range_ok_def r_def)
  then have big: "8 * r < SPACE" by (simp add: SPACE_def)
  show "8 * unat R < SPACE" using big by (simp only: r_def)
  show "0 < unat R" using r(2) by (simp add: r_def)
  have m: "unat (of_nat (r + r) :: u64) = 2 * r" "unat (of_nat (r + r + r) :: u64) = 3 * r"
    using big by (subst unat_of_nat_SPACE; linarith)+
  have sums: "R + R = of_nat (r + r)" "R + R + R = of_nat (r + r + r)" by (simp_all only: of_nat_add R [symmetric])
  show "unat (R + R) = 2 * unat R" unfolding sums(1) m by (simp only: r_def)
  then show two: "unat (R * 2) = 2 * unat R" by (simp only: mult_2_right)
  show "unat (R + R + R) = 3 * unat R" unfolding sums(2) m by (simp only: r_def)
  have "PAGE_SIZE cfg \<le> R * 2"
    unfolding word_le_nat_alt two small_page.unat_psize using r(2) by (simp add: r_def)
  then have "unat (R * 2 - PAGE_SIZE cfg) = unat (R * 2) - unat (PAGE_SIZE cfg)" by (rule unat_sub)
  then show "unat (R * 2 - PAGE_SIZE cfg) = 2 * unat R - 2 ^ PAGE_SHIFT cfg"
    by (simp only: two small_page.unat_psize)
  show "unat (R * 2 - R) = unat R" by (simp only: mult_2_right add_diff_cancel_right')
qed

section \<open>The answers of \<open>mremap\<close> on a layout\<close>

text \<open>Byte \<open>d\<close> of an entry, and what the layout rule gives for the bytes of entry \<open>j\<close>.\<close>

definition rw_cell :: "nat \<Rightarrow> bool \<Rightarrow> nat \<Rightarrow> cell" where
  "rw_cell j shared left = \<lparr>c_prot = RW, c_back = (if shared then Some left else None), c_data = Some (of_nat (48 + j))\<rparr>"

lemma rw_cell_usable [simp]:
  "usable (Some (rw_cell j shared m))" "holds (of_nat (48 + j)) (Some (rw_cell j shared m))"
  "holds 48 (Some (rw_cell 0 shared m))" "holds 49 (Some (rw_cell 1 shared m))" "holds 49 (Some (rw_cell (Suc 0) shared m))"
  "holds 50 (Some (rw_cell 2 shared m))"
  by (simp_all add: rw_cell_def usable_def holds_def RW_cell)

lemma cell_at_entry:
  "j < length ps \<Longrightarrow> d < unat (p_size (ps ! j)) \<Longrightarrow> cell_at i ps (extent (take j ps) + d) = param_cell (i + j) (ps ! j) d"
proof (induction ps arbitrary: i j)
  case (Cons p ps)
  then show ?case by (cases j) (simp_all add: add.assoc)
qed simp

lemma extent_take: "j < length ps \<Longrightarrow> extent (take j ps) + unat (p_size (ps ! j)) \<le> extent ps"
proof (induction ps arbitrary: j)
  case (Cons p ps)
  then show ?case by (cases j) simp_all
qed simp

lemma entry_cells:
  assumes "\<forall>d<extent ps. W (a + of_nat d) = cell_at 0 ps d" and "j < length ps" and "d < unat (p_size (ps ! j))"
  shows "W (a + of_nat (extent (take j ps) + d)) = param_cell j (ps ! j) d"
  using assms(1) [rule_format, of "extent (take j ps) + d"] extent_take [OF assms(2)] assms(3)
    cell_at_entry [OF assms(2,3), of 0] by simp

lemma param_rw: "param_cell j (use_space n RW shared) d = Some (rw_cell j shared (unat n - Suc d))"
  by (simp add: param_cells rw_cell_def)

lemma one_mapping_rw:
  assumes "0 < n" and "\<forall>d<n. W (a + of_nat d) = Some (rw_cell j shared (n - Suc d))"
  shows "one_mapping W a n (rw_cell j shared 0)"
proof -
  have "W (a + of_nat (n - 1)) = Some (rw_cell j shared 0)"
    using assms(2) [rule_format, of "n - 1"] assms(1) by (simp del: of_nat_diff)
  then show ?thesis using assms unfolding one_mapping_def by (simp add: rw_cell_def del: of_nat_diff)
qed

lemma fill_window_word:
  "d < SPACE \<Longrightarrow> unat x + n \<le> SPACE \<Longrightarrow>
   fill W (a + x) n f (a + of_nat d) = (if unat x \<le> d \<and> d < unat x + n then f (d - unat x) else W (a + of_nat d))"
  using fill_window [of d "unat x" n W a f] SPACE_unat [of x] by simp

text \<open>The same size, from the start of the layout.\<close>

lemma remap_same:
  assumes "vm_contract cfg K V A" and "page_multiple cfg (unat a)"
    and "page_multiple cfg (unat n)" "0 < unat n" "V (kern s) a \<noteq> None"
    and "\<And>t. V (kern t) = V (kern s) \<Longrightarrow> wp (k a) Q t"
  shows "wp (remap_block K a n n 0 0 (\<lambda>x. x \<noteq> MAP_FAILED) 0 k) Q s"
  using assms(5,6) not_MAP_FAILED [OF assms(2)]
  by (intro wp_remap_block wp_mremap_same [OF assms(1-4)]) simp_all

text \<open>A smaller size: the tail is unmapped.\<close>

lemma remap_shrink:
  assumes "vm_contract cfg K V A" and "page_multiple cfg (unat a)"
    and "page_multiple cfg (unat m)" "page_multiple cfg (unat n)" "0 < unat n" "unat n < unat m" "fits a (unat m)"
    and "\<forall>d<unat m. V (kern s) (a + of_nat d) = Some (rw_cell j shared (unat m - Suc d))"
    and "\<And>t. \<lbrakk>\<forall>d<unat n. V (kern t) (a + of_nat d) = Some (rw_cell j shared (unat m - Suc d)); V (kern t) (a + n) = None\<rbrakk>
      \<Longrightarrow> wp (k a) Q t"
  shows "wp (remap_block K a m n 0 0 (\<lambda>x. x \<noteq> MAP_FAILED) 0 k) Q s"
proof (intro wp_remap_block wp_mremap_shrink [OF assms(1-4)])
  show "occupied (V (kern (s\<lparr>errno := 0\<rparr>))) a (unat m)" using assms(8) by (simp add: occupied_def)
  fix t :: "'a machine"
  assume t: "V (kern t) = fill (V (kern (s\<lparr>errno := 0\<rparr>))) (a + n) (unat m - unat n) (\<lambda>_. None)"
    "errno t = errno (s\<lparr>errno := 0\<rparr>)"
  have sp: "unat m < SPACE" by (rule SPACE_unat)
  have "V (kern t) (a + of_nat d) = Some (rw_cell j shared (unat m - Suc d))" if "d < unat n" for d
    using that assms(6,8) sp by (simp add: t fill_window_word)
  moreover have "V (kern t) (a + n) = None" using assms(6) by (simp add: t fill_def)
  ultimately show "\<exists>v. Val a = Val v \<and> v \<noteq> MAP_FAILED \<and> errno t = 0 \<and> wp (k v) Q t"
    using assms(9) t not_MAP_FAILED [OF assms(2)] by simp
qed (use assms in simp_all)

text \<open>A larger size with nothing behind the mapping, with something behind it, and with leave to move.\<close>

lemma growable_rw:
  assumes "page_multiple cfg (unat a)" "page_multiple cfg (unat m)" "page_multiple cfg (unat n)" "0 < unat m" "unat m < unat n"
    and "\<forall>d<unat m. W (a + of_nat d) = Some (rw_cell j shared (unat m - Suc d))"
  shows "growable cfg W a m n (rw_cell j shared 0)"
  unfolding growable_def using assms one_mapping_rw [OF assms(4,6)] by (simp add: rw_cell_def)

lemma remap_grow:
  assumes "vm_contract cfg K V A" and "growable cfg (V (kern s)) a m n (rw_cell j shared 0)" "fits a (unat n)" "unat n \<le> A (kern s)"
    and "\<forall>d<unat m. V (kern s) (a + of_nat d) = Some (rw_cell j shared (unat m - Suc d))"
    and "\<forall>d<unat n - unat m. V (kern s) (a + of_nat (unat m + d)) = None"
    and "\<And>t. \<forall>d<unat n. V (kern t) (a + of_nat d) =
        (if d < unat m then Some (rw_cell j shared (unat m - Suc d)) else grown_cell (rw_cell j shared 0)) \<Longrightarrow> wp (k a) Q t"
  shows "wp (remap_block K a m n 0 0 (\<lambda>x. x \<noteq> MAP_FAILED) 0 k) Q s"
proof (intro wp_remap_block wp_mremap_grow [OF assms(1), where c = "rw_cell j shared 0"])
  show "vacant (V (kern (s\<lparr>errno := 0\<rparr>))) (a + m) (unat n - unat m)"
    using assms(6) by (simp add: vacant_def add.assoc)
  fix t :: "'a machine"
  assume t: "V (kern t) = fill (V (kern (s\<lparr>errno := 0\<rparr>))) (a + m) (unat n - unat m) (\<lambda>_. grown_cell (rw_cell j shared 0))"
    "errno t = errno (s\<lparr>errno := 0\<rparr>)"
  have sp: "unat n < SPACE" by (rule SPACE_unat)
  have mn: "page_multiple cfg (unat a)" "unat m < unat n" using assms(2) by (simp_all add: growable_def)
  have "\<forall>d<unat n. V (kern t) (a + of_nat d) =
      (if d < unat m then Some (rw_cell j shared (unat m - Suc d)) else grown_cell (rw_cell j shared 0))"
    using assms(5) sp mn by (simp add: t fill_window_word)
  then show "\<exists>v. Val a = Val v \<and> v \<noteq> MAP_FAILED \<and> errno t = 0 \<and> wp (k v) Q t"
    using assms(7) t not_MAP_FAILED [OF mn(1)] by simp
qed (use assms in simp_all)

lemma remap_blocked:
  assumes "vm_contract cfg K V A" and "growable cfg (V (kern s)) a m n c" "fits a (unat n)" "V (kern s) (a + m) \<noteq> None"
    and "\<And>t. wp (k MAP_FAILED) Q t"
  shows "wp (remap_block K a m n 0 0 (\<lambda>x. x = MAP_FAILED) ENOMEM k) Q s"
  using assms(2-5) by (intro wp_remap_block wp_mremap_blocked [OF assms(1), where c = c]) simp_all

lemma remap_move:
  assumes "vm_contract cfg K V A" and "growable cfg (V (kern s)) a m n (rw_cell j shared 0)" "fits a (unat n)" "unat n \<le> A (kern s)"
    and "V (kern s) (a + m) \<noteq> None" and "V (kern s) a \<noteq> None" "0 < unat m"
    and "\<forall>d<unat m. V (kern s) (a + of_nat d) = Some (rw_cell j shared (unat m - Suc d))"
    and "\<And>b t. \<lbrakk>b \<noteq> 0; V (kern t) a = None; \<forall>d<unat n. V (kern t) (b + of_nat d) =
        (if d < unat m then Some (rw_cell j shared (unat m - Suc d)) else grown_cell (rw_cell j shared 0))\<rbrakk> \<Longrightarrow> wp (k b) Q t"
  shows "wp (remap_block K a m n MREMAP_MAYMOVE 0 (\<lambda>x. x \<noteq> MAP_FAILED) 0 k) Q s"
proof (intro wp_remap_block wp_mremap_move [OF assms(1), where c = "rw_cell j shared 0"])
  fix b and t :: "'a machine"
  let ?V = "V (kern (s\<lparr>errno := 0\<rparr>))"
  assume b: "b \<noteq> 0" "page_multiple cfg (unat b)" and vac: "vacant ?V b (unat n)"
    and t: "V (kern t) = fill (fill ?V a (unat m) (\<lambda>_. None)) b (unat n)
         (\<lambda>i. if i < unat m then ?V (a + of_nat i) else grown_cell (rw_cell j shared 0))" "errno t = errno (s\<lparr>errno := 0\<rparr>)"
  have sp: "unat n < SPACE" by (rule SPACE_unat)
  have "\<forall>d<unat n. V (kern t) (b + of_nat d) =
      (if d < unat m then Some (rw_cell j shared (unat m - Suc d)) else grown_cell (rw_cell j shared 0))"
    using assms(8) sp by (simp add: t fill_window0)
  moreover have "\<not> unat (a - b) < unat n"
    using vac assms(6) by (auto simp: vacant_def dest: spec [of _ "unat (a - b)"])
  then have "V (kern t) a = None" using assms(7) by (simp add: t fill_def)
  ultimately show "\<exists>v. Val b = Val v \<and> v \<noteq> MAP_FAILED \<and> errno t = 0 \<and> wp (k v) Q t"
    using assms(9) [OF b(1)] t not_MAP_FAILED [OF b(2)] by simp
qed (use assms in simp_all)

text \<open>\<^verbatim>\<open>MREMAP_FIXED\<close> between two places of the layout.\<close>

lemma remap_fixed:
  assumes "vm_contract cfg K V A" and "page_multiple cfg (unat a)" "fits a N" "a \<noteq> 0"
    and "page_multiple cfg o1" "page_multiple cfg o2" "page_multiple cfg (unat n)" "0 < unat n"
    and "o1 + unat n \<le> N" "o2 + unat n \<le> N" "o1 + unat n \<le> o2 \<or> o2 + unat n \<le> o1"
    and "\<forall>d<unat n. V (kern s) (a + of_nat (o1 + d)) = Some (rw_cell j shared (unat n - Suc d))"
    and "\<And>t. \<lbrakk>a + of_nat o2 \<noteq> 0; \<forall>d<N. V (kern t) (a + of_nat d) =
          (if o2 \<le> d \<and> d < o2 + unat n then Some (rw_cell j shared (unat n - Suc (d - o2)))
           else if o1 \<le> d \<and> d < o1 + unat n then None else V (kern s) (a + of_nat d))\<rbrakk> \<Longrightarrow> wp (k (a + of_nat o2)) Q t"
  shows "wp (remap_block K (a + of_nat o1) n n FIXED (a + of_nat o2) (\<lambda>x. x = a + of_nat o2) 0 k) Q s"
proof -
  have N: "unat a + N < SPACE" using assms(3) by (simp add: fits_def)
  have u: "unat (a + of_nat o1) = unat a + o1" "unat (a + of_nat o2) = unat a + o2"
    using N assms(8-10) by (intro unat_add_fits; linarith)+
  have "unat a \<noteq> 0" using assms(4) by (simp add: unat_eq_0)
  then have nz: "a + of_nat o2 \<noteq> 0" using u(2) by (metis add_is_0 unat_0)
  have cells: "\<forall>d<unat n. V (kern s) (a + of_nat o1 + of_nat d) = Some (rw_cell j shared (unat n - Suc d))"
    using assms(12) by (simp add: add.assoc)
  show ?thesis
    unfolding FIXED_def
  proof (intro wp_remap_block wp_mremap_fixed [OF assms(1), where c = "rw_cell j shared 0"])
    show "\<not> overlap (a + of_nat o1) (unat n) (a + of_nat o2) (unat n)"
      using assms(11) by (auto simp: overlap_def u)
    show "one_mapping (V (kern (s\<lparr>errno := 0\<rparr>))) (a + of_nat o1) (unat n) (rw_cell j shared 0)"
      using one_mapping_rw [OF assms(8) cells] by simp
    fix t :: "'a machine"
    let ?V = "V (kern (s\<lparr>errno := 0\<rparr>))"
    assume t: "V (kern t) = fill (fill ?V (a + of_nat o1) (unat n) (\<lambda>_. None)) (a + of_nat o2) (unat n) (\<lambda>i. ?V (a + of_nat o1 + of_nat i))"
      "errno t = errno (s\<lparr>errno := 0\<rparr>)"
    have "\<forall>d<N. V (kern t) (a + of_nat d) =
          (if o2 \<le> d \<and> d < o2 + unat n then Some (rw_cell j shared (unat n - Suc (d - o2)))
           else if o1 \<le> d \<and> d < o1 + unat n then None else V (kern s) (a + of_nat d))"
    proof (intro allI impI)
      fix d
      assume "d < N"
      then have "d < SPACE" "o1 + unat n \<le> SPACE" "o2 + unat n \<le> SPACE" "o1 < SPACE" "o2 < SPACE"
        using N assms(8-10) by linarith+
      then show "V (kern t) (a + of_nat d) =
          (if o2 \<le> d \<and> d < o2 + unat n then Some (rw_cell j shared (unat n - Suc (d - o2)))
           else if o1 \<le> d \<and> d < o1 + unat n then None else V (kern s) (a + of_nat d))"
        using cells [rule_format, of "d - o2"] by (auto simp: t fill_window less_diff_conv2 simp del: of_nat_diff)
    qed
    then show "\<exists>v. Val (a + of_nat o2) = Val v \<and> v = a + of_nat o2 \<and> errno t = 0 \<and> wp (k v) Q t"
      using assms(13) nz t by simp
  qed (use assms N u nz in \<open>simp_all add: fits_def page_multiple_add\<close>)
qed

lemma remap_overlap:
  assumes "vm_contract cfg K V A" and "page_multiple cfg (unat a)" "fits a N"
    and "page_multiple cfg o1" "page_multiple cfg o2" "page_multiple cfg (unat m)" "page_multiple cfg (unat n)"
    and "0 < unat m" "0 < unat n" "o1 + unat m \<le> N" "o2 + unat n \<le> N" "o1 < o2 + unat n" "o2 < o1 + unat m"
    and "\<And>t. wp (k MAP_FAILED) Q t"
  shows "wp (remap_block K (a + of_nat o1) m n FIXED (a + of_nat o2) (\<lambda>x. x = MAP_FAILED) EINVAL k) Q s"
proof -
  have N: "unat a + N < SPACE" using assms(3) by (simp add: fits_def)
  have u: "unat (a + of_nat o1) = unat a + o1" "unat (a + of_nat o2) = unat a + o2"
    using N assms(8-11) by (intro unat_add_fits; linarith)+
  show ?thesis
    unfolding FIXED_def
    by (intro wp_remap_block wp_mremap_overlap [OF assms(1)])
      (use assms N u in \<open>simp_all add: fits_def page_multiple_add overlap_def\<close>)
qed

section \<open>Every test function passes\<close>

lemma page_multiple_mult: "page_multiple cfg n \<Longrightarrow> page_multiple cfg (k * n)"
  by (simp add: page_multiple_def)

lemma page_multiple_page: "page_multiple cfg (2 ^ PAGE_SHIFT cfg)" "page_multiple cfg 0"
  by (simp_all add: page_multiple_def)

lemma page_multiple_diff: "page_multiple cfg m \<Longrightarrow> page_multiple cfg n \<Longrightarrow> page_multiple cfg (m - n)"
  by (simp add: page_multiple_def)

lemma range_facts:
  assumes "range_ok cfg R"
  shows "page_multiple cfg (unat R)" "page_multiple cfg (2 * unat R)" "page_multiple cfg (3 * unat R)"
    "page_multiple cfg (2 * unat R - 2 ^ PAGE_SHIFT cfg)" "2 ^ PAGE_SHIFT cfg < unat R" "0 < unat R" "8 * unat R < SPACE"
    "page_multiple cfg (unat R + 2 ^ PAGE_SHIFT cfg)"
  using assms range_arith(6) [OF assms] unfolding range_ok_def
  by (auto intro: page_multiple_mult page_multiple_diff page_multiple_add page_multiple_page)

lemma range_double:
  assumes "range_ok cfg R"
  shows "unat (2 * R) = 2 * unat R" "unat (3 * R) = 3 * unat R"
proof -
  have "(3 :: u64) = 1 + 1 + 1" by simp
  then have "3 * R = R + R + R" by (simp only: distrib_right mult_1)
  then show "unat (3 * R) = 3 * unat R" by (simp only: range_arith(3) [OF assms])
  show "unat (2 * R) = 2 * unat R" unfolding mult_2 [of R] by (rule range_arith(2) [OF assms])
qed

lemmas range_sizes = range_arith(1-5) range_double

lemmas range_simps = range_facts range_arith

lemmas layout_simps = place_addr place_size space_ok page_multiple_page

lemma grown_usable: "usable (grown_cell (rw_cell j False m))"
  by (simp add: grown_cell_def rw_cell_def usable_def RW_cell)

lemma grown_bus:
  "\<exists>c. grown_cell (rw_cell j True m) = Some c \<and> readable c \<and> c_data c = None"
  by (simp add: grown_cell_def rw_cell_def RW_cell)

text \<open>The contents of a grown shared mapping, then \<^verbatim>\<open>SIGBUS\<close> behind its object.\<close>

lemma wp_check_then_bus:
  assumes K: "vm_contract cfg K V A" and "unat m < n"
    and cells: "\<forall>d<n. V (kern s) (b + of_nat d) =
      (if d < unat m then Some (rw_cell 0 True (unat m - Suc d)) else grown_cell (rw_cell 0 True 0))"
  shows "wp (check_block (mremap_mmap_anon_data_check K b m 48) (signal_block K SIGBUS (b + m))) (\<lambda>r t. passed r) s"
proof (rule wp_check_data [OF K])
  show "\<forall>i<unat m. holds 48 (V (kern s) (b + of_nat i))" using cells assms(2) by simp
  fix t :: "'a machine"
  assume "V (kern t) = V (kern s)"
  then have "V (kern t) (b + m) = grown_cell (rw_cell 0 True 0)" using cells [rule_format, of "unat m"] assms(2) by simp
  then show "wp (signal_block K SIGBUS (b + m)) (\<lambda>r t. passed r) t"
    using grown_bus [of 0 0] by (intro wp_signal_block [OF K]) simp
qed

lemma same_size_passes:
  assumes K: "vm_contract cfg K V A" and R: "range_ok cfg R" and avail: "18 * unat R \<le> A (kern s)"
  shows "wp (run_same_size K cfg R shared) (\<lambda>r t. passed r) s"
  unfolding run_same_size_def Let_def
proof (rule wp_init_block [OF K], goal_cases)
  case (5 a t)
  have e0: "V (kern t) (a + of_nat d) = Some (rw_cell 0 shared (unat R - Suc d))" if "d < unat R" for d
    using entry_cells [OF 5(4), of 0 d] that by (simp add: param_rw range_arith [OF R])
  have "V (kern t) a \<noteq> None" using e0 [of 0] by (simp add: range_simps [OF R])
  then show ?case using 5(1,2) e0
    by (simp add: place_addr)
      (intro remap_same [OF K] wp_check_data [OF K] wp_check_access [OF K]; simp add: range_simps [OF R])
qed (use avail range_facts [OF R] in \<open>simp_all add: range_sizes [OF R] layout_simps\<close>)

lemma huge_size:
  assumes "vm_contract cfg K V A"
  defines "n \<equiv> (of_int (os_pagesize K * - 2) :: u64)"
  shows "page_multiple cfg (unat n)" and "0 < unat n"
proof -
  let ?p = "2 ^ PAGE_SHIFT cfg :: nat"
  have p: "?p \<le> 2 ^ 16" using page_shift_bounds(2) [of cfg] by (intro power_increasing) simp_all
  then have small: "2 * ?p < SPACE" by (rule le_less_trans [OF mult_le_mono2]) (simp add: SPACE_def)
  have "os_pagesize K = int (unat (PAGE_SIZE cfg))" using assms(1) by (simp add: vm_contract_def)
  then have "n = - (of_nat (2 * ?p))" unfolding n_def small_page.unat_psize by simp
  also have "\<dots> = of_nat SPACE - of_nat (2 * ?p)" by (simp only: of_nat_SPACE diff_0)
  also have "\<dots> = of_nat (SPACE - 2 * ?p)" using small by (simp only: of_nat_diff less_imp_le)
  finally have "n = of_nat (SPACE - 2 * ?p)" .
  moreover have "SPACE - 2 * ?p < SPACE" using small by (intro diff_less) simp_all
  ultimately have n: "unat n = SPACE - 2 * ?p" by (simp only: unat_of_nat_SPACE)
  have "?p dvd SPACE" unfolding SPACE_def using page_shift_bounds(2) [of cfg] by (intro le_imp_power_dvd) simp
  then show "page_multiple cfg (unat n)" unfolding n page_multiple_def by (simp add: dvd_diff_nat)
  show "0 < unat n" using n small by simp
qed

lemma huge_size_passes:
  assumes K: "vm_contract cfg K V A" and R: "range_ok cfg R" and avail: "18 * unat R \<le> A (kern s)"
  shows "wp (run_huge_size K cfg R shared) (\<lambda>r t. passed r) s"
  unfolding run_huge_size_def Let_def
proof (rule wp_init_block [OF K], goal_cases)
  case (5 a t)
  have e0: "V (kern t) (a + of_nat d) = Some (rw_cell 0 shared (unat R - Suc d))" if "d < unat R" for d
    using entry_cells [OF 5(4), of 0 d] that by (simp add: param_rw range_arith [OF R])
  have "V (kern t) a \<noteq> None" using e0 [of 0] by (simp add: range_simps [OF R])
  then show ?case using 5(1,2) e0 huge_size [OF K]
    by (simp add: place_addr)
      (intro remap_same [OF K] wp_check_data [OF K] wp_check_access [OF K]; simp add: range_simps [OF R] place_size)
qed (use avail range_facts [OF R] in \<open>simp_all add: range_sizes [OF R] layout_simps\<close>)

lemma shrink_passes:
  assumes K: "vm_contract cfg K V A" and R: "range_ok cfg R" and avail: "18 * unat R \<le> A (kern s)"
  shows "wp (run_shrink K cfg R shared) (\<lambda>r t. passed r) s"
  unfolding run_shrink_def Let_def
proof (rule wp_init_block [OF K], goal_cases)
  case (5 a t)
  have e0: "\<forall>d<2 * unat R. V (kern t) (a + of_nat d) = Some (rw_cell 0 shared (2 * unat R - Suc d))"
    using entry_cells [OF 5(4), of 0] by (simp add: param_rw range_sizes [OF R] del: of_nat_add of_nat_mult flip: mult_2)
  have fit: "unat a + 3 * unat R < SPACE" using 5(3) by (simp add: fits_def range_sizes [OF R])
  show ?case using 5(1,2) e0 fit range_facts [OF R]
    by (simp add: place_addr)
      (rule remap_shrink [OF K, where j = 0 and shared = shared];
       (intro wp_check_data [OF K] wp_check_access [OF K])?; simp add: range_sizes [OF R] fits_def)
qed (use avail range_facts [OF R] in \<open>simp_all add: range_sizes [OF R] layout_simps\<close>)

lemma shrink_fault_passes:
  assumes K: "vm_contract cfg K V A" and R: "range_ok cfg R" and avail: "18 * unat R \<le> A (kern s)"
  shows "wp (run_shrink_fault K cfg R shared) (\<lambda>r t. passed r) s"
  unfolding run_shrink_fault_def Let_def
proof (rule wp_init_block [OF K], goal_cases)
  case (5 a t)
  have e0: "\<forall>d<2 * unat R. V (kern t) (a + of_nat d) = Some (rw_cell 0 shared (2 * unat R - Suc d))"
    using entry_cells [OF 5(4), of 0] by (simp add: param_rw range_sizes [OF R] del: of_nat_add of_nat_mult flip: mult_2)
  have fit: "unat a + 3 * unat R < SPACE" using 5(3) by (simp add: fits_def range_sizes [OF R])
  show ?case using 5(1,2) e0 fit range_facts [OF R]
    by (simp add: place_addr)
      (rule remap_shrink [OF K, where j = 0 and shared = shared];
       (intro wp_check_data [OF K] wp_signal_block [OF K])?; simp add: range_sizes [OF R] fits_def)
qed (use avail range_facts [OF R] in \<open>simp_all add: range_sizes [OF R] layout_simps\<close>)

lemma grow_passes:
  assumes K: "vm_contract cfg K V A" and R: "range_ok cfg R" and avail: "18 * unat R \<le> A (kern s)"
  shows "wp (run_grow K cfg R False) (\<lambda>r t. passed r) s"
  unfolding run_grow_def Let_def
proof (rule wp_init_block [OF K], goal_cases)
  case (5 a t)
  have e0: "\<forall>d<unat R. V (kern t) (a + of_nat d) = Some (rw_cell 0 False (unat R - Suc d))"
    using entry_cells [OF 5(4), of 0] by (simp add: param_rw range_sizes [OF R] del: of_nat_add of_nat_mult flip: mult_2)
  have f1: "\<forall>d<unat R. V (kern t) (a + of_nat (unat R + d)) = None"
    using entry_cells [OF 5(4), of 1] by (simp add: param_cells range_sizes [OF R] del: of_nat_add of_nat_mult)
  have fit: "unat a + 3 * unat R < SPACE" using 5(3) by (simp add: fits_def range_sizes [OF R])
  have g: "growable cfg (V (kern t)) a R (R + R) (rw_cell 0 False 0)"
    using 5(2) range_facts [OF R] e0 by (intro growable_rw) (simp_all add: range_sizes [OF R])
  have av: "2 * unat R \<le> A (kern t)" using 5(5) avail by (simp add: range_sizes [OF R])
  show ?case using 5(1,2) e0 f1 fit av g
    by (simp add: place_addr place_size del: of_nat_add)
      (rule remap_grow [OF K, where j = 0 and shared = False];
       (intro wp_check_data [OF K] wp_check_access [OF K])?; simp add: range_sizes [OF R] fits_def grown_usable del: of_nat_add)
qed (use avail range_facts [OF R] in \<open>simp_all add: range_sizes [OF R] layout_simps\<close>)

lemma grow_shared_passes:
  assumes K: "vm_contract cfg K V A" and R: "range_ok cfg R" and avail: "18 * unat R \<le> A (kern s)"
  shows "wp (run_grow_shared K cfg R True) (\<lambda>r t. passed r) s"
  unfolding run_grow_shared_def Let_def
proof (rule wp_init_block [OF K], goal_cases)
  case (5 a t)
  have e0: "\<forall>d<unat R. V (kern t) (a + of_nat d) = Some (rw_cell 0 True (unat R - Suc d))"
    using entry_cells [OF 5(4), of 0] by (simp add: param_rw range_sizes [OF R] del: of_nat_add of_nat_mult flip: mult_2)
  have f1: "\<forall>d<unat R. V (kern t) (a + of_nat (unat R + d)) = None"
    using entry_cells [OF 5(4), of 1] by (simp add: param_cells range_sizes [OF R] del: of_nat_add of_nat_mult)
  have fit: "unat a + 3 * unat R < SPACE" using 5(3) by (simp add: fits_def range_sizes [OF R])
  have g: "growable cfg (V (kern t)) a R (R + R) (rw_cell 0 True 0)"
    using 5(2) range_facts [OF R] e0 by (intro growable_rw) (simp_all add: range_sizes [OF R])
  have av: "2 * unat R \<le> A (kern t)" using 5(5) avail by (simp add: range_sizes [OF R])
  show ?case using 5(1,2) e0 f1 fit av g range_facts(6) [OF R]
    by (simp add: place_addr place_size del: of_nat_add)
      (rule remap_grow [OF K, where j = 0 and shared = True];
       (rule wp_check_then_bus [OF K, where n = "2 * unat R"])?; simp add: range_sizes [OF R] fits_def del: of_nat_add)
qed (use avail range_facts [OF R] in \<open>simp_all add: range_sizes [OF R] layout_simps\<close>)

lemma grow_blocked_passes:
  assumes K: "vm_contract cfg K V A" and R: "range_ok cfg R" and avail: "18 * unat R \<le> A (kern s)"
  shows "wp (run_grow_blocked K cfg R shared) (\<lambda>r t. passed r) s"
  unfolding run_grow_blocked_def Let_def
proof (rule wp_init_block [OF K], goal_cases)
  case (5 a t)
  have e0: "\<forall>d<unat R. V (kern t) (a + of_nat d) = Some (rw_cell 0 shared (unat R - Suc d))"
    using entry_cells [OF 5(4), of 0] by (simp add: param_rw range_sizes [OF R] del: of_nat_add of_nat_mult flip: mult_2)
  have n1: "V (kern t) (a + of_nat (unat R)) \<noteq> None"
    using entry_cells [OF 5(4), of 1 0] range_facts(6) [OF R] by (simp add: param_cells range_sizes [OF R])
  have fit: "unat a + 2 * unat R < SPACE" using 5(3) by (simp add: fits_def range_sizes [OF R])
  have g: "growable cfg (V (kern t)) a R (R + R) (rw_cell 0 shared 0)"
    using 5(2) range_facts [OF R] e0 by (intro growable_rw) (simp_all add: range_sizes [OF R])
  have av: "2 * unat R \<le> A (kern t)" using 5(5) avail by (simp add: range_sizes [OF R])
  show ?case using 5(1,2) n1 fit g
    by (simp add: place_addr place_size)
      (rule remap_blocked [OF K]; simp add: range_sizes [OF R] fits_def wp_ret passed_def)
qed (use avail range_facts [OF R] in \<open>simp_all add: range_sizes [OF R] layout_simps\<close>)

lemma grow_move_passes:
  assumes K: "vm_contract cfg K V A" and R: "range_ok cfg R" and avail: "18 * unat R \<le> A (kern s)"
  shows "wp (run_grow_move K cfg R False) (\<lambda>r t. passed r) s"
  unfolding run_grow_move_def Let_def
proof (rule wp_init_block [OF K], goal_cases)
  case (5 a t)
  have e0: "\<forall>d<unat R. V (kern t) (a + of_nat d) = Some (rw_cell 0 False (unat R - Suc d))"
    using entry_cells [OF 5(4), of 0] by (simp add: param_rw range_sizes [OF R] del: of_nat_add of_nat_mult flip: mult_2)
  have n1: "V (kern t) (a + of_nat (unat R)) \<noteq> None"
    using entry_cells [OF 5(4), of 1 0] range_facts(6) [OF R] by (simp add: param_cells range_sizes [OF R])
  have fit: "unat a + 2 * unat R < SPACE" using 5(3) by (simp add: fits_def range_sizes [OF R])
  have g: "growable cfg (V (kern t)) a R (R + R) (rw_cell 0 False 0)"
    using 5(2) range_facts [OF R] e0 by (intro growable_rw) (simp_all add: range_sizes [OF R])
  have av: "2 * unat R \<le> A (kern t)" using 5(5) avail by (simp add: range_sizes [OF R])
  have "V (kern t) a \<noteq> None" using e0 [rule_format, of 0] range_facts(6) [OF R] by simp
  then show ?case using 5(1,2) e0 n1 fit av g range_facts(6) [OF R]
    by (simp add: place_addr place_size)
      (rule remap_move [OF K, where j = 0 and shared = False];
       (intro wp_check_data [OF K] wp_check_access [OF K])?; simp add: range_sizes [OF R] fits_def grown_usable)
qed (use avail range_facts [OF R] in \<open>simp_all add: range_sizes [OF R] layout_simps\<close>)

lemma grow_move_shared_passes:
  assumes K: "vm_contract cfg K V A" and R: "range_ok cfg R" and avail: "18 * unat R \<le> A (kern s)"
  shows "wp (run_grow_move_shared K cfg R True) (\<lambda>r t. passed r) s"
  unfolding run_grow_move_shared_def Let_def
proof (rule wp_init_block [OF K], goal_cases)
  case (5 a t)
  have e0: "\<forall>d<unat R. V (kern t) (a + of_nat d) = Some (rw_cell 0 True (unat R - Suc d))"
    using entry_cells [OF 5(4), of 0] by (simp add: param_rw range_sizes [OF R] del: of_nat_add of_nat_mult flip: mult_2)
  have n1: "V (kern t) (a + of_nat (unat R)) \<noteq> None"
    using entry_cells [OF 5(4), of 1 0] range_facts(6) [OF R] by (simp add: param_cells range_sizes [OF R])
  have fit: "unat a + 2 * unat R < SPACE" using 5(3) by (simp add: fits_def range_sizes [OF R])
  have g: "growable cfg (V (kern t)) a R (R + R) (rw_cell 0 True 0)"
    using 5(2) range_facts [OF R] e0 by (intro growable_rw) (simp_all add: range_sizes [OF R])
  have av: "2 * unat R \<le> A (kern t)" using 5(5) avail by (simp add: range_sizes [OF R])
  have "V (kern t) a \<noteq> None" using e0 [rule_format, of 0] range_facts(6) [OF R] by simp
  then show ?case using 5(1,2) e0 n1 fit av g range_facts(6) [OF R]
    by (simp add: place_addr place_size)
      (rule remap_move [OF K, where j = 0 and shared = True];
       (rule wp_check_then_bus [OF K, where n = "2 * unat R"])?; simp add: range_sizes [OF R] fits_def)
qed (use avail range_facts [OF R] in \<open>simp_all add: range_sizes [OF R] layout_simps\<close>)

lemma move_fault_passes:
  assumes K: "vm_contract cfg K V A" and R: "range_ok cfg R" and avail: "18 * unat R \<le> A (kern s)"
  shows "wp (run_move_fault K cfg R shared) (\<lambda>r t. passed r) s"
  unfolding run_move_fault_def Let_def
proof (rule wp_init_block [OF K], goal_cases)
  case (5 a t)
  have e0: "\<forall>d<unat R. V (kern t) (a + of_nat d) = Some (rw_cell 0 shared (unat R - Suc d))"
    using entry_cells [OF 5(4), of 0] by (simp add: param_rw range_sizes [OF R] del: of_nat_add of_nat_mult flip: mult_2)
  have n1: "V (kern t) (a + of_nat (unat R)) \<noteq> None"
    using entry_cells [OF 5(4), of 1 0] range_facts(6) [OF R] by (simp add: param_cells range_sizes [OF R])
  have fit: "unat a + 2 * unat R < SPACE" using 5(3) by (simp add: fits_def range_sizes [OF R])
  have g: "growable cfg (V (kern t)) a R (R + R) (rw_cell 0 shared 0)"
    using 5(2) range_facts [OF R] e0 by (intro growable_rw) (simp_all add: range_sizes [OF R])
  have av: "2 * unat R \<le> A (kern t)" using 5(5) avail by (simp add: range_sizes [OF R])
  have "V (kern t) a \<noteq> None" using e0 [rule_format, of 0] range_facts(6) [OF R] by simp
  then show ?case using 5(1,2) e0 n1 fit av g range_facts(6) [OF R]
    by (simp add: place_addr place_size)
      (rule remap_move [OF K, where j = 0 and shared = shared];
       (intro wp_check_data [OF K] wp_signal_block [OF K])?; simp add: range_sizes [OF R] fits_def)
qed (use avail range_facts [OF R] in \<open>simp_all add: range_sizes [OF R] layout_simps\<close>)

lemma remap_fixed_entry:
  assumes K: "vm_contract cfg K V A" and a: "page_multiple cfg (unat a)" "fits a N" "a \<noteq> 0"
    and xy: "x = a + of_nat o1" "y = a + of_nat o2"
    and pm: "page_multiple cfg o1" "page_multiple cfg o2" "page_multiple cfg (unat n)" "0 < unat n"
    and o: "o1 + unat n \<le> N" "o2 + unat n \<le> N" "o1 + unat n \<le> o2 \<or> o2 + unat n \<le> o1"
    and cells: "\<forall>d<unat n. V (kern s) (a + of_nat (o1 + d)) = Some (rw_cell j shared (unat n - Suc d))"
    and k: "\<And>t. \<lbrakk>y \<noteq> 0; \<forall>d<unat n. V (kern t) (y + of_nat d) = Some (rw_cell j shared (unat n - Suc d)); V (kern t) x = None;
        \<forall>d<N. o1 + unat n \<le> d \<and> o2 + unat n \<le> d \<longrightarrow> V (kern t) (a + of_nat d) = V (kern s) (a + of_nat d)\<rbrakk> \<Longrightarrow> wp (k y) Q t"
  shows "wp (remap_block K x n n FIXED y (\<lambda>v. v = y) 0 k) Q s"
  unfolding xy
proof (rule remap_fixed [OF K a pm o cells], goal_cases)
  case (1 t)
  have "\<forall>d<unat n. V (kern t) (y + of_nat d) = Some (rw_cell j shared (unat n - Suc d))"
    using 1(2) [rule_format, of "o2 + d" for d] o by (simp add: xy add.assoc)
  moreover have "V (kern t) x = None" using 1(2) [rule_format, of o1] o pm(4) by (auto simp: xy)
  moreover have "\<forall>d<N. o1 + unat n \<le> d \<and> o2 + unat n \<le> d \<longrightarrow> V (kern t) (a + of_nat d) = V (kern s) (a + of_nat d)"
    using 1(2) by simp
  ultimately show ?case using k 1(1) unfolding xy by blast
qed

lemma page_power: "2 ^ PAGE_SHIFT cfg = PAGE_SIZE cfg"
  by (simp add: PAGE_SIZE_def)

lemma remap_overlap_entry:
  assumes "vm_contract cfg K V A" and "page_multiple cfg (unat a)" "fits a N"
    and "x = a + of_nat o1" "y = a + of_nat o2"
    and "page_multiple cfg o1" "page_multiple cfg o2" "page_multiple cfg (unat m)" "page_multiple cfg (unat n)"
    and "0 < unat m" "0 < unat n" "o1 + unat m \<le> N" "o2 + unat n \<le> N" "o1 < o2 + unat n" "o2 < o1 + unat m"
  shows "wp (remap_block K x m n FIXED y (\<lambda>v. v = MAP_FAILED) EINVAL (\<lambda>v. ret None)) (\<lambda>r t. passed r) s"
  unfolding assms(4,5) by (rule remap_overlap [OF assms(1-3,6-15)]) (simp add: wp_ret passed_def)

lemma move_free_passes:
  assumes K: "vm_contract cfg K V A" and R: "range_ok cfg R" and avail: "18 * unat R \<le> A (kern s)"
  shows "wp (run_move_free K cfg R shared) (\<lambda>r t. passed r) s"
  unfolding run_move_free_def Let_def
proof (rule wp_init_block [OF K], goal_cases)
  case (5 a t)
  have e0: "\<forall>d<unat R. V (kern t) (a + of_nat d) = Some (rw_cell 0 shared (unat R - Suc d))"
    using entry_cells [OF 5(4), of 0] by (simp add: param_rw range_sizes [OF R] del: of_nat_add of_nat_mult flip: mult_2)
  have fit: "unat a + 3 * unat R < SPACE" using 5(3) by (simp add: fits_def range_sizes [OF R])
  show ?case using 5(1,2) e0 fit range_facts [OF R]
    by (simp add: place_addr place_size range_sizes [OF R] del: of_nat_add of_nat_mult)
      (rule remap_fixed_entry [OF K, where ?o1.0 = "0" and ?o2.0 = "unat R" and j = 0 and shared = shared and N = "3 * unat R" and a = a];
       (intro wp_check_data [OF K] wp_check_access [OF K])?; simp add: range_sizes [OF R] fits_def page_multiple_page)
qed (use avail range_facts [OF R] in \<open>simp_all add: range_sizes [OF R] layout_simps\<close>)

lemma move_down_passes:
  assumes K: "vm_contract cfg K V A" and R: "range_ok cfg R" and avail: "18 * unat R \<le> A (kern s)"
  shows "wp (run_move_down K cfg R shared) (\<lambda>r t. passed r) s"
  unfolding run_move_down_def Let_def
proof (rule wp_init_block [OF K], goal_cases)
  case (5 a t)
  have e2: "\<forall>d<unat R. V (kern t) (a + of_nat (2 * unat R + d)) = Some (rw_cell 2 shared (unat R - Suc d))"
    using entry_cells [OF 5(4), of 2] by (simp add: param_rw range_sizes [OF R] del: of_nat_add of_nat_mult flip: mult_2)
  have fit: "unat a + 4 * unat R < SPACE" using 5(3) by (simp add: fits_def range_sizes [OF R])
  show ?case using 5(1,2) e2 fit range_facts [OF R]
    by (simp add: place_addr place_size range_sizes [OF R] del: of_nat_add of_nat_mult)
      (rule remap_fixed_entry [OF K, where ?o1.0 = "2 * unat R" and ?o2.0 = "unat R" and j = 2 and shared = shared and N = "4 * unat R" and a = a];
       (intro wp_check_data [OF K] wp_check_access [OF K])?; simp add: range_sizes [OF R] fits_def page_multiple_page)
qed (use avail range_facts [OF R] in \<open>simp_all add: range_sizes [OF R] layout_simps\<close>)

lemma move_up_passes:
  assumes K: "vm_contract cfg K V A" and R: "range_ok cfg R" and avail: "18 * unat R \<le> A (kern s)"
  shows "wp (run_move_up K cfg R shared) (\<lambda>r t. passed r) s"
  unfolding run_move_up_def Let_def
proof (rule wp_init_block [OF K], goal_cases)
  case (5 a t)
  have e1: "\<forall>d<unat R. V (kern t) (a + of_nat (unat R + d)) = Some (rw_cell 1 shared (unat R - Suc d))"
    using entry_cells [OF 5(4), of 1] by (simp add: param_rw range_sizes [OF R] del: of_nat_add of_nat_mult flip: mult_2)
  have fit: "unat a + 4 * unat R < SPACE" using 5(3) by (simp add: fits_def range_sizes [OF R])
  show ?case using 5(1,2) e1 fit range_facts [OF R]
    by (simp add: place_addr place_size range_sizes [OF R] del: of_nat_add of_nat_mult)
      (rule remap_fixed_entry [OF K, where ?o1.0 = "unat R" and ?o2.0 = "2 * unat R" and j = 1 and shared = shared and N = "4 * unat R" and a = a];
       (intro wp_check_data [OF K] wp_check_access [OF K])?; simp add: range_sizes [OF R] fits_def page_multiple_page)
qed (use avail range_facts [OF R] in \<open>simp_all add: range_sizes [OF R] layout_simps\<close>)

lemma fixed_fault_passes:
  assumes K: "vm_contract cfg K V A" and R: "range_ok cfg R" and avail: "18 * unat R \<le> A (kern s)"
  shows "wp (run_fixed_fault K cfg R shared) (\<lambda>r t. passed r) s"
  unfolding run_fixed_fault_def Let_def
proof (rule wp_init_block [OF K], goal_cases)
  case (5 a t)
  have e0: "\<forall>d<unat R. V (kern t) (a + of_nat d) = Some (rw_cell 0 shared (unat R - Suc d))"
    using entry_cells [OF 5(4), of 0] by (simp add: param_rw range_sizes [OF R] del: of_nat_add of_nat_mult flip: mult_2)
  have fit: "unat a + 3 * unat R < SPACE" using 5(3) by (simp add: fits_def range_sizes [OF R])
  show ?case using 5(1,2) e0 fit range_facts [OF R]
    by (simp add: place_addr place_size range_sizes [OF R] del: of_nat_add of_nat_mult)
      (rule remap_fixed_entry [OF K, where ?o1.0 = "0" and ?o2.0 = "unat R" and j = 0 and shared = shared and N = "3 * unat R" and a = a];
       (intro wp_check_data [OF K] wp_signal_block [OF K])?; simp add: range_sizes [OF R] fits_def page_multiple_page)
qed (use avail range_facts [OF R] in \<open>simp_all add: range_sizes [OF R] layout_simps\<close>)

lemma move_over_passes:
  assumes K: "vm_contract cfg K V A" and R: "range_ok cfg R" and avail: "18 * unat R \<le> A (kern s)"
  shows "wp (run_move_over K cfg R shared) (\<lambda>r t. passed r) s"
  unfolding run_move_over_def Let_def
proof (rule wp_init_block [OF K], goal_cases)
  case (5 a t)
  have e0: "\<forall>d<unat R. V (kern t) (a + of_nat d) = Some (rw_cell 0 shared (unat R - Suc d))"
    using entry_cells [OF 5(4), of 0] by (simp add: param_rw range_sizes [OF R] del: of_nat_add of_nat_mult flip: mult_2)
  have e2: "\<forall>d<2 * unat R. V (kern t) (a + of_nat (2 * unat R + d)) = Some (rw_cell 2 shared (2 * unat R - Suc d))"
    using entry_cells [OF 5(4), of 2] by (simp add: param_rw range_sizes [OF R] del: of_nat_add of_nat_mult flip: mult_2)
  have fit: "unat a + 5 * unat R < SPACE" using 5(3) by (simp add: fits_def range_sizes [OF R])
  have mid: "holds 50 (V (kern t) (a + of_nat (3 * unat R + d)))" if "d < unat R" for d
    using e2 [rule_format, of "unat R + d"] that by (simp add: add.assoc [symmetric] del: of_nat_add of_nat_mult)
  have behind: "3 * R + a + of_nat d = a + of_nat (3 * unat R + d)" for d
    by (simp add: add.commute add.left_commute)
  show ?case using 5(1,2) e0 fit range_facts [OF R]
    by (simp add: place_addr place_size range_sizes [OF R] del: of_nat_add of_nat_mult)
      (rule remap_fixed_entry [OF K, where ?o1.0 = "0" and ?o2.0 = "2 * unat R" and j = 0 and shared = shared and N = "5 * unat R" and a = a];
       (intro wp_check_data [OF K] wp_check_access [OF K])?; simp add: range_sizes [OF R] fits_def page_multiple_page behind mid del: of_nat_add)
qed (use avail range_facts [OF R] in \<open>simp_all add: range_sizes [OF R] layout_simps\<close>)

lemma overlap_grow_passes:
  assumes K: "vm_contract cfg K V A" and R: "range_ok cfg R" and avail: "18 * unat R \<le> A (kern s)"
  shows "wp (run_overlap_grow K cfg R shared) (\<lambda>r t. passed r) s"
  unfolding run_overlap_grow_def Let_def
proof (rule wp_init_block [OF K], goal_cases)
  case (5 a t)
  have fit: "unat a + 5 * unat R < SPACE" using 5(3) by (simp add: fits_def range_sizes [OF R])
  show ?case using 5(1,2) fit range_facts [OF R]
    by (simp add: place_addr place_size range_sizes [OF R] del: of_nat_add of_nat_mult)
      (rule remap_overlap_entry [OF K, where ?o1.0 = "2 * unat R" and ?o2.0 = "unat R" and N = "5 * unat R" and a = a];
       simp add: range_sizes [OF R] small_page.unat_psize page_power fits_def page_multiple_page)
qed (use avail range_facts [OF R] in \<open>simp_all add: range_sizes [OF R] layout_simps\<close>)

lemma overlap_shrink_passes:
  assumes K: "vm_contract cfg K V A" and R: "range_ok cfg R" and avail: "18 * unat R \<le> A (kern s)"
  shows "wp (run_overlap_shrink K cfg R shared) (\<lambda>r t. passed r) s"
  unfolding run_overlap_shrink_def Let_def
proof (rule wp_init_block [OF K], goal_cases)
  case (5 a t)
  have fit: "unat a + 4 * unat R < SPACE" using 5(3) by (simp add: fits_def range_sizes [OF R])
  show ?case using 5(1,2) fit range_facts [OF R]
    by (simp add: place_addr place_size range_sizes [OF R] del: of_nat_add of_nat_mult)
      (rule remap_overlap_entry [OF K, where ?o1.0 = "unat R" and ?o2.0 = "unat R + 2 ^ PAGE_SHIFT cfg" and N = "4 * unat R" and a = a];
       simp add: range_sizes [OF R] small_page.unat_psize page_power fits_def page_multiple_page)
qed (use avail range_facts [OF R] in \<open>simp_all add: range_sizes [OF R] layout_simps\<close>)

lemma overlap_below_passes:
  assumes K: "vm_contract cfg K V A" and R: "range_ok cfg R" and avail: "18 * unat R \<le> A (kern s)"
  shows "wp (run_overlap_below K cfg R shared) (\<lambda>r t. passed r) s"
  unfolding run_overlap_below_def Let_def
proof (rule wp_init_block [OF K], goal_cases)
  case (5 a t)
  have fit: "unat a + 5 * unat R < SPACE" using 5(3) by (simp add: fits_def range_sizes [OF R])
  show ?case using 5(1,2) fit range_facts [OF R]
    by (simp add: place_addr place_size range_sizes [OF R] del: of_nat_add of_nat_mult)
      (rule remap_overlap_entry [OF K, where ?o1.0 = "2 * unat R" and ?o2.0 = "unat R" and N = "5 * unat R" and a = a];
       simp add: range_sizes [OF R] small_page.unat_psize page_power fits_def page_multiple_page)
qed (use avail range_facts [OF R] in \<open>simp_all add: range_sizes [OF R] layout_simps\<close>)

lemma overlap_above_passes:
  assumes K: "vm_contract cfg K V A" and R: "range_ok cfg R" and avail: "18 * unat R \<le> A (kern s)"
  shows "wp (run_overlap_above K cfg R shared) (\<lambda>r t. passed r) s"
  unfolding run_overlap_above_def Let_def
proof (rule wp_init_block [OF K], goal_cases)
  case (5 a t)
  have fit: "unat a + 5 * unat R < SPACE" using 5(3) by (simp add: fits_def range_sizes [OF R])
  show ?case using 5(1,2) fit range_facts [OF R]
    by (simp add: place_addr place_size range_sizes [OF R] del: of_nat_add of_nat_mult)
      (rule remap_overlap_entry [OF K, where ?o1.0 = "unat R" and ?o2.0 = "unat R + 2 ^ PAGE_SHIFT cfg" and N = "5 * unat R" and a = a];
       simp add: range_sizes [OF R] small_page.unat_psize page_power fits_def page_multiple_page)
qed (use avail range_facts [OF R] in \<open>simp_all add: range_sizes [OF R] layout_simps\<close>)

section \<open>The test cases\<close>

definition mremap_mmap_anon_000 :: "('k, 'z) vm_os_scheme \<Rightarrow> page_config \<Rightarrow> ('k, string option) prog" where
  "mremap_mmap_anon_000 K cfg = run_same_size K cfg (MREMAP_RANGE_SIZE cfg) False"

definition mremap_mmap_anon_001 :: "('k, 'z) vm_os_scheme \<Rightarrow> page_config \<Rightarrow> ('k, string option) prog" where
  "mremap_mmap_anon_001 K cfg = run_huge_size K cfg (MREMAP_RANGE_SIZE cfg) False"

definition mremap_mmap_anon_002 :: "('k, 'z) vm_os_scheme \<Rightarrow> page_config \<Rightarrow> ('k, string option) prog" where
  "mremap_mmap_anon_002 K cfg = run_shrink K cfg (MREMAP_RANGE_SIZE cfg) False"

definition mremap_mmap_anon_003 :: "('k, 'z) vm_os_scheme \<Rightarrow> page_config \<Rightarrow> ('k, string option) prog" where
  "mremap_mmap_anon_003 K cfg = run_grow K cfg (MREMAP_RANGE_SIZE cfg) False"

definition mremap_mmap_anon_004 :: "('k, 'z) vm_os_scheme \<Rightarrow> page_config \<Rightarrow> ('k, string option) prog" where
  "mremap_mmap_anon_004 K cfg = run_grow_blocked K cfg (MREMAP_RANGE_SIZE cfg) False"

definition mremap_mmap_anon_005 :: "('k, 'z) vm_os_scheme \<Rightarrow> page_config \<Rightarrow> ('k, string option) prog" where
  "mremap_mmap_anon_005 K cfg = run_grow_move K cfg (MREMAP_RANGE_SIZE cfg) False"

definition mremap_mmap_anon_006 :: "('k, 'z) vm_os_scheme \<Rightarrow> page_config \<Rightarrow> ('k, string option) prog" where
  "mremap_mmap_anon_006 K cfg = run_move_free K cfg (MREMAP_RANGE_SIZE cfg) False"

definition mremap_mmap_anon_007 :: "('k, 'z) vm_os_scheme \<Rightarrow> page_config \<Rightarrow> ('k, string option) prog" where
  "mremap_mmap_anon_007 K cfg = run_move_over K cfg (MREMAP_RANGE_SIZE cfg) False"

definition mremap_mmap_anon_008 :: "('k, 'z) vm_os_scheme \<Rightarrow> page_config \<Rightarrow> ('k, string option) prog" where
  "mremap_mmap_anon_008 K cfg = run_overlap_grow K cfg (MREMAP_RANGE_SIZE cfg) False"

definition mremap_mmap_anon_009 :: "('k, 'z) vm_os_scheme \<Rightarrow> page_config \<Rightarrow> ('k, string option) prog" where
  "mremap_mmap_anon_009 K cfg = run_overlap_shrink K cfg (MREMAP_RANGE_SIZE cfg) False"

definition mremap_mmap_anon_010 :: "('k, 'z) vm_os_scheme \<Rightarrow> page_config \<Rightarrow> ('k, string option) prog" where
  "mremap_mmap_anon_010 K cfg = run_overlap_below K cfg (MREMAP_RANGE_SIZE cfg) False"

definition mremap_mmap_anon_011 :: "('k, 'z) vm_os_scheme \<Rightarrow> page_config \<Rightarrow> ('k, string option) prog" where
  "mremap_mmap_anon_011 K cfg = run_overlap_above K cfg (MREMAP_RANGE_SIZE cfg) False"

definition mremap_mmap_anon_012 :: "('k, 'z) vm_os_scheme \<Rightarrow> page_config \<Rightarrow> ('k, string option) prog" where
  "mremap_mmap_anon_012 K cfg = run_move_down K cfg (MREMAP_RANGE_SIZE cfg) False"

definition mremap_mmap_anon_013 :: "('k, 'z) vm_os_scheme \<Rightarrow> page_config \<Rightarrow> ('k, string option) prog" where
  "mremap_mmap_anon_013 K cfg = run_move_up K cfg (MREMAP_RANGE_SIZE cfg) False"

definition mremap_mmap_anon_014 :: "('k, 'z) vm_os_scheme \<Rightarrow> page_config \<Rightarrow> ('k, string option) prog" where
  "mremap_mmap_anon_014 K cfg = run_shrink_fault K cfg (MREMAP_RANGE_SIZE cfg) False"

definition mremap_mmap_anon_015 :: "('k, 'z) vm_os_scheme \<Rightarrow> page_config \<Rightarrow> ('k, string option) prog" where
  "mremap_mmap_anon_015 K cfg = run_move_fault K cfg (MREMAP_RANGE_SIZE cfg) False"

definition mremap_mmap_anon_016 :: "('k, 'z) vm_os_scheme \<Rightarrow> page_config \<Rightarrow> ('k, string option) prog" where
  "mremap_mmap_anon_016 K cfg = run_fixed_fault K cfg (MREMAP_RANGE_SIZE cfg) False"

definition mremap_mmap_anon_100 :: "('k, 'z) vm_os_scheme \<Rightarrow> page_config \<Rightarrow> ('k, string option) prog" where
  "mremap_mmap_anon_100 K cfg = run_same_size K cfg (MREMAP_RANGE_SIZE cfg) True"

definition mremap_mmap_anon_101 :: "('k, 'z) vm_os_scheme \<Rightarrow> page_config \<Rightarrow> ('k, string option) prog" where
  "mremap_mmap_anon_101 K cfg = run_huge_size K cfg (MREMAP_RANGE_SIZE cfg) True"

definition mremap_mmap_anon_102 :: "('k, 'z) vm_os_scheme \<Rightarrow> page_config \<Rightarrow> ('k, string option) prog" where
  "mremap_mmap_anon_102 K cfg = run_shrink K cfg (MREMAP_RANGE_SIZE cfg) True"

definition mremap_mmap_anon_103 :: "('k, 'z) vm_os_scheme \<Rightarrow> page_config \<Rightarrow> ('k, string option) prog" where
  "mremap_mmap_anon_103 K cfg = run_grow_shared K cfg (MREMAP_RANGE_SIZE cfg) True"

definition mremap_mmap_anon_104 :: "('k, 'z) vm_os_scheme \<Rightarrow> page_config \<Rightarrow> ('k, string option) prog" where
  "mremap_mmap_anon_104 K cfg = run_grow_blocked K cfg (MREMAP_RANGE_SIZE cfg) True"

definition mremap_mmap_anon_105 :: "('k, 'z) vm_os_scheme \<Rightarrow> page_config \<Rightarrow> ('k, string option) prog" where
  "mremap_mmap_anon_105 K cfg = run_grow_move_shared K cfg (MREMAP_RANGE_SIZE cfg) True"

definition mremap_mmap_anon_106 :: "('k, 'z) vm_os_scheme \<Rightarrow> page_config \<Rightarrow> ('k, string option) prog" where
  "mremap_mmap_anon_106 K cfg = run_move_free K cfg (MREMAP_RANGE_SIZE cfg) True"

definition mremap_mmap_anon_107 :: "('k, 'z) vm_os_scheme \<Rightarrow> page_config \<Rightarrow> ('k, string option) prog" where
  "mremap_mmap_anon_107 K cfg = run_move_over K cfg (MREMAP_RANGE_SIZE cfg) True"

definition mremap_mmap_anon_108 :: "('k, 'z) vm_os_scheme \<Rightarrow> page_config \<Rightarrow> ('k, string option) prog" where
  "mremap_mmap_anon_108 K cfg = run_overlap_grow K cfg (MREMAP_RANGE_SIZE cfg) True"

definition mremap_mmap_anon_109 :: "('k, 'z) vm_os_scheme \<Rightarrow> page_config \<Rightarrow> ('k, string option) prog" where
  "mremap_mmap_anon_109 K cfg = run_overlap_shrink K cfg (MREMAP_RANGE_SIZE cfg) True"

definition mremap_mmap_anon_110 :: "('k, 'z) vm_os_scheme \<Rightarrow> page_config \<Rightarrow> ('k, string option) prog" where
  "mremap_mmap_anon_110 K cfg = run_overlap_below K cfg (MREMAP_RANGE_SIZE cfg) True"

definition mremap_mmap_anon_111 :: "('k, 'z) vm_os_scheme \<Rightarrow> page_config \<Rightarrow> ('k, string option) prog" where
  "mremap_mmap_anon_111 K cfg = run_overlap_above K cfg (MREMAP_RANGE_SIZE cfg) True"

definition mremap_mmap_anon_112 :: "('k, 'z) vm_os_scheme \<Rightarrow> page_config \<Rightarrow> ('k, string option) prog" where
  "mremap_mmap_anon_112 K cfg = run_move_down K cfg (MREMAP_RANGE_SIZE cfg) True"

definition mremap_mmap_anon_113 :: "('k, 'z) vm_os_scheme \<Rightarrow> page_config \<Rightarrow> ('k, string option) prog" where
  "mremap_mmap_anon_113 K cfg = run_move_up K cfg (MREMAP_RANGE_SIZE cfg) True"

definition mremap_mmap_anon_114 :: "('k, 'z) vm_os_scheme \<Rightarrow> page_config \<Rightarrow> ('k, string option) prog" where
  "mremap_mmap_anon_114 K cfg = run_shrink_fault K cfg (MREMAP_RANGE_SIZE cfg) True"

definition mremap_mmap_anon_115 :: "('k, 'z) vm_os_scheme \<Rightarrow> page_config \<Rightarrow> ('k, string option) prog" where
  "mremap_mmap_anon_115 K cfg = run_move_fault K cfg (MREMAP_RANGE_SIZE cfg) True"

definition mremap_mmap_anon_116 :: "('k, 'z) vm_os_scheme \<Rightarrow> page_config \<Rightarrow> ('k, string option) prog" where
  "mremap_mmap_anon_116 K cfg = run_fixed_fault K cfg (MREMAP_RANGE_SIZE cfg) True"

definition mremap_mmap_anon_200 :: "('k, 'z) vm_os_scheme \<Rightarrow> page_config \<Rightarrow> ('k, string option) prog" where
  "mremap_mmap_anon_200 K cfg = run_same_size K cfg (MREMAP_RANGE_LARGE_SIZE cfg) False"

definition mremap_mmap_anon_201 :: "('k, 'z) vm_os_scheme \<Rightarrow> page_config \<Rightarrow> ('k, string option) prog" where
  "mremap_mmap_anon_201 K cfg = run_huge_size K cfg (MREMAP_RANGE_LARGE_SIZE cfg) False"

definition mremap_mmap_anon_202 :: "('k, 'z) vm_os_scheme \<Rightarrow> page_config \<Rightarrow> ('k, string option) prog" where
  "mremap_mmap_anon_202 K cfg = run_shrink K cfg (MREMAP_RANGE_LARGE_SIZE cfg) False"

definition mremap_mmap_anon_203 :: "('k, 'z) vm_os_scheme \<Rightarrow> page_config \<Rightarrow> ('k, string option) prog" where
  "mremap_mmap_anon_203 K cfg = run_grow K cfg (MREMAP_RANGE_LARGE_SIZE cfg) False"

definition mremap_mmap_anon_204 :: "('k, 'z) vm_os_scheme \<Rightarrow> page_config \<Rightarrow> ('k, string option) prog" where
  "mremap_mmap_anon_204 K cfg = run_grow_blocked K cfg (MREMAP_RANGE_LARGE_SIZE cfg) False"

definition mremap_mmap_anon_205 :: "('k, 'z) vm_os_scheme \<Rightarrow> page_config \<Rightarrow> ('k, string option) prog" where
  "mremap_mmap_anon_205 K cfg = run_grow_move K cfg (MREMAP_RANGE_LARGE_SIZE cfg) False"

definition mremap_mmap_anon_206 :: "('k, 'z) vm_os_scheme \<Rightarrow> page_config \<Rightarrow> ('k, string option) prog" where
  "mremap_mmap_anon_206 K cfg = run_move_free K cfg (MREMAP_RANGE_LARGE_SIZE cfg) False"

definition mremap_mmap_anon_207 :: "('k, 'z) vm_os_scheme \<Rightarrow> page_config \<Rightarrow> ('k, string option) prog" where
  "mremap_mmap_anon_207 K cfg = run_move_over K cfg (MREMAP_RANGE_LARGE_SIZE cfg) False"

definition mremap_mmap_anon_208 :: "('k, 'z) vm_os_scheme \<Rightarrow> page_config \<Rightarrow> ('k, string option) prog" where
  "mremap_mmap_anon_208 K cfg = run_overlap_grow K cfg (MREMAP_RANGE_LARGE_SIZE cfg) False"

definition mremap_mmap_anon_209 :: "('k, 'z) vm_os_scheme \<Rightarrow> page_config \<Rightarrow> ('k, string option) prog" where
  "mremap_mmap_anon_209 K cfg = run_overlap_shrink K cfg (MREMAP_RANGE_LARGE_SIZE cfg) False"

definition mremap_mmap_anon_210 :: "('k, 'z) vm_os_scheme \<Rightarrow> page_config \<Rightarrow> ('k, string option) prog" where
  "mremap_mmap_anon_210 K cfg = run_overlap_below K cfg (MREMAP_RANGE_LARGE_SIZE cfg) False"

definition mremap_mmap_anon_211 :: "('k, 'z) vm_os_scheme \<Rightarrow> page_config \<Rightarrow> ('k, string option) prog" where
  "mremap_mmap_anon_211 K cfg = run_overlap_above K cfg (MREMAP_RANGE_LARGE_SIZE cfg) False"

definition mremap_mmap_anon_212 :: "('k, 'z) vm_os_scheme \<Rightarrow> page_config \<Rightarrow> ('k, string option) prog" where
  "mremap_mmap_anon_212 K cfg = run_move_down K cfg (MREMAP_RANGE_LARGE_SIZE cfg) False"

definition mremap_mmap_anon_213 :: "('k, 'z) vm_os_scheme \<Rightarrow> page_config \<Rightarrow> ('k, string option) prog" where
  "mremap_mmap_anon_213 K cfg = run_move_up K cfg (MREMAP_RANGE_LARGE_SIZE cfg) False"

definition mremap_mmap_anon_214 :: "('k, 'z) vm_os_scheme \<Rightarrow> page_config \<Rightarrow> ('k, string option) prog" where
  "mremap_mmap_anon_214 K cfg = run_shrink_fault K cfg (MREMAP_RANGE_LARGE_SIZE cfg) False"

definition mremap_mmap_anon_215 :: "('k, 'z) vm_os_scheme \<Rightarrow> page_config \<Rightarrow> ('k, string option) prog" where
  "mremap_mmap_anon_215 K cfg = run_move_fault K cfg (MREMAP_RANGE_LARGE_SIZE cfg) False"

definition mremap_mmap_anon_216 :: "('k, 'z) vm_os_scheme \<Rightarrow> page_config \<Rightarrow> ('k, string option) prog" where
  "mremap_mmap_anon_216 K cfg = run_fixed_fault K cfg (MREMAP_RANGE_LARGE_SIZE cfg) False"

definition mremap_mmap_anon_300 :: "('k, 'z) vm_os_scheme \<Rightarrow> page_config \<Rightarrow> ('k, string option) prog" where
  "mremap_mmap_anon_300 K cfg = run_same_size K cfg (MREMAP_RANGE_LARGE_SIZE cfg) True"

definition mremap_mmap_anon_301 :: "('k, 'z) vm_os_scheme \<Rightarrow> page_config \<Rightarrow> ('k, string option) prog" where
  "mremap_mmap_anon_301 K cfg = run_huge_size K cfg (MREMAP_RANGE_LARGE_SIZE cfg) True"

definition mremap_mmap_anon_302 :: "('k, 'z) vm_os_scheme \<Rightarrow> page_config \<Rightarrow> ('k, string option) prog" where
  "mremap_mmap_anon_302 K cfg = run_shrink K cfg (MREMAP_RANGE_LARGE_SIZE cfg) True"

definition mremap_mmap_anon_303 :: "('k, 'z) vm_os_scheme \<Rightarrow> page_config \<Rightarrow> ('k, string option) prog" where
  "mremap_mmap_anon_303 K cfg = run_grow_shared K cfg (MREMAP_RANGE_LARGE_SIZE cfg) True"

definition mremap_mmap_anon_304 :: "('k, 'z) vm_os_scheme \<Rightarrow> page_config \<Rightarrow> ('k, string option) prog" where
  "mremap_mmap_anon_304 K cfg = run_grow_blocked K cfg (MREMAP_RANGE_LARGE_SIZE cfg) True"

definition mremap_mmap_anon_305 :: "('k, 'z) vm_os_scheme \<Rightarrow> page_config \<Rightarrow> ('k, string option) prog" where
  "mremap_mmap_anon_305 K cfg = run_grow_move_shared K cfg (MREMAP_RANGE_LARGE_SIZE cfg) True"

definition mremap_mmap_anon_306 :: "('k, 'z) vm_os_scheme \<Rightarrow> page_config \<Rightarrow> ('k, string option) prog" where
  "mremap_mmap_anon_306 K cfg = run_move_free K cfg (MREMAP_RANGE_LARGE_SIZE cfg) True"

definition mremap_mmap_anon_307 :: "('k, 'z) vm_os_scheme \<Rightarrow> page_config \<Rightarrow> ('k, string option) prog" where
  "mremap_mmap_anon_307 K cfg = run_move_over K cfg (MREMAP_RANGE_LARGE_SIZE cfg) True"

definition mremap_mmap_anon_308 :: "('k, 'z) vm_os_scheme \<Rightarrow> page_config \<Rightarrow> ('k, string option) prog" where
  "mremap_mmap_anon_308 K cfg = run_overlap_grow K cfg (MREMAP_RANGE_LARGE_SIZE cfg) True"

definition mremap_mmap_anon_309 :: "('k, 'z) vm_os_scheme \<Rightarrow> page_config \<Rightarrow> ('k, string option) prog" where
  "mremap_mmap_anon_309 K cfg = run_overlap_shrink K cfg (MREMAP_RANGE_LARGE_SIZE cfg) True"

definition mremap_mmap_anon_310 :: "('k, 'z) vm_os_scheme \<Rightarrow> page_config \<Rightarrow> ('k, string option) prog" where
  "mremap_mmap_anon_310 K cfg = run_overlap_below K cfg (MREMAP_RANGE_LARGE_SIZE cfg) True"

definition mremap_mmap_anon_311 :: "('k, 'z) vm_os_scheme \<Rightarrow> page_config \<Rightarrow> ('k, string option) prog" where
  "mremap_mmap_anon_311 K cfg = run_overlap_above K cfg (MREMAP_RANGE_LARGE_SIZE cfg) True"

definition mremap_mmap_anon_312 :: "('k, 'z) vm_os_scheme \<Rightarrow> page_config \<Rightarrow> ('k, string option) prog" where
  "mremap_mmap_anon_312 K cfg = run_move_down K cfg (MREMAP_RANGE_LARGE_SIZE cfg) True"

definition mremap_mmap_anon_313 :: "('k, 'z) vm_os_scheme \<Rightarrow> page_config \<Rightarrow> ('k, string option) prog" where
  "mremap_mmap_anon_313 K cfg = run_move_up K cfg (MREMAP_RANGE_LARGE_SIZE cfg) True"

definition mremap_mmap_anon_314 :: "('k, 'z) vm_os_scheme \<Rightarrow> page_config \<Rightarrow> ('k, string option) prog" where
  "mremap_mmap_anon_314 K cfg = run_shrink_fault K cfg (MREMAP_RANGE_LARGE_SIZE cfg) True"

definition mremap_mmap_anon_315 :: "('k, 'z) vm_os_scheme \<Rightarrow> page_config \<Rightarrow> ('k, string option) prog" where
  "mremap_mmap_anon_315 K cfg = run_move_fault K cfg (MREMAP_RANGE_LARGE_SIZE cfg) True"

definition mremap_mmap_anon_316 :: "('k, 'z) vm_os_scheme \<Rightarrow> page_config \<Rightarrow> ('k, string option) prog" where
  "mremap_mmap_anon_316 K cfg = run_fixed_fault K cfg (MREMAP_RANGE_LARGE_SIZE cfg) True"

text \<open>
  The entries of the suite in the test-case table: the set-up parses the arguments, the
  tear-down is empty.
\<close>

definition mremap_case :: "int \<Rightarrow> ('k, string option) prog \<Rightarrow> ('k, mremap_args) test_case" where
  "mremap_case num run = \<lparr>tc_suite = ''mremap_mmap_anon'', tc_num = num,
     tc_setup = (\<lambda>_ argv. ret (mremap_mmap_anon_parse_argument argv)), tc_run = (\<lambda>_ _. run), tc_teardown = (\<lambda>_ _. ret ())\<rparr>"

definition mremap_mmap_anon_cases :: "('k, 'z) vm_os_scheme \<Rightarrow> page_config \<Rightarrow> ('k, mremap_args) test_case list" where
  "mremap_mmap_anon_cases K cfg = [
     mremap_case 0 (mremap_mmap_anon_000 K cfg),
     mremap_case 1 (mremap_mmap_anon_001 K cfg),
     mremap_case 2 (mremap_mmap_anon_002 K cfg),
     mremap_case 3 (mremap_mmap_anon_003 K cfg),
     mremap_case 4 (mremap_mmap_anon_004 K cfg),
     mremap_case 5 (mremap_mmap_anon_005 K cfg),
     mremap_case 6 (mremap_mmap_anon_006 K cfg),
     mremap_case 7 (mremap_mmap_anon_007 K cfg),
     mremap_case 8 (mremap_mmap_anon_008 K cfg),
     mremap_case 9 (mremap_mmap_anon_009 K cfg),
     mremap_case 10 (mremap_mmap_anon_010 K cfg),
     mremap_case 11 (mremap_mmap_anon_011 K cfg),
     mremap_case 12 (mremap_mmap_anon_012 K cfg),
     mremap_case 13 (mremap_mmap_anon_013 K cfg),
     mremap_case 14 (mremap_mmap_anon_014 K cfg),
     mremap_case 15 (mremap_mmap_anon_015 K cfg),
     mremap_case 16 (mremap_mmap_anon_016 K cfg),
     mremap_case 100 (mremap_mmap_anon_100 K cfg),
     mremap_case 101 (mremap_mmap_anon_101 K cfg),
     mremap_case 102 (mremap_mmap_anon_102 K cfg),
     mremap_case 103 (mremap_mmap_anon_103 K cfg),
     mremap_case 104 (mremap_mmap_anon_104 K cfg),
     mremap_case 105 (mremap_mmap_anon_105 K cfg),
     mremap_case 106 (mremap_mmap_anon_106 K cfg),
     mremap_case 107 (mremap_mmap_anon_107 K cfg),
     mremap_case 108 (mremap_mmap_anon_108 K cfg),
     mremap_case 109 (mremap_mmap_anon_109 K cfg),
     mremap_case 110 (mremap_mmap_anon_110 K cfg),
     mremap_case 111 (mremap_mmap_anon_111 K cfg),
     mremap_case 112 (mremap_mmap_anon_112 K cfg),
     mremap_case 113 (mremap_mmap_anon_113 K cfg),
     mremap_case 114 (mremap_mmap_anon_114 K cfg),
     mremap_case 115 (mremap_mmap_anon_115 K cfg),
     mremap_case 116 (mremap_mmap_anon_116 K cfg),
     mremap_case 200 (mremap_mmap_anon_200 K cfg),
     mremap_case 201 (mremap_mmap_anon_201 K cfg),
     mremap_case 202 (mremap_mmap_anon_202 K cfg),
     mremap_case 203 (mremap_mmap_anon_203 K cfg),
     mremap_case 204 (mremap_mmap_anon_204 K cfg),
     mremap_case 205 (mremap_mmap_anon_205 K cfg),
     mremap_case 206 (mremap_mmap_anon_206 K cfg),
     mremap_case 207 (mremap_mmap_anon_207 K cfg),
     mremap_case 208 (mremap_mmap_anon_208 K cfg),
     mremap_case 209 (mremap_mmap_anon_209 K cfg),
     mremap_case 210 (mremap_mmap_anon_210 K cfg),
     mremap_case 211 (mremap_mmap_anon_211 K cfg),
     mremap_case 212 (mremap_mmap_anon_212 K cfg),
     mremap_case 213 (mremap_mmap_anon_213 K cfg),
     mremap_case 214 (mremap_mmap_anon_214 K cfg),
     mremap_case 215 (mremap_mmap_anon_215 K cfg),
     mremap_case 216 (mremap_mmap_anon_216 K cfg),
     mremap_case 300 (mremap_mmap_anon_300 K cfg),
     mremap_case 301 (mremap_mmap_anon_301 K cfg),
     mremap_case 302 (mremap_mmap_anon_302 K cfg),
     mremap_case 303 (mremap_mmap_anon_303 K cfg),
     mremap_case 304 (mremap_mmap_anon_304 K cfg),
     mremap_case 305 (mremap_mmap_anon_305 K cfg),
     mremap_case 306 (mremap_mmap_anon_306 K cfg),
     mremap_case 307 (mremap_mmap_anon_307 K cfg),
     mremap_case 308 (mremap_mmap_anon_308 K cfg),
     mremap_case 309 (mremap_mmap_anon_309 K cfg),
     mremap_case 310 (mremap_mmap_anon_310 K cfg),
     mremap_case 311 (mremap_mmap_anon_311 K cfg),
     mremap_case 312 (mremap_mmap_anon_312 K cfg),
     mremap_case 313 (mremap_mmap_anon_313 K cfg),
     mremap_case 314 (mremap_mmap_anon_314 K cfg),
     mremap_case 315 (mremap_mmap_anon_315 K cfg),
     mremap_case 316 (mremap_mmap_anon_316 K cfg)]"

lemmas mremap_case_defs =
  mremap_mmap_anon_000_def mremap_mmap_anon_001_def mremap_mmap_anon_002_def mremap_mmap_anon_003_def
  mremap_mmap_anon_004_def mremap_mmap_anon_005_def mremap_mmap_anon_006_def mremap_mmap_anon_007_def
  mremap_mmap_anon_008_def mremap_mmap_anon_009_def mremap_mmap_anon_010_def mremap_mmap_anon_011_def
  mremap_mmap_anon_012_def mremap_mmap_anon_013_def mremap_mmap_anon_014_def mremap_mmap_anon_015_def
  mremap_mmap_anon_016_def mremap_mmap_anon_100_def mremap_mmap_anon_101_def mremap_mmap_anon_102_def
  mremap_mmap_anon_103_def mremap_mmap_anon_104_def mremap_mmap_anon_105_def mremap_mmap_anon_106_def
  mremap_mmap_anon_107_def mremap_mmap_anon_108_def mremap_mmap_anon_109_def mremap_mmap_anon_110_def
  mremap_mmap_anon_111_def mremap_mmap_anon_112_def mremap_mmap_anon_113_def mremap_mmap_anon_114_def
  mremap_mmap_anon_115_def mremap_mmap_anon_116_def mremap_mmap_anon_200_def mremap_mmap_anon_201_def
  mremap_mmap_anon_202_def mremap_mmap_anon_203_def mremap_mmap_anon_204_def mremap_mmap_anon_205_def
  mremap_mmap_anon_206_def mremap_mmap_anon_207_def mremap_mmap_anon_208_def mremap_mmap_anon_209_def
  mremap_mmap_anon_210_def mremap_mmap_anon_211_def mremap_mmap_anon_212_def mremap_mmap_anon_213_def
  mremap_mmap_anon_214_def mremap_mmap_anon_215_def mremap_mmap_anon_216_def mremap_mmap_anon_300_def
  mremap_mmap_anon_301_def mremap_mmap_anon_302_def mremap_mmap_anon_303_def mremap_mmap_anon_304_def
  mremap_mmap_anon_305_def mremap_mmap_anon_306_def mremap_mmap_anon_307_def mremap_mmap_anon_308_def
  mremap_mmap_anon_309_def mremap_mmap_anon_310_def mremap_mmap_anon_311_def mremap_mmap_anon_312_def
  mremap_mmap_anon_313_def mremap_mmap_anon_314_def mremap_mmap_anon_315_def mremap_mmap_anon_316_def

lemmas run_passes =
  same_size_passes huge_size_passes shrink_passes grow_passes grow_shared_passes grow_blocked_passes grow_move_passes
  grow_move_shared_passes move_free_passes move_over_passes overlap_grow_passes overlap_shrink_passes
  overlap_below_passes overlap_above_passes move_down_passes move_up_passes shrink_fault_passes
  move_fault_passes fixed_fault_passes

lemma range_ok_sizes: "range_ok cfg (MREMAP_RANGE_SIZE cfg)" "range_ok cfg (MREMAP_RANGE_LARGE_SIZE cfg)"
  by (cases cfg; simp add: range_ok_def page_multiple_def MREMAP_RANGE_SIZE_def MREMAP_RANGE_LARGE_SIZE_def
      PAGE_SIZE_def LARGE_PAGE_SIZE_def LARGE_PAGE_SHIFT_def align_up_def align_down_def)+

lemma range_size_le: "unat (MREMAP_RANGE_SIZE cfg) \<le> unat (MREMAP_RANGE_LARGE_SIZE cfg)"
  by (cases cfg; simp add: MREMAP_RANGE_SIZE_def MREMAP_RANGE_LARGE_SIZE_def
      PAGE_SIZE_def LARGE_PAGE_SIZE_def LARGE_PAGE_SHIFT_def align_up_def align_down_def)

lemma mremap_case_runs:
  assumes "wp run (\<lambda>r t. passed r) s"
  shows "wp (run_test_case (mremap_case num run) argv) (\<lambda>r t. passed r) s"
  unfolding run_test_case_def mremap_case_def
  using assms by (auto simp: wp_def exec_def ret_def passed_def split: prod.splits run.splits)

lemma mremap_runs_pass:
  assumes "vm_contract cfg K V A" and "18 * unat (MREMAP_RANGE_LARGE_SIZE cfg) \<le> A (kern s)"
    and "tc \<in> set (mremap_mmap_anon_cases K cfg)"
  shows "wp (run_test_case tc argv) (\<lambda>r t. passed r) s"
proof -
  have small: "18 * unat (MREMAP_RANGE_SIZE cfg) \<le> A (kern s)" using assms(2) range_size_le [of cfg] by linarith
  note runs = run_passes [OF assms(1) range_ok_sizes(1) small] run_passes [OF assms(1) range_ok_sizes(2) assms(2)]
  have "list_all (\<lambda>tc. wp (run_test_case tc argv) (\<lambda>r t. passed r) s) (mremap_mmap_anon_cases K cfg)"
    unfolding mremap_mmap_anon_cases_def mremap_case_defs list.pred_inject(2)
    by (intro conjI list.pred_inject(1) mremap_case_runs runs)
  with assms(3) show ?thesis by (auto simp: list_all_iff)
qed

section \<open>Properties of the suite\<close>

text \<open>
  C11. Every one of the 68 test cases passes on every kernel that meets the contract and has
  memory for eighteen ranges of a large page: the test function returns \<^verbatim>\<open>NULL\<close>, or the
  expected signal arrives and its handler exits with status 0.
\<close>

theorem mremap_suite_passes:
  assumes "vm_contract cfg K V A" and "18 * unat (MREMAP_RANGE_LARGE_SIZE cfg) \<le> A (kern s)"
    and "tc \<in> set (mremap_mmap_anon_cases K cfg)"
  shows "wp (run_test_case tc argv) (\<lambda>r t. passed r) s"
  by (rule mremap_runs_pass [OF assms])

lemma large_range_bound: "18 * unat (MREMAP_RANGE_LARGE_SIZE cfg) \<le> 2 ^ 62"
  by (cases cfg) (simp_all add: MREMAP_RANGE_SIZE_def MREMAP_RANGE_LARGE_SIZE_def
      PAGE_SIZE_def LARGE_PAGE_SIZE_def LARGE_PAGE_SHIFT_def align_up_def align_down_def)

lemma ref_room: "18 * unat (MREMAP_RANGE_LARGE_SIZE cfg) \<le> ref_avail cfg (kern (fresh_process (ref_init cfg)))"
  using large_range_bound [of cfg] ref_init_avail [of cfg] by (simp add: fresh_process_def)

theorem mremap_suite_passes_witness:
  "vm_contract Pages64K (ref_os Pages64K) mem (ref_avail Pages64K)
   \<and> wp (run_test_case (mremap_case 216 (mremap_mmap_anon_216 (ref_os Pages64K) Pages64K)) [''test_mck''])
       (\<lambda>r t. passed r) (fresh_process (ref_init Pages64K))"
  using mremap_suite_passes [OF ref_contract ref_room,
      of "mremap_case 216 (mremap_mmap_anon_216 (ref_os Pages64K) Pages64K)" Pages64K "[''test_mck'']"] ref_contract
  by (simp add: mremap_mmap_anon_cases_def)

text \<open>
  C12. The layout function: on such a kernel it returns the number of entries and consecutive
  addresses from a page-aligned base; a free-space entry is unmapped, any other is mapped with
  its protection and sharing and, when writable, filled with its digit.
\<close>

theorem mremap_mmap_anon_layout:
  assumes "vm_contract cfg K V A" and "list_all (param_ok cfg) ps" "ps \<noteq> []" "extent ps < SPACE" "2 * extent ps \<le> A (kern s)"
  shows "wp (mremap_mmap_anon K ps)
    (\<lambda>r t. \<exists>a. r = Val (length ps, place a ps) \<and> a \<noteq> 0 \<and> page_multiple cfg (unat a) \<and> fits a (extent ps) \<and>
       (\<forall>j<length ps. \<forall>d<unat (p_size (ps ! j)).
          V (kern t) (a + of_nat (extent (take j ps) + d)) = param_cell j (ps ! j) d)) s"
proof -
  have "0 < extent ps" using assms(2,3) by (cases ps) (simp_all add: param_ok_def)
  then show ?thesis
  proof (rule wp_mremap_mmap_anon [OF assms(1,2) _ assms(4,5)], goal_cases)
    case (1 a t)
    note entry_cells [OF 1(4)]
    with 1 show ?case by blast
  qed
qed

definition demo_space :: params where
  "demo_space = [use_space 4096 RW True, free_space 8192]"

theorem mremap_mmap_anon_layout_witness:
  "list_all (param_ok Pages4K) demo_space \<and> wp (mremap_mmap_anon (ref_os Pages4K) demo_space)
    (\<lambda>r t. \<exists>a. r = Val (length demo_space, place a demo_space) \<and> a \<noteq> 0 \<and> page_multiple Pages4K (unat a) \<and> fits a (extent demo_space) \<and>
       (\<forall>j<length demo_space. \<forall>d<unat (p_size (demo_space ! j)).
          mem (kern t) (a + of_nat (extent (take j demo_space) + d)) = param_cell j (demo_space ! j) d))
    (fresh_process (ref_init Pages4K))"
proof -
  have ok: "list_all (param_ok Pages4K) demo_space" by (simp add: demo_space_def space_ok page_multiple_def)
  have ne: "demo_space \<noteq> []" and small: "extent demo_space < SPACE" by (simp_all add: demo_space_def SPACE_def)
  have "2 * extent demo_space \<le> ref_avail Pages4K (kern (fresh_process (ref_init Pages4K)))"
    using ref_init_avail [of Pages4K] by (simp add: demo_space_def fresh_process_def)
  from mremap_mmap_anon_layout [OF ref_contract ok ne small this] ok show ?thesis by blast
qed

text \<open>
  Sizes whose sum wraps around: the layout function returns 0, which its callers report
  as \<^verbatim>\<open>mmap error.\<close>, and calls nothing.
\<close>

theorem mremap_mmap_anon_wraps:
  assumes "SPACE \<le> extent ps"
  shows "\<exists>ps'. mremap_mmap_anon K ps s = (Val (0, ps'), s)"
proof -
  have "fst (total_size 0 ps) = None" using total_size_wraps [of 0 ps] assms by simp
  then show ?thesis by (cases "total_size 0 ps") (simp add: mremap_mmap_anon_def ret_def)
qed

theorem mremap_mmap_anon_wraps_witness:
  "\<exists>ps'. mremap_mmap_anon (ref_os Pages4K) [use_space (- 4096) RW False, use_space 4096 RW False] (fresh_process (ref_init Pages4K))
     = (Val (0, ps'), fresh_process (ref_init Pages4K))"
  by (rule mremap_mmap_anon_wraps) (simp add: SPACE_def)

text \<open>
  C14. The data check is exact: where every byte of the range can be read, it reports an error
  exactly when some byte differs from the expected one, and changes nothing.
\<close>

lemma wp_data_check_from_exact:
  assumes "vm_contract cfg K V A" and "\<forall>i<n. holds (f i) (V (kern s) (a + of_nat i))"
  shows "wp (data_check_from K a n b)
    (\<lambda>r t. r = Val (if \<forall>i<n. f i = b then None else Some ''data check error.'') \<and> V (kern t) = V (kern s)) s"
  using assms(2)
proof (induction n arbitrary: a s f)
  case 0
  then show ?case by (simp add: wp_ret)
next
  case (Suc n)
  have first: "holds (f 0) (V (kern s) a)" using Suc.prems [rule_format, of 0] by simp
  have all: "(\<forall>i<Suc n. f i = b) \<longleftrightarrow> f 0 = b \<and> (\<forall>i<n. f (Suc i) = b)" by (simp add: All_less_Suc2)
  have rest: "wp (data_check_from K (a + 1) n b)
     (\<lambda>r u. r = Val (if \<forall>i<n. f (Suc i) = b then None else Some ''data check error.'') \<and> V (kern u) = V (kern t)) t"
    if "V (kern t) = V (kern s)" for t
    by (rule Suc.IH) (use Suc.prems [rule_format, of "Suc i" for i] that in \<open>simp add: add.assoc\<close>)
  show ?case
    unfolding data_check_from.simps all
  proof (intro wp_exec wp_load_byte [OF assms(1) first] run_case_Val wp_if, goal_cases)
    case (1 t)
    then show ?case by (auto simp: becomes_view intro!: wp_ret)
  next
    case (2 t)
    then show ?case using rest [of t] by (simp add: becomes_view)
  qed
qed

theorem data_check_exact:
  assumes "vm_contract cfg K V A" and "\<forall>i<unat len. holds (f i) (V (kern s) (a + of_nat i))"
  shows "wp (mremap_mmap_anon_data_check K a len b)
    (\<lambda>r t. r = Val (if \<forall>i<unat len. f i = b then None else Some ''data check error.'') \<and> V (kern t) = V (kern s)) s"
  unfolding mremap_mmap_anon_data_check_def by (rule wp_data_check_from_exact [OF assms])

definition two_bytes :: ref_mem where
  "two_bytes = \<lparr>nxt = 8192, mem = fill (\<lambda>_. None) 4096 2 (\<lambda>i. Some (rw_cell i False 0))\<rparr>"

theorem data_check_exact_witness:
  "wp (mremap_mmap_anon_data_check (ref_os Pages4K) 4096 2 48)
    (\<lambda>r t. r = Val (Some ''data check error.'') \<and> mem (kern t) = mem (kern (fresh_process two_bytes))) (fresh_process two_bytes)"
proof -
  have "holds (of_nat (48 + i)) (mem (kern (fresh_process two_bytes)) (4096 + of_nat i))" if "i < unat (2 :: u64)" for i
    using that fill_window0 [of i "\<lambda>_. None" 4096 2] by (simp add: two_bytes_def fresh_process_def SPACE_def rw_cell_def holds_def RW_cell)
  then have "\<forall>i<unat (2 :: u64). holds ((\<lambda>i. of_nat (48 + i)) i) (mem (kern (fresh_process two_bytes)) (4096 + of_nat i))" by blast
  note check = data_check_exact [OF ref_contract this, of Pages4K 48]
  have "\<not> (\<forall>i<unat (2 :: u64). of_nat (48 + i) = (48 :: byte))" by (auto intro: exI [of _ 1])
  with check show ?thesis by (simp only: if_False)
qed

text \<open>
  C15. The cases that expect an error (4 and 8 to 11 of each hundred) cannot pass by accident:
  on every kernel, a run that returns \<^verbatim>\<open>NULL\<close> has just seen \<^verbatim>\<open>mremap\<close> return
  \<^verbatim>\<open>MAP_FAILED\<close> with exactly the expected \<^verbatim>\<open>errno\<close>.
\<close>

definition refused :: "int \<Rightarrow> string option run \<Rightarrow> 'k machine \<Rightarrow> bool" where
  "refused err r t \<longleftrightarrow> (r = Val None \<longrightarrow>
     errno t = err \<and> (\<exists>args evs. trace t = evs @ [Called Mremap args (uint MAP_FAILED)]))"

lemma wp_remap_refused:
  "wp (remap_block K x m n flags y (\<lambda>v. v = MAP_FAILED) err (\<lambda>v. ret None)) (refused err) s"
  unfolding remap_block_def mremap_def
  by (intro wp_rules) (simp_all add: refused_def)

lemma wp_init_any:
  assumes "\<And>ps t. wp (k ps) (refused err) t"
  shows "wp (init_block K ps k) (refused err) s"
proof (rule wpI)
  fix r t
  assume "init_block K ps k s = (r, t)"
  then show "refused err r t"
    unfolding init_block_def
  proof (cases rule: exec_cases)
    case (val x u)
    then show ?thesis using wpD [OF assms, of "snd x" u r t]
      by (cases x) (auto simp: tp_assert_def ret_def refused_def split: if_splits)
  qed (simp add: refused_def)
qed

theorem expected_errors_observed:
  "wp (run_grow_blocked K cfg R shared) (refused ENOMEM) s
   \<and> wp (run_overlap_grow K cfg R shared) (refused EINVAL) s
   \<and> wp (run_overlap_shrink K cfg R shared) (refused EINVAL) s
   \<and> wp (run_overlap_below K cfg R shared) (refused EINVAL) s
   \<and> wp (run_overlap_above K cfg R shared) (refused EINVAL) s"
  unfolding run_grow_blocked_def run_overlap_grow_def run_overlap_shrink_def run_overlap_below_def run_overlap_above_def Let_def
  by (intro conjI wp_init_any wp_remap_refused)

end
