(* ===== verification/Numa.thy ===== *)
theory Numa
  imports Framework Vm
begin

text \<open>
  The helpers of the NUMA suites, \<^verbatim>\<open>test_mck/src/numa.c\<close> and \<^verbatim>\<open>numa.h\<close>: the node-mask arrays, the check
  of a node mask, the check of the policies of a mapped area. The three system calls the suites
  test (\<^verbatim>\<open>set_mempolicy\<close>, \<^verbatim>\<open>get_mempolicy\<close>, \<^verbatim>\<open>mbind\<close>) extend the kernel record. What the suites
  rely on is the contract \<open>numa_contract\<close>: a view of the kernel state (the number of nodes, the
  policy of the process, the policies and the placement of mapped pages) and the documented
  effect of each call on it; a reference kernel shows that it can be met.
\<close>

unbundle bit_operations_syntax

section \<open>Kernel interface\<close>

record 'k numa_os = "'k file_os" +
  os_set_mempolicy :: "int \<Rightarrow> u64 list option \<Rightarrow> u64 \<Rightarrow> 'k \<Rightarrow> (int + int) \<times> 'k"
  os_get_mempolicy :: "u64 list option \<Rightarrow> u64 \<Rightarrow> u64 \<Rightarrow> u64 \<Rightarrow> 'k \<Rightarrow> (int + int \<times> u64 list) \<times> 'k"
  os_mbind :: "u64 \<Rightarrow> u64 \<Rightarrow> int \<Rightarrow> u64 list option \<Rightarrow> u64 \<Rightarrow> u32 \<Rightarrow> 'k \<Rightarrow> (int + int) \<times> 'k"

definition MPOL_DEFAULT :: int where "MPOL_DEFAULT = 0"
definition MPOL_PREFERRED :: int where "MPOL_PREFERRED = 1"
definition MPOL_BIND :: int where "MPOL_BIND = 2"
definition MPOL_INTERLEAVE :: int where "MPOL_INTERLEAVE = 3"

definition MPOL_F_STATIC_NODES :: int where "MPOL_F_STATIC_NODES = push_bit 15 1"
definition MPOL_F_RELATIVE_NODES :: int where "MPOL_F_RELATIVE_NODES = push_bit 14 1"

definition MPOL_F_NODE :: u64 where "MPOL_F_NODE = 1"
definition MPOL_F_ADDR :: u64 where "MPOL_F_ADDR = 2"
definition MPOL_F_MEMS_ALLOWED :: u64 where "MPOL_F_MEMS_ALLOWED = 4"

definition MPOL_MF_STRICT :: u32 where "MPOL_MF_STRICT = 1"
definition MPOL_MF_MOVE :: u32 where "MPOL_MF_MOVE = 2"
definition MPOL_MF_MOVE_ALL :: u32 where "MPOL_MF_MOVE_ALL = 4"

definition BITS_PER_BYTE :: u64 where "BITS_PER_BYTE = 8"
definition BITS_PER_LONG :: u64 where "BITS_PER_LONG = 8 * BITS_PER_BYTE"
definition NUM_REGION :: nat where "NUM_REGION = 7"

lemmas numa_consts = MPOL_DEFAULT_def MPOL_PREFERRED_def MPOL_BIND_def MPOL_INTERLEAVE_def
  MPOL_F_STATIC_NODES_def MPOL_F_RELATIVE_NODES_def MPOL_F_NODE_def MPOL_F_ADDR_def MPOL_F_MEMS_ALLOWED_def
  MPOL_MF_STRICT_def MPOL_MF_MOVE_def MPOL_MF_MOVE_ALL_def

text \<open>
  A node mask is the array of words it points to, \<open>None\<close> for \<^verbatim>\<open>NULL\<close>. \<open>get_mempolicy\<close> takes the
  present value of the caller's \<^verbatim>\<open>mode\<close> (\<open>None\<close> when it passes \<^verbatim>\<open>NULL\<close>) and returns the value and
  the array after the call.
\<close>

definition set_mempolicy :: "('k, 'z) numa_os_scheme \<Rightarrow> int \<Rightarrow> u64 list option \<Rightarrow> u64 \<Rightarrow> ('k, int) prog" where
  "set_mempolicy K mode nodemask maxnode =
     sys_int (Lib ''set_mempolicy'') [AInt mode, AInt (uint maxnode)] (os_set_mempolicy K mode nodemask maxnode)"

definition get_mempolicy ::
    "('k, 'z) numa_os_scheme \<Rightarrow> int option \<Rightarrow> u64 list option \<Rightarrow> u64 \<Rightarrow> u64 \<Rightarrow> u64
     \<Rightarrow> ('k, int \<times> int option \<times> u64 list option) prog" where
  "get_mempolicy K mode nodemask maxnode addr flags =
     sys_call (Lib ''get_mempolicy'') [AInt (uint maxnode), AInt (uint addr), AInt (uint flags)] fst (-1, mode, nodemask)
       (\<lambda>k. case os_get_mempolicy K nodemask maxnode addr flags k of
              (Inl e, k') \<Rightarrow> (Inl e, k')
            | (Inr (m, ws), k') \<Rightarrow> (Inr (0, map_option (\<lambda>_. m) mode, map_option (\<lambda>_. ws) nodemask), k'))"

definition mbind ::
    "('k, 'z) numa_os_scheme \<Rightarrow> u64 \<Rightarrow> u64 \<Rightarrow> int \<Rightarrow> u64 list option \<Rightarrow> u64 \<Rightarrow> u32 \<Rightarrow> ('k, int) prog" where
  "mbind K addr len mode nodemask maxnode flags =
     sys_int (Lib ''mbind'') [AInt (uint addr), AInt (uint len), AInt mode, AInt (uint maxnode), AInt (uint flags)]
       (os_mbind K addr len mode nodemask maxnode flags)"

section \<open>The helpers\<close>

fun arg_analyze_opts :: "optres list \<Rightarrow> u64 \<Rightarrow> u64" where
  "arg_analyze_opts [] max_node = max_node"
| "arg_analyze_opts (Opt c (Some optarg) # rs) max_node =
     arg_analyze_opts rs (if c = CHR ''n'' then fst (strtoul 0 optarg) else max_node)"
| "arg_analyze_opts (_ # rs) max_node = arg_analyze_opts rs max_node"

definition arg_analyze :: "string list \<Rightarrow> u64" where
  "arg_analyze tc_argv = arg_analyze_opts (fst (getopt ''n:'' tc_argv)) 0"

definition usage_print :: "('k, unit) prog" where
  "usage_print =
     exec (printf ''Usage: ./test_mck -s test_suite -n test_number [-h] -- -n max_node'' []) (\<lambda>_.
     printf (CHR 0x0A # ''  -n max_node'' @ CHR 0x09 # ''number of actually mounted nodes'') [])"

text \<open>The number of words, and the array of zeros (\<open>None\<close> when \<^verbatim>\<open>malloc\<close> fails).\<close>

definition create_node_mask :: "('k, 'z) file_os_scheme \<Rightarrow> u64 \<Rightarrow> ('k, u64 \<times> u64 list option) prog" where
  "create_node_mask K max_node =
     (let n = (max_node + BITS_PER_LONG - 1) div BITS_PER_LONG; nr_node_mask = (if n = 0 then 1 else n) in
      exec (c_malloc K (unat (nr_node_mask * 8))) (\<lambda>ok.
      if \<not> ok then ret (nr_node_mask, None) else ret (nr_node_mask, Some (replicate (unat nr_node_mask) 0))))"

definition destroy_node_mask :: "u64 list option \<Rightarrow> ('k, unit) prog" where
  "destroy_node_mask node_mask = (case node_mask of None \<Rightarrow> ret () | Some _ \<Rightarrow> c_free)"

text \<open>
  The loops \<^verbatim>\<open>for (i = nr_node_mask-1; i >= 0; i--)\<close> run an \<^verbatim>\<open>int\<close> down to 0; \<open>down_from\<close> is the number
  of their iterations. \<^verbatim>\<open>1 << n\<close> is an \<^verbatim>\<open>int\<close> shift, undefined from 31 on. An access outside the
  array is undefined.
\<close>

definition down_from :: "u64 \<Rightarrow> nat" where
  "down_from nr_node_mask = nat (to_int32 (uint (nr_node_mask - 1)) + 1)"

definition low_bits :: "u64 \<Rightarrow> u64 option" where
  "low_bits n = (if 30 < unat n then None else Some (push_bit (unat n) 1 - 1))"

fun node_mask_check_loop :: "u64 list \<Rightarrow> u64 \<Rightarrow> u64 \<Rightarrow> nat \<Rightarrow> ('k, int) prog" where
  "node_mask_check_loop node_mask nr_node_mask num_bits 0 = ret 0"
| "node_mask_check_loop node_mask nr_node_mask num_bits (Suc i) =
     (if length node_mask \<le> i then stop (Undefined ''array index'')
      else if of_nat i = nr_node_mask - 1 then
        (case low_bits (num_bits mod BITS_PER_LONG) of
           None \<Rightarrow> stop (Undefined ''shift'')
         | Some b \<Rightarrow> if node_mask ! i \<noteq> b then ret (-1) else node_mask_check_loop node_mask nr_node_mask num_bits i)
      else if NOT (node_mask ! i) \<noteq> 0 then ret (-1)
      else node_mask_check_loop node_mask nr_node_mask num_bits i)"

definition node_mask_check :: "u64 list \<Rightarrow> u64 \<Rightarrow> u64 \<Rightarrow> ('k, int) prog" where
  "node_mask_check node_mask nr_node_mask num_bits =
     node_mask_check_loop node_mask nr_node_mask num_bits (down_from nr_node_mask)"

record mbind_args =
  ma_mode :: int
  ma_node_mask :: u64
  ma_npoff :: nat
  ma_len :: u64

record mbind_expect =
  me_mode :: int
  me_node_mask :: u64

text \<open>Regions \<open>i\<close> onwards; the result and the array after the calls.\<close>

fun mbind_check_from ::
    "('k, 'z) numa_os_scheme \<Rightarrow> page_config \<Rightarrow> nat \<Rightarrow> mbind_expect list \<Rightarrow> u64 list \<Rightarrow> u64 \<Rightarrow> u64 \<Rightarrow> u64 \<Rightarrow> ('k, int \<times> u64 list) prog" where
  "mbind_check_from K cfg i [] node_mask max_node ptr flags = ret (0, node_mask)"
| "mbind_check_from K cfg i (e # es) node_mask max_node ptr flags =
     exec (printf ''region %d'' [AInt (int i)]) (\<lambda>_.
     exec (get_mempolicy K (Some (-1)) (Some (node_mask[0 := 0])) max_node (ptr + PAGE_SIZE cfg * of_nat i) flags) (\<lambda>(i_ret, mode, mask).
     if i_ret = -1 then exec (printf ''mbind error'' []) (\<lambda>_. ret (-1, the mask))
     else
       exec (printf ''get      : mode = %d, node_mask = %lu'' [AInt (the mode), AInt (uint (the mask ! 0))]) (\<lambda>_.
       exec (printf (''m_expect : mode = %d, node_mask = %lu'' @ [CHR 0x0A]) [AInt (me_mode e), AInt (uint (me_node_mask e))]) (\<lambda>_.
       if the mode \<noteq> me_mode e then exec (printf ''m_expect mode error'' []) (\<lambda>_. ret (-1, the mask))
       else if the mask ! 0 \<noteq> me_node_mask e then exec (printf ''m_expect node_mask error'' []) (\<lambda>_. ret (-1, the mask))
       else mbind_check_from K cfg (Suc i) es (the mask) max_node ptr flags))))"

definition mbind_check ::
    "('k, 'z) numa_os_scheme \<Rightarrow> page_config \<Rightarrow> mbind_expect list \<Rightarrow> u64 list \<Rightarrow> u64 \<Rightarrow> u64 \<Rightarrow> u64 \<Rightarrow> ('k, int \<times> u64 list) prog" where
  "mbind_check K cfg m_expect node_mask max_node ptr flags =
     mbind_check_from K cfg 0 (take NUM_REGION m_expect) node_mask max_node ptr flags"

section \<open>Node masks\<close>

text \<open>The set of nodes an array of words denotes, as a number whose bit \<open>i\<close> is node \<open>i\<close>.\<close>

fun mask_of :: "u64 list \<Rightarrow> nat" where
  "mask_of [] = 0"
| "mask_of (w # ws) = unat w + 2 ^ 64 * mask_of ws"

definition all_nodes :: "nat \<Rightarrow> nat" where
  "all_nodes n = 2 ^ n - 1"

lemma all_nodes_add: "all_nodes (m + n) = all_nodes m + 2 ^ m * all_nodes n"
proof -
  have "1 \<le> (2::nat) ^ m" "1 \<le> (2::nat) ^ n" by simp_all
  then show ?thesis by (simp add: all_nodes_def power_add diff_mult_distrib2)
qed

lemma unat_max_word: "unat (-1 :: u64) = all_nodes 64"
  by (simp add: all_nodes_def unsigned_minus_1_eq_mask mask_eq_exp_minus_1)

lemma mask_of_full: "mask_of (replicate n (-1) @ [w]) = all_nodes (64 * n) + 2 ^ (64 * n) * unat w"
proof (induction n)
  case 0
  then show ?case by (simp add: all_nodes_def)
next
  case (Suc n)
  have eq: "64 * Suc n = 64 + 64 * n" by simp
  have "mask_of (replicate (Suc n) (-1) @ [w]) = all_nodes 64 + 2 ^ 64 * (all_nodes (64 * n) + 2 ^ (64 * n) * unat w)"
    using Suc by (simp add: unat_max_word)
  also have "\<dots> = all_nodes (64 * Suc n) + 2 ^ (64 * Suc n) * unat w"
    unfolding eq all_nodes_add power_add by (simp only: distrib_left mult.assoc add.assoc)
  finally show ?case .
qed

lemma mask_of_inj: "length ws = length vs \<Longrightarrow> mask_of ws = mask_of vs \<Longrightarrow> ws = vs"
proof (induction ws vs rule: list_induct2)
  case (Cons w ws v vs)
  have lt: "unat w < 2 ^ 64" "unat v < 2 ^ 64" by (rule unat_lt2p64)+
  have "mask_of (w # ws) mod 2 ^ 64 = unat w" "mask_of (v # vs) mod 2 ^ 64 = unat v"
    using lt by (simp_all only: mask_of.simps mod_mult_self2 mod_less)
  moreover have "mask_of (w # ws) div 2 ^ 64 = mask_of ws" "mask_of (v # vs) div 2 ^ 64 = mask_of vs"
    using lt by (simp_all only: mask_of.simps div_mult_self2 div_less)
  ultimately show ?case using Cons by (metis word_unat_eq_iff)
qed simp

lemma unat_low_bits: "low_bits n = Some b \<Longrightarrow> unat b = all_nodes (unat n)"
proof -
  assume "low_bits n = Some b"
  then have n: "unat n < 64" and b: "b = push_bit (unat n) 1 - 1" by (auto simp: low_bits_def split: if_splits)
  have p: "unat (push_bit (unat n) 1 :: u64) = 2 ^ unat n" using n by (intro unat_push_bit_1) simp
  then have "(1::u64) \<le> push_bit (unat n) 1" by (simp add: word_le_nat_alt del: push_bit_of_1)
  then show ?thesis unfolding b using p by (simp add: unat_sub all_nodes_def del: push_bit_of_1)
qed

lemma mod_BITS_PER_LONG: "unat (n mod BITS_PER_LONG) = unat n mod 64"
  by (simp add: BITS_PER_LONG_def BITS_PER_BYTE_def unat_mod_distrib)

lemma low_bits_Some:
  assumes "unat n mod 64 \<le> 30"
  shows "\<exists>b. low_bits (n mod BITS_PER_LONG) = Some b \<and> unat b = all_nodes (unat n mod 64)"
proof -
  have "low_bits (n mod BITS_PER_LONG) = Some (push_bit (unat n mod 64) 1 - 1)"
    using assms unfolding low_bits_def mod_BITS_PER_LONG by (simp del: push_bit_of_1)
  from this unat_low_bits [OF this] show ?thesis unfolding mod_BITS_PER_LONG by blast
qed

section \<open>What the helpers compute\<close>

lemma down_from_length: "0 < unat nr \<Longrightarrow> unat nr < 2 ^ 31 \<Longrightarrow> down_from nr = unat nr"
proof -
  assume nr: "0 < unat nr" "unat nr < 2 ^ 31"
  have "(1::u64) \<le> nr" using nr(1) by (simp add: word_le_nat_alt)
  then have "unat (nr - 1) = unat nr - 1" by (simp add: unat_sub)
  then have pred: "uint (nr - 1) = int (unat nr - 1)" by (metis uint_nat)
  define m where "m = unat nr - 1"
  have "to_int32 (int m) = int m" using nr(2) by (intro to_int32_id) (simp_all add: m_def)
  then have "down_from nr = Suc m" unfolding down_from_def pred m_def [symmetric] by simp
  then show ?thesis using nr(1) by (simp add: m_def)
qed

lemma node_mask_check_below:
  assumes "n < unat nr" "n \<le> length ws"
  shows "node_mask_check_loop ws nr num_bits n s = (Val (if \<forall>i<n. ws ! i = -1 then 0 else -1), s)"
  using assms
proof (induction n)
  case (Suc n)
  have "n < 2 ^ 64" using Suc.prems(1) unat_lt2p64 [of nr] by linarith
  then have n: "unat (of_nat n :: u64) = n" by (simp add: unat_of_nat)
  have "(1::u64) \<le> nr" using Suc.prems(1) by (simp add: word_le_nat_alt)
  then have "unat (nr - 1) = unat nr - 1" by (simp add: unat_sub)
  then have "(of_nat n :: u64) \<noteq> nr - 1" using n Suc.prems(1) by (metis Suc_lessD Suc_pred diff_Suc_1 gr_implies_not0 less_Suc_eq not_less_eq zero_less_iff_neq_zero)
  moreover have "NOT (ws ! n) = 0 \<longleftrightarrow> ws ! n = -1" by (metis bit.compl_one bit.double_compl)
  ultimately show ?case using Suc by (auto simp: ret_def less_Suc_eq)
qed (simp add: ret_def)

lemma node_mask_check_words:
  assumes "length ws = unat nr" "0 < unat nr" "unat nr < 2 ^ 31" "low_bits (num_bits mod BITS_PER_LONG) = Some b"
  shows "node_mask_check ws nr num_bits s = (Val (if ws = replicate (unat nr - 1) (-1) @ [b] then 0 else -1), s)"
proof -
  obtain n where n: "unat nr = Suc n" using assms(2) by (cases "unat nr") auto
  have "(1::u64) \<le> nr" using n by (simp add: word_le_nat_alt)
  then have "unat (nr - 1) = n" using n by (simp add: unat_sub)
  then have top: "(of_nat n :: u64) = nr - 1" by (metis of_nat_unat ucast_id)
  have "ws = replicate n (-1) @ [b] \<longleftrightarrow> ws ! n = b \<and> (\<forall>i<n. ws ! i = -1)"
    using assms(1) n by (auto simp: list_eq_iff_nth_eq nth_append less_Suc_eq)
  then show ?thesis
    using assms(1,4) n top node_mask_check_below [of n nr ws num_bits s]
    by (simp add: node_mask_check_def down_from_length [OF assms(2,3)] ret_def)
qed

text \<open>
  The check accepts exactly the masks that denote the nodes \<open>0\<close> to \<open>n - 1\<close>, where \<open>n\<close> is
  \<open>64 * (words - 1) + num_bits % 64\<close>.
\<close>

lemma node_mask_check_set:
  assumes "length ws = unat nr" "0 < unat nr" "unat nr < 2 ^ 31" "unat num_bits mod 64 \<le> 30"
  shows "node_mask_check ws nr num_bits s =
    (Val (if mask_of ws = all_nodes (64 * (unat nr - 1) + unat num_bits mod 64) then 0 else -1), s)"
proof -
  obtain b where b: "low_bits (num_bits mod BITS_PER_LONG) = Some b" "unat b = all_nodes (unat num_bits mod 64)"
    using low_bits_Some [OF assms(4)] by blast
  let ?full = "replicate (unat nr - 1) (-1) @ [b]"
  have "mask_of ?full = all_nodes (64 * (unat nr - 1) + unat num_bits mod 64)"
    unfolding mask_of_full b(2) all_nodes_add ..
  moreover have "length ws = length ?full" using assms(1,2) by simp
  ultimately have "ws = ?full \<longleftrightarrow> mask_of ws = all_nodes (64 * (unat nr - 1) + unat num_bits mod 64)"
    using mask_of_inj by metis
  then show ?thesis unfolding node_mask_check_words [OF assms(1-3) b(1)] by simp
qed

text \<open>The number of words.\<close>

definition words_for :: "nat \<Rightarrow> nat" where
  "words_for n = (if n = 0 then 1 else (n + 63) div 64)"

definition node_mask_words :: "u64 \<Rightarrow> u64" where
  "node_mask_words max_node = (let n = (max_node + BITS_PER_LONG - 1) div BITS_PER_LONG in if n = 0 then 1 else n)"

lemma unat_node_mask_words:
  assumes "unat max_node + 63 < 2 ^ 64"
  shows "unat (node_mask_words max_node) = words_for (unat max_node)"
proof -
  have add: "max_node + BITS_PER_LONG - 1 = max_node + of_nat 63" by (simp add: BITS_PER_LONG_def BITS_PER_BYTE_def)
  have "unat (max_node + of_nat 63) = unat max_node + 63"
    using assms by (simp add: unat_word_ariths)
  then have "unat ((max_node + BITS_PER_LONG - 1) div BITS_PER_LONG) = (unat max_node + 63) div 64"
    unfolding add by (simp add: unat_div_distrib BITS_PER_LONG_def BITS_PER_BYTE_def)
  moreover have "(unat max_node + 63) div 64 = 0 \<longleftrightarrow> unat max_node = 0" by (simp add: div_eq_0_iff)
  ultimately show ?thesis by (auto simp: node_mask_words_def words_for_def Let_def unat_eq_0 [symmetric])
qed

lemma create_node_mask_eq:
  "create_node_mask K max_node =
     exec (c_malloc K (unat (node_mask_words max_node * 8))) (\<lambda>ok.
       ret (node_mask_words max_node, if ok then Some (replicate (unat (node_mask_words max_node)) 0) else None))"
  unfolding create_node_mask_def Let_def node_mask_words_def [unfolded Let_def, symmetric]
  by (intro arg_cong [where f = "exec _"] ext) simp

text \<open>Page arithmetic.\<close>

lemma page_size_cases: "PAGE_SIZE Pages4K = 0x1000" "PAGE_SIZE Pages64K = 0x10000"
  by (simp_all add: PAGE_SIZE_def)

lemma unat_page_offset: "unat (a AND PAGE_OFFSET cfg) = unat a mod unat (PAGE_SIZE cfg)"
proof -
  have "PAGE_OFFSET cfg = mask (PAGE_SHIFT cfg)"
    by (cases cfg) (simp_all add: PAGE_OFFSET_def page_size_cases mask_eq_exp_minus_1)
  then have "a AND PAGE_OFFSET cfg = take_bit (PAGE_SHIFT cfg) a" by (simp only: take_bit_eq_mask)
  then have "unat (a AND PAGE_OFFSET cfg) = take_bit (PAGE_SHIFT cfg) (unat a)" by (simp only: unsigned_take_bit_eq)
  then show ?thesis by (simp only: take_bit_eq_mod small_page.unat_psize)
qed


section \<open>The kernel contract\<close>

text \<open>
  A policy is a mode with its flags and a set of nodes. The view of a kernel state: the number
  of nodes, the policy of the process, the mapped bytes, the policy set for a byte by
  \<^verbatim>\<open>mbind\<close>, and the node that holds a page once it has been touched.
\<close>

type_synonym policy = "int \<times> nat"

record numa_state =
  n_nodes :: nat
  n_policy :: policy
  n_mapped :: "u64 \<Rightarrow> bool"
  n_region :: "u64 \<Rightarrow> policy option"
  n_page :: "u64 \<Rightarrow> nat option"

definition in_range :: "u64 \<Rightarrow> u64 \<Rightarrow> u64 \<Rightarrow> bool" where
  "in_range a len x \<longleftrightarrow> x - a < len"

text \<open>
  The node mask of a call: the kernel reads \<open>maxnode - 1\<close> bits (with \<open>maxnode = 0\<close> that wraps around and is
  too large), and no bits when the pointer is \<^verbatim>\<open>NULL\<close>.
\<close>

definition user_nodes :: "page_config \<Rightarrow> u64 list option \<Rightarrow> u64 \<Rightarrow> int + nat" where
  "user_nodes cfg nodemask maxnode =
     (case nodemask of
        None \<Rightarrow> Inr 0
      | Some ws \<Rightarrow>
          if maxnode - 1 = 0 then Inr 0
          else if PAGE_SIZE cfg * BITS_PER_BYTE < maxnode - 1 then Inl EINVAL
          else Inr (take_bit (unat (maxnode - 1)) (mask_of ws)))"

fun first_node :: "nat \<Rightarrow> nat" where
  "first_node m = (if m = 0 \<or> odd m then 0 else Suc (first_node (m div 2)))"

declare first_node.simps [simp del]

definition MODE_FLAGS :: int where "MODE_FLAGS = MPOL_F_STATIC_NODES OR MPOL_F_RELATIVE_NODES"

text \<open>
  The policy a mode and a set of present nodes select. \<open>None\<close>: not covered here (modes the suites
  do not use, nodes that do not exist).
\<close>

definition policy_of :: "nat \<Rightarrow> int \<Rightarrow> nat \<Rightarrow> (int + policy) option" where
  "policy_of nodes mode m =
     (let flags = mode AND MODE_FLAGS; base = mode AND NOT MODE_FLAGS in
      if base < 0 \<or> flags = MODE_FLAGS then Some (Inl EINVAL)
      else if 2 ^ nodes \<le> m then None
      else if base = MPOL_DEFAULT then Some (if flags \<noteq> 0 \<or> m \<noteq> 0 then Inl EINVAL else Inr (mode, 0))
      else if base = MPOL_BIND \<or> base = MPOL_INTERLEAVE then Some (if m = 0 then Inl EINVAL else Inr (mode, m))
      else if base = MPOL_PREFERRED then
        Some (if m = 0 then (if flags \<noteq> 0 then Inl EINVAL else Inr (mode, 0))
              else Inr (mode, if flags = 0 then 2 ^ first_node m else m))
      else None)"

definition spec_set_mempolicy ::
    "page_config \<Rightarrow> numa_state \<Rightarrow> int \<Rightarrow> u64 list option \<Rightarrow> u64 \<Rightarrow> (int + numa_state) option" where
  "spec_set_mempolicy cfg st mode nodemask maxnode =
     (case user_nodes cfg nodemask maxnode of
        Inl e \<Rightarrow> Some (Inl e)
      | Inr m \<Rightarrow> map_option (map_sum (\<lambda>e. e) (\<lambda>p. st\<lparr>n_policy := p\<rparr>)) (policy_of (n_nodes st) mode m))"

text \<open>
  \<^verbatim>\<open>get_mempolicy\<close>: the mode and the nodes it reports. \<^verbatim>\<open>MPOL_F_NODE\<close> with an address is a law of its
  own, and with an interleaving process policy it is not covered.
\<close>

definition spec_get_mempolicy ::
    "numa_state \<Rightarrow> bool \<Rightarrow> u64 \<Rightarrow> u64 \<Rightarrow> u64 \<Rightarrow> (int + policy) option" where
  "spec_get_mempolicy st masked maxnode addr flags =
     (if flags AND NOT (MPOL_F_NODE OR MPOL_F_ADDR OR MPOL_F_MEMS_ALLOWED) \<noteq> 0 then Some (Inl EINVAL)
      else if masked \<and> unat maxnode < n_nodes st then Some (Inl EINVAL)
      else if flags AND MPOL_F_MEMS_ALLOWED \<noteq> 0 then
        Some (if flags AND (MPOL_F_NODE OR MPOL_F_ADDR) \<noteq> 0 then Inl EINVAL else Inr (0, all_nodes (n_nodes st)))
      else if flags AND MPOL_F_ADDR \<noteq> 0 then
        if \<not> n_mapped st addr then Some (Inl EFAULT)
        else if flags AND MPOL_F_NODE \<noteq> 0 then None
        else Some (Inr (case n_region st addr of None \<Rightarrow> (MPOL_DEFAULT, 0) | Some p \<Rightarrow> p))
      else if addr \<noteq> 0 then Some (Inl EINVAL)
      else if flags AND MPOL_F_NODE \<noteq> 0 then
        (if fst (n_policy st) AND NOT MODE_FLAGS = MPOL_INTERLEAVE then None else Some (Inl EINVAL))
      else Some (Inr (n_policy st)))"

text \<open>The words the kernel writes: \<open>maxnode\<close> bits rounded up to whole words.\<close>

definition written_mask :: "u64 list \<Rightarrow> u64 \<Rightarrow> nat \<Rightarrow> u64 list" where
  "written_mask ws maxnode m =
     map (\<lambda>i. if i < words_for (unat maxnode) then of_nat (drop_bit (64 * i) m) else ws ! i) [0..<length ws]"

text \<open>
  \<^verbatim>\<open>mbind\<close> by an unprivileged process. A strict call fails when a touched page of the range lies on
  a node outside the new policy.
\<close>

definition misplaced :: "numa_state \<Rightarrow> u64 \<Rightarrow> u64 \<Rightarrow> nat \<Rightarrow> bool" where
  "misplaced st a len m \<longleftrightarrow> (\<exists>x n. in_range a len x \<and> n_page st x = Some n \<and> \<not> bit m n)"

definition bind_region :: "numa_state \<Rightarrow> u64 \<Rightarrow> u64 \<Rightarrow> policy \<Rightarrow> numa_state" where
  "bind_region st a len p =
     st\<lparr>n_region := (\<lambda>x. if in_range a len x then (if fst p = MPOL_DEFAULT then None else Some p) else n_region st x)\<rparr>"

definition spec_mbind ::
    "page_config \<Rightarrow> numa_state \<Rightarrow> u64 \<Rightarrow> u64 \<Rightarrow> int \<Rightarrow> u64 list option \<Rightarrow> u64 \<Rightarrow> u32 \<Rightarrow> (int + numa_state) option" where
  "spec_mbind cfg st addr len mode nodemask maxnode flags =
     (case user_nodes cfg nodemask maxnode of
        Inl e \<Rightarrow> Some (Inl e)
      | Inr m \<Rightarrow>
          if flags AND MPOL_MF_MOVE_ALL \<noteq> 0 then Some (Inl EPERM)
          else if addr AND PAGE_OFFSET cfg \<noteq> 0 then Some (Inl EINVAL)
          else
            let size = align_up len (PAGE_SIZE cfg) in
            if addr + size < addr then Some (Inl EINVAL)
            else case policy_of (n_nodes st) mode m of
              None \<Rightarrow> None
            | Some (Inl e) \<Rightarrow> Some (Inl e)
            | Some (Inr p) \<Rightarrow>
                if size = 0 then Some (Inr st)
                else if \<exists>x. in_range addr size x \<and> \<not> n_mapped st x then Some (Inl EFAULT)
                else if flags AND MPOL_MF_STRICT \<noteq> 0 \<and> fst p \<noteq> MPOL_DEFAULT \<and> misplaced st addr size (snd p)
                then Some (Inl EIO)
                else Some (Inr (bind_region st addr size p)))"

text \<open>A new private anonymous mapping has no policy of its own and no pages yet.\<close>

definition map_region :: "numa_state \<Rightarrow> u64 \<Rightarrow> u64 \<Rightarrow> numa_state" where
  "map_region st a len =
     st\<lparr>n_mapped := (\<lambda>x. in_range a len x \<or> n_mapped st x),
        n_region := (\<lambda>x. if in_range a len x then None else n_region st x),
        n_page := (\<lambda>x. if in_range a len x then None else n_page st x)\<rparr>"

definition page_of :: "page_config \<Rightarrow> u64 \<Rightarrow> u64" where
  "page_of cfg a = a AND PAGE_MASK cfg"

text \<open>The laws. \<open>N\<close> is the view, \<open>A\<close> the number of bytes the kernel still can map.\<close>

definition simulates :: "('k \<Rightarrow> numa_state) \<Rightarrow> ('k \<Rightarrow> nat) \<Rightarrow> 'k \<Rightarrow> (int + int) \<times> 'k \<Rightarrow> (int + numa_state) option \<Rightarrow> bool" where
  "simulates N A k answer spec \<longleftrightarrow>
     (case spec of
        None \<Rightarrow> True
      | Some (Inl e) \<Rightarrow> \<exists>k'. answer = (Inl e, k') \<and> N k' = N k \<and> A k' = A k
      | Some (Inr st) \<Rightarrow> \<exists>k'. answer = (Inr 0, k') \<and> N k' = st \<and> A k' = A k)"

definition set_mempolicy_law :: "page_config \<Rightarrow> ('k, 'z) numa_os_scheme \<Rightarrow> ('k \<Rightarrow> numa_state) \<Rightarrow> ('k \<Rightarrow> nat) \<Rightarrow> bool" where
  "set_mempolicy_law cfg K N A \<longleftrightarrow> (\<forall>k mode nodemask maxnode.
     simulates N A k (os_set_mempolicy K mode nodemask maxnode k) (spec_set_mempolicy cfg (N k) mode nodemask maxnode))"

definition mbind_law :: "page_config \<Rightarrow> ('k, 'z) numa_os_scheme \<Rightarrow> ('k \<Rightarrow> numa_state) \<Rightarrow> ('k \<Rightarrow> nat) \<Rightarrow> bool" where
  "mbind_law cfg K N A \<longleftrightarrow> (\<forall>k addr len mode nodemask maxnode flags.
     flags AND NOT (MPOL_MF_STRICT OR MPOL_MF_MOVE_ALL) = 0 \<longrightarrow>
     simulates N A k (os_mbind K addr len mode nodemask maxnode flags k)
       (spec_mbind cfg (N k) addr len mode nodemask maxnode flags))"

text \<open>With \<^verbatim>\<open>MPOL_MF_MOVE\<close> the kernel may also move pages.\<close>

definition mbind_move_law :: "page_config \<Rightarrow> ('k, 'z) numa_os_scheme \<Rightarrow> ('k \<Rightarrow> numa_state) \<Rightarrow> ('k \<Rightarrow> nat) \<Rightarrow> bool" where
  "mbind_move_law cfg K N A \<longleftrightarrow> (\<forall>k addr len mode nodemask maxnode st.
     spec_mbind cfg (N k) addr len mode nodemask maxnode 0 = Some (Inr st) \<longrightarrow>
     (\<exists>k' pages. os_mbind K addr len mode nodemask maxnode MPOL_MF_MOVE k = (Inr 0, k')
        \<and> N k' = st\<lparr>n_page := pages\<rparr> \<and> A k' = A k))"

definition get_mempolicy_law :: "('k, 'z) numa_os_scheme \<Rightarrow> ('k \<Rightarrow> numa_state) \<Rightarrow> ('k \<Rightarrow> nat) \<Rightarrow> bool" where
  "get_mempolicy_law K N A \<longleftrightarrow> (\<forall>k nodemask maxnode addr flags.
     case spec_get_mempolicy (N k) (nodemask \<noteq> None) maxnode addr flags of
       None \<Rightarrow> True
     | Some (Inl e) \<Rightarrow> \<exists>k'. os_get_mempolicy K nodemask maxnode addr flags k = (Inl e, k') \<and> N k' = N k \<and> A k' = A k
     | Some (Inr (mode, m)) \<Rightarrow>
         nodemask \<noteq> None \<and> unat maxnode mod 64 = 1 \<or>
         (\<exists>k'. os_get_mempolicy K nodemask maxnode addr flags k
              = (Inr (mode, case nodemask of None \<Rightarrow> [] | Some ws \<Rightarrow> written_mask ws maxnode m), k')
            \<and> N k' = N k \<and> A k' = A k))"

definition get_node_law :: "('k, 'z) numa_os_scheme \<Rightarrow> ('k \<Rightarrow> numa_state) \<Rightarrow> bool" where
  "get_node_law K N \<longleftrightarrow> (\<forall>k addr. n_mapped (N k) addr \<and> 0 < n_nodes (N k) \<longrightarrow>
     (\<exists>n ws k'. os_get_mempolicy K None 0 addr (MPOL_F_ADDR OR MPOL_F_NODE) k = (Inr (int n, ws), k') \<and> n < n_nodes (N k)))"

definition numa_mmap_law :: "page_config \<Rightarrow> ('k, 'z) vm_os_scheme \<Rightarrow> ('k \<Rightarrow> numa_state) \<Rightarrow> ('k \<Rightarrow> nat) \<Rightarrow> bool" where
  "numa_mmap_law cfg K N A \<longleftrightarrow> (\<forall>k len prot.
     len AND PAGE_OFFSET cfg = 0 \<and> 0 < len \<and> unat len \<le> A k \<longrightarrow>
     (\<exists>a k'. os_mmap K 0 len prot (MAP_PRIVATE OR MAP_ANONYMOUS) (-1) 0 k = (Inr a, k')
        \<and> a AND PAGE_OFFSET cfg = 0 \<and> a \<noteq> 0 \<and> a < a + len
        \<and> N k' = map_region (N k) a len \<and> A k \<le> A k' + unat len))"

text \<open>The first write to a page places it on a node its policy allows.\<close>

definition numa_store_law :: "page_config \<Rightarrow> ('k, 'z) vm_os_scheme \<Rightarrow> ('k \<Rightarrow> numa_state) \<Rightarrow> bool" where
  "numa_store_law cfg K N \<longleftrightarrow> (\<forall>k a b m.
     n_mapped (N k) a \<and> n_page (N k) (page_of cfg a) = None \<and> n_region (N k) a = Some (MPOL_BIND, m) \<and> m \<noteq> 0 \<longrightarrow>
     (\<exists>n k'. os_store K a b k = (Inr (), k') \<and> bit m n \<and> N k' = (N k)\<lparr>n_page := (n_page (N k))(page_of cfg a \<mapsto> n)\<rparr>))"

definition numa_alloc_law :: "('k, 'z) file_os_scheme \<Rightarrow> ('k \<Rightarrow> numa_state) \<Rightarrow> ('k \<Rightarrow> nat) \<Rightarrow> bool" where
  "numa_alloc_law K N A \<longleftrightarrow> (\<forall>k n. \<exists>k'. os_alloc K n k = (True, k') \<and> N k' = N k \<and> A k' = A k)"

text \<open>Mapped addresses are user addresses: neither page 0 nor the upper half.\<close>

definition user_addr :: "page_config \<Rightarrow> u64 \<Rightarrow> bool" where
  "user_addr cfg a \<longleftrightarrow> PAGE_SIZE cfg \<le> a \<and> unat a < 2 ^ 63"

definition user_addresses :: "page_config \<Rightarrow> ('k \<Rightarrow> numa_state) \<Rightarrow> bool" where
  "user_addresses cfg N \<longleftrightarrow> (\<forall>k a. n_mapped (N k) a \<longrightarrow> user_addr cfg a)"

definition numa_contract :: "page_config \<Rightarrow> ('k, 'z) numa_os_scheme \<Rightarrow> ('k \<Rightarrow> numa_state) \<Rightarrow> ('k \<Rightarrow> nat) \<Rightarrow> bool" where
  "numa_contract cfg K N A \<longleftrightarrow>
     set_mempolicy_law cfg K N A \<and> mbind_law cfg K N A \<and> mbind_move_law cfg K N A \<and> get_mempolicy_law K N A
     \<and> get_node_law K N \<and> numa_mmap_law cfg K N A \<and> numa_store_law cfg K N \<and> numa_alloc_law K N A \<and> user_addresses cfg N"

section \<open>A kernel that meets the contract\<close>

text \<open>
  The state is the next free address and the NUMA state; each call does what the contract says.
\<close>

type_synonym ref_numa = "nat \<times> numa_state"

definition user_view :: "page_config \<Rightarrow> numa_state \<Rightarrow> numa_state" where
  "user_view cfg st = st\<lparr>n_mapped := (\<lambda>a. n_mapped st a \<and> user_addr cfg a)\<rparr>"

definition numa_view :: "page_config \<Rightarrow> ref_numa \<Rightarrow> numa_state" where
  "numa_view cfg k = user_view cfg (snd k)"

definition LIMIT :: nat where "LIMIT = 2 ^ 62"

definition numa_room :: "page_config \<Rightarrow> ref_numa \<Rightarrow> nat" where
  "numa_room cfg k =
     (if fst k mod unat (PAGE_SIZE cfg) = 0 \<and> unat (PAGE_SIZE cfg) \<le> fst k \<and> fst k \<le> LIMIT then LIMIT - fst k else 0)"

definition ref_answer :: "ref_numa \<Rightarrow> (int + numa_state) option \<Rightarrow> (int + int) \<times> ref_numa" where
  "ref_answer k spec =
     (case spec of None \<Rightarrow> (Inl EINVAL, k) | Some (Inl e) \<Rightarrow> (Inl e, k) | Some (Inr st) \<Rightarrow> (Inr 0, (fst k, st)))"

definition ref_get_mempolicy ::
    "page_config \<Rightarrow> u64 list option \<Rightarrow> u64 \<Rightarrow> u64 \<Rightarrow> u64 \<Rightarrow> ref_numa \<Rightarrow> (int + int \<times> u64 list) \<times> ref_numa" where
  "ref_get_mempolicy cfg nm mx addr flags k =
     (case spec_get_mempolicy (numa_view cfg k) (nm \<noteq> None) mx addr flags of
        None \<Rightarrow> (Inr (0, case nm of None \<Rightarrow> [] | Some ws \<Rightarrow> ws), k)
      | Some (Inl e) \<Rightarrow> (Inl e, k)
      | Some (Inr (mode, m)) \<Rightarrow> (Inr (mode, case nm of None \<Rightarrow> [] | Some ws \<Rightarrow> written_mask ws mx m), k))"

definition ref_numa_mmap :: "u64 \<Rightarrow> ref_numa \<Rightarrow> (int + u64) \<times> ref_numa" where
  "ref_numa_mmap len k =
     (Inr (of_nat (fst k)), (fst k + unat len, map_region (snd k) (of_nat (fst k)) len))"

definition ref_numa_store :: "page_config \<Rightarrow> u64 \<Rightarrow> ref_numa \<Rightarrow> (int + unit) \<times> ref_numa" where
  "ref_numa_store cfg a k =
     (let st = numa_view cfg k; n = (case n_region st a of Some (mode, m) \<Rightarrow> first_node m | None \<Rightarrow> 0) in
      (Inr (), (fst k, st\<lparr>n_page := (n_page st)(page_of cfg a \<mapsto> n)\<rparr>)))"

definition ref_numa_os :: "page_config \<Rightarrow> ref_numa numa_os" where
  "ref_numa_os cfg = file_os.extend ((failing_os EINVAL)\<lparr>
       os_mmap := (\<lambda>_ len _ _ _ _. ref_numa_mmap len), os_munmap := (\<lambda>_ _ k. (Inr 0, k)),
       os_store := (\<lambda>a _. ref_numa_store cfg a), os_alloc := (\<lambda>_ k. (True, k))\<rparr>)
     (numa_os.fields
       (\<lambda>mode nm mx k. ref_answer k (spec_set_mempolicy cfg (numa_view cfg k) mode nm mx))
       (ref_get_mempolicy cfg)
       (\<lambda>addr len mode nm mx flags k.
          ref_answer k (spec_mbind cfg (numa_view cfg k) addr len mode nm mx (if flags = MPOL_MF_MOVE then 0 else flags))))"

lemma ref_numa_os_simps [simp]:
  "os_set_mempolicy (ref_numa_os cfg) mode nm mx k = ref_answer k (spec_set_mempolicy cfg (numa_view cfg k) mode nm mx)"
  "os_get_mempolicy (ref_numa_os cfg) = ref_get_mempolicy cfg"
  "os_mbind (ref_numa_os cfg) addr len mode nm mx flags k =
     ref_answer k (spec_mbind cfg (numa_view cfg k) addr len mode nm mx (if flags = MPOL_MF_MOVE then 0 else flags))"
  "os_mmap (ref_numa_os cfg) a len prot fl fd off = ref_numa_mmap len"
  "os_store (ref_numa_os cfg) a b = ref_numa_store cfg a"
  "os_alloc (ref_numa_os cfg) n k = (True, k)"
  by (simp_all add: ref_numa_os_def file_os.defs numa_os.defs failing_os_def)

lemma user_view_idem: "user_view cfg (user_view cfg st) = user_view cfg st"
  by (simp add: user_view_def)

lemma user_view_iff: "user_view cfg st = st \<longleftrightarrow> (\<forall>a. n_mapped st a \<longrightarrow> user_addr cfg a)"
proof
  assume "user_view cfg st = st"
  from arg_cong [OF this, of n_mapped] show "\<forall>a. n_mapped st a \<longrightarrow> user_addr cfg a"
    unfolding user_view_def by (simp add: fun_eq_iff) blast
next
  assume "\<forall>a. n_mapped st a \<longrightarrow> user_addr cfg a"
  then have "(\<lambda>a. n_mapped st a \<and> user_addr cfg a) = n_mapped st" by (auto simp: fun_eq_iff)
  then show "user_view cfg st = st" by (simp add: user_view_def)
qed

lemma user_view_updates:
  "user_view cfg st = st \<Longrightarrow> user_view cfg (st\<lparr>n_policy := p\<rparr>) = st\<lparr>n_policy := p\<rparr>"
  "user_view cfg st = st \<Longrightarrow> user_view cfg (bind_region st a len p) = bind_region st a len p"
  "user_view cfg st = st \<Longrightarrow> user_view cfg (st\<lparr>n_page := pages\<rparr>) = st\<lparr>n_page := pages\<rparr>"
  unfolding user_view_iff bind_region_def by simp_all

lemma numa_view_fixed [simp]: "user_view cfg (numa_view cfg k) = numa_view cfg k"
  by (simp add: numa_view_def user_view_idem)

lemma map_sum_sel_Inr: "map_sum f g x = Inr y \<Longrightarrow> \<exists>z. x = Inr z \<and> y = g z"
  by (cases x) auto

lemma spec_set_view:
  assumes "spec_set_mempolicy cfg (numa_view cfg k) mode nm mx = Some (Inr st)"
  shows "user_view cfg st = st"
proof -
  obtain z :: "int + policy" where "map_sum (\<lambda>e. e) (\<lambda>p. (numa_view cfg k)\<lparr>n_policy := p\<rparr>) z = Inr st"
    using assms by (auto simp: spec_set_mempolicy_def simp del: split_paired_Ex split: sum.splits)
  from map_sum_sel_Inr [OF this] obtain p where "st = (numa_view cfg k)\<lparr>n_policy := p\<rparr>" by blast
  then show ?thesis using user_view_updates(1) [OF numa_view_fixed] by simp
qed

lemma spec_mbind_view: "spec_mbind cfg (numa_view cfg k) addr len mode nm mx flags = Some (Inr st) \<Longrightarrow> user_view cfg st = st"
  by (auto simp: spec_mbind_def user_view_updates Let_def split: sum.splits if_splits option.splits)

lemma simulates_ref:
  assumes "\<And>st. spec = Some (Inr st) \<Longrightarrow> user_view cfg st = st"
  shows "simulates (numa_view cfg) (numa_room cfg) k (ref_answer k spec) spec"
  using assms
  by (auto simp: simulates_def ref_answer_def numa_view_def numa_room_def split: option.splits sum.splits)

lemma bit_first_node: "m \<noteq> 0 \<Longrightarrow> bit m (first_node m)"
proof (induction m rule: first_node.induct)
  case (1 m)
  show ?case
  proof (cases "odd m")
    case True
    then show ?thesis by (simp add: first_node.simps [of m] bit_0)
  next
    case False
    with 1 have "bit (m div 2) (first_node (m div 2))" by (auto elim!: evenE)
    then show ?thesis using False 1(2) by (simp add: first_node.simps [of m] bit_Suc)
  qed
qed

lemma map_region_view:
  assumes "\<And>x. in_range a len x \<Longrightarrow> user_addr cfg x"
  shows "user_view cfg (map_region st a len) = map_region (user_view cfg st) a len"
proof -
  have "(\<lambda>x. (in_range a len x \<or> n_mapped st x) \<and> user_addr cfg x) = (\<lambda>x. in_range a len x \<or> n_mapped st x \<and> user_addr cfg x)"
    using assms by auto
  then show ?thesis by (cases st) (simp add: user_view_def map_region_def cong: if_cong)
qed

lemma LIMIT_SPACE: "LIMIT < SPACE" "n \<le> LIMIT \<Longrightarrow> n < 2 ^ 63"
  by (simp_all add: LIMIT_def SPACE_def)

lemma numa_room_grow:
  assumes "fst k mod p = 0" "p = unat (PAGE_SIZE cfg)" "p \<le> fst k" "fst k + n \<le> LIMIT" "n mod p = 0"
  shows "numa_room cfg k \<le> numa_room cfg (fst k + n, st) + n"
proof -
  have "(fst k + n) mod p = 0" using assms(1,5) by (simp only: mod_eq_0_iff_dvd dvd_add)
  then show ?thesis using assms(3,4) unfolding numa_room_def by (simp add: assms(2) [symmetric])
qed

lemma ref_numa_mmap_law: "numa_mmap_law cfg (ref_numa_os cfg) (numa_view cfg) (numa_room cfg)"
  unfolding numa_mmap_law_def
proof (intro allI impI, elim conjE)
  fix k :: ref_numa and len :: u64 and prot :: u32
  define p where "p = unat (PAGE_SIZE cfg)"
  let ?a = "of_nat (fst k) :: u64"
  assume len: "len AND PAGE_OFFSET cfg = 0" "0 < len" "unat len \<le> numa_room cfg k"
  have l0: "0 < unat len" using len(2) by (simp only: word_less_nat_alt unat_0)
  then have k: "fst k mod p = 0" "p \<le> fst k" "fst k + unat len \<le> LIMIT"
    using len(3) unfolding numa_room_def p_def by (auto split: if_splits)
  have P: "0 < p" by (cases cfg) (simp_all add: p_def page_size_cases)
  have a: "unat ?a = fst k" using k(3) LIMIT_SPACE(1) by (intro unat_of_nat_SPACE) linarith
  have "unat (?a AND PAGE_OFFSET cfg) = 0" using k(1) by (simp only: unat_page_offset a p_def)
  then have "?a AND PAGE_OFFSET cfg = 0" by (simp only: unat_eq_0)
  moreover have "?a \<noteq> 0" using a k(2) P by (metis not_less_zero order.strict_trans2 unat_0)
  moreover have sum: "unat (?a + of_nat (unat len)) = fst k + unat len"
    using unat_add_fits [of ?a "unat len"] a k(3) LIMIT_SPACE(1) by simp
  then have "?a < ?a + len" using a l0 by (simp add: word_less_nat_alt)
  moreover have "numa_view cfg (fst k + unat len, map_region (snd k) ?a len) = map_region (numa_view cfg k) ?a len"
    unfolding numa_view_def snd_conv
  proof (rule map_region_view)
    fix x
    assume "in_range ?a len x"
    then have lt: "unat (x - ?a) < unat len" by (simp only: in_range_def word_less_nat_alt)
    have "unat (?a + of_nat (unat (x - ?a))) = fst k + unat (x - ?a)"
      using unat_add_fits [of ?a "unat (x - ?a)"] a k(3) lt LIMIT_SPACE(1) by simp
    then have "unat x = fst k + unat (x - ?a)" by simp
    then show "user_addr cfg x"
      using k(2,3) lt LIMIT_SPACE(2) [of "unat x"] unfolding user_addr_def word_le_nat_alt p_def by linarith
  qed
  moreover have "numa_room cfg k \<le> numa_room cfg (fst k + unat len, st) + unat len" for st
  proof (rule numa_room_grow [OF k(1) p_def k(2,3)])
    show "unat len mod p = 0" using len(1) unat_page_offset [of len cfg] by (simp only: p_def unat_0)
  qed
  ultimately show "\<exists>a k'. os_mmap (ref_numa_os cfg) 0 len prot (MAP_PRIVATE OR MAP_ANONYMOUS) (- 1) 0 k = (Inr a, k')
      \<and> a AND PAGE_OFFSET cfg = 0 \<and> a \<noteq> 0 \<and> a < a + len \<and> numa_view cfg k' = map_region (numa_view cfg k) a len
      \<and> numa_room cfg k \<le> numa_room cfg k' + unat len"
    unfolding ref_numa_os_simps ref_numa_mmap_def by blast
qed

lemma ref_numa_store_law: "numa_store_law cfg (ref_numa_os cfg) (numa_view cfg)"
  unfolding numa_store_law_def
proof (intro allI impI, elim conjE)
  fix k :: ref_numa and a :: u64 and b :: byte and m :: nat
  let ?st = "(numa_view cfg k)\<lparr>n_page := (n_page (numa_view cfg k))(page_of cfg a \<mapsto> first_node m)\<rparr>"
  assume "n_region (numa_view cfg k) a = Some (MPOL_BIND, m)" "m \<noteq> 0"
  moreover have "numa_view cfg (fst k, ?st) = ?st" by (simp add: numa_view_def [of cfg "(fst k, ?st)"] user_view_updates)
  ultimately show "\<exists>n k'. os_store (ref_numa_os cfg) a b k = (Inr (), k') \<and> bit m n
      \<and> numa_view cfg k' = (numa_view cfg k)\<lparr>n_page := (n_page (numa_view cfg k))(page_of cfg a \<mapsto> n)\<rparr>"
    by (intro exI [of _ "first_node m"] exI [of _ "(fst k, ?st)"]) (simp add: ref_numa_store_def Let_def bit_first_node)
qed

lemma ref_numa_contract: "numa_contract cfg (ref_numa_os cfg) (numa_view cfg) (numa_room cfg)"
proof -
  have "set_mempolicy_law cfg (ref_numa_os cfg) (numa_view cfg) (numa_room cfg)"
    unfolding set_mempolicy_law_def ref_numa_os_simps by (intro allI simulates_ref) (rule spec_set_view)
  moreover have "mbind_law cfg (ref_numa_os cfg) (numa_view cfg) (numa_room cfg)"
  proof -
    have "MPOL_MF_MOVE AND NOT (MPOL_MF_STRICT OR MPOL_MF_MOVE_ALL) \<noteq> 0" by (simp add: numa_consts)
    then have ne: "flags \<noteq> MPOL_MF_MOVE" if "flags AND NOT (MPOL_MF_STRICT OR MPOL_MF_MOVE_ALL) = 0" for flags using that by blast
    show ?thesis unfolding mbind_law_def ref_numa_os_simps
    proof (intro allI impI)
      fix k addr len mode nodemask maxnode flags
      assume "flags AND NOT (MPOL_MF_STRICT OR MPOL_MF_MOVE_ALL) = 0"
      from ne [OF this] show "simulates (numa_view cfg) (numa_room cfg) k
          (ref_answer k (spec_mbind cfg (numa_view cfg k) addr len mode nodemask maxnode (if flags = MPOL_MF_MOVE then 0 else flags)))
          (spec_mbind cfg (numa_view cfg k) addr len mode nodemask maxnode flags)"
        by (simp only: if_False) (rule simulates_ref, rule spec_mbind_view)
    qed
  qed
  moreover have "mbind_move_law cfg (ref_numa_os cfg) (numa_view cfg) (numa_room cfg)"
    unfolding mbind_move_law_def ref_numa_os_simps
  proof (intro allI impI)
    fix k addr len mode nodemask maxnode st
    assume spec: "spec_mbind cfg (numa_view cfg k) addr len mode nodemask maxnode 0 = Some (Inr st)"
    from spec_mbind_view [OF this] have "numa_view cfg (fst k, st) = st" by (simp add: numa_view_def)
    then show "\<exists>k' pages. ref_answer k (spec_mbind cfg (numa_view cfg k) addr len mode nodemask maxnode (if MPOL_MF_MOVE = MPOL_MF_MOVE then 0 else MPOL_MF_MOVE)) = (Inr 0, k')
        \<and> numa_view cfg k' = st\<lparr>n_page := pages\<rparr> \<and> numa_room cfg k' = numa_room cfg k"
      using spec by (intro exI [of _ "(fst k, st)"] exI [of _ "n_page st"]) (simp add: ref_answer_def numa_room_def)
  qed
  moreover have "get_mempolicy_law (ref_numa_os cfg) (numa_view cfg) (numa_room cfg)"
    unfolding get_mempolicy_law_def
  proof (intro allI)
    fix k nodemask maxnode addr flags
    show "case spec_get_mempolicy (numa_view cfg k) (nodemask \<noteq> None) maxnode addr flags of
        None \<Rightarrow> True
      | Some (Inl e) \<Rightarrow> \<exists>k'. os_get_mempolicy (ref_numa_os cfg) nodemask maxnode addr flags k = (Inl e, k')
          \<and> numa_view cfg k' = numa_view cfg k \<and> numa_room cfg k' = numa_room cfg k
      | Some (Inr (mode, m)) \<Rightarrow>
          nodemask \<noteq> None \<and> unat maxnode mod 64 = 1 \<or>
          (\<exists>k'. os_get_mempolicy (ref_numa_os cfg) nodemask maxnode addr flags k
              = (Inr (mode, case nodemask of None \<Rightarrow> [] | Some ws \<Rightarrow> written_mask ws maxnode m), k')
            \<and> numa_view cfg k' = numa_view cfg k \<and> numa_room cfg k' = numa_room cfg k)"
      by (cases "spec_get_mempolicy (numa_view cfg k) (nodemask \<noteq> None) maxnode addr flags")
        (simp_all add: ref_get_mempolicy_def del: not_None_eq split_paired_Ex split: sum.split prod.split)
  qed
  moreover have "get_node_law (ref_numa_os cfg) (numa_view cfg)"
  proof -
    have "spec_get_mempolicy st False 0 addr (MPOL_F_ADDR OR MPOL_F_NODE) = None" if "n_mapped st addr" for st addr
      using that by (simp add: spec_get_mempolicy_def numa_consts)
    then show ?thesis by (auto simp: get_node_law_def ref_get_mempolicy_def intro!: exI [of _ "0::nat"])
  qed
  moreover have "numa_alloc_law (ref_numa_os cfg) (numa_view cfg) (numa_room cfg)" by (simp add: numa_alloc_law_def)
  moreover have "user_addresses cfg (numa_view cfg)" by (simp add: user_addresses_def numa_view_def user_view_def)
  ultimately show ?thesis
    using ref_numa_mmap_law [of cfg] ref_numa_store_law [of cfg] by (simp only: numa_contract_def)
qed

definition ref_numa_init :: "page_config \<Rightarrow> nat \<Rightarrow> u64 \<Rightarrow> ref_numa" where
  "ref_numa_init cfg nodes stack =
     (unat (PAGE_SIZE cfg), \<lparr>n_nodes = nodes, n_policy = (MPOL_DEFAULT, 0),
        n_mapped = in_range stack (2 * PAGE_SIZE cfg), n_region = (\<lambda>_. None), n_page = (\<lambda>_. None)\<rparr>)"

end
