(* ===== verification/Numa_Cases.thy ===== *)
theory Numa_Cases
  imports Numa
begin

text \<open>
  The test cases of \<^verbatim>\<open>test_mck/src/set_mempolicy\<close>, \<^verbatim>\<open>get_mempolicy\<close> and \<^verbatim>\<open>mbind\<close>. The test files share
  their static variables' names and most of their statements; the blocks below are these
  statements (a call with its assertions), and a definition per file puts them together. The
  address of the automatic array \<^verbatim>\<open>tmp_buf\<close> or \<^verbatim>\<open>buf\<close> of a test function is a parameter.
\<close>

unbundle bit_operations_syntax

section \<open>The statements the test functions consist of\<close>

definition word_of :: "u64 list option \<Rightarrow> u64 \<Rightarrow> u64" where
  "word_of v init = (case v of Some (w # _) \<Rightarrow> w | _ \<Rightarrow> init)"

definition setup_max_node :: "int \<Rightarrow> string list \<Rightarrow> ('k, unit) prog" where
  "setup_max_node num tc_argv = set_static ''max_node'' (Some [arg_analyze tc_argv])"

definition setup_empty :: "int \<Rightarrow> string list \<Rightarrow> ('k, unit) prog" where
  "setup_empty num tc_argv = ret ()"

definition teardown_empty :: "int \<Rightarrow> unit \<Rightarrow> ('k, unit) prog" where
  "teardown_empty num arg = ret ()"

definition teardown_mask :: "string \<Rightarrow> int \<Rightarrow> unit \<Rightarrow> ('k, unit) prog" where
  "teardown_mask x num arg = exec (get_static x) destroy_node_mask"

definition teardown_masks :: "string \<Rightarrow> string \<Rightarrow> int \<Rightarrow> unit \<Rightarrow> ('k, unit) prog" where
  "teardown_masks x y num arg =
     exec (exec (get_static x) destroy_node_mask) (\<lambda>_. exec (get_static y) destroy_node_mask)"

text \<open>\<^verbatim>\<open>if (buf != MAP_FAILED) munmap(buf, len)\<close>\<close>

definition unmap_static :: "('k, 'z) vm_os_scheme \<Rightarrow> string \<Rightarrow> u64 \<Rightarrow> ('k, unit) prog" where
  "unmap_static K x len =
     exec (get_static x) (\<lambda>v. let buf = word_of v MAP_FAILED in
     if buf \<noteq> MAP_FAILED then exec (munmap K buf len) (\<lambda>_. ret ()) else ret ())"

definition teardown_buf :: "('k, 'z) vm_os_scheme \<Rightarrow> u64 \<Rightarrow> int \<Rightarrow> unit \<Rightarrow> ('k, unit) prog" where
  "teardown_buf K len num arg = unmap_static K ''buf'' len"

definition teardown_mask_buf :: "('k, 'z) vm_os_scheme \<Rightarrow> u64 \<Rightarrow> int \<Rightarrow> unit \<Rightarrow> ('k, unit) prog" where
  "teardown_mask_buf K len num arg =
     exec (teardown_mask ''node_mask'' num arg) (\<lambda>_. unmap_static K ''buf'' len)"

definition need_max_node :: "(u64 \<Rightarrow> ('k, string option) prog) \<Rightarrow> ('k, string option) prog" where
  "need_max_node k =
     exec (get_static ''max_node'') (\<lambda>v. let max_node = word_of v 0 in
     if max_node = 0 then exec usage_print (\<lambda>_. ret (Some ''max_node = 0'')) else k max_node)"

definition need_nodes :: "u64 \<Rightarrow> u64 \<Rightarrow> string \<Rightarrow> ('k, string option) prog \<Rightarrow> ('k, string option) prog" where
  "need_nodes max_node n fmt k =
     (if max_node < n then exec (printf fmt []) (\<lambda>_. ret (Some ''max_node error'')) else k)"

abbreviation TWO_OR_MORE :: string where "TWO_OR_MORE \<equiv> ''this TP is must have max_node of 2 or more.''"
abbreviation FOUR_OR_MORE :: string where "FOUR_OR_MORE \<equiv> ''this TP is must have max_node of 4 or more.''"

definition make_mask ::
    "('k, 'z) file_os_scheme \<Rightarrow> string \<Rightarrow> u64 \<Rightarrow> string \<Rightarrow> (u64 \<Rightarrow> ('k, string option) prog) \<Rightarrow> ('k, string option) prog" where
  "make_mask K x max_node msg k =
     exec (create_node_mask K max_node) (\<lambda>(nr, p).
     exec (set_static x p) (\<lambda>_.
     tp_assert (p \<noteq> None) (Some msg) (k nr)))"

definition expect_ok :: "('k, int) prog \<Rightarrow> string \<Rightarrow> ('k, string option) prog \<Rightarrow> ('k, string option) prog" where
  "expect_ok m msg k = exec m (\<lambda>r. tp_assert (r = 0) (Some msg) k)"

definition expect_failure :: "('k, int) prog \<Rightarrow> string \<Rightarrow> ('k, string option) prog \<Rightarrow> ('k, string option) prog" where
  "expect_failure m msg k = exec m (\<lambda>r. tp_assert (r = -1) (Some msg) k)"

definition expect_errno :: "int \<Rightarrow> string \<Rightarrow> ('k, string option) prog \<Rightarrow> ('k, string option) prog" where
  "expect_errno err msg k = exec get_errno (\<lambda>e. tp_assert (e = err) (Some msg) k)"

text \<open>\<^verbatim>\<open>get_mempolicy\<close> into the static array \<open>x\<close>, or with \<^verbatim>\<open>NULL\<close> for the node mask.\<close>

definition get_static_policy ::
    "('k, 'z) numa_os_scheme \<Rightarrow> string \<Rightarrow> int option \<Rightarrow> u64 \<Rightarrow> u64 \<Rightarrow> u64 \<Rightarrow> ('k, int \<times> int option) prog" where
  "get_static_policy K x mode maxnode addr flags =
     exec (get_static x) (\<lambda>ws.
     exec (get_mempolicy K mode ws maxnode addr flags) (\<lambda>(r, m, ws').
     exec (set_static x ws') (\<lambda>_. ret (r, m))))"

definition get_plain_policy ::
    "('k, 'z) numa_os_scheme \<Rightarrow> int option \<Rightarrow> u64 \<Rightarrow> u64 \<Rightarrow> u64 \<Rightarrow> ('k, int \<times> int option) prog" where
  "get_plain_policy K mode maxnode addr flags =
     exec (get_mempolicy K mode None maxnode addr flags) (\<lambda>(r, m, _). ret (r, m))"

definition get_ok ::
    "('k, int \<times> int option) prog \<Rightarrow> string \<Rightarrow> (int option \<Rightarrow> ('k, string option) prog) \<Rightarrow> ('k, string option) prog" where
  "get_ok m msg k = exec m (\<lambda>(r, mode). tp_assert (r = 0) (Some msg) (k mode))"

definition get_error ::
    "('k, int \<times> int option) prog \<Rightarrow> string \<Rightarrow> int \<Rightarrow> string \<Rightarrow> ('k, string option) prog \<Rightarrow> ('k, string option) prog" where
  "get_error m msg err emsg k = exec m (\<lambda>(r, mode). tp_assert (r = -1) (Some msg) (expect_errno err emsg k))"

definition check_mode :: "int option \<Rightarrow> int \<Rightarrow> string \<Rightarrow> ('k, string option) prog \<Rightarrow> ('k, string option) prog" where
  "check_mode mode m msg k = tp_assert (mode = Some m) (Some msg) k"

text \<open>Reading and writing \<^verbatim>\<open>x[0]\<close>; through a null pointer that is undefined.\<close>

definition with_word0 :: "string \<Rightarrow> (u64 \<Rightarrow> ('k, string option) prog) \<Rightarrow> ('k, string option) prog" where
  "with_word0 x k =
     exec (get_static x) (\<lambda>v. case v of Some (w # _) \<Rightarrow> k w | _ \<Rightarrow> stop (Undefined ''null pointer''))"

definition check_word0 :: "string \<Rightarrow> u64 \<Rightarrow> string \<Rightarrow> ('k, string option) prog \<Rightarrow> ('k, string option) prog" where
  "check_word0 x w msg k = with_word0 x (\<lambda>v. tp_assert (v = w) (Some msg) k)"

definition put_word0 :: "string \<Rightarrow> u64 \<Rightarrow> ('k, string option) prog \<Rightarrow> ('k, string option) prog" where
  "put_word0 x w k =
     exec (get_static x) (\<lambda>v. case v of
       Some (_ # ws) \<Rightarrow> exec (set_static x (Some (w # ws))) (\<lambda>_. k)
     | _ \<Rightarrow> stop (Undefined ''null pointer''))"

text \<open>The loops that print an array from its end, without and with the check for zero.\<close>

definition words_down :: "u64 \<Rightarrow> u64 list option \<Rightarrow> u64 list" where
  "words_down nr v = rev (take (down_from nr) (case v of None \<Rightarrow> [] | Some ws \<Rightarrow> ws))"

fun print_words :: "u64 list \<Rightarrow> ('k, unit) prog" where
  "print_words [] = printf '''' []"
| "print_words (w # ws) = exec (printf '' %lu'' [AInt (uint w)]) (\<lambda>_. print_words ws)"

fun zero_words :: "u64 list \<Rightarrow> ('k, string option) prog \<Rightarrow> ('k, string option) prog" where
  "zero_words [] k = exec (printf '''' []) (\<lambda>_. k)"
| "zero_words (w # ws) k =
     exec (printf '' %lu'' [AInt (uint w)]) (\<lambda>_.
     tp_assert (w = 0) (Some (CHR 0x0A # ''node_mask != 0'')) (zero_words ws k))"

definition print_mask :: "string \<Rightarrow> string \<Rightarrow> u64 \<Rightarrow> ('k, string option) prog \<Rightarrow> ('k, string option) prog" where
  "print_mask title x nr k =
     exec (printf title []) (\<lambda>_. exec (get_static x) (\<lambda>v. exec (print_words (words_down nr v)) (\<lambda>_. k)))"

definition check_zero_mask :: "string \<Rightarrow> u64 \<Rightarrow> ('k, string option) prog \<Rightarrow> ('k, string option) prog" where
  "check_zero_mask x nr k =
     exec (printf ''nodemask ='' []) (\<lambda>_. exec (get_static x) (\<lambda>v. zero_words (words_down nr v) k))"

definition check_all_nodes :: "string \<Rightarrow> u64 \<Rightarrow> u64 \<Rightarrow> ('k, string option) prog \<Rightarrow> ('k, string option) prog" where
  "check_all_nodes x nr max_node k =
     exec (get_static x) (\<lambda>v. case v of
       None \<Rightarrow> stop (Undefined ''null pointer'')
     | Some ws \<Rightarrow> expect_ok (node_mask_check ws nr max_node) ''node_mask error'' k)"

text \<open>
  The loop of \<^verbatim>\<open>012.c\<close> (\<^verbatim>\<open>set_mempolicy\<close>) and \<^verbatim>\<open>013.c\<close> (\<^verbatim>\<open>mbind\<close>) that fills the mask to pass: all ones, and
  \<^verbatim>\<open>(1 << (max_node % BITS_PER_LONG + 1)) - 1\<close> in the last word.
\<close>

definition fill_mask :: "string \<Rightarrow> u64 \<Rightarrow> u64 \<Rightarrow> ('k, string option) prog \<Rightarrow> ('k, string option) prog" where
  "fill_mask x nr max_node k =
     (case low_bits (max_node mod BITS_PER_LONG + 1) of
        None \<Rightarrow> stop (Undefined ''shift'')
      | Some b \<Rightarrow> exec (set_static x (Some (map (\<lambda>i. if of_nat i = nr - 1 then b else -1) [0..<unat nr]))) (\<lambda>_. k))"

text \<open>\<^verbatim>\<open>(char *)(((unsigned long)tmp_buf + PAGE_SIZE - 1) & ~(PAGE_SIZE - 1))\<close>\<close>

definition aligned_buf :: "page_config \<Rightarrow> u64 \<Rightarrow> u64" where
  "aligned_buf cfg tmp_buf = align_up tmp_buf (PAGE_SIZE cfg)"

definition map_buf :: "('k, 'z) vm_os_scheme \<Rightarrow> u64 \<Rightarrow> (u64 \<Rightarrow> ('k, string option) prog) \<Rightarrow> ('k, string option) prog" where
  "map_buf K len k =
     exec (mmap K 0 len (PROT_READ OR PROT_WRITE) (MAP_PRIVATE OR MAP_ANONYMOUS) (-1) 0) (\<lambda>buf.
     exec (set_static ''buf'' (Some [buf])) (\<lambda>_. k buf))"

text \<open>\<^verbatim>\<open>munmap(buf, len); buf = MAP_FAILED;\<close>\<close>

definition drop_buf :: "('k, 'z) vm_os_scheme \<Rightarrow> u64 \<Rightarrow> u64 \<Rightarrow> ('k, string option) prog" where
  "drop_buf K buf len =
     exec (munmap K buf len) (\<lambda>_. exec (set_static ''buf'' (Some [MAP_FAILED])) (\<lambda>_. ret None))"


section \<open>set\_mempolicy\<close>

definition set_mempolicy_000 :: "('k, 'z) numa_os_scheme \<Rightarrow> ('k, string option) prog" where
  "set_mempolicy_000 K =
     need_max_node (\<lambda>max_node.
     need_nodes max_node 2 TWO_OR_MORE (
     make_mask K ''node_mask'' max_node ''node_mask malloc error'' (\<lambda>nr.
     expect_ok (set_mempolicy K MPOL_BIND (Some [0x03]) BITS_PER_LONG) ''set_mempolicy(MPOL_BIND) error'' (
     get_ok (get_static_policy K ''node_mask'' (Some (-1)) max_node 0 0) ''get_mempolicy1 error'' (\<lambda>mode.
     check_mode mode MPOL_BIND ''mode != MPOL_BIND'' (
     check_word0 ''node_mask'' 0x03 ''node_mask != set_node_mask'' (
     expect_ok (set_mempolicy K MPOL_DEFAULT None 0) ''set_mempolicy(MPOL_DEFAULT) error'' (
     put_word0 ''node_mask'' 0x01 (
     get_ok (get_static_policy K ''node_mask'' (Some (-1)) max_node 0 0) ''get_mempolicy2 error'' (\<lambda>mode.
     exec (printf ''mode = %d'' [AInt (the mode)]) (\<lambda>_.
     check_mode mode MPOL_DEFAULT ''mode != MPOL_DEFAULT'' (
     check_zero_mask ''node_mask'' nr (
     ret None)))))))))))))"

definition set_mempolicy_001 :: "('k, 'z) numa_os_scheme \<Rightarrow> ('k, string option) prog" where
  "set_mempolicy_001 K =
     need_max_node (\<lambda>max_node.
     expect_ok (set_mempolicy K MPOL_DEFAULT None max_node) ''set_mempolicy error'' (
     get_ok (get_plain_policy K (Some (-1)) 0 0 0) ''get_mempolicy error'' (\<lambda>mode.
     check_mode mode 0 ''mode != MPOL_DEFAULT'' (
     ret None))))"

definition set_mempolicy_002 :: "('k, 'z) numa_os_scheme \<Rightarrow> ('k, string option) prog" where
  "set_mempolicy_002 K =
     need_max_node (\<lambda>max_node.
     make_mask K ''node_mask'' max_node ''node_mask malloc error'' (\<lambda>nr.
     exec (get_static ''node_mask'') (\<lambda>node_mask.
     expect_failure (set_mempolicy K MPOL_DEFAULT node_mask 0) ''set_mempolicy not failed'' (
     expect_errno EINVAL ''errno != EINVAL'' (
     ret None)))))"

text \<open>\<^verbatim>\<open>003\<close>, \<^verbatim>\<open>004\<close>, \<^verbatim>\<open>009\<close>, \<^verbatim>\<open>010\<close>, \<^verbatim>\<open>014\<close>, \<^verbatim>\<open>015\<close>: set a policy and read it back.\<close>

definition run_set_get ::
    "('k, 'z) numa_os_scheme \<Rightarrow> u64 \<Rightarrow> string \<Rightarrow> u64 \<Rightarrow> int \<Rightarrow> u64 \<Rightarrow> string \<Rightarrow> u64 \<Rightarrow> string \<Rightarrow> ('k, string option) prog" where
  "run_set_get K n fmt set_node_mask mode maxnode mode_msg want mask_msg =
     need_max_node (\<lambda>max_node.
     need_nodes max_node n fmt (
     exec (printf ''set_node_mask = %lu'' [AInt (uint set_node_mask)]) (\<lambda>_.
     make_mask K ''node_mask'' max_node ''node_mask malloc error'' (\<lambda>nr.
     expect_ok (set_mempolicy K mode (Some [set_node_mask]) maxnode) ''set_mempolicy error'' (
     get_ok (get_static_policy K ''node_mask'' (Some (-1)) max_node 0 0) ''get_mempolicy error'' (\<lambda>got.
     check_mode got mode mode_msg (
     check_word0 ''node_mask'' want mask_msg (
     ret None))))))))"

definition set_mempolicy_003 :: "('k, 'z) numa_os_scheme \<Rightarrow> ('k, string option) prog" where
  "set_mempolicy_003 K =
     run_set_get K 2 TWO_OR_MORE 0x03 MPOL_BIND BITS_PER_LONG ''mode != MPOL_BIND'' 0x03 ''node_mask != set_node_mask''"

definition set_mempolicy_004 :: "('k, 'z) numa_os_scheme \<Rightarrow> ('k, string option) prog" where
  "set_mempolicy_004 K =
     run_set_get K 4 FOUR_OR_MORE 0x0F MPOL_BIND 2 ''mode != MPOL_BIND'' 0x01 ''node_mask != set_node_mask''"

definition set_mempolicy_009 :: "('k, 'z) numa_os_scheme \<Rightarrow> ('k, string option) prog" where
  "set_mempolicy_009 K =
     run_set_get K 2 TWO_OR_MORE 0x03 (MPOL_BIND OR MPOL_F_STATIC_NODES) BITS_PER_LONG ''mode != MPOL_BIND'' 0x03
       ''node_mask != set_node_mask''"

definition set_mempolicy_010 :: "('k, 'z) numa_os_scheme \<Rightarrow> ('k, string option) prog" where
  "set_mempolicy_010 K =
     run_set_get K 2 TWO_OR_MORE 0x03 (MPOL_BIND OR MPOL_F_RELATIVE_NODES) BITS_PER_LONG ''mode != MPOL_BIND'' 0x03
       ''node_mask != set_node_mask''"

definition set_mempolicy_014 :: "('k, 'z) numa_os_scheme \<Rightarrow> ('k, string option) prog" where
  "set_mempolicy_014 K =
     run_set_get K 2 TWO_OR_MORE 0x03 MPOL_INTERLEAVE BITS_PER_LONG ''mode != MPOL_BIND'' 0x03 ''node_mask != set_node_mask''"

definition set_mempolicy_015 :: "('k, 'z) numa_os_scheme \<Rightarrow> ('k, string option) prog" where
  "set_mempolicy_015 K =
     run_set_get K 2 TWO_OR_MORE 0x03 MPOL_PREFERRED BITS_PER_LONG ''mode != MPOL_PREFERRED'' 0x01 ''node_mask != 0x01''"

definition set_mempolicy_005 :: "('k, 'z) numa_os_scheme \<Rightarrow> ('k, string option) prog" where
  "set_mempolicy_005 K =
     need_max_node (\<lambda>max_node.
     need_nodes max_node 4 FOUR_OR_MORE (
     exec (printf ''set_node_mask = %lu'' [AInt 0x0C]) (\<lambda>_.
     expect_failure (set_mempolicy K MPOL_BIND (Some [0x0C]) 2) ''set_mempolicy not failed'' (
     expect_errno EINVAL ''errno != EINVAL'' (
     ret None)))))"

definition set_mempolicy_006 :: "('k, 'z) numa_os_scheme \<Rightarrow> ('k, string option) prog" where
  "set_mempolicy_006 K =
     need_max_node (\<lambda>max_node.
     need_nodes max_node 2 TWO_OR_MORE (
     exec (printf ''set_node_mask = %lu'' [AInt 0x03]) (\<lambda>_.
     expect_failure (set_mempolicy K MPOL_BIND (Some [0x03]) 0) ''set_mempolicy not failed'' (
     expect_errno EINVAL ''errno != EINVAL'' (
     ret None)))))"

definition set_mempolicy_007 :: "('k, 'z) numa_os_scheme \<Rightarrow> ('k, string option) prog" where
  "set_mempolicy_007 K =
     need_max_node (\<lambda>max_node.
     need_nodes max_node 1 TWO_OR_MORE (
     exec (printf ''set_node_mask = %lu'' [AInt 0x01]) (\<lambda>_.
     make_mask K ''node_mask'' max_node ''node_mask malloc error'' (\<lambda>nr.
     expect_failure (set_mempolicy K MPOL_BIND (Some [0x01]) 1) ''set_mempolicy not failed'' (
     ret None)))))"

definition set_mempolicy_008 :: "('k, 'z) numa_os_scheme \<Rightarrow> ('k, string option) prog" where
  "set_mempolicy_008 K =
     expect_failure (set_mempolicy K MPOL_BIND None 0) ''set_mempolicy not failed'' (
     expect_errno EINVAL ''errno != EINVAL'' (
     ret None))"

definition set_mempolicy_011 :: "('k, 'z) numa_os_scheme \<Rightarrow> ('k, string option) prog" where
  "set_mempolicy_011 K =
     need_max_node (\<lambda>max_node.
     need_nodes max_node 2 TWO_OR_MORE (
     expect_failure (set_mempolicy K (MPOL_BIND OR MPOL_F_STATIC_NODES OR MPOL_F_RELATIVE_NODES) (Some [0x03]) BITS_PER_LONG)
       ''set_mempolicy not failed'' (
     expect_errno EINVAL ''errno != EINVAL'' (
     ret None))))"

definition set_mempolicy_012 :: "('k, 'z) numa_os_scheme \<Rightarrow> ('k, string option) prog" where
  "set_mempolicy_012 K =
     need_max_node (\<lambda>max_node.
     make_mask K ''node_mask'' (max_node + 1) ''node_mask malloc error'' (\<lambda>_.
     make_mask K ''set_node_mask'' (max_node + 1) ''set_node_mask malloc error'' (\<lambda>nr.
     fill_mask ''set_node_mask'' nr max_node (
     print_mask ''set_node_mask ='' ''set_node_mask'' nr (
     exec (get_static ''set_node_mask'') (\<lambda>set_node_mask.
     expect_ok (set_mempolicy K MPOL_BIND set_node_mask (max_node + 1)) ''set_mempolicy error'' (
     get_ok (get_static_policy K ''node_mask'' (Some (-1)) (max_node + 1) 0 0) ''get_mempolicy error'' (\<lambda>mode.
     check_mode mode MPOL_BIND ''mode != MPOL_BIND'' (
     print_mask ''node_mask ='' ''node_mask'' nr (
     check_all_nodes ''node_mask'' nr max_node (
     ret None)))))))))))"

definition set_mempolicy_013 :: "('k, 'z) numa_os_scheme \<Rightarrow> page_config \<Rightarrow> ('k, string option) prog" where
  "set_mempolicy_013 K cfg =
     (let sys_max_node = PAGE_SIZE cfg * BITS_PER_BYTE in
      make_mask K ''set_node_mask'' (sys_max_node + 1) ''set_node_mask malloc error'' (\<lambda>nr.
      put_word0 ''set_node_mask'' 0x01 (
      exec (printf ''sys_max_node = %lu'' [AInt (uint sys_max_node)]) (\<lambda>_.
      exec (get_static ''set_node_mask'') (\<lambda>set_node_mask.
      expect_failure (set_mempolicy K MPOL_BIND set_node_mask (sys_max_node + 2)) ''set_mempolicy not failed'' (
      expect_errno EINVAL ''errno != EINVAL'' (
      ret None)))))))"

definition set_mempolicy_016 :: "('k, 'z) numa_os_scheme \<Rightarrow> ('k, string option) prog" where
  "set_mempolicy_016 K =
     need_max_node (\<lambda>max_node.
     make_mask K ''node_mask'' max_node ''node_mask malloc error'' (\<lambda>nr.
     expect_ok (set_mempolicy K MPOL_PREFERRED None 0) ''set_mempolicy error'' (
     get_ok (get_static_policy K ''node_mask'' (Some (-1)) max_node 0 0) ''get_mempolicy error'' (\<lambda>mode.
     check_mode mode MPOL_PREFERRED ''mode != MPOL_PREFERRED'' (
     check_word0 ''node_mask'' 0 ''node_mask != 0x00'' (
     ret None))))))"

definition set_mempolicy_017 :: "('k, 'z) numa_os_scheme \<Rightarrow> ('k, string option) prog" where
  "set_mempolicy_017 K =
     expect_failure (set_mempolicy K (NOT (MPOL_DEFAULT OR MPOL_BIND OR MPOL_INTERLEAVE OR MPOL_PREFERRED)) None 0)
       ''set_mempolicy not failed'' (
     expect_errno EINVAL ''errno not EINVAL'' (
     ret None))"

section \<open>get\_mempolicy\<close>

text \<open>The start of most files: the number of nodes, its print, the node-mask array.\<close>

definition with_node_mask :: "('k, 'z) numa_os_scheme \<Rightarrow> (u64 \<Rightarrow> u64 \<Rightarrow> ('k, string option) prog) \<Rightarrow> ('k, string option) prog" where
  "with_node_mask K k =
     need_max_node (\<lambda>max_node.
     exec (printf ''maxnode = %lu'' [AInt (uint max_node)]) (\<lambda>_.
     make_mask K ''node_mask'' max_node ''node_mask malloc error'' (\<lambda>nr.
     k max_node nr)))"

definition get_mempolicy_000 :: "('k, 'z) numa_os_scheme \<Rightarrow> ('k, string option) prog" where
  "get_mempolicy_000 K =
     get_ok (get_plain_policy K (Some (-1)) 0 0 0) ''get_mempolicy error'' (\<lambda>mode.
     check_mode mode MPOL_DEFAULT ''mode != MPOL_DEFAULT'' (
     ret None))"

definition get_mempolicy_001 :: "('k, 'z) numa_os_scheme \<Rightarrow> ('k, string option) prog" where
  "get_mempolicy_001 K =
     with_node_mask K (\<lambda>max_node nr.
     put_word0 ''node_mask'' 0x01 (
     get_ok (get_static_policy K ''node_mask'' None max_node 0 0) ''get_mempolicy error'' (\<lambda>_.
     check_zero_mask ''node_mask'' nr (
     ret None))))"

definition get_mempolicy_002 :: "('k, 'z) numa_os_scheme \<Rightarrow> ('k, string option) prog" where
  "get_mempolicy_002 K = get_ok (get_plain_policy K None 0 0 0) ''get_mempolicy error'' (\<lambda>_. ret None)"

definition get_mempolicy_003 :: "('k, 'z) numa_os_scheme \<Rightarrow> ('k, string option) prog" where
  "get_mempolicy_003 K =
     with_node_mask K (\<lambda>max_node nr.
     put_word0 ''node_mask'' 0x01 (
     get_ok (get_static_policy K ''node_mask'' (Some (-1)) max_node 0 0) ''get_mempolicy error'' (\<lambda>mode.
     check_mode mode MPOL_DEFAULT ''mode != MPOL_DEFAULT'' (
     check_zero_mask ''node_mask'' nr (
     ret None)))))"

definition get_mempolicy_004 :: "('k, 'z) numa_os_scheme \<Rightarrow> ('k, string option) prog" where
  "get_mempolicy_004 K =
     with_node_mask K (\<lambda>max_node nr.
     get_error (get_static_policy K ''node_mask'' (Some (-1)) 0 0 0) ''get_mempolicy not failed''
       EINVAL ''get_mempolicy error'' (
     ret None))"

definition get_mempolicy_005 :: "('k, 'z) numa_os_scheme \<Rightarrow> ('k, string option) prog" where
  "get_mempolicy_005 K =
     with_node_mask K (\<lambda>max_node nr.
     get_error (get_static_policy K ''node_mask'' (Some (-1)) (max_node - 1) 0 0) ''get_mempolicy not failed''
       EINVAL ''get_mempolicy error'' (
     ret None))"

text \<open>\<^verbatim>\<open>006\<close> passes \<^verbatim>\<open>NULL\<close> for the mode, \<^verbatim>\<open>007\<close> a variable.\<close>

definition run_get_allowed :: "('k, 'z) numa_os_scheme \<Rightarrow> int option \<Rightarrow> ('k, string option) prog" where
  "run_get_allowed K mode =
     with_node_mask K (\<lambda>max_node nr.
     get_ok (get_static_policy K ''node_mask'' mode max_node 0 MPOL_F_MEMS_ALLOWED) ''get_mempolicy error'' (\<lambda>_.
     print_mask ''nodemask ='' ''node_mask'' nr (
     check_all_nodes ''node_mask'' nr max_node (
     ret None))))"

definition get_mempolicy_006 :: "('k, 'z) numa_os_scheme \<Rightarrow> ('k, string option) prog" where
  "get_mempolicy_006 K = run_get_allowed K None"

definition get_mempolicy_007 :: "('k, 'z) numa_os_scheme \<Rightarrow> ('k, string option) prog" where
  "get_mempolicy_007 K = run_get_allowed K (Some (-1))"

definition get_mempolicy_008 :: "('k, 'z) numa_os_scheme \<Rightarrow> ('k, string option) prog" where
  "get_mempolicy_008 K = get_ok (get_plain_policy K None 0 0 MPOL_F_MEMS_ALLOWED) ''get_mempolicy error'' (\<lambda>_. ret None)"

definition get_mempolicy_009 :: "('k, 'z) numa_os_scheme \<Rightarrow> u64 \<Rightarrow> ('k, string option) prog" where
  "get_mempolicy_009 K buf =
     with_node_mask K (\<lambda>max_node nr.
     get_error (get_static_policy K ''node_mask'' None max_node buf (MPOL_F_MEMS_ALLOWED OR MPOL_F_ADDR))
       ''get_mempolicy not failed'' EINVAL ''get_mempolicy error'' (
     ret None))"

definition get_mempolicy_010 :: "('k, 'z) numa_os_scheme \<Rightarrow> ('k, string option) prog" where
  "get_mempolicy_010 K =
     with_node_mask K (\<lambda>max_node nr.
     get_error (get_static_policy K ''node_mask'' None max_node 0 (MPOL_F_MEMS_ALLOWED OR MPOL_F_NODE))
       ''get_mempolicy not failed'' EINVAL ''get_mempolicy error'' (
     ret None))"

definition get_mempolicy_011 :: "('k, 'z) numa_os_scheme \<Rightarrow> page_config \<Rightarrow> u64 \<Rightarrow> ('k, string option) prog" where
  "get_mempolicy_011 K cfg tmp_buf =
     (let buf = aligned_buf cfg tmp_buf in
      need_max_node (\<lambda>max_node.
      need_nodes max_node 2 TWO_OR_MORE (
      exec (printf ''maxnode = %lu'' [AInt (uint max_node)]) (\<lambda>_.
      expect_ok (mbind K buf (PAGE_SIZE cfg) (MPOL_BIND OR MPOL_F_STATIC_NODES) (Some [0x02]) BITS_PER_LONG 0) ''mbind error'' (
      get_ok (get_plain_policy K (Some (-1)) 0 buf MPOL_F_ADDR) ''get_mempolicy error(MPOL_F_ADDR)'' (\<lambda>mode.
      check_mode mode (MPOL_BIND OR MPOL_F_STATIC_NODES) ''mode != MPOL_BIND | MPOL_F_STATIC_NODES'' (
      ret None)))))))"

definition get_mempolicy_012 :: "('k, 'z) numa_os_scheme \<Rightarrow> u64 \<Rightarrow> ('k, string option) prog" where
  "get_mempolicy_012 K buf =
     with_node_mask K (\<lambda>max_node nr.
     put_word0 ''node_mask'' 0x01 (
     get_ok (get_static_policy K ''node_mask'' (Some (-1)) max_node buf MPOL_F_ADDR) ''get_mempolicy error'' (\<lambda>mode.
     check_mode mode MPOL_DEFAULT ''mode != MPOL_DEFAULT'' (
     check_zero_mask ''node_mask'' nr (
     ret None)))))"

definition get_mempolicy_013 :: "('k, 'z) numa_os_scheme \<Rightarrow> ('k, string option) prog" where
  "get_mempolicy_013 K =
     get_error (get_plain_policy K (Some (-1)) 0 0xFFFFFFFF00000000 MPOL_F_ADDR) ''get_mempolicy not failed''
       EFAULT ''get_mempolicy error'' (
     ret None)"

definition get_mempolicy_014 :: "('k, 'z) numa_os_scheme \<Rightarrow> page_config \<Rightarrow> ('k, string option) prog" where
  "get_mempolicy_014 K cfg =
     map_buf K (PAGE_SIZE cfg) (\<lambda>buf.
     tp_assert (buf \<noteq> MAP_FAILED) (Some ''mmap error'') (
     get_ok (get_plain_policy K (Some (-1)) 0 buf MPOL_F_ADDR) ''get_mempolicy error'' (\<lambda>_.
     ret None)))"

definition get_mempolicy_015 :: "('k, 'z) numa_os_scheme \<Rightarrow> ('k, string option) prog" where
  "get_mempolicy_015 K =
     get_error (get_plain_policy K (Some (-1)) 0 0 MPOL_F_ADDR) ''get_mempolicy not failed''
       EFAULT ''get_mempolicy error'' (
     ret None)"

definition get_mempolicy_016 :: "('k, 'z) numa_os_scheme \<Rightarrow> u64 \<Rightarrow> ('k, string option) prog" where
  "get_mempolicy_016 K buf =
     get_error (get_plain_policy K (Some (-1)) 0 buf 0) ''get_mempolicy not failed''
       EINVAL ''get_mempolicy error'' (
     ret None)"

definition get_mempolicy_017 :: "('k, 'z) numa_os_scheme \<Rightarrow> u64 \<Rightarrow> ('k, string option) prog" where
  "get_mempolicy_017 K buf =
     need_max_node (\<lambda>max_node.
     get_ok (get_plain_policy K (Some (-1)) 0 buf (MPOL_F_ADDR OR MPOL_F_NODE)) ''get_mempolicy error'' (\<lambda>mode.
     exec (printf ''node ID = %d'' [AInt (the mode)]) (\<lambda>_.
     tp_assert (list_ex (\<lambda>i. the mode = int i) [0..<unat max_node]) (Some ''node ID error'') (
     ret None))))"

definition get_mempolicy_019 :: "('k, 'z) numa_os_scheme \<Rightarrow> ('k, string option) prog" where
  "get_mempolicy_019 K =
     get_error (get_plain_policy K (Some (-1)) 0 0 MPOL_F_NODE) ''get_mempolicy not failed''
       EINVAL ''get_mempolicy not EINVAL'' (
     ret None)"

definition get_mempolicy_020 :: "('k, 'z) numa_os_scheme \<Rightarrow> ('k, string option) prog" where
  "get_mempolicy_020 K =
     get_error (get_plain_policy K (Some (-1)) 0 0 (NOT (MPOL_F_MEMS_ALLOWED OR MPOL_F_ADDR OR MPOL_F_NODE)))
       ''get_mempolicy not failed'' EINVAL ''get_mempolicy error'' (
     ret None)"


section \<open>mbind\<close>

definition mbind_000 :: "('k, 'z) numa_os_scheme \<Rightarrow> page_config \<Rightarrow> u64 \<Rightarrow> ('k, string option) prog" where
  "mbind_000 K cfg tmp_buf =
     (let buf = aligned_buf cfg tmp_buf in
      need_max_node (\<lambda>max_node.
      need_nodes max_node 2 TWO_OR_MORE (
      make_mask K ''node_mask'' max_node ''node_mask malloc error'' (\<lambda>nr.
      expect_ok (mbind K buf (PAGE_SIZE cfg) MPOL_BIND (Some [0x03]) BITS_PER_LONG 0) ''mbind(mode=MPOL_BIND) error'' (
      get_ok (get_static_policy K ''node_mask'' (Some (-1)) max_node buf MPOL_F_ADDR) ''get_mempolicy1(flags=MPOL_F_ADDR) error'' (\<lambda>mode.
      check_mode mode MPOL_BIND ''mode != MPOL_BIND'' (
      check_word0 ''node_mask'' 0x03 ''node_mask != mbind_node_mask'' (
      put_word0 ''node_mask'' 0 (
      expect_ok (mbind K buf (PAGE_SIZE cfg) MPOL_DEFAULT None 0 0) ''mbind(mode=MPOL_DEFAULT) error'' (
      put_word0 ''node_mask'' 0x01 (
      get_ok (get_static_policy K ''node_mask'' (Some (-1)) max_node buf MPOL_F_ADDR) ''get_mempolicy2(flags=MPOL_F_ADDR) error'' (\<lambda>mode.
      check_mode mode MPOL_DEFAULT ''mode != MPOL_DEFAULT'' (
      check_zero_mask ''node_mask'' nr (
      ret None))))))))))))))"

definition mbind_001 :: "('k, 'z) numa_os_scheme \<Rightarrow> page_config \<Rightarrow> u64 \<Rightarrow> ('k, string option) prog" where
  "mbind_001 K cfg tmp_buf =
     (let buf = aligned_buf cfg tmp_buf + 1 in
      expect_failure (mbind K buf (PAGE_SIZE cfg) MPOL_DEFAULT None 0 0) ''mbind not failed'' (
      expect_errno EINVAL ''errno != EINVAL'' (
      ret None)))"

definition mbind_002 :: "('k, 'z) numa_os_scheme \<Rightarrow> page_config \<Rightarrow> u64 \<Rightarrow> ('k, string option) prog" where
  "mbind_002 K cfg tmp_buf =
     expect_ok (mbind K (aligned_buf cfg tmp_buf) 0 MPOL_DEFAULT None 0 0) ''mbind error'' (
     ret None)"

definition mbind_003 :: "('k, 'z) numa_os_scheme \<Rightarrow> page_config \<Rightarrow> u64 \<Rightarrow> ('k, string option) prog" where
  "mbind_003 K cfg tmp_buf =
     (let len = -1 AND NOT (PAGE_SIZE cfg - 1) in
      expect_failure (mbind K (aligned_buf cfg tmp_buf) len MPOL_DEFAULT None 0 0) ''mbind not failed'' (
      expect_errno EINVAL ''errno != EINVAL'' (
      ret None)))"

text \<open>\<^verbatim>\<open>004\<close>, \<^verbatim>\<open>008\<close>, \<^verbatim>\<open>009\<close>, \<^verbatim>\<open>012\<close>: a call that must be rejected.\<close>

definition run_mbind_rejected ::
    "('k, 'z) numa_os_scheme \<Rightarrow> page_config \<Rightarrow> u64 \<Rightarrow> u64 \<Rightarrow> string \<Rightarrow> u64 \<Rightarrow> int \<Rightarrow> u64 \<Rightarrow> string \<Rightarrow> ('k, string option) prog" where
  "run_mbind_rejected K cfg tmp_buf n fmt mbind_node_mask mode maxnode emsg =
     (let buf = aligned_buf cfg tmp_buf in
      need_max_node (\<lambda>max_node.
      need_nodes max_node n fmt (
      expect_failure (mbind K buf (PAGE_SIZE cfg) mode (Some [mbind_node_mask]) maxnode 0) ''mbind not failed'' (
      expect_errno EINVAL emsg (
      ret None)))))"

definition mbind_004 :: "('k, 'z) numa_os_scheme \<Rightarrow> page_config \<Rightarrow> u64 \<Rightarrow> ('k, string option) prog" where
  "mbind_004 K cfg tmp_buf = run_mbind_rejected K cfg tmp_buf 2 TWO_OR_MORE 0x03 MPOL_DEFAULT 0 ''errno != EINVAL''"

definition mbind_006 :: "('k, 'z) numa_os_scheme \<Rightarrow> page_config \<Rightarrow> u64 \<Rightarrow> ('k, string option) prog" where
  "mbind_006 K cfg tmp_buf =
     (let buf = aligned_buf cfg tmp_buf in
      need_max_node (\<lambda>max_node.
      expect_failure (mbind K buf (PAGE_SIZE cfg) MPOL_BIND None max_node 0) ''mbind not failed'' (
      expect_errno EINVAL ''errno not EINVAL'' (
      ret None))))"

definition mbind_008 :: "('k, 'z) numa_os_scheme \<Rightarrow> page_config \<Rightarrow> u64 \<Rightarrow> ('k, string option) prog" where
  "mbind_008 K cfg tmp_buf = run_mbind_rejected K cfg tmp_buf 4 FOUR_OR_MORE 0x0C MPOL_BIND 2 ''errno not EINVAL''"

definition mbind_009 :: "('k, 'z) numa_os_scheme \<Rightarrow> page_config \<Rightarrow> u64 \<Rightarrow> ('k, string option) prog" where
  "mbind_009 K cfg tmp_buf = run_mbind_rejected K cfg tmp_buf 2 TWO_OR_MORE 0x03 MPOL_BIND 0 ''errno not EINVAL''"

definition mbind_012 :: "('k, 'z) numa_os_scheme \<Rightarrow> page_config \<Rightarrow> u64 \<Rightarrow> ('k, string option) prog" where
  "mbind_012 K cfg tmp_buf =
     run_mbind_rejected K cfg tmp_buf 2 TWO_OR_MORE 0x03 (MPOL_BIND OR MPOL_F_STATIC_NODES OR MPOL_F_RELATIVE_NODES)
       BITS_PER_LONG ''errno not EINVAL''"

text \<open>\<^verbatim>\<open>005\<close>, \<^verbatim>\<open>007\<close>, \<^verbatim>\<open>010\<close>, \<^verbatim>\<open>011\<close>, \<^verbatim>\<open>024\<close>, \<^verbatim>\<open>025\<close>, \<^verbatim>\<open>028\<close>: bind one page and read the policy back.\<close>

definition run_mbind_get ::
    "('k, 'z) numa_os_scheme \<Rightarrow> page_config \<Rightarrow> u64 \<Rightarrow> u64 \<Rightarrow> string \<Rightarrow> u64 \<Rightarrow> int \<Rightarrow> u64 \<Rightarrow> u32 \<Rightarrow> string \<Rightarrow> string
     \<Rightarrow> (u64 \<Rightarrow> ('k, unit) prog) \<Rightarrow> u64 \<Rightarrow> string \<Rightarrow> ('k, string option) prog" where
  "run_mbind_get K cfg tmp_buf n fmt mbind_node_mask mode maxnode flags msg mode_msg show want mask_msg =
     (let buf = aligned_buf cfg tmp_buf in
      need_max_node (\<lambda>max_node.
      need_nodes max_node n fmt (
      make_mask K ''node_mask'' max_node ''node_mask malloc error'' (\<lambda>nr.
      expect_ok (mbind K buf (PAGE_SIZE cfg) mode (Some [mbind_node_mask]) maxnode flags) msg (
      get_ok (get_static_policy K ''node_mask'' (Some (-1)) max_node buf MPOL_F_ADDR) ''get_mempolicy(flags=MPOL_F_ADDR) error'' (\<lambda>got.
      check_mode got mode mode_msg (
      with_word0 ''node_mask'' (\<lambda>w.
      exec (show w) (\<lambda>_.
      check_word0 ''node_mask'' want mask_msg (
      ret None))))))))))"

definition no_show :: "u64 \<Rightarrow> ('k, unit) prog" where
  "no_show w = ret ()"

definition show_007 :: "u64 \<Rightarrow> ('k, unit) prog" where
  "show_007 w = printf (''mbind_node_mask = %lu'' @ CHR 0x0A # ''node_mask = %lu'') [AInt 0x0F, AInt (uint w)]"

definition mbind_005 :: "('k, 'z) numa_os_scheme \<Rightarrow> page_config \<Rightarrow> u64 \<Rightarrow> ('k, string option) prog" where
  "mbind_005 K cfg tmp_buf =
     run_mbind_get K cfg tmp_buf 2 TWO_OR_MORE 0x03 MPOL_BIND BITS_PER_LONG 0 ''mbind(mode=MPOL_BIND) error''
       ''mode != MPOL_BIND'' no_show 0x03 ''node_mask != mbind_node_mask''"

definition mbind_007 :: "('k, 'z) numa_os_scheme \<Rightarrow> page_config \<Rightarrow> u64 \<Rightarrow> ('k, string option) prog" where
  "mbind_007 K cfg tmp_buf =
     run_mbind_get K cfg tmp_buf 4 FOUR_OR_MORE 0x0F MPOL_BIND 2 0 ''mbind(mode=MPOL_BIND) error''
       ''mode != MPOL_BIND'' show_007 0x01 ''node_mask != 0x03''"

definition mbind_010 :: "('k, 'z) numa_os_scheme \<Rightarrow> page_config \<Rightarrow> u64 \<Rightarrow> ('k, string option) prog" where
  "mbind_010 K cfg tmp_buf =
     run_mbind_get K cfg tmp_buf 2 TWO_OR_MORE 0x03 (MPOL_BIND OR MPOL_F_STATIC_NODES) BITS_PER_LONG 0
       ''mbind(mode=MPOL_BIND) error'' ''mode != (MPOL_BIND|MPOL_F_STATIC_NODES)'' no_show 0x03
       ''node_mask != mbind_node_mask''"

definition mbind_011 :: "('k, 'z) numa_os_scheme \<Rightarrow> page_config \<Rightarrow> u64 \<Rightarrow> ('k, string option) prog" where
  "mbind_011 K cfg tmp_buf =
     run_mbind_get K cfg tmp_buf 2 TWO_OR_MORE 0x03 (MPOL_BIND OR MPOL_F_RELATIVE_NODES) BITS_PER_LONG 0
       ''mbind(mode=MPOL_BIND) error'' ''mode != (MPOL_BIND|MPOL_F_RELATIVE_NODES)'' no_show 0x03
       ''node_mask != mbind_node_mask''"

definition mbind_024 :: "('k, 'z) numa_os_scheme \<Rightarrow> page_config \<Rightarrow> u64 \<Rightarrow> ('k, string option) prog" where
  "mbind_024 K cfg tmp_buf =
     run_mbind_get K cfg tmp_buf 2 TWO_OR_MORE 0x03 MPOL_INTERLEAVE BITS_PER_LONG 0 ''mbind(mode=MPOL_INTERLEAVE) error''
       ''mode != MPOL_INTERLEAVE'' no_show 0x03 ''node_mask != mbind_node_mask''"

definition mbind_025 :: "('k, 'z) numa_os_scheme \<Rightarrow> page_config \<Rightarrow> u64 \<Rightarrow> ('k, string option) prog" where
  "mbind_025 K cfg tmp_buf =
     run_mbind_get K cfg tmp_buf 2 TWO_OR_MORE 0x03 MPOL_PREFERRED BITS_PER_LONG 0 ''mbind(mode=MPOL_PREFERRED) error''
       ''mode != MPOL_PREFERRED'' no_show 0x01 ''node_mask != 0x01''"

definition mbind_028 :: "('k, 'z) numa_os_scheme \<Rightarrow> page_config \<Rightarrow> u64 \<Rightarrow> ('k, string option) prog" where
  "mbind_028 K cfg tmp_buf =
     run_mbind_get K cfg tmp_buf 2 TWO_OR_MORE 0x03 MPOL_BIND BITS_PER_LONG MPOL_MF_MOVE ''mbind(mode=MPOL_BIND) error''
       ''mode != MPOL_BIND'' no_show 0x03 ''node_mask != mbind_node_mask''"

definition mbind_013 :: "('k, 'z) numa_os_scheme \<Rightarrow> page_config \<Rightarrow> u64 \<Rightarrow> ('k, string option) prog" where
  "mbind_013 K cfg tmp_buf =
     (let buf = aligned_buf cfg tmp_buf in
      need_max_node (\<lambda>max_node.
      make_mask K ''node_mask'' (max_node + 1) ''node_mask malloc error'' (\<lambda>_.
      make_mask K ''mbind_node_mask'' (max_node + 1) ''mbind_node_mask malloc error'' (\<lambda>nr.
      fill_mask ''mbind_node_mask'' nr max_node (
      print_mask ''mbind_node_mask ='' ''mbind_node_mask'' nr (
      exec (get_static ''mbind_node_mask'') (\<lambda>mbind_node_mask.
      expect_ok (mbind K buf (PAGE_SIZE cfg) MPOL_BIND mbind_node_mask (max_node + 1) 0) ''mbind error'' (
      get_ok (get_static_policy K ''node_mask'' (Some (-1)) (max_node + 1) buf MPOL_F_ADDR) ''get_mempolicy error'' (\<lambda>mode.
      check_mode mode MPOL_BIND ''mode != MPOL_BIND'' (
      print_mask ''node_mask ='' ''node_mask'' nr (
      check_all_nodes ''node_mask'' nr max_node (
      ret None))))))))))))"

definition mbind_014 :: "('k, 'z) numa_os_scheme \<Rightarrow> page_config \<Rightarrow> u64 \<Rightarrow> ('k, string option) prog" where
  "mbind_014 K cfg tmp_buf =
     (let buf = aligned_buf cfg tmp_buf; sys_max_node = PAGE_SIZE cfg * BITS_PER_BYTE in
      make_mask K ''mbind_node_mask'' (sys_max_node + 1) ''mbind_node_mask malloc error'' (\<lambda>nr.
      put_word0 ''mbind_node_mask'' 0x01 (
      exec (get_static ''mbind_node_mask'') (\<lambda>mbind_node_mask.
      expect_failure (mbind K buf (PAGE_SIZE cfg) MPOL_BIND mbind_node_mask (sys_max_node + 2) 0) ''mbind not failed'' (
      expect_errno EINVAL ''errno != EINVAL'' (
      ret None))))))"

text \<open>\<^verbatim>\<open>015\<close> to \<^verbatim>\<open>023\<close>: bind parts of an area of seven pages one after the other, then check all of it.\<close>

fun bind_regions ::
    "('k, 'z) numa_os_scheme \<Rightarrow> page_config \<Rightarrow> u64 \<Rightarrow> u64 \<Rightarrow> nat \<Rightarrow> mbind_args list \<Rightarrow> ('k, string option) prog \<Rightarrow> ('k, string option) prog" where
  "bind_regions K cfg max_node buf i [] k = k"
| "bind_regions K cfg max_node buf i (m # ms) k =
     (let addr = buf + of_nat (ma_npoff m) * PAGE_SIZE cfg;
          failed = (\<lambda>msg. exec get_errno (\<lambda>e.
            exec (printf (''count = %d'' @ CHR 0x0A # ''errno = %d'') [AInt (int i), AInt e]) (\<lambda>_. ret (Some msg)))) in
      exec (mbind K addr (ma_len m) (ma_mode m) (Some [ma_node_mask m]) BITS_PER_LONG 0) (\<lambda>l_ret.
      if l_ret \<noteq> 0 then failed ''mbind error''
      else
        put_word0 ''node_mask'' 0 (
        exec (get_static_policy K ''node_mask'' (Some (-1)) max_node addr MPOL_F_ADDR) (\<lambda>(i_ret, mode).
        if i_ret \<noteq> 0 then failed ''get_mempolicy error''
        else bind_regions K cfg max_node buf (Suc i) ms k))))"

definition check_regions ::
    "('k, 'z) numa_os_scheme \<Rightarrow> page_config \<Rightarrow> mbind_expect list \<Rightarrow> u64 \<Rightarrow> u64 \<Rightarrow> ('k, string option) prog \<Rightarrow> ('k, string option) prog" where
  "check_regions K cfg m_expect max_node buf k =
     exec (get_static ''node_mask'') (\<lambda>v. case v of
       None \<Rightarrow> stop (Undefined ''null pointer'')
     | Some node_mask \<Rightarrow>
         exec (mbind_check K cfg m_expect node_mask max_node buf MPOL_F_ADDR) (\<lambda>(i_ret, ws).
         exec (set_static ''node_mask'' (Some ws)) (\<lambda>_.
         tp_assert (i_ret = 0) (Some ''mbind check error'') k)))"

definition run_regions :: "('k, 'z) numa_os_scheme \<Rightarrow> page_config \<Rightarrow> mbind_args list \<Rightarrow> mbind_expect list \<Rightarrow> ('k, string option) prog" where
  "run_regions K cfg m_args m_expect =
     map_buf K (PAGE_SIZE cfg * of_nat NUM_REGION) (\<lambda>buf.
     need_max_node (\<lambda>max_node.
     need_nodes max_node 2 TWO_OR_MORE (
     make_mask K ''node_mask'' max_node ''node_mask malloc error'' (\<lambda>nr.
     bind_regions K cfg max_node buf 0 m_args (
     check_regions K cfg m_expect max_node buf (
     drop_buf K buf (PAGE_SIZE cfg * of_nat NUM_REGION)))))))"

definition marg :: "page_config \<Rightarrow> int \<Rightarrow> u64 \<Rightarrow> nat \<Rightarrow> u64 \<Rightarrow> mbind_args" where
  "marg cfg mode m npoff pages =
     \<lparr>ma_mode = mode, ma_node_mask = m, ma_npoff = npoff, ma_len = pages * PAGE_SIZE cfg\<rparr>"

abbreviation e_default :: mbind_expect where "e_default \<equiv> \<lparr>me_mode = MPOL_DEFAULT, me_node_mask = 0\<rparr>"
abbreviation e_inter :: mbind_expect where "e_inter \<equiv> \<lparr>me_mode = MPOL_INTERLEAVE, me_node_mask = 0x03\<rparr>"
abbreviation e_bind :: mbind_expect where "e_bind \<equiv> \<lparr>me_mode = MPOL_BIND, me_node_mask = 0x01\<rparr>"
abbreviation e_pref :: mbind_expect where "e_pref \<equiv> \<lparr>me_mode = MPOL_PREFERRED, me_node_mask = 0x02\<rparr>"

definition mbind_015 :: "('k, 'z) numa_os_scheme \<Rightarrow> page_config \<Rightarrow> ('k, string option) prog" where
  "mbind_015 K cfg =
     run_regions K cfg [marg cfg MPOL_INTERLEAVE 3 2 3, marg cfg MPOL_BIND 1 0 1]
       [e_bind, e_default, e_inter, e_inter, e_inter, e_default, e_default]"

definition mbind_016 :: "('k, 'z) numa_os_scheme \<Rightarrow> page_config \<Rightarrow> ('k, string option) prog" where
  "mbind_016 K cfg =
     run_regions K cfg [marg cfg MPOL_INTERLEAVE 3 1 3, marg cfg MPOL_BIND 1 1 3]
       [e_default, e_bind, e_bind, e_bind, e_default, e_default, e_default]"

definition mbind_017 :: "('k, 'z) numa_os_scheme \<Rightarrow> page_config \<Rightarrow> ('k, string option) prog" where
  "mbind_017 K cfg =
     run_regions K cfg [marg cfg MPOL_INTERLEAVE 3 1 3, marg cfg MPOL_BIND 1 0 5]
       [e_bind, e_bind, e_bind, e_bind, e_bind, e_default, e_default]"

definition mbind_018 :: "('k, 'z) numa_os_scheme \<Rightarrow> page_config \<Rightarrow> ('k, string option) prog" where
  "mbind_018 K cfg =
     run_regions K cfg [marg cfg MPOL_INTERLEAVE 3 1 3, marg cfg MPOL_BIND 1 0 2]
       [e_bind, e_bind, e_inter, e_inter, e_default, e_default, e_default]"

definition mbind_019 :: "('k, 'z) numa_os_scheme \<Rightarrow> page_config \<Rightarrow> ('k, string option) prog" where
  "mbind_019 K cfg =
     run_regions K cfg [marg cfg MPOL_INTERLEAVE 3 1 3, marg cfg MPOL_BIND 1 2 1]
       [e_default, e_inter, e_bind, e_inter, e_default, e_default, e_default]"

definition mbind_020 :: "('k, 'z) numa_os_scheme \<Rightarrow> page_config \<Rightarrow> ('k, string option) prog" where
  "mbind_020 K cfg =
     run_regions K cfg [marg cfg MPOL_INTERLEAVE 3 1 3, marg cfg MPOL_BIND 1 3 2]
       [e_default, e_inter, e_inter, e_bind, e_bind, e_default, e_default]"

definition mbind_021 :: "('k, 'z) numa_os_scheme \<Rightarrow> page_config \<Rightarrow> ('k, string option) prog" where
  "mbind_021 K cfg =
     run_regions K cfg [marg cfg MPOL_INTERLEAVE 3 1 3, marg cfg MPOL_PREFERRED 2 4 2, marg cfg MPOL_BIND 1 3 2]
       [e_default, e_inter, e_inter, e_bind, e_bind, e_pref, e_default]"

definition mbind_022 :: "('k, 'z) numa_os_scheme \<Rightarrow> page_config \<Rightarrow> ('k, string option) prog" where
  "mbind_022 K cfg =
     run_regions K cfg [marg cfg MPOL_INTERLEAVE 3 1 3, marg cfg MPOL_PREFERRED 2 4 1, marg cfg MPOL_BIND 1 3 3]
       [e_default, e_inter, e_inter, e_bind, e_bind, e_bind, e_default]"

definition mbind_023 :: "('k, 'z) numa_os_scheme \<Rightarrow> page_config \<Rightarrow> ('k, string option) prog" where
  "mbind_023 K cfg =
     run_regions K cfg [marg cfg MPOL_INTERLEAVE 3 1 3, marg cfg MPOL_PREFERRED 2 5 2, marg cfg MPOL_BIND 1 3 3]
       [e_default, e_inter, e_inter, e_bind, e_bind, e_bind, e_pref]"

definition mbind_026 :: "('k, 'z) numa_os_scheme \<Rightarrow> page_config \<Rightarrow> u64 \<Rightarrow> ('k, string option) prog" where
  "mbind_026 K cfg tmp_buf =
     (let buf = aligned_buf cfg tmp_buf in
      need_max_node (\<lambda>max_node.
      make_mask K ''node_mask'' max_node ''node_mask malloc error'' (\<lambda>nr.
      expect_ok (mbind K buf (PAGE_SIZE cfg) MPOL_PREFERRED None 0 0) ''mbind(mode=MPOL_PREFERRED) error'' (
      get_ok (get_static_policy K ''node_mask'' (Some (-1)) max_node buf MPOL_F_ADDR) ''get_mempolicy(flags=MPOL_F_ADDR) error'' (\<lambda>mode.
      check_mode mode MPOL_PREFERRED ''mode != MPOL_PREFERRED'' (
      check_zero_mask ''node_mask'' nr (
      ret None)))))))"

definition mbind_027 :: "('k, 'z) numa_os_scheme \<Rightarrow> page_config \<Rightarrow> ('k, string option) prog" where
  "mbind_027 K cfg =
     map_buf K (PAGE_SIZE cfg) (\<lambda>buf.
     need_max_node (\<lambda>max_node.
     need_nodes max_node 2 TWO_OR_MORE (
     make_mask K ''node_mask'' max_node ''node_mask malloc error'' (\<lambda>nr.
     expect_ok (mbind K buf (PAGE_SIZE cfg) MPOL_BIND (Some [0x02]) BITS_PER_LONG 0) ''mbind(flags=0) error'' (
     exec (store K buf 0) (\<lambda>_.
     expect_failure (mbind K buf (PAGE_SIZE cfg) MPOL_BIND (Some [0x01]) BITS_PER_LONG MPOL_MF_STRICT)
       ''mbind(flags=MPOL_MF_STRICT) not failed'' (
     exec get_errno (\<lambda>e.
     tp_assert (e \<noteq> EIO) (Some ''errno != EIO'') (
     drop_buf K buf (PAGE_SIZE cfg))))))))))"

definition mbind_029 :: "('k, 'z) numa_os_scheme \<Rightarrow> page_config \<Rightarrow> u64 \<Rightarrow> ('k, string option) prog" where
  "mbind_029 K cfg tmp_buf =
     expect_failure (mbind K (aligned_buf cfg tmp_buf) (PAGE_SIZE cfg) MPOL_DEFAULT None 0 MPOL_MF_MOVE_ALL) ''mbind not failed'' (
     expect_errno EPERM ''errno != EPERM'' (
     ret None))"

definition mbind_030 :: "('k, 'z) numa_os_scheme \<Rightarrow> page_config \<Rightarrow> u64 \<Rightarrow> ('k, string option) prog" where
  "mbind_030 K cfg tmp_buf =
     expect_failure (mbind K (aligned_buf cfg tmp_buf) (PAGE_SIZE cfg)
       (NOT (MPOL_DEFAULT OR MPOL_BIND OR MPOL_INTERLEAVE OR MPOL_PREFERRED)) None 0 0) ''mbind not failed'' (
     expect_errno EINVAL ''errno != EINVAL'' (
     ret None))"

section \<open>get\_mempolicy 018\<close>

text \<open>
  \<^verbatim>\<open>018.c\<close> reads the next node of an interleaving policy around page allocations. Its static
  variables are \<^verbatim>\<open>reserve\<close>, \<^verbatim>\<open>buf\<close> and \<^verbatim>\<open>addr\<close>; the test function declares a local \<^verbatim>\<open>addr\<close>, so the
  static one keeps its initial value \<^verbatim>\<open>MAP_FAILED\<close>.
\<close>

definition next_node :: "('k, 'z) numa_os_scheme \<Rightarrow> (int \<Rightarrow> ('k, string option) prog) \<Rightarrow> ('k, string option) prog" where
  "next_node K k =
     get_ok (get_plain_policy K (Some (-1)) 0 0 MPOL_F_NODE) ''get_mempolicy(flags=MPOL_F_NODE) error'' (\<lambda>mode. k (the mode))"

fun interleave_loop :: "('k, 'z) numa_os_scheme \<Rightarrow> page_config \<Rightarrow> nat \<Rightarrow> nat \<Rightarrow> int \<Rightarrow> ('k, string option) prog" where
  "interleave_loop K cfg i 0 old_mode = ret None"
| "interleave_loop K cfg i (Suc n) old_mode =
     exec (mmap K 0 (LARGE_PAGE_SIZE cfg * 2) PROT_NONE (MAP_PRIVATE OR MAP_ANONYMOUS) (-1) 0) (\<lambda>reserve.
     exec (set_static ''reserve'' (Some [reserve])) (\<lambda>_.
     tp_assert (reserve \<noteq> MAP_FAILED) (Some ''mmap(reserve) error'') (
     let addr = align_up reserve (LARGE_PAGE_SIZE cfg) in
     exec (mmap K addr (LARGE_PAGE_SIZE cfg) (PROT_READ OR PROT_WRITE) (MAP_FIXED OR MAP_PRIVATE OR MAP_ANONYMOUS) (-1) 0) (\<lambda>buf.
     exec (set_static ''buf'' (Some [buf])) (\<lambda>_.
     tp_assert (buf \<noteq> MAP_FAILED) (Some ''mmap(buf) error'') (
     let addr = buf + LARGE_PAGE_SIZE cfg in
     exec (store K buf (of_nat i)) (\<lambda>_.
     next_node K (\<lambda>mode.
     tp_assert (mode \<noteq> old_mode) (Some ''mode == old_mode'') (
     exec (munmap K reserve (buf - reserve)) (\<lambda>_.
     exec (munmap K buf (LARGE_PAGE_SIZE cfg)) (\<lambda>_.
     exec (munmap K addr (reserve + LARGE_PAGE_SIZE cfg * 2 - addr)) (\<lambda>_.
     exec (set_static ''reserve'' (Some [MAP_FAILED])) (\<lambda>_.
     exec (set_static ''buf'' (Some [MAP_FAILED])) (\<lambda>_.
     interleave_loop K cfg (Suc i) n mode))))))))))))))"

definition get_mempolicy_018 :: "('k, 'z) numa_os_scheme \<Rightarrow> page_config \<Rightarrow> ('k, string option) prog" where
  "get_mempolicy_018 K cfg =
     need_max_node (\<lambda>max_node.
     need_nodes max_node 2 TWO_OR_MORE (
     make_mask K ''node_mask'' max_node ''node_mask malloc error'' (\<lambda>nr.
     expect_ok (set_mempolicy K MPOL_INTERLEAVE (Some [0x03]) BITS_PER_LONG) ''set_mempolicy error'' (
     get_ok (get_static_policy K ''node_mask'' (Some (-1)) max_node 0 0) ''get_mempolicy(flags=0) error'' (\<lambda>mode.
     check_mode mode MPOL_INTERLEAVE ''mode != MPOL_INTERLEAVE'' (
     check_word0 ''node_mask'' 0x03 ''set_node_mask error'' (
     next_node K (\<lambda>old_mode.
     interleave_loop K cfg 0 3 old_mode))))))))"

definition teardown_018 :: "('k, 'z) vm_os_scheme \<Rightarrow> page_config \<Rightarrow> int \<Rightarrow> unit \<Rightarrow> ('k, unit) prog" where
  "teardown_018 K cfg num arg =
     exec (teardown_mask ''node_mask'' num arg) (\<lambda>_.
     exec (get_static ''reserve'') (\<lambda>v. let reserve = word_of v MAP_FAILED in
     exec (get_static ''buf'') (\<lambda>v. let buf = word_of v MAP_FAILED in
     exec (get_static ''addr'') (\<lambda>v. let addr = word_of v MAP_FAILED in
     exec (if reserve \<noteq> MAP_FAILED then munmap K reserve (buf - reserve) else ret 0) (\<lambda>_.
     exec (if buf \<noteq> MAP_FAILED then munmap K buf (LARGE_PAGE_SIZE cfg) else ret 0) (\<lambda>_.
     exec (if addr \<noteq> MAP_FAILED then munmap K addr (reserve + LARGE_PAGE_SIZE cfg * 2 - addr) else ret 0) (\<lambda>_.
     ret ())))))))"

section \<open>The tables\<close>

definition numa_case ::
    "string \<Rightarrow> int \<Rightarrow> (int \<Rightarrow> string list \<Rightarrow> ('k, unit) prog) \<Rightarrow> ('k, string option) prog \<Rightarrow> (int \<Rightarrow> unit \<Rightarrow> ('k, unit) prog)
     \<Rightarrow> ('k, unit) test_case" where
  "numa_case suite n setup run teardown =
     \<lparr>tc_suite = suite, tc_num = n, tc_setup = setup, tc_run = (\<lambda>_ _. run), tc_teardown = teardown\<rparr>"

definition set_mempolicy_cases :: "('k, 'z) numa_os_scheme \<Rightarrow> page_config \<Rightarrow> u64 \<Rightarrow> ('k, unit) test_case list" where
  "set_mempolicy_cases K cfg tmp_buf = [
     numa_case ''set_mempolicy'' 0 setup_max_node (set_mempolicy_000 K) (teardown_mask ''node_mask''),
     numa_case ''set_mempolicy'' 1 setup_max_node (set_mempolicy_001 K) (teardown_empty),
     numa_case ''set_mempolicy'' 2 setup_max_node (set_mempolicy_002 K) (teardown_mask ''node_mask''),
     numa_case ''set_mempolicy'' 3 setup_max_node (set_mempolicy_003 K) (teardown_mask ''node_mask''),
     numa_case ''set_mempolicy'' 4 setup_max_node (set_mempolicy_004 K) (teardown_mask ''node_mask''),
     numa_case ''set_mempolicy'' 5 setup_max_node (set_mempolicy_005 K) (teardown_empty),
     numa_case ''set_mempolicy'' 6 setup_max_node (set_mempolicy_006 K) (teardown_empty),
     numa_case ''set_mempolicy'' 7 setup_max_node (set_mempolicy_007 K) (teardown_mask ''node_mask''),
     numa_case ''set_mempolicy'' 8 setup_empty (set_mempolicy_008 K) (teardown_empty),
     numa_case ''set_mempolicy'' 9 setup_max_node (set_mempolicy_009 K) (teardown_mask ''node_mask''),
     numa_case ''set_mempolicy'' 10 setup_max_node (set_mempolicy_010 K) (teardown_mask ''node_mask''),
     numa_case ''set_mempolicy'' 11 setup_max_node (set_mempolicy_011 K) (teardown_empty),
     numa_case ''set_mempolicy'' 12 setup_max_node (set_mempolicy_012 K) (teardown_masks ''node_mask'' ''set_node_mask''),
     numa_case ''set_mempolicy'' 13 setup_empty (set_mempolicy_013 K cfg) (teardown_mask ''set_node_mask''),
     numa_case ''set_mempolicy'' 14 setup_max_node (set_mempolicy_014 K) (teardown_mask ''node_mask''),
     numa_case ''set_mempolicy'' 15 setup_max_node (set_mempolicy_015 K) (teardown_mask ''node_mask''),
     numa_case ''set_mempolicy'' 16 setup_max_node (set_mempolicy_016 K) (teardown_mask ''node_mask''),
     numa_case ''set_mempolicy'' 17 setup_empty (set_mempolicy_017 K) (teardown_empty)]"

definition get_mempolicy_cases :: "('k, 'z) numa_os_scheme \<Rightarrow> page_config \<Rightarrow> u64 \<Rightarrow> ('k, unit) test_case list" where
  "get_mempolicy_cases K cfg tmp_buf = [
     numa_case ''get_mempolicy'' 0 setup_empty (get_mempolicy_000 K) (teardown_empty),
     numa_case ''get_mempolicy'' 1 setup_max_node (get_mempolicy_001 K) (teardown_mask ''node_mask''),
     numa_case ''get_mempolicy'' 2 setup_empty (get_mempolicy_002 K) (teardown_empty),
     numa_case ''get_mempolicy'' 3 setup_max_node (get_mempolicy_003 K) (teardown_mask ''node_mask''),
     numa_case ''get_mempolicy'' 4 setup_max_node (get_mempolicy_004 K) (teardown_mask ''node_mask''),
     numa_case ''get_mempolicy'' 5 setup_max_node (get_mempolicy_005 K) (teardown_mask ''node_mask''),
     numa_case ''get_mempolicy'' 6 setup_max_node (get_mempolicy_006 K) (teardown_mask ''node_mask''),
     numa_case ''get_mempolicy'' 7 setup_max_node (get_mempolicy_007 K) (teardown_mask ''node_mask''),
     numa_case ''get_mempolicy'' 8 setup_empty (get_mempolicy_008 K) (teardown_empty),
     numa_case ''get_mempolicy'' 9 setup_max_node (get_mempolicy_009 K tmp_buf) (teardown_mask ''node_mask''),
     numa_case ''get_mempolicy'' 10 setup_max_node (get_mempolicy_010 K) (teardown_mask ''node_mask''),
     numa_case ''get_mempolicy'' 11 setup_max_node (get_mempolicy_011 K cfg tmp_buf) (teardown_empty),
     numa_case ''get_mempolicy'' 12 setup_max_node (get_mempolicy_012 K tmp_buf) (teardown_mask ''node_mask''),
     numa_case ''get_mempolicy'' 13 setup_empty (get_mempolicy_013 K) (teardown_empty),
     numa_case ''get_mempolicy'' 14 setup_empty (get_mempolicy_014 K cfg) (teardown_buf K (PAGE_SIZE cfg)),
     numa_case ''get_mempolicy'' 15 setup_empty (get_mempolicy_015 K) (teardown_empty),
     numa_case ''get_mempolicy'' 16 setup_empty (get_mempolicy_016 K tmp_buf) (teardown_empty),
     numa_case ''get_mempolicy'' 17 setup_max_node (get_mempolicy_017 K tmp_buf) (teardown_empty),
     numa_case ''get_mempolicy'' 18 setup_max_node (get_mempolicy_018 K cfg) (teardown_018 K cfg),
     numa_case ''get_mempolicy'' 19 setup_empty (get_mempolicy_019 K) (teardown_empty),
     numa_case ''get_mempolicy'' 20 setup_empty (get_mempolicy_020 K) (teardown_empty)]"

definition mbind_cases :: "('k, 'z) numa_os_scheme \<Rightarrow> page_config \<Rightarrow> u64 \<Rightarrow> ('k, unit) test_case list" where
  "mbind_cases K cfg tmp_buf = [
     numa_case ''mbind'' 0 setup_max_node (mbind_000 K cfg tmp_buf) (teardown_mask ''node_mask''),
     numa_case ''mbind'' 1 setup_empty (mbind_001 K cfg tmp_buf) (teardown_empty),
     numa_case ''mbind'' 2 setup_empty (mbind_002 K cfg tmp_buf) (teardown_empty),
     numa_case ''mbind'' 3 setup_empty (mbind_003 K cfg tmp_buf) (teardown_empty),
     numa_case ''mbind'' 4 setup_max_node (mbind_004 K cfg tmp_buf) (teardown_empty),
     numa_case ''mbind'' 5 setup_max_node (mbind_005 K cfg tmp_buf) (teardown_mask ''node_mask''),
     numa_case ''mbind'' 6 setup_max_node (mbind_006 K cfg tmp_buf) (teardown_empty),
     numa_case ''mbind'' 7 setup_max_node (mbind_007 K cfg tmp_buf) (teardown_mask ''node_mask''),
     numa_case ''mbind'' 8 setup_max_node (mbind_008 K cfg tmp_buf) (teardown_empty),
     numa_case ''mbind'' 9 setup_max_node (mbind_009 K cfg tmp_buf) (teardown_empty),
     numa_case ''mbind'' 10 setup_max_node (mbind_010 K cfg tmp_buf) (teardown_mask ''node_mask''),
     numa_case ''mbind'' 11 setup_max_node (mbind_011 K cfg tmp_buf) (teardown_mask ''node_mask''),
     numa_case ''mbind'' 12 setup_max_node (mbind_012 K cfg tmp_buf) (teardown_empty),
     numa_case ''mbind'' 13 setup_max_node (mbind_013 K cfg tmp_buf) (teardown_masks ''node_mask'' ''mbind_node_mask''),
     numa_case ''mbind'' 14 setup_empty (mbind_014 K cfg tmp_buf) (teardown_mask ''mbind_node_mask''),
     numa_case ''mbind'' 15 setup_max_node (mbind_015 K cfg) (teardown_mask_buf K (PAGE_SIZE cfg * of_nat NUM_REGION)),
     numa_case ''mbind'' 16 setup_max_node (mbind_016 K cfg) (teardown_mask_buf K (PAGE_SIZE cfg * of_nat NUM_REGION)),
     numa_case ''mbind'' 17 setup_max_node (mbind_017 K cfg) (teardown_mask_buf K (PAGE_SIZE cfg * of_nat NUM_REGION)),
     numa_case ''mbind'' 18 setup_max_node (mbind_018 K cfg) (teardown_mask_buf K (PAGE_SIZE cfg * of_nat NUM_REGION)),
     numa_case ''mbind'' 19 setup_max_node (mbind_019 K cfg) (teardown_mask_buf K (PAGE_SIZE cfg * of_nat NUM_REGION)),
     numa_case ''mbind'' 20 setup_max_node (mbind_020 K cfg) (teardown_mask_buf K (PAGE_SIZE cfg * of_nat NUM_REGION)),
     numa_case ''mbind'' 21 setup_max_node (mbind_021 K cfg) (teardown_mask_buf K (PAGE_SIZE cfg * of_nat NUM_REGION)),
     numa_case ''mbind'' 22 setup_max_node (mbind_022 K cfg) (teardown_mask_buf K (PAGE_SIZE cfg * of_nat NUM_REGION)),
     numa_case ''mbind'' 23 setup_max_node (mbind_023 K cfg) (teardown_mask_buf K (PAGE_SIZE cfg * of_nat NUM_REGION)),
     numa_case ''mbind'' 24 setup_max_node (mbind_024 K cfg tmp_buf) (teardown_mask ''node_mask''),
     numa_case ''mbind'' 25 setup_max_node (mbind_025 K cfg tmp_buf) (teardown_mask ''node_mask''),
     numa_case ''mbind'' 26 setup_max_node (mbind_026 K cfg tmp_buf) (teardown_mask ''node_mask''),
     numa_case ''mbind'' 27 setup_max_node (mbind_027 K cfg) (teardown_mask_buf K (PAGE_SIZE cfg)),
     numa_case ''mbind'' 28 setup_max_node (mbind_028 K cfg tmp_buf) (teardown_mask ''node_mask''),
     numa_case ''mbind'' 29 setup_empty (mbind_029 K cfg tmp_buf) (teardown_empty),
     numa_case ''mbind'' 30 setup_empty (mbind_030 K cfg tmp_buf) (teardown_empty)]"



section \<open>Running a test function on a kernel that meets the contract\<close>

text \<open>
  \<open>runs N A a st S er P m\<close>: from every process state with the kernel view \<open>st\<close>, the static variables \<open>S\<close>,
  \<^verbatim>\<open>errno\<close> \<open>er\<close> and at least \<open>a\<close> bytes to map, \<open>m\<close> ends with an outcome that satisfies \<open>P\<close>. The rules in
  \<open>numa_rules\<close> execute a test function symbolically, one statement at a time.
\<close>

definition runs ::
    "('k \<Rightarrow> numa_state) \<Rightarrow> ('k \<Rightarrow> nat) \<Rightarrow> nat \<Rightarrow> numa_state \<Rightarrow> (string \<Rightarrow> u64 list option) \<Rightarrow> int
     \<Rightarrow> (string option run \<Rightarrow> bool) \<Rightarrow> ('k, string option) prog \<Rightarrow> bool" where
  "runs N A a st S er P m \<longleftrightarrow>
     (\<forall>s. N (kern s) = st \<and> statics s = S \<and> errno s = er \<and> a \<le> A (kern s) \<longrightarrow> wp m (\<lambda>r t. P r) s)"

named_theorems numa_rules \<open>symbolic execution of the test functions\<close>
named_theorems kernel_rules \<open>symbolic execution of calls, from the contract\<close>

lemma runsI:
  "(\<And>s. N (kern s) = st \<Longrightarrow> statics s = S \<Longrightarrow> errno s = er \<Longrightarrow> a \<le> A (kern s) \<Longrightarrow> wp m (\<lambda>r t. P r) s)
   \<Longrightarrow> runs N A a st S er P m"
  by (simp add: runs_def)

lemma runsD:
  "runs N A a st S er P m \<Longrightarrow> N (kern s) = st \<Longrightarrow> statics s = S \<Longrightarrow> errno s = er \<Longrightarrow> a \<le> A (kern s)
   \<Longrightarrow> wp m (\<lambda>r t. P r) s"
  by (simp add: runs_def)

lemma runs_ret [numa_rules]: "P (Val x) \<Longrightarrow> runs N A a st S er P (ret x)"
  by (simp add: runs_def wp_ret)

lemma runs_stop [numa_rules]: "P (Halt h) \<Longrightarrow> runs N A a st S er P (stop h)"
  by (simp add: runs_def wp_stop)

lemma runs_exec_ret [numa_rules]: "runs N A a st S er P (f x) \<Longrightarrow> runs N A a st S er P (exec (ret x) f)"
  by simp

lemma runs_emit [numa_rules]: "runs N A a st S er P (f ()) \<Longrightarrow> runs N A a st S er P (exec (emit ev) f)"
  unfolding runs_def by (intro allI impI wp_exec wp_emit run_case_Val) simp

lemma runs_exec_exec [numa_rules]:
  "runs N A a st S er P (exec m (\<lambda>x. exec (f x) g)) \<Longrightarrow> runs N A a st S er P (exec (exec m f) g)"
  by (simp add: exec_assoc)

lemma runs_tp_assert [numa_rules]: "b \<Longrightarrow> runs N A a st S er P k \<Longrightarrow> runs N A a st S er P (tp_assert b msg k)"
  by simp

lemma runs_get_errno [numa_rules]: "runs N A a st S er P (f er) \<Longrightarrow> runs N A a st S er P (exec get_errno f)"
  unfolding runs_def by (intro allI impI wp_exec wp_get_errno run_case_Val) simp

lemma runs_get_static [numa_rules]: "runs N A a st S er P (f (S x)) \<Longrightarrow> runs N A a st S er P (exec (get_static x) f)"
  unfolding runs_def by (intro allI impI wp_exec wp_get_static run_case_Val) simp

lemma runs_set_static [numa_rules]:
  "runs N A a st (S(x := v)) er P (f ()) \<Longrightarrow> runs N A a st S er P (exec (set_static x v) f)"
  unfolding runs_def by (intro allI impI wp_exec wp_set_static run_case_Val) simp

lemma runs_sys_call:
  assumes "\<And>k. N k = st \<Longrightarrow> \<exists>r er' k' st' S'. (case f k of (Inl e, k') \<Rightarrow> (fail, e, k') | (Inr v, k') \<Rightarrow> (v, er, k')) = (r, er', k')
      \<and> A k' = A k \<and> runs N A a (N k') S er' P (g r)"
  shows "runs N A a st S er P (exec (sys_call nm args enc fail f) g)"
proof (rule runsI)
  fix s :: "'a machine"
  assume s: "N (kern s) = st" "statics s = S" "errno s = er" "a \<le> A (kern s)"
  obtain r er' k' where ans: "(case f (kern s) of (Inl e, k') \<Rightarrow> (fail, e, k') | (Inr v, k') \<Rightarrow> (v, er, k')) = (r, er', k')"
    and k': "A k' = A (kern s)" "runs N A a (N k') S er' P (g r)" using assms [OF s(1)] by blast
  have "exec (sys_call nm args enc fail f) g s = g r (after er' k' (Called nm args (enc r)) s)"
    using ans s(3) by (auto simp: exec_def sys_call_def split: prod.splits sum.splits)
  moreover have "wp (g r) (\<lambda>r t. P r) (after er' k' (Called nm args (enc r)) s)"
    using s k' by (intro runsD [OF k'(2)]) simp_all
  ultimately show "wp (exec (sys_call nm args enc fail f) g) (\<lambda>r t. P r) s" by (simp add: wp_def)
qed

lemma runs_simulated:
  assumes law: "\<And>k. simulates N A k (f k) (spec (N k))"
    and next_step: "case spec st of None \<Rightarrow> False | Some (Inl e) \<Rightarrow> runs N A a st S e P (g (-1)) | Some (Inr st') \<Rightarrow> runs N A a st' S er P (g 0)"
  shows "runs N A a st S er P (exec (sys_int nm args f) g)"
proof (rule runs_sys_call)
  fix k
  assume k: "N k = st"
  show "\<exists>r er' k' st' S'. (case f k of (Inl e, k') \<Rightarrow> (-1, e, k') | (Inr v, k') \<Rightarrow> (v, er, k')) = (r, er', k')
      \<and> A k' = A k \<and> runs N A a (N k') S er' P (g r)"
    using law [of k] next_step k by (auto simp: simulates_def split: option.splits sum.splits)
qed

lemma runs_set_mempolicy [kernel_rules]:
  assumes "numa_contract cfg K N A"
    and "case spec_set_mempolicy cfg st mode nm mx of None \<Rightarrow> False
      | Some (Inl e) \<Rightarrow> runs N A a st S e P (g (-1)) | Some (Inr st') \<Rightarrow> runs N A a st' S er P (g 0)"
  shows "runs N A a st S er P (exec (set_mempolicy K mode nm mx) g)"
  unfolding set_mempolicy_def
  by (rule runs_simulated [where spec = "\<lambda>st. spec_set_mempolicy cfg st mode nm mx"])
    (use assms in \<open>simp_all add: numa_contract_def set_mempolicy_law_def\<close>)

lemma runs_mbind [kernel_rules]:
  assumes "numa_contract cfg K N A" and "flags AND NOT (MPOL_MF_STRICT OR MPOL_MF_MOVE_ALL) = 0"
    and "case spec_mbind cfg st addr len mode nm mx flags of None \<Rightarrow> False
      | Some (Inl e) \<Rightarrow> runs N A a st S e P (g (-1)) | Some (Inr st') \<Rightarrow> runs N A a st' S er P (g 0)"
  shows "runs N A a st S er P (exec (mbind K addr len mode nm mx flags) g)"
  unfolding mbind_def
  by (rule runs_simulated [where spec = "\<lambda>st. spec_mbind cfg st addr len mode nm mx flags"])
    (use assms in \<open>simp_all add: numa_contract_def mbind_law_def\<close>)

lemma runs_mbind_move:
  assumes "numa_contract cfg K N A"
    and "spec_mbind cfg st addr len mode nm mx 0 = Some (Inr st')" "\<And>pages. runs N A a (st'\<lparr>n_page := pages\<rparr>) S er P (g 0)"
  shows "runs N A a st S er P (exec (mbind K addr len mode nm mx MPOL_MF_MOVE) g)"
  unfolding mbind_def
proof (rule runs_sys_call)
  fix k
  assume k: "N k = st"
  have "mbind_move_law cfg K N A" using assms(1) by (simp add: numa_contract_def)
  then obtain k' pages where "os_mbind K addr len mode nm mx MPOL_MF_MOVE k = (Inr 0, k')" "N k' = st'\<lparr>n_page := pages\<rparr>" "A k' = A k"
    using assms(2) k unfolding mbind_move_law_def by blast
  then show "\<exists>r er' k' st' S'. (case os_mbind K addr len mode nm mx MPOL_MF_MOVE k of (Inl e, k') \<Rightarrow> (- 1, e, k') | (Inr v, k') \<Rightarrow> (v, er, k')) = (r, er', k')
      \<and> A k' = A k \<and> runs N A a (N k') S er' P (g r)"
    using assms(3) by auto
qed

lemma runs_get_mempolicy:
  assumes "numa_contract cfg K N A"
    and "case spec_get_mempolicy st (nm \<noteq> None) mx addr flags of None \<Rightarrow> False
      | Some (Inl e) \<Rightarrow> runs N A a st S e P (g (-1, mode, nm))
      | Some (Inr (m, nodes)) \<Rightarrow> (nm \<noteq> None \<longrightarrow> unat mx mod 64 \<noteq> 1) \<and>
          runs N A a st S er P (g (0, map_option (\<lambda>_. m) mode, map_option (\<lambda>ws. written_mask ws mx nodes) nm))"
  shows "runs N A a st S er P (exec (get_mempolicy K mode nm mx addr flags) g)"
  unfolding get_mempolicy_def
proof (rule runs_sys_call)
  fix k
  assume k: "N k = st"
  have "get_mempolicy_law K N A" using assms(1) by (simp add: numa_contract_def)
  note law = this [unfolded get_mempolicy_law_def, rule_format, where k = k and nodemask = nm and maxnode = mx and addr = addr and flags = flags]
  show "\<exists>r er' k' st' S'. (case case os_get_mempolicy K nm mx addr flags k of (Inl e, k') \<Rightarrow> (Inl e, k')
            | (Inr (m, ws), k') \<Rightarrow> (Inr (0, map_option (\<lambda>_. m) mode, map_option (\<lambda>_. ws) nm), k')
          of (Inl e, k') \<Rightarrow> ((- 1, mode, nm), e, k') | (Inr v, k') \<Rightarrow> (v, er, k')) = (r, er', k')
      \<and> A k' = A k \<and> runs N A a (N k') S er' P (g r)"
  proof (cases "spec_get_mempolicy st (nm \<noteq> None) mx addr flags")
    case (Some spec)
    show ?thesis
    proof (cases spec)
      case (Inl e)
      then show ?thesis using law assms(2) Some k by auto
    next
      case (Inr p)
      obtain m nodes where p: "p = (m, nodes)" by (cases p)
      then show ?thesis using law assms(2) Some Inr k by (cases nm) auto
    qed
  qed (use assms(2) in simp)
qed

lemma runs_malloc [kernel_rules]:
  assumes "numa_contract cfg K N A" and "runs N A a st S er P (f True)"
  shows "runs N A a st S er P (exec (c_malloc K n) f)"
proof (rule runsI)
  fix s :: "'a machine"
  assume s: "N (kern s) = st" "statics s = S" "errno s = er" "a \<le> A (kern s)"
  have "numa_alloc_law K N A" using assms(1) by (simp add: numa_contract_def)
  then obtain k' where "os_alloc K n (kern s) = (True, k')" "N k' = N (kern s)" "A k' = A (kern s)"
    unfolding numa_alloc_law_def by blast
  moreover have "wp (f True) (\<lambda>r t. P r) (after er k' (Called Malloc [AInt (int n)] 1) s)"
    using s calculation by (intro runsD [OF assms(2)]) simp_all
  ultimately show "wp (exec (c_malloc K n) f) (\<lambda>r t. P r) s" using s(3) by (simp add: wp_def exec_def c_malloc_def)
qed

lemma runs_map_buf [kernel_rules]:
  assumes "numa_contract cfg K N A" and "len AND PAGE_OFFSET cfg = 0" "0 < len" "unat len \<le> a"
    and "\<And>buf. \<lbrakk>buf AND PAGE_OFFSET cfg = 0; buf \<noteq> 0; buf < buf + len\<rbrakk>
      \<Longrightarrow> runs N A 0 (map_region st buf len) (S(''buf'' := Some [buf])) er P (f buf)"
  shows "runs N A a st S er P (map_buf K len f)"
proof (rule runsI)
  fix s :: "'a machine"
  assume s: "N (kern s) = st" "statics s = S" "errno s = er" "a \<le> A (kern s)"
  have "numa_mmap_law cfg K N A" using assms(1) by (simp add: numa_contract_def)
  from this [unfolded numa_mmap_law_def, rule_format, where len = len and k = "kern s" and prot = "PROT_READ OR PROT_WRITE"] assms(2-4) s(4)
  obtain b k' where ans: "os_mmap K 0 len (PROT_READ OR PROT_WRITE) (MAP_PRIVATE OR MAP_ANONYMOUS) (-1) 0 (kern s) = (Inr b, k')"
    and b: "b AND PAGE_OFFSET cfg = 0" "b \<noteq> 0" "b < b + len" and k': "N k' = map_region (N (kern s)) b len"
    by auto
  show "wp (map_buf K len f) (\<lambda>r t. P r) s"
    unfolding map_buf_def mmap_def
    by (intro wp_exec, rule wp_sys_call_Inr, rule ans)
      (use s b k' in \<open>auto intro!: wp_exec wp_set_static runsD [OF assms(5)]\<close>)
qed


section \<open>What the calls of the test functions answer\<close>

text \<open>
  The state the suites start in: \<open>max_node\<close> is the number of nodes, at least four; its remainder by 64
  keeps the \<^verbatim>\<open>int\<close> shifts of the test code defined. The process has no policy yet, and the automatic
  array is mapped.
\<close>

definition numa_ready :: "page_config \<Rightarrow> u64 \<Rightarrow> u64 \<Rightarrow> numa_state \<Rightarrow> bool" where
  "numa_ready cfg max_node tmp_buf st \<longleftrightarrow>
     n_nodes st = unat max_node \<and> 4 \<le> unat max_node \<and> unat max_node < 2 ^ 15
     \<and> 2 \<le> unat max_node mod 64 \<and> unat max_node mod 64 \<le> 29
     \<and> n_policy st = (MPOL_DEFAULT, 0) \<and> n_region st = (\<lambda>_. None)
     \<and> (\<forall>i < 2 * unat (PAGE_SIZE cfg). n_mapped st (tmp_buf + of_nat i))"

lemma page_bits: "PAGE_SIZE cfg * BITS_PER_BYTE = (case cfg of Pages4K \<Rightarrow> 0x8000 | Pages64K \<Rightarrow> 0x80000)"
  by (cases cfg) (simp_all add: PAGE_SIZE_def BITS_PER_BYTE_def)

lemma user_nodes_one:
  assumes "1 < unat mx" "unat mx \<le> 64"
  shows "user_nodes cfg (Some [w]) mx = Inr (take_bit (unat mx - 1) (unat w))"
proof -
  have "(1::u64) \<le> mx" using assms(1) by (simp add: word_le_nat_alt)
  then have u: "unat (mx - 1) = unat mx - 1" by (simp add: unat_sub)
  then have "unat (mx - 1) \<noteq> 0" using assms(1) by simp
  then have "mx - 1 \<noteq> 0" by (metis unat_0)
  moreover have "\<not> PAGE_SIZE cfg * BITS_PER_BYTE < mx - 1"
    using assms(2) u by (cases cfg) (simp_all add: page_bits word_less_nat_alt)
  ultimately show ?thesis by (simp add: user_nodes_def u)
qed

lemma user_nodes_simps:
  "user_nodes cfg None mx = Inr 0"
  "user_nodes cfg (Some [1]) BITS_PER_LONG = Inr 1"
  "user_nodes cfg (Some [2]) BITS_PER_LONG = Inr 2"
  "user_nodes cfg (Some [3]) BITS_PER_LONG = Inr 3"
  "user_nodes cfg (Some [0xF]) 2 = Inr 1"
  "user_nodes cfg (Some [0xC]) 2 = Inr 0"
  "user_nodes cfg (Some ws) 1 = Inr 0"
  by (simp_all add: user_nodes_one BITS_PER_LONG_def BITS_PER_BYTE_def take_bit_nat_eq_self)
    (simp_all add: user_nodes_def)

lemma user_nodes_too_many:
  "user_nodes cfg (Some ws) 0 = Inl EINVAL"
  "user_nodes cfg (Some ws) (PAGE_SIZE cfg * BITS_PER_BYTE + 2) = Inl EINVAL"
  by (cases cfg; simp add: user_nodes_def page_bits word_less_nat_alt unsigned_minus_1_eq_mask mask_eq_exp_minus_1)+

lemma small_masks:
  assumes "4 \<le> n"
  shows "\<not> 2 ^ n \<le> (1::nat)" "\<not> 2 ^ n \<le> (2::nat)" "\<not> 2 ^ n \<le> (3::nat)" "\<not> 2 ^ n \<le> (0::nat)"
proof -
  have "(2::nat) ^ 4 \<le> 2 ^ n" using assms by (intro power_increasing) simp_all
  then show "\<not> 2 ^ n \<le> (1::nat)" "\<not> 2 ^ n \<le> (2::nat)" "\<not> 2 ^ n \<le> (3::nat)" "\<not> 2 ^ n \<le> (0::nat)" by simp_all
qed

lemma first_nodes: "first_node 1 = 0" "first_node (Suc 0) = 0" "first_node 2 = 1" "first_node 3 = 0"
  by (simp_all add: first_node.simps)

lemma policy_of_simps:
  assumes "4 \<le> n"
  shows "policy_of n MPOL_DEFAULT 0 = Some (Inr (MPOL_DEFAULT, 0))"
    "policy_of n MPOL_BIND 0 = Some (Inl EINVAL)"
    "policy_of n MPOL_BIND (Suc 0) = Some (Inr (MPOL_BIND, 1))"
    "policy_of n MPOL_BIND 2 = Some (Inr (MPOL_BIND, 2))"
    "policy_of n MPOL_BIND 3 = Some (Inr (MPOL_BIND, 3))"
    "policy_of n (MPOL_BIND OR MPOL_F_STATIC_NODES) 2 = Some (Inr (MPOL_BIND OR MPOL_F_STATIC_NODES, 2))"
    "policy_of n (MPOL_BIND OR MPOL_F_STATIC_NODES) 3 = Some (Inr (MPOL_BIND OR MPOL_F_STATIC_NODES, 3))"
    "policy_of n (MPOL_BIND OR MPOL_F_RELATIVE_NODES) 3 = Some (Inr (MPOL_BIND OR MPOL_F_RELATIVE_NODES, 3))"
    "policy_of n (MPOL_BIND OR MPOL_F_STATIC_NODES OR MPOL_F_RELATIVE_NODES) m = Some (Inl EINVAL)"
    "policy_of n MPOL_INTERLEAVE 3 = Some (Inr (MPOL_INTERLEAVE, 3))"
    "policy_of n MPOL_PREFERRED 0 = Some (Inr (MPOL_PREFERRED, 0))"
    "policy_of n MPOL_PREFERRED 2 = Some (Inr (MPOL_PREFERRED, 2))"
    "policy_of n MPOL_PREFERRED 3 = Some (Inr (MPOL_PREFERRED, 1))"
  using small_masks [OF assms]
  by (simp_all add: policy_of_def MODE_FLAGS_def numa_consts Let_def first_nodes)

text \<open>The words \<^verbatim>\<open>get_mempolicy\<close> writes.\<close>

lemma length_written_mask [simp]: "length (written_mask ws mx m) = length ws"
  by (simp add: written_mask_def)

lemma written_mask_Nil [simp]: "written_mask ws mx m = [] \<longleftrightarrow> ws = []"
  by (simp add: written_mask_def)

lemma words_for_pos [simp]: "0 < words_for n"
  by (simp add: words_for_def div_greater_zero_iff)

lemma written_mask_0: "ws \<noteq> [] \<Longrightarrow> written_mask ws mx m ! 0 = of_nat m"
  by (simp add: written_mask_def)

lemma written_mask_empty: "length ws = words_for (unat mx) \<Longrightarrow> set (written_mask ws mx 0) \<subseteq> {0}"
  by (auto simp: written_mask_def)

lemma mask_of_words: "mask_of (map (\<lambda>i. of_nat (drop_bit (64 * i) m)) [0..<n]) = take_bit (64 * n) m"
proof (induction n arbitrary: m)
  case (Suc n)
  have map: "map (\<lambda>i. of_nat (drop_bit (64 * i) m) :: u64) [0..<Suc n]
      = of_nat m # map (\<lambda>i. of_nat (drop_bit (64 * i) (drop_bit 64 m))) [0..<n]"
    by (simp add: upt_rec [of 0] map_Suc_upt [symmetric] comp_def add.commute del: upt_Suc)
  have eq: "64 * Suc n = 64 + 64 * n" by simp
  have "unat (of_nat m :: u64) = take_bit 64 m" by (simp add: unat_of_nat take_bit_eq_mod)
  then have "mask_of (map (\<lambda>i. of_nat (drop_bit (64 * i) m)) [0..<Suc n]) = take_bit 64 m + 2 ^ 64 * take_bit (64 * n) (drop_bit 64 m)"
    unfolding map mask_of.simps Suc by simp
  also have "\<dots> = take_bit (64 + 64 * n) m"
    unfolding take_bit_eq_mod drop_bit_eq_div power_add by (simp only: mod_mult2_eq add.commute)
  finally show ?case by (simp only: eq)
qed simp

lemma all_nodes_less: "all_nodes n < 2 ^ n"
  by (simp add: all_nodes_def)

lemma words_for_bound: "n \<le> 64 * words_for n"
  by (auto simp: words_for_def)

lemma mask_of_written:
  assumes "length ws = words_for (unat mx)" "m < 2 ^ unat mx"
  shows "mask_of (written_mask ws mx m) = m"
proof -
  have "written_mask ws mx m = map (\<lambda>i. of_nat (drop_bit (64 * i) m)) [0..<length ws]"
    unfolding written_mask_def by (rule map_cong) (simp_all add: assms(1))
  moreover have "(2::nat) ^ unat mx \<le> 2 ^ (64 * length ws)"
    unfolding assms(1) by (intro power_increasing words_for_bound) simp
  then have "take_bit (64 * length ws) m = m" using assms(2) by (intro take_bit_nat_eq_self) linarith
  ultimately show ?thesis by (simp only: mask_of_words)
qed

lemma spec_get_simps:
  "spec_get_mempolicy st masked mx addr 0 =
     Some (if masked \<and> unat mx < n_nodes st \<or> addr \<noteq> 0 then Inl EINVAL else Inr (n_policy st))"
  "spec_get_mempolicy st masked mx addr MPOL_F_ADDR =
     Some (if masked \<and> unat mx < n_nodes st then Inl EINVAL else if \<not> n_mapped st addr then Inl EFAULT
           else Inr (case n_region st addr of None \<Rightarrow> (MPOL_DEFAULT, 0) | Some p \<Rightarrow> p))"
  "spec_get_mempolicy st masked mx addr MPOL_F_MEMS_ALLOWED =
     Some (if masked \<and> unat mx < n_nodes st then Inl EINVAL else Inr (0, all_nodes (n_nodes st)))"
  "spec_get_mempolicy st masked mx addr (MPOL_F_MEMS_ALLOWED OR MPOL_F_ADDR) = Some (Inl EINVAL)"
  "spec_get_mempolicy st masked mx addr (MPOL_F_MEMS_ALLOWED OR MPOL_F_NODE) = Some (Inl EINVAL)"
  "fst (n_policy st) = MPOL_DEFAULT \<Longrightarrow> spec_get_mempolicy st masked mx addr MPOL_F_NODE = Some (Inl EINVAL)"
  by (simp_all add: spec_get_mempolicy_def MODE_FLAGS_def numa_consts)

lemma bad_mode:
  "NOT MPOL_DEFAULT AND NOT MPOL_BIND AND NOT MPOL_INTERLEAVE AND NOT MPOL_PREFERRED = -4"
  "policy_of n (-4) m = Some (Inl EINVAL)"
  by (simp_all add: policy_of_def MODE_FLAGS_def numa_consts)

lemma bad_flags:
  "NOT MPOL_F_MEMS_ALLOWED AND NOT MPOL_F_ADDR AND NOT MPOL_F_NODE = -8"
  "spec_get_mempolicy st masked mx addr (-8) = Some (Inl EINVAL)"
  by (simp_all add: spec_get_mempolicy_def numa_consts)

lemma node_mask_words_pos [simp]: "node_mask_words n \<noteq> 0"
  by (simp add: node_mask_words_def Let_def)

lemmas call_simps = spec_set_mempolicy_def user_nodes_simps user_nodes_too_many policy_of_simps spec_get_simps
  bad_mode bad_flags written_mask_0 written_mask_empty unat_eq_0


section \<open>Rules for the statements\<close>

lemma runs_get_static_policy [kernel_rules]:
  assumes "numa_contract cfg K N A" and "S x = Some ws"
    and "case spec_get_mempolicy st True mx addr flags of None \<Rightarrow> False
      | Some (Inl e) \<Rightarrow> runs N A a st S e P (g (-1, mode))
      | Some (Inr (m, nodes)) \<Rightarrow> unat mx mod 64 \<noteq> 1 \<and>
          runs N A a st (S(x := Some (written_mask ws mx nodes))) er P (g (0, map_option (\<lambda>_. m) mode))"
  shows "runs N A a st S er P (exec (get_static_policy K x mode mx addr flags) g)"
proof -
  have "S(x := Some ws) = S" using assms(2) by (simp add: fun_upd_idem)
  then show ?thesis
    unfolding get_static_policy_def exec_assoc using assms(2,3)
    by (intro runs_get_static runs_get_mempolicy [OF assms(1)])
      (auto simp: exec_assoc intro: runs_set_static split: option.splits sum.splits)
qed

lemma runs_get_plain_policy [kernel_rules]:
  assumes "numa_contract cfg K N A"
    and "case spec_get_mempolicy st False mx addr flags of None \<Rightarrow> False
      | Some (Inl e) \<Rightarrow> runs N A a st S e P (g (-1, mode))
      | Some (Inr (m, nodes)) \<Rightarrow> runs N A a st S er P (g (0, map_option (\<lambda>_. m) mode))"
  shows "runs N A a st S er P (exec (get_plain_policy K mode mx addr flags) g)"
  unfolding get_plain_policy_def exec_assoc using assms(2)
  by (intro runs_get_mempolicy [OF assms(1)]) (auto split: option.splits sum.splits)

lemma runs_with_word0 [numa_rules]:
  "S x = Some ws \<Longrightarrow> ws \<noteq> [] \<Longrightarrow> runs N A a st S er P (k (ws ! 0)) \<Longrightarrow> runs N A a st S er P (with_word0 x k)"
  unfolding with_word0_def by (cases ws) (auto intro: runs_get_static)

lemma runs_put_word0 [numa_rules]:
  "S x = Some ws \<Longrightarrow> ws \<noteq> [] \<Longrightarrow> runs N A a st (S(x := Some (ws[0 := w]))) er P k \<Longrightarrow> runs N A a st S er P (put_word0 x w k)"
  unfolding put_word0_def by (cases ws) (auto intro!: runs_get_static runs_set_static)

lemma runs_print_words: "runs N A a st S er P k \<Longrightarrow> runs N A a st S er P (exec (print_words ws) (\<lambda>_. k))"
  by (induction ws) (simp_all add: exec_assoc runs_emit)

lemma runs_print_mask [numa_rules]: "runs N A a st S er P k \<Longrightarrow> runs N A a st S er P (print_mask title x nr k)"
  unfolding print_mask_def by (intro runs_emit runs_get_static runs_print_words)

lemma runs_zero_words: "set ws \<subseteq> {0} \<Longrightarrow> runs N A a st S er P k \<Longrightarrow> runs N A a st S er P (zero_words ws k)"
  by (induction ws) (simp_all add: runs_emit)

lemma runs_check_zero_mask [numa_rules]:
  "S x = Some ws \<Longrightarrow> set ws \<subseteq> {0} \<Longrightarrow> runs N A a st S er P k \<Longrightarrow> runs N A a st S er P (check_zero_mask x nr k)"
  unfolding check_zero_mask_def words_down_def
  by (intro runs_emit runs_get_static runs_zero_words) (auto dest: in_set_takeD)

lemma runs_check_all_nodes [numa_rules]:
  assumes "S x = Some ws" "length ws = unat nr" "0 < unat nr" "unat nr < 2 ^ 31" "unat max_node mod 64 \<le> 30"
    and "mask_of ws = all_nodes (64 * (unat nr - 1) + unat max_node mod 64)" "runs N A a st S er P k"
  shows "runs N A a st S er P (check_all_nodes x nr max_node k)"
proof -
  have "exec (node_mask_check ws nr max_node) f = f 0" for f :: "int \<Rightarrow> ('a, string option) prog"
    by (rule ext) (simp add: exec_def node_mask_check_set [OF assms(2-5)] assms(6))
  then show ?thesis unfolding check_all_nodes_def expect_ok_def using assms(1,7) by (intro runs_get_static) simp
qed

lemma runs_create_node_mask [kernel_rules]:
  assumes "numa_contract cfg K N A"
    and "runs N A a st S er P (f (node_mask_words n, Some (replicate (unat (node_mask_words n)) 0)))"
  shows "runs N A a st S er P (exec (create_node_mask K n) f)"
  unfolding create_node_mask_eq exec_assoc using assms(2) by (intro runs_malloc [OF assms(1)]) simp

lemmas block_defs = need_max_node_def need_nodes_def make_mask_def expect_ok_def expect_failure_def expect_errno_def
  get_ok_def get_error_def check_mode_def check_word0_def with_node_mask_def usage_print_def word_of_def

text \<open>The consequences of \<open>numa_ready\<close> the executions use.\<close>

lemma words_for_eq: "0 < r \<Longrightarrow> r \<le> 64 \<Longrightarrow> words_for (64 * q + r) = Suc q"
proof -
  assume r: "0 < r" "r \<le> 64"
  have "(64 * q + r + 63) div 64 = Suc q" using r by (intro div_nat_eqI) simp_all
  moreover have "64 * q + r \<noteq> 0" using r by simp
  ultimately show ?thesis by (simp only: words_for_def if_not_P not_False_eq_True)
qed

lemma words_for_Suc:
  assumes "n mod 64 \<noteq> 0"
  shows "words_for (Suc n) = words_for n" "64 * (words_for n - 1) + n mod 64 = n"
proof -
  define q r where "q = n div 64" and "r = n mod 64"
  have n: "64 * q + r = n" and r: "0 < r" "r < 64" using assms by (simp_all add: q_def r_def)
  have w: "words_for n = Suc q" using r words_for_eq [of r q] by (simp only: n less_imp_le)
  have "Suc n = 64 * q + Suc r" by (simp only: n [symmetric] add_Suc_right)
  then have "words_for (Suc n) = Suc q" using r words_for_eq [of "Suc r" q] by (simp only: Suc_leI zero_less_Suc)
  then show "words_for (Suc n) = words_for n" by (simp only: w)
  show "64 * (words_for n - 1) + n mod 64 = n" unfolding w r_def [symmetric] diff_Suc_1 by (rule n)
qed

lemma numa_ready_facts:
  assumes "numa_ready cfg max_node tmp_buf st"
  defines "n \<equiv> unat max_node"
  shows "n_nodes st = n" "4 \<le> n" "n_policy st = (MPOL_DEFAULT, 0)" "n_region st = (\<lambda>_. None)"
    "max_node \<noteq> 0" "\<not> max_node < 1" "\<not> max_node < 2" "\<not> max_node < 4"
    "unat (max_node + 1) = Suc n" "unat (max_node - 1) = n - 1"
    "n mod 64 \<noteq> 1" "n mod 64 \<noteq> 0" "Suc n mod 64 \<noteq> 1" "n mod 64 \<le> 30" "n < 2 ^ 15"
    "unat (node_mask_words max_node) = words_for n" "unat (node_mask_words (max_node + 1)) = words_for n" "words_for n < 2 ^ 31"
proof -
  show n: "n_nodes st = n" "4 \<le> n" "n_policy st = (MPOL_DEFAULT, 0)" "n_region st = (\<lambda>_. None)" "n < 2 ^ 15" "n mod 64 \<le> 30"
    "n mod 64 \<noteq> 1" "n mod 64 \<noteq> 0"
    using assms(1) by (simp_all add: numa_ready_def n_def)
  show "Suc n mod 64 \<noteq> 1" using n(8) by (simp add: mod_Suc)
  show "max_node \<noteq> 0" "\<not> max_node < 1" "\<not> max_node < 2" "\<not> max_node < 4"
    using n(2) by (auto simp: n_def word_less_nat_alt)
  have "(1::u64) \<le> max_node" using n(2) by (simp add: n_def word_le_nat_alt)
  then show "unat (max_node - 1) = n - 1" by (simp add: n_def unat_sub)
  have "unat max_node + 1 < 2 ^ 64" using n(5) by (simp add: n_def)
  then show Suc: "unat (max_node + 1) = Suc n" by (simp add: n_def unat_word_ariths)
  show "unat (node_mask_words max_node) = words_for n"
    using n(5) unat_node_mask_words [of max_node] by (simp add: n_def)
  show "unat (node_mask_words (max_node + 1)) = words_for n"
    using n(5,8) unat_node_mask_words [of "max_node + 1"] Suc words_for_Suc(1) by simp
  have "words_for n \<le> n + 63" using div_le_dividend [of "n + 63" 64] by (simp add: words_for_def)
  then show "words_for n < 2 ^ 31" using n(5) by simp
qed


section \<open>set\_mempolicy and get\_mempolicy pass\<close>

lemma mask_of_fill:
  fixes nr :: u64
  assumes "low_bits (max_node mod BITS_PER_LONG + 1) = Some b" "unat nr = words_for n" "n = unat max_node" "n mod 64 \<noteq> 0" "n mod 64 \<le> 29"
  shows "mask_of (map (\<lambda>i. if of_nat i = nr - 1 then b else -1) [0..<unat nr]) = all_nodes (Suc n)"
proof -
  obtain q where q: "unat nr = Suc q" using assms(2) words_for_pos [of n] gr0_conv_Suc by metis
  have "(1::u64) \<le> nr" using q by (simp add: word_le_nat_alt)
  then have last: "unat (nr - 1) = q" using q by (simp add: unat_sub)
  have "of_nat i = nr - 1 \<longleftrightarrow> i = q" if "i < Suc q" for i
  proof -
    have "i < 2 ^ 64" using that q unat_lt2p64 [of nr] by linarith
    then have "unat (of_nat i :: u64) = i" by (simp add: unat_of_nat)
    then show ?thesis using last by (metis word_unat_eq_iff)
  qed
  then have "map (\<lambda>i. if of_nat i = nr - 1 then b else -1) [0..<unat nr] = replicate q (-1) @ [b]"
    by (simp add: q list_eq_iff_nth_eq nth_append del: upt_Suc)
  moreover have "unat (max_node mod BITS_PER_LONG + 1) = Suc (n mod 64)"
    using assms(3,5) mod_BITS_PER_LONG [of max_node] by (simp add: unat_word_ariths)
  ultimately have "mask_of (map (\<lambda>i. if of_nat i = nr - 1 then b else -1) [0..<unat nr]) = all_nodes (64 * q + Suc (n mod 64))"
    using unat_low_bits [OF assms(1)] by (simp only: mask_of_full all_nodes_add)
  moreover have "64 * q + n mod 64 = n" using words_for_Suc(2) [OF assms(4)] assms(2) q by simp
  ultimately show ?thesis by (simp only: add_Suc_right)
qed

lemma take_bit_all_nodes: "take_bit n (all_nodes (Suc n)) = all_nodes n"
proof -
  have "all_nodes (Suc n) = all_nodes n + 2 ^ n" by (simp add: all_nodes_def)
  then show ?thesis by (simp add: take_bit_eq_mod all_nodes_less)
qed

lemma user_nodes_fill:
  assumes "numa_ready cfg max_node tmp_buf st" "low_bits (max_node mod BITS_PER_LONG + 1) = Some b"
  shows "user_nodes cfg (Some (map (\<lambda>i. if of_nat i = node_mask_words (max_node + 1) - 1 then b else -1)
      [0..<words_for (unat max_node)])) (max_node + 1) = Inr (all_nodes (unat max_node))"
proof -
  let ?nr = "node_mask_words (max_node + 1)"
  note facts = numa_ready_facts [OF assms(1)]
  have rem: "unat max_node mod 64 \<le> 29" using assms(1) by (simp add: numa_ready_def)
  have "mask_of (map (\<lambda>i. if of_nat i = ?nr - 1 then b else -1) [0..<words_for (unat max_node)]) = all_nodes (Suc (unat max_node))"
    using mask_of_fill [OF assms(2) facts(17) refl facts(12) rem] by (simp only: facts(17))
  moreover have "\<not> PAGE_SIZE cfg * BITS_PER_BYTE < max_node"
    using facts(15) by (cases cfg) (simp_all add: page_bits word_less_nat_alt)
  ultimately show ?thesis using facts(5) by (simp add: user_nodes_def take_bit_all_nodes)
qed

lemma policy_of_all: "4 \<le> n \<Longrightarrow> policy_of n MPOL_BIND (all_nodes n) = Some (Inr (MPOL_BIND, all_nodes n))"
proof -
  assume "4 \<le> n"
  then have "all_nodes n \<noteq> 0" using small_masks(1) [of n] by (simp add: all_nodes_def)
  moreover have "\<not> 2 ^ n \<le> all_nodes n" by (simp add: not_le all_nodes_less)
  ultimately show ?thesis by (simp add: policy_of_def MODE_FLAGS_def numa_consts)
qed

lemma runs_fill_mask:
  assumes "low_bits (max_node mod BITS_PER_LONG + 1) = Some b"
    and "runs N A a st (S(x := Some (map (\<lambda>i. if of_nat i = nr - 1 then b else -1) [0..<unat nr]))) er P k"
  shows "runs N A a st S er P (fill_mask x nr max_node k)"
  unfolding fill_mask_def assms(1) option.case using assms(2) by (rule runs_set_static)

lemma ready_low_bits:
  assumes "numa_ready cfg max_node tmp_buf st"
  obtains b where "low_bits (max_node mod BITS_PER_LONG + 1) = Some b"
proof -
  have "unat max_node mod 64 \<le> 29" using assms by (simp add: numa_ready_def)
  then have "unat (max_node mod BITS_PER_LONG + 1) \<le> 30"
    using mod_BITS_PER_LONG [of max_node] by (simp add: unat_word_ariths)
  then show ?thesis using that by (simp add: low_bits_def)
qed

lemma mask_of_all_written:
  assumes "numa_ready cfg max_node tmp_buf st" "length ws = words_for (unat max_node)" "mx = max_node \<or> mx = max_node + 1"
  shows "mask_of (written_mask ws mx (all_nodes (unat max_node))) = all_nodes (unat max_node)"
proof -
  note facts = numa_ready_facts [OF assms(1)]
  have "length ws = words_for (unat mx)" using assms(2,3) facts(9,12) words_for_Suc(1) by auto
  moreover have "unat max_node \<le> unat mx" using assms(3) facts(9) by auto
  then have "all_nodes (unat max_node) < 2 ^ unat mx"
    by (intro less_le_trans [OF all_nodes_less power_increasing]) simp_all
  ultimately show ?thesis by (rule mask_of_written)
qed

lemma set_mempolicy_run:
  assumes c: "numa_contract cfg K N A" and r: "numa_ready cfg max_node tmp_buf st" and S: "S ''max_node'' = Some [max_node]"
  shows "runs N A a st S er passed (set_mempolicy_000 K)"
    "runs N A a st S er passed (set_mempolicy_002 K)" "runs N A a st S er passed (set_mempolicy_003 K)"
    "runs N A a st S er passed (set_mempolicy_004 K)" "runs N A a st S er passed (set_mempolicy_005 K)"
    "runs N A a st S er passed (set_mempolicy_006 K)" "runs N A a st S er passed (set_mempolicy_007 K)"
    "runs N A a st S er passed (set_mempolicy_009 K)"
    "runs N A a st S er passed (set_mempolicy_010 K)" "runs N A a st S er passed (set_mempolicy_011 K)"
    "runs N A a st S er passed (set_mempolicy_014 K)"
    "runs N A a st S er passed (set_mempolicy_015 K)" "runs N A a st S er passed (set_mempolicy_016 K)"
  using numa_ready_facts [OF r] S
  by (simp_all add: set_mempolicy_000_def set_mempolicy_002_def set_mempolicy_003_def set_mempolicy_004_def
      set_mempolicy_005_def set_mempolicy_006_def set_mempolicy_007_def set_mempolicy_009_def
      set_mempolicy_010_def set_mempolicy_011_def set_mempolicy_014_def set_mempolicy_015_def
      set_mempolicy_016_def run_set_get_def
      block_defs kernel_rules [OF c] numa_rules call_simps passed_def Let_def)

lemma set_mempolicy_plain_run:
  assumes c: "numa_contract cfg K N A" and r: "numa_ready cfg max_node tmp_buf st"
  shows "runs N A a st S er passed (set_mempolicy_008 K)" "runs N A a st S er passed (set_mempolicy_013 K cfg)"
    "runs N A a st S er passed (set_mempolicy_017 K)"
  using numa_ready_facts [OF r]
  by (simp_all add: set_mempolicy_008_def set_mempolicy_013_def set_mempolicy_017_def
      block_defs kernel_rules [OF c] numa_rules call_simps passed_def Let_def)

lemma set_mempolicy_001_run:
  assumes c: "numa_contract cfg K N A" and r: "numa_ready cfg max_node tmp_buf st" and S: "S ''max_node'' = Some [max_node]"
  shows "runs N A a st S er passed (set_mempolicy_001 K)"
proof -
  note facts = numa_ready_facts [OF r]
  have "policy_of (unat max_node) 0 0 = Some (Inr (0, 0))"
    using policy_of_simps(1) [OF facts(2)] by (simp only: MPOL_DEFAULT_def)
  then show ?thesis
    using facts S by (simp add: set_mempolicy_001_def MPOL_DEFAULT_def block_defs kernel_rules [OF c] numa_rules call_simps passed_def)
qed

lemma set_mempolicy_012_run:
  assumes c: "numa_contract cfg K N A" and r: "numa_ready cfg max_node tmp_buf st" and S: "S ''max_node'' = Some [max_node]"
  shows "runs N A a st S er passed (set_mempolicy_012 K)"
proof -
  obtain b where b: "low_bits (max_node mod BITS_PER_LONG + 1) = Some b" using ready_low_bits [OF r] .
  note facts = numa_ready_facts [OF r]
  show ?thesis
    using facts S b
    by (simp add: set_mempolicy_012_def block_defs kernel_rules [OF c] numa_rules spec_set_mempolicy_def user_nodes_fill [OF r b] runs_fill_mask [OF b]
        policy_of_all spec_get_simps passed_def mask_of_all_written [OF r] words_for_Suc(2) [OF facts(12), simplified])
qed

lemma get_mempolicy_run:
  assumes c: "numa_contract cfg K N A" and r: "numa_ready cfg max_node tmp_buf st" and S: "S ''max_node'' = Some [max_node]"
  shows "runs N A a st S er passed (get_mempolicy_001 K)" "runs N A a st S er passed (get_mempolicy_003 K)"
    "runs N A a st S er passed (get_mempolicy_004 K)" "runs N A a st S er passed (get_mempolicy_005 K)"
    "runs N A a st S er passed (get_mempolicy_006 K)" "runs N A a st S er passed (get_mempolicy_007 K)"
    "runs N A a st S er passed (get_mempolicy_009 K tmp_buf)" "runs N A a st S er passed (get_mempolicy_010 K)"
  using numa_ready_facts [OF r] S
  by (simp_all add: get_mempolicy_001_def get_mempolicy_003_def get_mempolicy_004_def
      get_mempolicy_005_def get_mempolicy_006_def get_mempolicy_007_def get_mempolicy_009_def
      get_mempolicy_010_def run_get_allowed_def
      block_defs kernel_rules [OF c] numa_rules call_simps passed_def Let_def mask_of_all_written [OF r] words_for_Suc(2) [OF numa_ready_facts(12) [OF r], simplified])

lemma get_mempolicy_plain_run:
  assumes c: "numa_contract cfg K N A" and r: "numa_ready cfg max_node tmp_buf st"
  shows "runs N A a st S er passed (get_mempolicy_000 K)" "runs N A a st S er passed (get_mempolicy_002 K)"
    "runs N A a st S er passed (get_mempolicy_008 K)" "runs N A a st S er passed (get_mempolicy_019 K)"
    "runs N A a st S er passed (get_mempolicy_020 K)"
  using numa_ready_facts [OF r]
  by (simp_all add: get_mempolicy_000_def get_mempolicy_002_def get_mempolicy_008_def get_mempolicy_019_def get_mempolicy_020_def
      block_defs kernel_rules [OF c] numa_rules call_simps passed_def Let_def)



section \<open>mbind passes\<close>

text \<open>A page that is mapped, aligned and does not reach the end of the address space.\<close>

definition bindable :: "page_config \<Rightarrow> numa_state \<Rightarrow> u64 \<Rightarrow> u64 \<Rightarrow> bool" where
  "bindable cfg st a len \<longleftrightarrow>
     a AND PAGE_OFFSET cfg = 0 \<and> \<not> a + len < a \<and> align_up len (PAGE_SIZE cfg) = len \<and> len \<noteq> 0
     \<and> (\<forall>x. in_range a len x \<longrightarrow> n_mapped st x)"

lemma spec_mbind_bindable:
  assumes "bindable cfg st a len"
  shows "spec_mbind cfg st a len mode nm mx 0 =
    (case user_nodes cfg nm mx of
       Inl e \<Rightarrow> Some (Inl e)
     | Inr m \<Rightarrow> map_option (map_sum (\<lambda>e. e) (bind_region st a len)) (policy_of (n_nodes st) mode m))"
  using assms by (auto simp: spec_mbind_def bindable_def Let_def split: sum.splits option.splits)

lemma bind_region_simps [simp]:
  "n_nodes (bind_region st a len p) = n_nodes st" "n_mapped (bind_region st a len p) = n_mapped st"
  "n_policy (bind_region st a len p) = n_policy st" "n_page (bind_region st a len p) = n_page st"
  "bindable cfg (bind_region st a len p) b n = bindable cfg st b n"
  by (simp_all add: bind_region_def bindable_def)

lemma n_region_bind: "n_region (bind_region st a len p) x =
    (if in_range a len x then (if fst p = MPOL_DEFAULT then None else Some p) else n_region st x)"
  by (simp add: bind_region_def)

lemma in_range_start: "in_range a len a \<longleftrightarrow> len \<noteq> 0"
  by (simp add: in_range_def word_neq_0_conv)

lemma align_up_page: "align_up (PAGE_SIZE cfg) (PAGE_SIZE cfg) = PAGE_SIZE cfg"
  by (cases cfg) (simp_all add: align_up_def align_down_def page_size_cases)

lemma stack_page:
  assumes c: "numa_contract cfg K N A" and r: "numa_ready cfg max_node tmp_buf (N k)"
  shows "bindable cfg (N k) (aligned_buf cfg tmp_buf) (PAGE_SIZE cfg)" "n_mapped (N k) tmp_buf" "tmp_buf \<noteq> 0"
    "PAGE_SIZE cfg \<le> aligned_buf cfg tmp_buf"
proof -
  let ?P = "unat (PAGE_SIZE cfg)" and ?buf = "aligned_buf cfg tmp_buf"
  have P: "?P = 2 ^ PAGE_SHIFT cfg" "?P \<le> 2 ^ 16" "0 < ?P" by (cases cfg; simp add: page_size_cases)+
  have mapped: "n_mapped (N k) (tmp_buf + of_nat i)" if "i < 2 * ?P" for i
    using r that by (simp add: numa_ready_def)
  then show first: "n_mapped (N k) tmp_buf" using mapped [of 0] P(3) by simp
  have "user_addresses cfg N" using c by (simp add: numa_contract_def)
  then have user: "PAGE_SIZE cfg \<le> tmp_buf" "unat tmp_buf < 2 ^ 63" using first by (auto simp: user_addresses_def user_addr_def)
  then show "tmp_buf \<noteq> 0" using P(3) by (metis not_less_zero unat_0 word_less_nat_alt word_le_less_eq)
  have room: "unat tmp_buf + 2 ^ PAGE_SHIFT cfg \<le> 2 ^ 64" using user(2) P(1,2) by simp
  from small_page.align_up_least [OF this]
  have buf: "unat tmp_buf \<le> unat ?buf" "unat ?buf < unat tmp_buf + ?P" "?P dvd unat ?buf"
    by (simp_all add: aligned_buf_def P(1))
  then show "PAGE_SIZE cfg \<le> ?buf" using user(1) by (simp add: word_le_nat_alt)
  define d where "d = unat ?buf - unat tmp_buf"
  have d: "d < ?P" "?buf = tmp_buf + of_nat d"
    using buf by (simp_all add: d_def of_nat_diff)
  have "n_mapped (N k) x" if "in_range ?buf (PAGE_SIZE cfg) x" for x
  proof -
    have lt: "unat (x - ?buf) < ?P" using that by (simp add: in_range_def word_less_nat_alt)
    have "x = ?buf + (x - ?buf)" by simp
    also have "\<dots> = tmp_buf + of_nat (d + unat (x - ?buf))" by (simp only: d(2) of_nat_add of_nat_unat ucast_id add.assoc)
    finally have "x = tmp_buf + of_nat (d + unat (x - ?buf))" .
    moreover have "n_mapped (N k) (tmp_buf + of_nat (d + unat (x - ?buf)))" using d(1) lt by (intro mapped) linarith
    ultimately show ?thesis by metis
  qed
  moreover have "?buf AND PAGE_OFFSET cfg = 0"
    using buf(3) unat_page_offset [of ?buf cfg] by (simp only: unat_eq_0 [symmetric] mod_eq_0_iff_dvd)
  moreover have "\<not> ?buf + PAGE_SIZE cfg < ?buf"
  proof -
    have "unat ?buf + ?P < 2 ^ 64" using buf(2) user(2) P(2) by simp
    then have "unat (?buf + PAGE_SIZE cfg) = unat ?buf + ?P" by (simp add: unat_word_ariths)
    then show ?thesis by (simp add: word_less_nat_alt)
  qed
  ultimately show "bindable cfg (N k) ?buf (PAGE_SIZE cfg)"
    using P(3) by (auto simp: bindable_def align_up_page unat_eq_0 [symmetric] simp del: unat_eq_0)
qed


definition stack_ok :: "page_config \<Rightarrow> u64 \<Rightarrow> numa_state \<Rightarrow> bool" where
  "stack_ok cfg tmp_buf st \<longleftrightarrow>
     bindable cfg st (aligned_buf cfg tmp_buf) (PAGE_SIZE cfg) \<and> n_mapped st tmp_buf \<and> tmp_buf \<noteq> 0
     \<and> PAGE_SIZE cfg \<le> aligned_buf cfg tmp_buf \<and> \<not> n_mapped st 0 \<and> \<not> n_mapped st 0xFFFFFFFF00000000"

lemma stack_okI:
  assumes c: "numa_contract cfg K N A" and r: "numa_ready cfg max_node tmp_buf (N k)"
  shows "stack_ok cfg tmp_buf (N k)"
proof -
  have u: "user_addresses cfg N" using c by (simp add: numa_contract_def)
  have "\<not> PAGE_SIZE cfg \<le> 0" by (cases cfg) (simp_all add: page_size_cases)
  then have "\<not> n_mapped (N k) 0" using u unfolding user_addresses_def user_addr_def by blast
  moreover have "\<not> unat (0xFFFFFFFF00000000 :: u64) < 2 ^ 63" by simp
  then have "\<not> n_mapped (N k) 0xFFFFFFFF00000000" using u unfolding user_addresses_def user_addr_def by blast
  ultimately show ?thesis using stack_page [OF c r] by (simp add: stack_ok_def)
qed

lemma bindable_mapped: "bindable cfg st a len \<Longrightarrow> n_mapped st a" "bindable cfg st a len \<Longrightarrow> len \<noteq> 0"
  by (simp_all add: bindable_def in_range_start)

lemma mode_differs:
  "MPOL_BIND \<noteq> MPOL_DEFAULT" "MPOL_INTERLEAVE \<noteq> MPOL_DEFAULT" "MPOL_PREFERRED \<noteq> MPOL_DEFAULT"
  "MPOL_BIND OR MPOL_F_STATIC_NODES \<noteq> MPOL_DEFAULT" "MPOL_BIND OR MPOL_F_RELATIVE_NODES \<noteq> MPOL_DEFAULT"
  by (simp_all add: numa_consts)

lemma odd_address:
  assumes "a AND PAGE_OFFSET cfg = 0"
  shows "(a + 1) AND PAGE_OFFSET cfg \<noteq> 0"
proof -
  let ?P = "unat (PAGE_SIZE cfg)"
  have P: "1 < ?P" by (cases cfg) (simp_all add: page_size_cases)
  have "?P dvd 2 ^ 64" unfolding small_page.unat_psize
    by (rule le_imp_power_dvd) (use page_shift_bounds(2) [of cfg] in linarith)
  moreover have "unat a mod ?P = 0" using assms unat_page_offset [of a cfg] by simp
  ultimately have "unat (a + 1) mod ?P = 1"
    using P by (simp add: unat_word_ariths mod_mod_cancel) (metis One_nat_def mod_Suc_eq mod_less)
  then show ?thesis using unat_page_offset [of "a + 1" cfg] by auto
qed

lemma spec_mbind_errors:
  assumes "stack_ok cfg tmp_buf st" "4 \<le> n_nodes st"
  defines "buf \<equiv> aligned_buf cfg tmp_buf"
  shows "spec_mbind cfg st (buf + 1) len mode None mx 0 = Some (Inl EINVAL)"
    "spec_mbind cfg st buf 0 MPOL_DEFAULT None mx 0 = Some (Inr st)"
    "spec_mbind cfg st buf (NOT (PAGE_SIZE cfg - 1)) MPOL_DEFAULT None mx 0 = Some (Inl EINVAL)"
    "spec_mbind cfg st buf len mode None mx 4 = Some (Inl EPERM)"
proof -
  have buf: "buf AND PAGE_OFFSET cfg = 0" "PAGE_SIZE cfg \<le> buf"
    using assms(1) by (simp_all add: stack_ok_def bindable_def buf_def)
  show "spec_mbind cfg st (buf + 1) len mode None mx 0 = Some (Inl EINVAL)"
    using odd_address [OF buf(1)] by (simp add: spec_mbind_def user_nodes_simps)
  have "align_up 0 (PAGE_SIZE cfg) = 0" by (cases cfg) (simp_all add: align_up_def align_down_def page_size_cases)
  then show "spec_mbind cfg st buf 0 MPOL_DEFAULT None mx 0 = Some (Inr st)"
    using buf by (simp add: spec_mbind_def user_nodes_simps policy_of_simps [OF assms(2)])
  have "align_up (NOT (PAGE_SIZE cfg - 1)) (PAGE_SIZE cfg) = - PAGE_SIZE cfg"
    by (cases cfg) (simp_all add: align_up_def align_down_def page_size_cases)
  moreover have "buf + - PAGE_SIZE cfg < buf"
    using buf(2) by (cases cfg) (simp_all add: page_size_cases word_less_nat_alt word_le_nat_alt unat_sub)
  ultimately show "spec_mbind cfg st buf (NOT (PAGE_SIZE cfg - 1)) MPOL_DEFAULT None mx 0 = Some (Inl EINVAL)"
    using buf(1) by (simp add: spec_mbind_def user_nodes_simps)
  show "spec_mbind cfg st buf len mode None mx 4 = Some (Inl EPERM)"
    by (simp add: spec_mbind_def user_nodes_simps MPOL_MF_MOVE_ALL_def)
qed

lemma runs_get_node:
  assumes c: "numa_contract cfg K N A" and "n_mapped st addr" "0 < n_nodes st"
    and "\<And>n st' a'. n < n_nodes st \<Longrightarrow> runs N A 0 st' S er P (g (0, Some (int n)))"
  shows "runs N A a st S er P (exec (get_plain_policy K (Some m) 0 addr (MPOL_F_ADDR OR MPOL_F_NODE)) g)"
proof (rule runsI)
  fix s :: "'a machine"
  assume s: "N (kern s) = st" "statics s = S" "errno s = er" "a \<le> A (kern s)"
  have "get_node_law K N" using c by (simp add: numa_contract_def)
  then obtain n ws k' where ans: "os_get_mempolicy K None 0 addr (MPOL_F_ADDR OR MPOL_F_NODE) (kern s) = (Inr (int n, ws), k')"
    and n: "n < n_nodes st" using assms(2,3) s(1) unfolding get_node_law_def by blast
  show "wp (exec (get_plain_policy K (Some m) 0 addr (MPOL_F_ADDR OR MPOL_F_NODE)) g) (\<lambda>r t. P r) s"
    unfolding get_plain_policy_def get_mempolicy_def exec_assoc
    by (intro wp_exec wp_sys_call_Inr [where v = "(0, Some (int n), None)" and k = k'])
      (use ans s in \<open>auto intro!: runsD [OF assms(4) [OF n]]\<close>)
qed

lemma get_mempolicy_addr_run:
  assumes c: "numa_contract cfg K N A" and r: "numa_ready cfg max_node tmp_buf st" and s: "stack_ok cfg tmp_buf st"
    and S: "S ''max_node'' = Some [max_node]"
  shows "runs N A a st S er passed (get_mempolicy_011 K cfg tmp_buf)" "runs N A a st S er passed (get_mempolicy_012 K tmp_buf)"
    "runs N A a st S er passed (get_mempolicy_017 K tmp_buf)"
proof -
  note facts = numa_ready_facts [OF r]
  have b: "bindable cfg st (aligned_buf cfg tmp_buf) (PAGE_SIZE cfg)" using s by (simp add: stack_ok_def)
  show "runs N A a st S er passed (get_mempolicy_011 K cfg tmp_buf)" "runs N A a st S er passed (get_mempolicy_012 K tmp_buf)"
    using facts S s
    by (simp_all add: get_mempolicy_011_def get_mempolicy_012_def
        block_defs kernel_rules [OF c] numa_rules call_simps passed_def Let_def spec_mbind_bindable [OF b] bindable_mapped [OF b]
        n_region_bind in_range_start mode_differs stack_ok_def)
  show "runs N A a st S er passed (get_mempolicy_017 K tmp_buf)"
    using facts S s
    by (auto simp: get_mempolicy_017_def block_defs numa_rules passed_def stack_ok_def Let_def list_ex_iff intro!: runs_get_node [OF c] numa_rules)
qed

lemma get_mempolicy_bad_addr_run:
  assumes c: "numa_contract cfg K N A" and r: "numa_ready cfg max_node tmp_buf st" and s: "stack_ok cfg tmp_buf st"
  shows "runs N A a st S er passed (get_mempolicy_013 K)" "runs N A a st S er passed (get_mempolicy_015 K)"
    "runs N A a st S er passed (get_mempolicy_016 K tmp_buf)"
  using numa_ready_facts [OF r] s
  by (simp_all add: get_mempolicy_013_def get_mempolicy_015_def get_mempolicy_016_def
      block_defs kernel_rules [OF c] numa_rules call_simps passed_def Let_def stack_ok_def)



lemma page_len: "PAGE_SIZE cfg AND PAGE_OFFSET cfg = 0" "0 < PAGE_SIZE cfg"
  "PAGE_SIZE cfg * of_nat NUM_REGION AND PAGE_OFFSET cfg = 0" "0 < PAGE_SIZE cfg * of_nat NUM_REGION"
  by (cases cfg; simp add: PAGE_OFFSET_def page_size_cases NUM_REGION_def)+

lemma map_region_simps [simp]:
  "n_nodes (map_region st a len) = n_nodes st" "n_policy (map_region st a len) = n_policy st"
  "n_mapped (map_region st a len) x \<longleftrightarrow> in_range a len x \<or> n_mapped st x"
  "n_region (map_region st a len) x = (if in_range a len x then None else n_region st x)"
  "n_page (map_region st a len) x = (if in_range a len x then None else n_page st x)"
  by (simp_all add: map_region_def)

lemma get_mempolicy_014_run:
  assumes c: "numa_contract cfg K N A" and "unat (PAGE_SIZE cfg) \<le> a"
  shows "runs N A a st S er passed (get_mempolicy_014 K cfg)"
proof -
  have nz: "PAGE_SIZE cfg \<noteq> 0" using page_len(2) [of cfg] by auto
  have "buf \<noteq> MAP_FAILED" if "buf AND PAGE_OFFSET cfg = 0" for buf
    using that by (cases cfg) (auto simp: MAP_FAILED_def PAGE_OFFSET_def page_size_cases)
  then show ?thesis using assms(2) nz
    unfolding get_mempolicy_014_def
    by (intro runs_map_buf [OF c page_len(1,2)])
      (simp_all add: block_defs kernel_rules [OF c] numa_rules call_simps passed_def in_range_start)
qed

lemma runs_drop_buf [numa_rules]: "P (Val None) \<Longrightarrow> runs N A a st S er P (drop_buf K buf len)"
  unfolding drop_buf_def munmap_def runs_def
  by (intro allI impI wp_exec wp_sys_call run_case_Val wp_set_static wp_ret)

lemma mbind_run:
  assumes c: "numa_contract cfg K N A" and r: "numa_ready cfg max_node tmp_buf st" and s: "stack_ok cfg tmp_buf st"
    and S: "S ''max_node'' = Some [max_node]"
  shows "runs N A a st S er passed (mbind_000 K cfg tmp_buf)"
    "runs N A a st S er passed (mbind_004 K cfg tmp_buf)" "runs N A a st S er passed (mbind_005 K cfg tmp_buf)"
    "runs N A a st S er passed (mbind_006 K cfg tmp_buf)" "runs N A a st S er passed (mbind_007 K cfg tmp_buf)"
    "runs N A a st S er passed (mbind_008 K cfg tmp_buf)" "runs N A a st S er passed (mbind_009 K cfg tmp_buf)"
    "runs N A a st S er passed (mbind_010 K cfg tmp_buf)" "runs N A a st S er passed (mbind_011 K cfg tmp_buf)"
    "runs N A a st S er passed (mbind_012 K cfg tmp_buf)"
    "runs N A a st S er passed (mbind_024 K cfg tmp_buf)" "runs N A a st S er passed (mbind_025 K cfg tmp_buf)"
    "runs N A a st S er passed (mbind_026 K cfg tmp_buf)"
proof -
  have b: "bindable cfg st (aligned_buf cfg tmp_buf) (PAGE_SIZE cfg)" using s by (simp add: stack_ok_def)
  note rules = block_defs kernel_rules [OF c] numa_rules call_simps passed_def Let_def spec_mbind_bindable [OF b] spec_mbind_bindable
        bindable_mapped [OF b] b n_region_bind in_range_start mode_differs spec_mbind_errors [OF s] no_show_def show_007_def
        MPOL_MF_MOVE_ALL_def MPOL_MF_STRICT_def
  show "runs N A a st S er passed (mbind_000 K cfg tmp_buf)"
    "runs N A a st S er passed (mbind_004 K cfg tmp_buf)" "runs N A a st S er passed (mbind_006 K cfg tmp_buf)"
    "runs N A a st S er passed (mbind_008 K cfg tmp_buf)" "runs N A a st S er passed (mbind_009 K cfg tmp_buf)"
    "runs N A a st S er passed (mbind_012 K cfg tmp_buf)" "runs N A a st S er passed (mbind_026 K cfg tmp_buf)"
    using numa_ready_facts [OF r] S
    by (simp_all add: mbind_000_def mbind_004_def mbind_006_def mbind_008_def mbind_009_def
        mbind_012_def mbind_026_def run_mbind_rejected_def rules)
  show "runs N A a st S er passed (mbind_005 K cfg tmp_buf)" "runs N A a st S er passed (mbind_007 K cfg tmp_buf)"
    "runs N A a st S er passed (mbind_010 K cfg tmp_buf)" "runs N A a st S er passed (mbind_011 K cfg tmp_buf)"
    "runs N A a st S er passed (mbind_024 K cfg tmp_buf)" "runs N A a st S er passed (mbind_025 K cfg tmp_buf)"
    using numa_ready_facts [OF r] S
    by (simp_all add: mbind_005_def mbind_007_def mbind_010_def mbind_011_def mbind_024_def mbind_025_def run_mbind_get_def rules)
qed

lemma mbind_plain_run:
  assumes c: "numa_contract cfg K N A" and r: "numa_ready cfg max_node tmp_buf st" and s: "stack_ok cfg tmp_buf st"
  shows "runs N A a st S er passed (mbind_001 K cfg tmp_buf)" "runs N A a st S er passed (mbind_002 K cfg tmp_buf)"
    "runs N A a st S er passed (mbind_003 K cfg tmp_buf)" "runs N A a st S er passed (mbind_014 K cfg tmp_buf)"
    "runs N A a st S er passed (mbind_029 K cfg tmp_buf)" "runs N A a st S er passed (mbind_030 K cfg tmp_buf)"
proof -
  have b: "bindable cfg st (aligned_buf cfg tmp_buf) (PAGE_SIZE cfg)" using s by (simp add: stack_ok_def)
  show "runs N A a st S er passed (mbind_001 K cfg tmp_buf)" "runs N A a st S er passed (mbind_002 K cfg tmp_buf)"
    "runs N A a st S er passed (mbind_003 K cfg tmp_buf)" "runs N A a st S er passed (mbind_014 K cfg tmp_buf)"
    "runs N A a st S er passed (mbind_029 K cfg tmp_buf)" "runs N A a st S er passed (mbind_030 K cfg tmp_buf)"
    using numa_ready_facts [OF r]
    by (simp_all add: mbind_001_def mbind_002_def mbind_003_def mbind_014_def mbind_029_def mbind_030_def run_mbind_rejected_def
        block_defs kernel_rules [OF c] numa_rules call_simps passed_def Let_def spec_mbind_bindable [OF b]
        bindable_mapped [OF b] b spec_mbind_errors [OF s] MPOL_MF_MOVE_ALL_def MPOL_MF_STRICT_def)
qed



lemma mbind_013_run:
  assumes c: "numa_contract cfg K N A" and r: "numa_ready cfg max_node tmp_buf st" and s: "stack_ok cfg tmp_buf st"
    and S: "S ''max_node'' = Some [max_node]"
  shows "runs N A a st S er passed (mbind_013 K cfg tmp_buf)"
proof -
  obtain b where b: "low_bits (max_node mod BITS_PER_LONG + 1) = Some b" using ready_low_bits [OF r] .
  have page: "bindable cfg st (aligned_buf cfg tmp_buf) (PAGE_SIZE cfg)" using s by (simp add: stack_ok_def)
  note facts = numa_ready_facts [OF r]
  show ?thesis
    using facts S b
    by (simp add: mbind_013_def block_defs kernel_rules [OF c] numa_rules spec_mbind_bindable [OF page] bindable_mapped [OF page]
        user_nodes_fill [OF r b] runs_fill_mask [OF b] n_region_bind in_range_start mode_differs Let_def
        policy_of_all spec_get_simps passed_def mask_of_all_written [OF r] words_for_Suc(2) [OF facts(12), simplified])
qed

lemma mbind_028_run:
  assumes c: "numa_contract cfg K N A" and r: "numa_ready cfg max_node tmp_buf st" and s: "stack_ok cfg tmp_buf st"
    and S: "S ''max_node'' = Some [max_node]"
  shows "runs N A a st S er passed (mbind_028 K cfg tmp_buf)"
proof -
  have b: "bindable cfg st (aligned_buf cfg tmp_buf) (PAGE_SIZE cfg)" using s by (simp add: stack_ok_def)
  note facts = numa_ready_facts [OF r]
  have "spec_mbind cfg st (aligned_buf cfg tmp_buf) (PAGE_SIZE cfg) MPOL_BIND (Some [3]) BITS_PER_LONG 0
      = Some (Inr (bind_region st (aligned_buf cfg tmp_buf) (PAGE_SIZE cfg) (MPOL_BIND, 3)))"
    using facts(1,2) by (simp add: spec_mbind_bindable [OF b] call_simps)
  note move = runs_mbind_move [OF c this]
  show ?thesis
    using facts S
    by (simp add: mbind_028_def run_mbind_get_def move block_defs kernel_rules [OF c] numa_rules call_simps passed_def Let_def
        bindable_mapped [OF b] n_region_bind in_range_start mode_differs no_show_def)
qed

text \<open>The seven-page area.\<close>

lemma in_range_sub:
  assumes "in_range (a + off) n x" "unat off + unat n \<le> unat m"
  shows "in_range a m x"
proof -
  define w where "w = x - (a + off)"
  have "x - a = w + off" by (simp add: w_def)
  then have "unat (x - a) = (unat w + unat off) mod 2 ^ LENGTH(64)" by (simp only: unat_word_ariths(1))
  moreover have w: "unat w < unat n" using assms(1) by (simp add: in_range_def word_less_nat_alt w_def)
  moreover have "unat m < 2 ^ LENGTH(64)" by (rule unsigned_less)
  ultimately have "unat (x - a) = unat w + unat off" using assms(2) by (metis (no_types) add.commute le_less_trans less_le_trans mod_less nat_add_left_cancel_less order.strict_implies_order)
  then show ?thesis using assms(2) w by (simp add: in_range_def word_less_nat_alt)
qed

lemma unat_pages: "n \<le> 8 \<Longrightarrow> unat (of_nat n * PAGE_SIZE cfg) = n * unat (PAGE_SIZE cfg)"
proof -
  assume n: "n \<le> 8"
  have "unat (PAGE_SIZE cfg) \<le> 0x10000" by (cases cfg) (simp_all add: page_size_cases)
  with n have "n * unat (PAGE_SIZE cfg) \<le> 8 * 0x10000" by (intro mult_le_mono)
  then have lt: "n * unat (PAGE_SIZE cfg) < SPACE" by (simp add: SPACE_def)
  have "of_nat n * PAGE_SIZE cfg = of_nat (n * unat (PAGE_SIZE cfg))" by simp
  then show ?thesis using unat_of_nat_SPACE [OF lt] by (simp only:)
qed

definition seven :: "page_config \<Rightarrow> u64" where
  "seven cfg = PAGE_SIZE cfg * of_nat NUM_REGION"

lemma unat_seven: "unat (seven cfg) = 7 * unat (PAGE_SIZE cfg)"
  using unat_pages [of 7 cfg] by (simp add: seven_def NUM_REGION_def mult.commute)

lemma area_fits:
  assumes "buf < buf + seven cfg"
  shows "unat buf + 7 * unat (PAGE_SIZE cfg) < SPACE"
proof (rule ccontr)
  assume wraps: "\<not> ?thesis"
  let ?x = "unat buf + unat (seven cfg)"
  have "2 ^ LENGTH(64) = SPACE" by (simp add: SPACE_def)
  then have less: "unat buf < ?x mod SPACE" using assms unfolding word_less_nat_alt unat_word_ariths(1) by (simp only:)
  have lt: "unat buf < SPACE" "unat (seven cfg) < SPACE" by (rule SPACE_unat)+
  have ge: "SPACE \<le> ?x" using wraps by (simp only: unat_seven not_less)
  then have "?x mod SPACE = (?x - SPACE) mod SPACE" by (rule le_mod_geq)
  also have "\<dots> = ?x - SPACE" using lt by (intro mod_less) linarith
  finally show False using less ge lt by linarith
qed

lemma page_address: "buf + of_nat i * PAGE_SIZE cfg = buf + of_nat (i * unat (PAGE_SIZE cfg))"
  by simp

lemma unat_page_address:
  assumes "buf < buf + seven cfg" "i \<le> 6"
  shows "unat (buf + of_nat i * PAGE_SIZE cfg) = unat buf + i * unat (PAGE_SIZE cfg)"
proof -
  have "i * unat (PAGE_SIZE cfg) \<le> 7 * unat (PAGE_SIZE cfg)" using assms(2) by (intro mult_le_mono1) simp
  then have "unat buf + i * unat (PAGE_SIZE cfg) < SPACE" using area_fits [OF assms(1)] by linarith
  then show ?thesis unfolding page_address by (rule unat_add_fits)
qed

lemma region_part:
  assumes buf: "buf AND PAGE_OFFSET cfg = 0" "buf < buf + seven cfg" and i: "i + n \<le> 7" "0 < n"
    and mapped: "\<And>x. in_range buf (seven cfg) x \<Longrightarrow> n_mapped st x"
  shows "bindable cfg st (buf + of_nat i * PAGE_SIZE cfg) (of_nat n * PAGE_SIZE cfg)"
proof -
  let ?P = "unat (PAGE_SIZE cfg)" and ?a = "buf + of_nat i * PAGE_SIZE cfg" and ?len = "of_nat n * PAGE_SIZE cfg :: u64"
  have P: "0 < ?P" "?P = 2 ^ PAGE_SHIFT cfg" by (simp_all add: small_page.unat_psize)
  have fits: "unat buf + 7 * ?P < SPACE" by (rule area_fits [OF buf(2)])
  have len: "unat ?len = n * ?P" using i by (intro unat_pages) simp
  have a: "unat ?a = unat buf + i * ?P" using i by (intro unat_page_address [OF buf(2)]) simp
  have sum: "i * ?P + n * ?P \<le> 7 * ?P" using i(1) by (simp only: add_mult_distrib [symmetric] mult_le_mono1)
  have "unat buf mod ?P = 0" using buf(1) unat_page_offset [of buf cfg] by simp
  then have "unat (?a AND PAGE_OFFSET cfg) = 0" unfolding unat_page_offset a by simp
  then have "?a AND PAGE_OFFSET cfg = 0" by (simp only: unat_eq_0)
  moreover have "\<not> ?a + ?len < ?a"
  proof -
    have "unat ?a + n * ?P < SPACE" using a sum fits by linarith
    then have "unat (?a + of_nat (n * ?P)) = unat ?a + n * ?P" by (rule unat_add_fits)
    then have "unat (?a + ?len) = unat ?a + n * ?P" by simp
    then show ?thesis by (simp only: word_less_nat_alt not_less le_add1)
  qed
  moreover have "align_up ?len (PAGE_SIZE cfg) = ?len"
  proof -
    have "n * ?P + ?P \<le> 2 ^ 64" using sum fits i by (cases cfg) (simp_all add: page_size_cases)
    then have "unat (align_up ?len (PAGE_SIZE cfg)) = (n * ?P + ?P - 1) div ?P * ?P"
      using small_page.align_up_unat [of ?len cfg] unfolding len P(2) by blast
    also have "(n * ?P + ?P - 1) div ?P = n" using P(1) by (intro div_nat_eqI) (simp_all add: mult.commute [of n])
    finally show ?thesis using len by (simp only: word_unat_eq_iff)
  qed
  moreover have "?len \<noteq> 0" using len i(2) P(1) by (metis mult_is_0 neq0_conv unat_0)
  moreover have "n_mapped st x" if "in_range ?a ?len x" for x
  proof -
    have "unat (of_nat i * PAGE_SIZE cfg) = i * ?P" using i by (intro unat_pages) simp
    then have "unat (of_nat i * PAGE_SIZE cfg) + unat ?len \<le> unat (seven cfg)" using sum len by (simp only: unat_seven)
    from in_range_sub [OF that this] show ?thesis by (rule mapped)
  qed
  ultimately show ?thesis by (simp only: bindable_def) blast
qed

lemma in_range_pages:
  assumes "i < 7" "off + n \<le> 7"
  shows "in_range (buf + of_nat off * PAGE_SIZE cfg) (of_nat n * PAGE_SIZE cfg) (buf + of_nat i * PAGE_SIZE cfg) \<longleftrightarrow> off \<le> i \<and> i < off + n"
proof -
  let ?P = "unat (PAGE_SIZE cfg)"
  have P: "0 < ?P" "?P \<le> 0x10000" by (cases cfg; simp add: page_size_cases)+
  have small: "j * ?P \<le> 7 * 0x10000" if "j \<le> 7" for j using that P(2) by (intro mult_le_mono)
  have lt: "i * ?P < SPACE" "off * ?P < SPACE" using small [of i] small [of off] assms by (simp_all add: SPACE_def)
  have diff: "unat (buf + of_nat i * PAGE_SIZE cfg - (buf + of_nat off * PAGE_SIZE cfg))
      = (if off * ?P \<le> i * ?P then i * ?P - off * ?P else SPACE + i * ?P - off * ?P)"
    unfolding page_address add_diff_cancel_left using unat_diff_window [OF lt] .
  have len: "unat (of_nat n * PAGE_SIZE cfg) = n * ?P" using assms by (intro unat_pages) simp
  show ?thesis
  proof (cases "off \<le> i")
    case True
    then have "off * ?P \<le> i * ?P" by simp
    moreover have "i * ?P - off * ?P < n * ?P \<longleftrightarrow> i - off < n" using P(1) by (simp only: diff_mult_distrib [symmetric] mult_less_cancel2 simp_thms)
    ultimately show ?thesis using True unfolding in_range_def word_less_nat_alt diff len by auto
  next
    case False
    then have "\<not> off * ?P \<le> i * ?P" using P(1) by simp
    moreover have "n * ?P \<le> SPACE + i * ?P - off * ?P"
      using small [of n] small [of off] assms by (simp add: SPACE_def)
    ultimately show ?thesis using False unfolding in_range_def word_less_nat_alt diff len by auto
  qed
qed


text \<open>
  The area after some bindings: page \<open>i\<close> has the policy \<open>f i\<close>. A list of bindings \<open>(mode, mask, first
  page, pages)\<close> determines the policies of the pages: the last one that covers a page wins.
\<close>

definition area :: "page_config \<Rightarrow> u64 \<Rightarrow> nat \<Rightarrow> numa_state \<Rightarrow> (nat \<Rightarrow> policy option) \<Rightarrow> bool" where
  "area cfg buf n st f \<longleftrightarrow>
     n_nodes st = n \<and> (\<forall>x. in_range buf (seven cfg) x \<longrightarrow> n_mapped st x)
     \<and> (\<forall>i<7. n_region st (buf + of_nat i * PAGE_SIZE cfg) = f i)"

type_synonym binding = "int \<times> u64 \<times> nat \<times> nat"

definition binding_policy :: "page_config \<Rightarrow> nat \<Rightarrow> binding \<Rightarrow> policy option" where
  "binding_policy cfg n b =
     (case b of (mode, m, off, pages) \<Rightarrow>
        case user_nodes cfg (Some [m]) BITS_PER_LONG of
          Inr k \<Rightarrow> (case policy_of n mode k of Some (Inr p) \<Rightarrow> Some p | _ \<Rightarrow> None)
        | Inl e \<Rightarrow> None)"

definition binding_ok :: "page_config \<Rightarrow> nat \<Rightarrow> binding \<Rightarrow> bool" where
  "binding_ok cfg n b \<longleftrightarrow>
     (case b of (mode, m, off, pages) \<Rightarrow> 0 < pages \<and> off + pages \<le> 7)
     \<and> (\<exists>p. binding_policy cfg n b = Some p \<and> fst p \<noteq> MPOL_DEFAULT)"

definition bound :: "page_config \<Rightarrow> nat \<Rightarrow> binding \<Rightarrow> (nat \<Rightarrow> policy option) \<Rightarrow> nat \<Rightarrow> policy option" where
  "bound cfg n b f i =
     (case b of (mode, m, off, pages) \<Rightarrow> if off \<le> i \<and> i < off + pages then binding_policy cfg n b else f i)"

definition binding_args :: "page_config \<Rightarrow> binding \<Rightarrow> mbind_args" where
  "binding_args cfg b = (case b of (mode, m, off, pages) \<Rightarrow> marg cfg mode m off (of_nat pages))"

lemma binding_args_eq: "binding_args cfg (mode, m, off, pages) =
    \<lparr>ma_mode = mode, ma_node_mask = m, ma_npoff = off, ma_len = of_nat pages * PAGE_SIZE cfg\<rparr>"
  by (simp add: binding_args_def marg_def)

lemma area_bind:
  assumes "area cfg buf n st f" "off + pages \<le> 7" "fst p \<noteq> MPOL_DEFAULT" "binding_policy cfg n (mode, m, off, pages) = Some p"
  shows "area cfg buf n (bind_region st (buf + of_nat off * PAGE_SIZE cfg) (of_nat pages * PAGE_SIZE cfg) p) (bound cfg n (mode, m, off, pages) f)"
  using assms by (auto simp: area_def n_region_bind in_range_pages bound_def)

lemma area_page_mapped:
  assumes "area cfg buf n st f" "i < 7" 
  shows "n_mapped st (buf + of_nat i * PAGE_SIZE cfg)"
proof -
  have "in_range (buf + of_nat 0 * PAGE_SIZE cfg) (of_nat 7 * PAGE_SIZE cfg) (buf + of_nat i * PAGE_SIZE cfg)"
    using assms(2) by (subst in_range_pages) simp_all
  then show ?thesis using assms(1) by (simp add: area_def seven_def NUM_REGION_def mult.commute)
qed

lemma runs_bind_regions:
  assumes c: "numa_contract cfg K N A" and buf: "buf AND PAGE_OFFSET cfg = 0" "buf < buf + seven cfg"
    and mn: "unat max_node = n" "n mod 64 \<noteq> 1"
    and ok: "list_all (binding_ok cfg n) bs" and area: "area cfg buf n st f"
    and S: "S ''node_mask'' = Some ws" "ws \<noteq> []"
    and k: "\<And>st S ws'. area cfg buf n st (fold (bound cfg n) bs f) \<Longrightarrow> S ''node_mask'' = Some ws' \<Longrightarrow> ws' \<noteq> [] \<Longrightarrow> runs N A 0 st S er P k"
  shows "runs N A 0 st S er P (bind_regions K cfg max_node buf i (map (binding_args cfg) bs) k)"
  using ok area S k
proof (induction bs arbitrary: st S ws f i)
  case (Cons b bs)
  obtain mode m off pages where b: "b = (mode, m, off, pages)" by (cases b)
  obtain p where p: "binding_policy cfg n b = Some p" "fst p \<noteq> MPOL_DEFAULT" and size: "0 < pages" "off + pages \<le> 7"
    using Cons.prems(1) by (auto simp: binding_ok_def b)
  let ?a = "buf + of_nat off * PAGE_SIZE cfg" and ?len = "of_nat pages * PAGE_SIZE cfg :: u64"
  let ?st = "bind_region st ?a ?len p"
  have "bindable cfg st ?a ?len" using Cons.prems(2) size by (intro region_part [OF buf]) (simp_all add: area_def)
  then have spec: "spec_mbind cfg st ?a ?len mode (Some [m]) BITS_PER_LONG 0 = Some (Inr ?st)"
    using p Cons.prems(2) unfolding b
    by (auto simp: spec_mbind_bindable binding_policy_def area_def split: sum.splits option.splits)
  have area: "area cfg buf n ?st (bound cfg n b f)"
    using area_bind [OF Cons.prems(2) size(2) p(2)] p(1) by (simp add: b)
  have get: "spec_get_mempolicy ?st True max_node ?a MPOL_F_ADDR = Some (Inr p)"
  proof -
    have "off < 7" "off < off + pages" using size by simp_all
    then have "n_region ?st ?a = Some p" "n_mapped ?st ?a"
      using area area_page_mapped [OF area, of off] p(1) by (auto simp: area_def bound_def b)
    moreover have "\<not> unat max_node < n_nodes ?st" using mn area by (simp add: area_def)
    ultimately show ?thesis by (simp add: spec_get_simps)
  qed
  have "runs N A 0 ?st (S(''node_mask'' := Some (written_mask (ws[0 := 0]) max_node (snd p)))) er P
      (bind_regions K cfg max_node buf (Suc i) (map (binding_args cfg) bs) k)"
    using Cons.prems by (intro Cons.IH [OF _ area, where ws = "written_mask (ws[0 := 0]) max_node (snd p)"]) (simp_all add: b)
  then show ?case
    using Cons.prems(3,4) mn get
    by (cases p) (simp add: b binding_args_eq Let_def kernel_rules [OF c] numa_rules spec)
qed simp

lemma runs_mbind_check:
  assumes c: "numa_contract cfg K N A" and mn: "unat max_node = n" "n mod 64 \<noteq> 1" and area: "area cfg buf n st f"
    and "i + length es \<le> 7" "ws \<noteq> []"
    and "\<forall>j < length es. es ! j = (case f (i + j) of None \<Rightarrow> e_default | Some (mode, m) \<Rightarrow> \<lparr>me_mode = mode, me_node_mask = of_nat m\<rparr>)"
    and "\<And>ws'. runs N A 0 st S er P (g (0, ws'))"
  shows "runs N A 0 st S er P (exec (mbind_check_from K cfg i es ws max_node buf MPOL_F_ADDR) g)"
  using assms(5-7)
proof (induction es arbitrary: i ws)
  case Nil
  then show ?case using assms(8) by simp
next
  case (Cons e es)
  obtain mode m where pol: "(case f i of None \<Rightarrow> (MPOL_DEFAULT, 0) | Some p \<Rightarrow> p) = (mode, m)" by fastforce
  have i: "i < 7" using Cons.prems(1) by simp
  have e: "e = \<lparr>me_mode = mode, me_node_mask = of_nat m\<rparr>"
    using Cons.prems(3) pol by (auto dest: spec [of _ 0] split: option.splits)
  have "n_region st (buf + of_nat i * PAGE_SIZE cfg) = f i" "\<not> unat max_node < n_nodes st"
    using area i mn by (simp_all add: area_def)
  then have get: "spec_get_mempolicy st True max_node (buf + PAGE_SIZE cfg * of_nat i) MPOL_F_ADDR = Some (Inr (mode, m))"
    using area_page_mapped [OF area i] pol by (simp add: spec_get_simps mult.commute)
  have "\<forall>j < length es. es ! j = (case f (Suc i + j) of None \<Rightarrow> e_default | Some (mode, m) \<Rightarrow> \<lparr>me_mode = mode, me_node_mask = of_nat m\<rparr>)"
    using Cons.prems(3) by (auto dest: spec [of _ "Suc _"])
  then have "runs N A 0 st S er P (exec (mbind_check_from K cfg (Suc i) es ws' max_node buf MPOL_F_ADDR) g)" if "ws' \<noteq> []" for ws'
    using Cons.prems(1) that by (intro Cons.IH) simp_all
  then show ?case
    using Cons.prems(2) mn
    by (simp add: exec_assoc runs_emit e written_mask_0 runs_get_mempolicy [OF c] get)
qed


definition expected_regions :: "page_config \<Rightarrow> nat \<Rightarrow> binding list \<Rightarrow> mbind_expect list" where
  "expected_regions cfg n bs = map (\<lambda>i. case fold (bound cfg n) bs (\<lambda>_. None) i of
     None \<Rightarrow> e_default | Some (mode, m) \<Rightarrow> \<lparr>me_mode = mode, me_node_mask = of_nat m\<rparr>) [0..<7]"

lemma run_regions_run:
  assumes c: "numa_contract cfg K N A" and r: "numa_ready cfg max_node tmp_buf st" and S: "S ''max_node'' = Some [max_node]"
    and a: "7 * unat (PAGE_SIZE cfg) \<le> a" and bs: "list_all (binding_ok cfg (unat max_node)) bs"
  shows "runs N A a st S er passed (run_regions K cfg (map (binding_args cfg) bs) (expected_regions cfg (unat max_node) bs))"
proof -
  note facts = numa_ready_facts [OF r]
  have check: "runs N A 0 st' S' er passed (check_regions K cfg (expected_regions cfg (unat max_node) bs) max_node buf (drop_buf K buf (seven cfg)))"
    if "area cfg buf (unat max_node) st' (fold (bound cfg (unat max_node)) bs (\<lambda>_. None))" "S' ''node_mask'' = Some ws" "ws \<noteq> []" for st' S' ws buf
    unfolding check_regions_def mbind_check_def using that(2,3)
    by (intro runs_get_static, simp, intro runs_mbind_check [OF c refl facts(11) that(1)])
      (simp_all add: expected_regions_def NUM_REGION_def numa_rules passed_def)
  have rest: "runs N A 0 (map_region st buf (seven cfg)) S' er passed
      (bind_regions K cfg max_node buf 0 (map (binding_args cfg) bs)
        (check_regions K cfg (expected_regions cfg (unat max_node) bs) max_node buf (drop_buf K buf (seven cfg))))"
    if buf: "buf AND PAGE_OFFSET cfg = 0" "buf < buf + seven cfg" and S': "S' ''node_mask'' = Some ws" "ws \<noteq> []" for buf S' ws
  proof (rule runs_bind_regions [OF c buf refl facts(11) bs, where f = "\<lambda>_. None" and ws = ws])
    have "in_range (buf + of_nat 0 * PAGE_SIZE cfg) (of_nat 7 * PAGE_SIZE cfg) (buf + of_nat i * PAGE_SIZE cfg)" if "i < 7" for i
      using that by (subst in_range_pages) simp_all
    then show "area cfg buf (unat max_node) (map_region st buf (seven cfg)) (\<lambda>_. None)"
      using facts(1) by (simp add: area_def seven_def NUM_REGION_def mult.commute)
  qed (simp_all add: S' check)
  show ?thesis
    unfolding run_regions_def seven_def [symmetric]
  proof (rule runs_map_buf [OF c])
    show "seven cfg AND PAGE_OFFSET cfg = 0" "0 < seven cfg" using page_len(3,4) by (simp_all add: seven_def)
    show "unat (seven cfg) \<le> a" using a by (simp add: unat_seven)
    fix buf :: u64
    assume buf: "buf AND PAGE_OFFSET cfg = 0" "buf \<noteq> 0" "buf < buf + seven cfg"
    show "runs N A 0 (map_region st buf (seven cfg)) (S(''buf'' \<mapsto> [buf])) er passed
       (need_max_node (\<lambda>mn. need_nodes mn 2 TWO_OR_MORE (make_mask K ''node_mask'' mn ''node_mask malloc error''
          (\<lambda>nr. bind_regions K cfg mn buf 0 (map (binding_args cfg) bs)
            (check_regions K cfg (expected_regions cfg (unat max_node) bs) mn buf (drop_buf K buf (seven cfg)))))))"
      using facts S by (simp add: block_defs kernel_rules [OF c] numa_rules rest [OF buf(1,3)])
  qed
qed

lemma regions_run:
  assumes c: "numa_contract cfg K N A" and r: "numa_ready cfg max_node tmp_buf st" and S: "S ''max_node'' = Some [max_node]"
    and a: "7 * unat (PAGE_SIZE cfg) \<le> a"
  shows "runs N A a st S er passed (mbind_015 K cfg)" "runs N A a st S er passed (mbind_016 K cfg)"
    "runs N A a st S er passed (mbind_017 K cfg)" "runs N A a st S er passed (mbind_018 K cfg)"
    "runs N A a st S er passed (mbind_019 K cfg)" "runs N A a st S er passed (mbind_020 K cfg)"
    "runs N A a st S er passed (mbind_021 K cfg)" "runs N A a st S er passed (mbind_022 K cfg)"
    "runs N A a st S er passed (mbind_023 K cfg)"
proof -
  let ?i = "(MPOL_INTERLEAVE, 3 :: u64)" and ?b = "(MPOL_BIND, 1 :: u64)" and ?p = "(MPOL_PREFERRED, 2 :: u64)"
  note n = numa_ready_facts(2) [OF r]
  have pol: "binding_policy cfg (unat max_node) (MPOL_INTERLEAVE, 3, off, pages) = Some (MPOL_INTERLEAVE, 3)"
    "binding_policy cfg (unat max_node) (MPOL_BIND, 1, off, pages) = Some (MPOL_BIND, 1)"
    "binding_policy cfg (unat max_node) (MPOL_PREFERRED, 2, off, pages) = Some (MPOL_PREFERRED, 2)" for off pages
    using n by (simp_all add: binding_policy_def user_nodes_simps policy_of_simps)
  have eval: "runs N A a st S er passed (run_regions K cfg ms es)"
    if "ms = map (binding_args cfg) bs" "es = expected_regions cfg (unat max_node) bs" "list_all (binding_ok cfg (unat max_node)) bs" for ms es bs
    using run_regions_run [where S = S, OF c r S a that(3)] that(1,2) by simp
  note simps = binding_args_def expected_regions_def upt_conv_Cons bound_def binding_ok_def pol mode_differs
  show "runs N A a st S er passed (mbind_015 K cfg)" unfolding mbind_015_def
    by (rule eval [where bs = "[(MPOL_INTERLEAVE, 3, 2, 3), (MPOL_BIND, 1, 0, 1)]"]) (simp_all add: simps)
  show "runs N A a st S er passed (mbind_016 K cfg)" unfolding mbind_016_def
    by (rule eval [where bs = "[(MPOL_INTERLEAVE, 3, 1, 3), (MPOL_BIND, 1, 1, 3)]"]) (simp_all add: simps)
  show "runs N A a st S er passed (mbind_017 K cfg)" unfolding mbind_017_def
    by (rule eval [where bs = "[(MPOL_INTERLEAVE, 3, 1, 3), (MPOL_BIND, 1, 0, 5)]"]) (simp_all add: simps)
  show "runs N A a st S er passed (mbind_018 K cfg)" unfolding mbind_018_def
    by (rule eval [where bs = "[(MPOL_INTERLEAVE, 3, 1, 3), (MPOL_BIND, 1, 0, 2)]"]) (simp_all add: simps)
  show "runs N A a st S er passed (mbind_019 K cfg)" unfolding mbind_019_def
    by (rule eval [where bs = "[(MPOL_INTERLEAVE, 3, 1, 3), (MPOL_BIND, 1, 2, 1)]"]) (simp_all add: simps)
  show "runs N A a st S er passed (mbind_020 K cfg)" unfolding mbind_020_def
    by (rule eval [where bs = "[(MPOL_INTERLEAVE, 3, 1, 3), (MPOL_BIND, 1, 3, 2)]"]) (simp_all add: simps)
  show "runs N A a st S er passed (mbind_021 K cfg)" unfolding mbind_021_def
    by (rule eval [where bs = "[(MPOL_INTERLEAVE, 3, 1, 3), (MPOL_PREFERRED, 2, 4, 2), (MPOL_BIND, 1, 3, 2)]"]) (simp_all add: simps)
  show "runs N A a st S er passed (mbind_022 K cfg)" unfolding mbind_022_def
    by (rule eval [where bs = "[(MPOL_INTERLEAVE, 3, 1, 3), (MPOL_PREFERRED, 2, 4, 1), (MPOL_BIND, 1, 3, 3)]"]) (simp_all add: simps)
  show "runs N A a st S er passed (mbind_023 K cfg)" unfolding mbind_023_def
    by (rule eval [where bs = "[(MPOL_INTERLEAVE, 3, 1, 3), (MPOL_PREFERRED, 2, 5, 2), (MPOL_BIND, 1, 3, 3)]"]) (simp_all add: simps)
qed

text \<open>
  \<^verbatim>\<open>027.c\<close> on such a kernel: the strict call fails with \<^verbatim>\<open>EIO\<close>, as its comment expects, and the test
  reports an error because it asserts that \<^verbatim>\<open>errno\<close> is different from \<^verbatim>\<open>EIO\<close>.
\<close>

lemma runs_store:
  assumes c: "numa_contract cfg K N A" and "n_mapped st b" "n_page st (page_of cfg b) = None" "n_region st b = Some (MPOL_BIND, m)" "m \<noteq> 0"
    and "\<And>n. bit m n \<Longrightarrow> runs N A 0 (st\<lparr>n_page := (n_page st)(page_of cfg b \<mapsto> n)\<rparr>) S er P (g ())"
  shows "runs N A a st S er P (exec (store K b v) g)"
proof (rule runsI)
  fix s :: "'a machine"
  assume s: "N (kern s) = st" "statics s = S" "errno s = er" "a \<le> A (kern s)"
  have "numa_store_law cfg K N" using c by (simp add: numa_contract_def)
  then obtain n k' where "os_store K b v (kern s) = (Inr (), k')" "bit m n"
      "N k' = (N (kern s))\<lparr>n_page := (n_page (N (kern s)))(page_of cfg b \<mapsto> n)\<rparr>"
    using assms(2-5) s(1) unfolding numa_store_law_def by blast
  then show "wp (exec (store K b v) g) (\<lambda>r t. P r) s"
    using s runsD [OF assms(6), of n "s\<lparr>kern := k'\<rparr>"] by (simp add: wp_def exec_def store_def)
qed

lemma mbind_027_run:
  assumes c: "numa_contract cfg K N A" and r: "numa_ready cfg max_node tmp_buf st" and S: "S ''max_node'' = Some [max_node]"
    and a: "unat (PAGE_SIZE cfg) \<le> a"
  shows "runs N A a st S er (\<lambda>r. r = Val (Some ''errno != EIO'')) (mbind_027 K cfg)"
proof -
  note facts = numa_ready_facts [OF r]
  have step: "runs N A 0 (map_region st buf (PAGE_SIZE cfg)) S' er (\<lambda>r. r = Val (Some ''errno != EIO''))
      (expect_ok (mbind K buf (PAGE_SIZE cfg) MPOL_BIND (Some [0x02]) BITS_PER_LONG 0) ''mbind(flags=0) error'' (
       exec (store K buf 0) (\<lambda>_.
       expect_failure (mbind K buf (PAGE_SIZE cfg) MPOL_BIND (Some [0x01]) BITS_PER_LONG MPOL_MF_STRICT)
         ''mbind(flags=MPOL_MF_STRICT) not failed'' (
       exec get_errno (\<lambda>e. tp_assert (e \<noteq> EIO) (Some ''errno != EIO'') (drop_buf K buf (PAGE_SIZE cfg)))))))"
    if buf: "buf AND PAGE_OFFSET cfg = 0" "buf < buf + PAGE_SIZE cfg" for buf S'
  proof -
    let ?st = "map_region st buf (PAGE_SIZE cfg)"
    have b: "bindable cfg ?st buf (PAGE_SIZE cfg)"
      using buf page_len(2) [of cfg] by (auto simp: bindable_def align_up_page)
    have page: "page_of cfg buf = buf"
    proof -
      have "buf AND (PAGE_OFFSET cfg OR NOT (PAGE_OFFSET cfg)) = (buf AND PAGE_OFFSET cfg) OR (buf AND NOT (PAGE_OFFSET cfg))"
        by (rule bit.conj_disj_distrib)
      then show ?thesis using buf(1) by (simp add: page_of_def PAGE_MASK_def)
    qed
    have nz: "PAGE_SIZE cfg \<noteq> 0" using page_len(2) [of cfg] by auto
    have strict: "spec_mbind cfg (bind_region ?st buf (PAGE_SIZE cfg) (MPOL_BIND, 2)\<lparr>n_page := (n_page ?st)(buf \<mapsto> n)\<rparr>) buf (PAGE_SIZE cfg) MPOL_BIND (Some [1])
        BITS_PER_LONG MPOL_MF_STRICT = Some (Inl EIO)" if "bit (2::nat) n" for n
    proof -
      have "n = 1" using that by (cases n; cases "n - 1") (auto simp: bit_Suc)
      then have "misplaced (bind_region ?st buf (PAGE_SIZE cfg) (MPOL_BIND, 2)\<lparr>n_page := (n_page ?st)(buf \<mapsto> n)\<rparr>) buf (PAGE_SIZE cfg) (Suc 0)"
        using nz unfolding misplaced_def by (intro exI [of _ buf] exI [of _ 1]) (simp add: in_range_start bit_Suc)
      then show ?thesis using b facts(1,2)
        by (auto simp: spec_mbind_def bindable_def call_simps Let_def MPOL_MF_STRICT_def MPOL_MF_MOVE_ALL_def mode_differs)
    qed
    have run: "runs N A 0 (bind_region ?st buf (PAGE_SIZE cfg) (MPOL_BIND, 2)) S' er (\<lambda>r. r = Val (Some ''errno != EIO''))
      (exec (store K buf 0) (\<lambda>_.
       expect_failure (mbind K buf (PAGE_SIZE cfg) MPOL_BIND (Some [0x01]) BITS_PER_LONG MPOL_MF_STRICT)
         ''mbind(flags=MPOL_MF_STRICT) not failed'' (
       exec get_errno (\<lambda>e. tp_assert (e \<noteq> EIO) (Some ''errno != EIO'') (drop_buf K buf (PAGE_SIZE cfg))))))"
      using nz
      by (intro runs_store [OF c, where m = 2])
        (simp_all add: page in_range_start n_region_bind mode_differs expect_failure_def kernel_rules [OF c] numa_rules strict [unfolded MPOL_MF_STRICT_def]
          MPOL_MF_STRICT_def MPOL_MF_MOVE_ALL_def)
    show ?thesis using facts(1,2) b run
      by (simp add: expect_ok_def kernel_rules [OF c] numa_rules spec_mbind_bindable call_simps)
  qed
  show ?thesis
    unfolding mbind_027_def
    by (rule runs_map_buf [OF c page_len(1,2) a])
      (use facts S in \<open>simp add: need_max_node_def need_nodes_def make_mask_def word_of_def kernel_rules [OF c] numa_rules step\<close>)
qed

end
