(* ===== verification/Numa_Suites.thy ===== *)
theory Numa_Suites
  imports Numa_Cases
begin

text \<open>
  The suites \<^verbatim>\<open>set_mempolicy\<close>, \<^verbatim>\<open>get_mempolicy\<close> and \<^verbatim>\<open>mbind\<close> as wholes: from the command line of a
  test case to its result on a kernel that meets the contract, and, on every kernel, what a test
  case leaves allocated and mapped.
\<close>

unbundle bit_operations_syntax

section \<open>The argument of the test cases\<close>

lemma show_base_head: "0 < n \<Longrightarrow> hd (show_base 10 n) \<noteq> CHR ''0''"
proof (induction n rule: less_induct)
  case (less n)
  show ?case
  proof (cases "n < 10")
    case True
    then have "char_code (digit_char n) = n + 48" by (simp add: code_digit_char)
    moreover have "char_code (CHR ''0'') = 48" by (simp add: char_code_def)
    ultimately have "digit_char n \<noteq> CHR ''0''" using less.prems by auto
    then show ?thesis using True by (simp add: show_base.simps [of 10 n])
  next
    case False
    then have "hd (show_base 10 n) = hd (show_base 10 (n div 10))" by (simp add: show_base.simps [of 10 n])
    then show ?thesis using less.IH [of "n div 10"] False by simp
  qed
qed

lemma strtoul_decimal:
  assumes "0 < n" "n < 2 ^ 64"
  shows "fst (strtoul 0 (show_base 10 n)) = of_nat n"
proof -
  obtain c cs where eq: "show_base 10 n = c # cs" by (cases "show_base 10 n") auto
  have c: "c \<noteq> CHR ''0''" using show_base_head [OF assms(1)] by (simp add: eq)
  then have "\<not> hex_prefix (c # cs)" by (cases "(c # cs)" rule: hex_prefix.cases) auto
  then have "detect_base 0 (c # cs) = (10, 0)" using c by (simp add: detect_base_def)
  moreover have "\<exists>d. digit_val c = Some d" using show_base_digits [of 10 n] eq by auto
  ultimately have "strto_raw 0 (show_base 10 n) = (False, n, length (show_base 10 n))"
    using scan_show_base [of 10 n] by (simp add: eq strto_raw_digits)
  then show ?thesis using assms(2) by (simp add: strtoul_def)
qed

lemma arg_analyze_decimal:
  assumes "0 < n" "n < 2 ^ 64"
  shows "arg_analyze [app, ''-n'', show_base 10 n] = of_nat n"
  using strtoul_decimal [OF assms] by (simp add: arg_analyze_def getopt_def is_option_def)

section \<open>The suites pass\<close>

lemma teardown_ends:
  "\<exists>t. teardown_empty num arg s = (Val (), t)"
  "\<exists>t. teardown_mask x num arg s = (Val (), t)"
  "\<exists>t. teardown_masks x y num arg s = (Val (), t)"
  "\<exists>t. teardown_buf K len num arg s = (Val (), t)"
  "\<exists>t. teardown_mask_buf K len num arg s = (Val (), t)"
  using sys_call_never_halts
  by (auto simp: teardown_empty_def teardown_mask_def teardown_masks_def teardown_buf_def teardown_mask_buf_def unmap_static_def
      destroy_node_mask_def exec_def ret_def get_static_def c_free_def emit_def munmap_def sys_call_def Let_def
      split: option.splits prod.splits sum.splits if_splits)

lemma numa_case_passes:
  assumes "runs N A a (N (kern s)) S (errno s) passed run" "a \<le> A (kern s)"
    and before: "setup num argv s = (Val (), s\<lparr>statics := S\<rparr>)" and behind: "\<And>t. \<exists>u. teardown num () t = (Val (), u)"
  shows "wp (run_test_case (numa_case suite num setup run teardown) argv) (\<lambda>r t. passed r) s"
proof -
  have "wp run (\<lambda>r t. passed r) (s\<lparr>statics := S\<rparr>)" using assms(1,2) by (intro runsD [OF assms(1)]) simp_all
  then show ?thesis using before behind
    unfolding run_test_case_def numa_case_def
    by (auto simp: wp_def exec_def ret_def passed_def split: prod.splits run.splits) (metis Pair_inject run.inject(1) run.distinct(1))
qed

text \<open>The start of a test case: the kernel's view and the arguments after \<^verbatim>\<open>--\<close>.\<close>

definition numa_start :: "page_config \<Rightarrow> ('k \<Rightarrow> numa_state) \<Rightarrow> ('k \<Rightarrow> nat) \<Rightarrow> u64 \<Rightarrow> string list \<Rightarrow> 'k \<Rightarrow> bool" where
  "numa_start cfg N A tmp_buf argv k \<longleftrightarrow>
     numa_ready cfg (arg_analyze argv) tmp_buf (N k) \<and> 7 * unat (PAGE_SIZE cfg) \<le> A k"

lemma setup_max_node_passes:
  assumes "\<And>S. S ''max_node'' = Some [arg_analyze argv] \<Longrightarrow> runs N A (A (kern s)) (N (kern s)) S (errno s) passed run"
    and "\<And>t. \<exists>u. teardown num () t = (Val (), u)"
  shows "wp (run_test_case (numa_case suite num setup_max_node run teardown) argv) (\<lambda>r t. passed r) s"
proof (rule numa_case_passes)
  let ?S = "(statics s)(''max_node'' := Some [arg_analyze argv])"
  show "runs N A (A (kern s)) (N (kern s)) ?S (errno s) passed run" by (rule assms(1)) simp
  show "setup_max_node num argv s = (Val (), s\<lparr>statics := ?S\<rparr>)" by (simp add: setup_max_node_def set_static_def)
qed (use assms(2) in simp_all)

lemma setup_empty_passes:
  assumes "runs N A (A (kern s)) (N (kern s)) (statics s) (errno s) passed run"
    and "\<And>t. \<exists>u. teardown num () t = (Val (), u)"
  shows "wp (run_test_case (numa_case suite num setup_empty run teardown) argv) (\<lambda>r t. passed r) s"
proof (rule numa_case_passes [where S = "statics s", OF assms(1) order.refl])
  show "setup_empty num argv s = (Val (), s\<lparr>statics := statics s\<rparr>)" by (simp add: setup_empty_def ret_def)
qed (use assms(2) in simp_all)

lemma numa_case_simps [simp]:
  "tc_suite (numa_case suite n setup run teardown) = suite" "tc_num (numa_case suite n setup run teardown) = n"
  by (simp_all add: numa_case_def)

lemma set_mempolicy_cases_pass:
  assumes c: "numa_contract cfg K N A" and "numa_start cfg N A tmp_buf argv (kern s)" and "tc \<in> set (set_mempolicy_cases K cfg tmp_buf)"
  shows "wp (run_test_case tc argv) (\<lambda>r t. passed r) s"
proof -
  have r: "numa_ready cfg (arg_analyze argv) tmp_buf (N (kern s))" using assms(2) by (simp add: numa_start_def)
  have "list_all (\<lambda>tc. wp (run_test_case tc argv) (\<lambda>r t. passed r) s) (set_mempolicy_cases K cfg tmp_buf)"
    unfolding set_mempolicy_cases_def
    by (simp, intro conjI setup_max_node_passes [where N = N and A = A] setup_empty_passes [where N = N and A = A] set_mempolicy_run [OF c r] set_mempolicy_001_run [OF c r]
        set_mempolicy_012_run [OF c r] set_mempolicy_plain_run [OF c r] teardown_ends)
  then show ?thesis using assms(3) by (simp add: list_all_iff)
qed

lemma get_mempolicy_cases_pass:
  assumes c: "numa_contract cfg K N A" and "numa_start cfg N A tmp_buf argv (kern s)" and "tc \<in> set (get_mempolicy_cases K cfg tmp_buf)"
    and "tc_num tc \<noteq> 18"
  shows "wp (run_test_case tc argv) (\<lambda>r t. passed r) s"
proof -
  have r: "numa_ready cfg (arg_analyze argv) tmp_buf (N (kern s))" and a: "unat (PAGE_SIZE cfg) \<le> A (kern s)"
    using assms(2) by (simp_all add: numa_start_def)
  note ok = stack_okI [OF c r]
  have "list_all (\<lambda>tc. tc_num tc \<noteq> 18 \<longrightarrow> wp (run_test_case tc argv) (\<lambda>r t. passed r) s) (get_mempolicy_cases K cfg tmp_buf)"
    unfolding get_mempolicy_cases_def
    by (simp, intro conjI setup_max_node_passes [where N = N and A = A] setup_empty_passes [where N = N and A = A] get_mempolicy_run [OF c r] get_mempolicy_plain_run [OF c r]
        get_mempolicy_addr_run [OF c r ok] get_mempolicy_bad_addr_run [OF c r ok] get_mempolicy_014_run [OF c a] teardown_ends)
  then show ?thesis using assms(3,4) by (simp add: list_all_iff)
qed

lemma mbind_cases_pass:
  assumes c: "numa_contract cfg K N A" and "numa_start cfg N A tmp_buf argv (kern s)" and "tc \<in> set (mbind_cases K cfg tmp_buf)"
    and "tc_num tc \<noteq> 27"
  shows "wp (run_test_case tc argv) (\<lambda>r t. passed r) s"
proof -
  have r: "numa_ready cfg (arg_analyze argv) tmp_buf (N (kern s))" and a: "7 * unat (PAGE_SIZE cfg) \<le> A (kern s)"
    using assms(2) by (simp_all add: numa_start_def)
  note ok = stack_okI [OF c r]
  have "list_all (\<lambda>tc. tc_num tc \<noteq> 27 \<longrightarrow> wp (run_test_case tc argv) (\<lambda>r t. passed r) s) (mbind_cases K cfg tmp_buf)"
    unfolding mbind_cases_def
    by (simp, intro conjI setup_max_node_passes [where N = N and A = A] setup_empty_passes [where N = N and A = A] mbind_run [OF c r ok] mbind_plain_run [OF c r ok]
        mbind_013_run [OF c r ok] mbind_028_run [OF c r ok] regions_run [OF c r _ a] teardown_ends)
  then show ?thesis using assms(3,4) by (simp add: list_all_iff)
qed

lemma numa_startI:
  assumes "numa_ready cfg (of_nat n) tmp_buf (N k)" "n_nodes (N k) = n" "7 * unat (PAGE_SIZE cfg) \<le> A k"
  shows "numa_start cfg N A tmp_buf [app, ''-n'', show_base 10 n] k"
proof -
  have "0 < n" "n < 2 ^ 15" using assms(1,2) by (simp_all add: numa_ready_def)
  then show ?thesis using assms(1,3) by (simp add: numa_start_def arg_analyze_decimal)
qed

lemma numa_runs_pass:
  assumes "numa_contract cfg K N A" "numa_ready cfg (of_nat n) tmp_buf (N (kern s))" "n_nodes (N (kern s)) = n"
    and "7 * unat (PAGE_SIZE cfg) \<le> A (kern s)"
    and "tc \<in> set (set_mempolicy_cases K cfg tmp_buf @ get_mempolicy_cases K cfg tmp_buf @ mbind_cases K cfg tmp_buf)"
    and "(tc_suite tc, tc_num tc) \<notin> {(''get_mempolicy'', 18), (''mbind'', 27)}"
  shows "wp (run_test_case tc [app, ''-n'', show_base 10 n]) (\<lambda>r t. passed r) s"
proof -
  have suites: "list_all (\<lambda>tc. tc_suite tc = ''get_mempolicy'') (get_mempolicy_cases K cfg tmp_buf)"
    "list_all (\<lambda>tc. tc_suite tc = ''mbind'') (mbind_cases K cfg tmp_buf)"
    by (simp_all add: get_mempolicy_cases_def mbind_cases_def)
  note start = numa_startI [where N = N and A = A and k = "kern s", OF assms(2-4)]
  consider "tc \<in> set (set_mempolicy_cases K cfg tmp_buf)"
    | "tc \<in> set (get_mempolicy_cases K cfg tmp_buf)" "tc_num tc \<noteq> 18"
    | "tc \<in> set (mbind_cases K cfg tmp_buf)" "tc_num tc \<noteq> 27"
    using assms(5,6) suites by (auto simp: list_all_iff)
  then show ?thesis
    using set_mempolicy_cases_pass [OF assms(1) start] get_mempolicy_cases_pass [OF assms(1) start] mbind_cases_pass [OF assms(1) start]
    by cases blast+
qed

text \<open>
  C18. On every kernel that meets the contract, with the number of nodes given after \<^verbatim>\<open>--\<close> (at least four,
  2 to 29 modulo 64), every test case of \<^verbatim>\<open>set_mempolicy\<close>, \<^verbatim>\<open>get_mempolicy\<close> and \<^verbatim>\<open>mbind\<close> passes, but
  for \<^verbatim>\<open>get_mempolicy\<close> 18, which the contract does not cover, and \<^verbatim>\<open>mbind\<close> 27.
\<close>

theorem numa_suites_pass:
  assumes "numa_contract cfg K N A" "numa_ready cfg (of_nat n) tmp_buf (N (kern s))" "n_nodes (N (kern s)) = n"
    and "7 * unat (PAGE_SIZE cfg) \<le> A (kern s)"
    and "tc \<in> set (set_mempolicy_cases K cfg tmp_buf @ get_mempolicy_cases K cfg tmp_buf @ mbind_cases K cfg tmp_buf)"
    and "(tc_suite tc, tc_num tc) \<notin> {(''get_mempolicy'', 18), (''mbind'', 27)}"
  shows "wp (run_test_case tc [app, ''-n'', show_base 10 n]) (\<lambda>r t. passed r) s"
  by (rule numa_runs_pass [OF assms])

lemma ref_numa_ready:
  assumes "PAGE_SIZE cfg \<le> stack" "unat stack + 2 * unat (PAGE_SIZE cfg) < 2 ^ 63"
    and "4 \<le> unat n" "unat n < 2 ^ 15" "2 \<le> unat n mod 64" "unat n mod 64 \<le> 29"
  shows "numa_ready cfg n stack (numa_view cfg (ref_numa_init cfg (unat n) stack))"
proof -
  have "user_addr cfg (stack + of_nat i) \<and> in_range stack (2 * PAGE_SIZE cfg) (stack + of_nat i)" if "i < 2 * unat (PAGE_SIZE cfg)" for i
  proof -
    have "unat stack + i < SPACE" using that assms(2) by (simp add: SPACE_def)
    then have s: "unat (stack + of_nat i) = unat stack + i" by (rule unat_add_fits)
    have P: "unat (2 * PAGE_SIZE cfg) = 2 * unat (PAGE_SIZE cfg)" by (cases cfg) (simp_all add: page_size_cases)
    have "unat (of_nat i :: u64) = i" using that by (cases cfg) (simp_all add: page_size_cases unat_of_nat)
    then show ?thesis using that s assms(1,2) by (simp add: user_addr_def in_range_def word_le_nat_alt word_less_nat_alt P)
  qed
  then show ?thesis using assms(3-6) by (simp add: numa_ready_def numa_view_def user_view_def ref_numa_init_def)
qed

lemma ref_numa_room: "7 * unat (PAGE_SIZE cfg) \<le> numa_room cfg (ref_numa_init cfg n stack)"
  by (cases cfg) (simp_all add: numa_room_def ref_numa_init_def page_size_cases LIMIT_def)

definition four_nodes :: ref_numa where
  "four_nodes = ref_numa_init Pages4K 4 0x7f00001000"

lemma four_nodes_facts:
  "numa_ready Pages4K (of_nat 4) 0x7f00001000 (numa_view Pages4K four_nodes)"
  "n_nodes (numa_view Pages4K four_nodes) = 4"
  "7 * unat (PAGE_SIZE Pages4K) \<le> numa_room Pages4K four_nodes"
proof -
  show "numa_ready Pages4K (of_nat 4) 0x7f00001000 (numa_view Pages4K four_nodes)"
    using ref_numa_ready [of Pages4K "0x7f00001000" 4] by (simp add: four_nodes_def page_size_cases word_le_nat_alt)
  show "n_nodes (numa_view Pages4K four_nodes) = 4" by (simp add: four_nodes_def numa_view_def user_view_def ref_numa_init_def)
  show "7 * unat (PAGE_SIZE Pages4K) \<le> numa_room Pages4K four_nodes" unfolding four_nodes_def by (rule ref_numa_room)
qed

theorem numa_suites_pass_witness:
  "wp (run_test_case (mbind_cases (ref_numa_os Pages4K) Pages4K 0x7f00001000 ! 15) [''test_mck'', ''-n'', show_base 10 4])
      (\<lambda>r t. passed r) (fresh_process four_nodes)"
proof -
  let ?cases = "mbind_cases (ref_numa_os Pages4K) Pages4K 0x7f00001000"
  have case15: "15 < length ?cases" "tc_num (?cases ! 15) = 15" by (simp_all add: mbind_cases_def)
  from nth_mem [OF case15(1)]
  have "?cases ! 15 \<in> set (set_mempolicy_cases (ref_numa_os Pages4K) Pages4K 0x7f00001000
      @ get_mempolicy_cases (ref_numa_os Pages4K) Pages4K 0x7f00001000 @ ?cases)" by (simp only: set_append Un_iff simp_thms)
  then show ?thesis
    by (rule numa_suites_pass [OF ref_numa_contract, rotated 3]) (use four_nodes_facts case15(2) in \<open>simp_all add: fresh_process_def\<close>)
qed

lemma mbind_027_result:
  assumes "numa_contract cfg K N A" "numa_ready cfg (of_nat n) tmp_buf (N (kern s))" "n_nodes (N (kern s)) = n"
    and "7 * unat (PAGE_SIZE cfg) \<le> A (kern s)"
  shows "fst (run_test_case (mbind_cases K cfg tmp_buf ! 27) [app, ''-n'', show_base 10 n] s) = Val (Some ''errno != EIO'')"
proof -
  have start: "numa_start cfg N A tmp_buf [app, ''-n'', show_base 10 n] (kern s)" by (rule numa_startI [where N = N and A = A and k = "kern s", OF assms(2-4)])
  then have r: "numa_ready cfg (arg_analyze [app, ''-n'', show_base 10 n]) tmp_buf (N (kern s))" by (simp add: numa_start_def)
  let ?S = "(statics s)(''max_node'' := Some [arg_analyze [app, ''-n'', show_base 10 n]])"
  have "runs N A (A (kern s)) (N (kern s)) ?S (errno s) (\<lambda>r. r = Val (Some ''errno != EIO'')) (mbind_027 K cfg)"
    using assms(4) by (intro mbind_027_run [OF assms(1) r]) simp_all
  then have "wp (mbind_027 K cfg) (\<lambda>r t. r = Val (Some ''errno != EIO'')) (s\<lparr>statics := ?S\<rparr>)" by (rule runsD) simp_all
  then obtain t where "mbind_027 K cfg (s\<lparr>statics := ?S\<rparr>) = (Val (Some ''errno != EIO''), t)" by (auto simp: wp_def split: prod.splits)
  moreover obtain u where "teardown_mask_buf K (PAGE_SIZE cfg) 27 () t = (Val (), u)" using teardown_ends(5) by blast
  moreover have "mbind_cases K cfg tmp_buf ! 27 = numa_case ''mbind'' 27 setup_max_node (mbind_027 K cfg) (teardown_mask_buf K (PAGE_SIZE cfg))"
    by (simp add: mbind_cases_def)
  ultimately show ?thesis by (simp add: run_test_case_def numa_case_def setup_max_node_def set_static_def exec_def ret_def)
qed

text \<open>
  \<^verbatim>\<open>mbind\<close> 27 asserts the opposite of what it tests: on every such kernel, which refuses the strict
  call with \<^verbatim>\<open>EIO\<close>, the test case reports \<^verbatim>\<open>errno != EIO\<close> and fails.
\<close>

theorem mbind_027_fails:
  assumes "numa_contract cfg K N A" "numa_ready cfg (of_nat n) tmp_buf (N (kern s))" "n_nodes (N (kern s)) = n"
    and "7 * unat (PAGE_SIZE cfg) \<le> A (kern s)"
  shows "fst (run_test_case (mbind_cases K cfg tmp_buf ! 27) [app, ''-n'', show_base 10 n] s) = Val (Some ''errno != EIO'')"
  by (rule mbind_027_result [OF assms])

theorem mbind_027_fails_witness:
  "fst (run_test_case (mbind_cases (ref_numa_os Pages4K) Pages4K 0x7f00001000 ! 27) [''test_mck'', ''-n'', show_base 10 4]
     (fresh_process four_nodes)) = Val (Some ''errno != EIO'')"
  by (rule mbind_027_fails [OF ref_numa_contract]) (use four_nodes_facts in \<open>simp_all add: fresh_process_def\<close>)

section \<open>What a test case leaves behind\<close>

text \<open>The mapped areas a trace leaves: address and length of every successful \<^verbatim>\<open>mmap\<close>, less those unmapped.\<close>

fun area_step :: "event \<Rightarrow> (int \<times> int) multiset \<Rightarrow> (int \<times> int) multiset" where
  "area_step (Called nm args r) m =
     (if nm = Mmap \<and> r \<noteq> uint MAP_FAILED then (case args of _ # AInt len # _ \<Rightarrow> add_mset (r, len) m | _ \<Rightarrow> m)
      else if nm = Munmap then (case args of [AInt a, AInt len] \<Rightarrow> m - {#(a, len)#} | _ \<Rightarrow> m)
      else m)"
| "area_step (Printed fmt args) m = m"

definition live_areas :: "event list \<Rightarrow> (int \<times> int) multiset" where
  "live_areas tr = fold area_step tr {#}"

lemma live_areas_append [simp]: "live_areas (tr @ evs) = fold area_step evs (live_areas tr)"
  by (simp add: live_areas_def)

lemma area_step_failed: "(uint MAP_FAILED, n) \<notin># m \<Longrightarrow> (uint MAP_FAILED, n) \<notin># area_step ev m"
  by (cases ev) (auto split: list.splits arg.splits dest: in_diffD)

lemma live_areas_failed: "(uint MAP_FAILED, n) \<notin># live_areas tr"
  unfolding live_areas_def
  by (rule fold_invariant [where P = "\<lambda>m. (uint MAP_FAILED, n) \<notin># m" and Q = "\<lambda>_. True"]) (simp_all add: area_step_failed)

text \<open>
  \<open>owns L h D len U V B s\<close>: beyond the areas \<open>L\<close> and the \<open>h\<close> heap blocks it started with, the process
  holds exactly one block for each static pointer in \<open>D\<close> that is not \<^verbatim>\<open>NULL\<close>, and, if \<open>len\<close> is given, the
  area of that length at the static \<^verbatim>\<open>buf\<close> unless it is \<^verbatim>\<open>MAP_FAILED\<close>. The names in \<open>U\<close> are still unset,
  those in \<open>V\<close> set, and \<open>B\<close> is the known value of \<^verbatim>\<open>buf\<close>.
\<close>

fun held :: "string list \<Rightarrow> (string \<Rightarrow> u64 list option) \<Rightarrow> int" where
  "held [] S = 0"
| "held (x # xs) S = (if S x = None then 0 else 1) + held xs S"

definition buf_area :: "u64 option \<Rightarrow> u64 list option \<Rightarrow> (int \<times> int) multiset" where
  "buf_area len v = (case len of None \<Rightarrow> {#} | Some n \<Rightarrow>
     if word_of v MAP_FAILED = MAP_FAILED then {#} else {#(uint (word_of v MAP_FAILED), uint n)#})"

definition owns ::
    "(int \<times> int) multiset \<Rightarrow> int \<Rightarrow> string list \<Rightarrow> u64 option \<Rightarrow> string list \<Rightarrow> string list \<Rightarrow> u64 option \<Rightarrow> 'k machine \<Rightarrow> bool" where
  "owns L h D len U V B s \<longleftrightarrow>
     live_areas (trace s) = L + buf_area len (statics s ''buf'') \<and> heap_blocks (trace s) = h + held D (statics s)
     \<and> (\<forall>x\<in>set U. statics s x = None) \<and> (\<forall>x\<in>set V. statics s x \<noteq> None)
     \<and> (\<forall>b. B = Some b \<longrightarrow> statics s ''buf'' = Some [b])
     \<and> (\<forall>n. (uint MAP_FAILED, n) \<notin># L) \<and> distinct D \<and> ''buf'' \<notin> set D"

definition keeps :: "string list \<Rightarrow> u64 option \<Rightarrow> string list \<Rightarrow> string list \<Rightarrow> u64 option \<Rightarrow> ('k, string option) prog \<Rightarrow> bool" where
  "keeps D len U V B m \<longleftrightarrow>
     (\<forall>L h s. owns L h D len U V B s \<longrightarrow> wp m (\<lambda>r t. \<forall>v. r = Val v \<longrightarrow> owns L h D len [] [] None t) s)"

named_theorems keeps_rules \<open>resource accounting of the test functions\<close>

lemma held_cong: "(\<And>x. x \<in> set D \<Longrightarrow> S x = None \<longleftrightarrow> S' x = None) \<Longrightarrow> held D S = held D S'"
  by (induction D) auto

lemma held_set: "distinct D \<Longrightarrow> x \<in> set D \<Longrightarrow> S x = None \<Longrightarrow> held D (S(x := Some w)) = held D S + 1"
proof (induction D)
  case (Cons y D)
  show ?case
  proof (cases "y = x")
    case True
    then have "held D (S(x := Some w)) = held D S" using Cons.prems by (intro held_cong) auto
    then show ?thesis using Cons.prems(3) by (simp only: True held.simps fun_upd_same option.distinct if_True if_False refl)
  next
    case False
    then have "distinct D" "x \<in> set D" using Cons.prems by auto
    note Cons.IH [OF this Cons.prems(3)]
    then show ?thesis using False by (simp only: held.simps fun_upd_other not_False_eq_True add.assoc)
  qed
qed simp

lemma owns_weaken: "owns L h D len U V B s \<Longrightarrow> owns L h D len [] [] None s"
  by (simp add: owns_def)

lemma keepsI: "(\<And>L h s. owns L h D len U V B s \<Longrightarrow> wp m (\<lambda>r t. \<forall>v. r = Val v \<longrightarrow> owns L h D len [] [] None t) s) \<Longrightarrow> keeps D len U V B m"
  by (simp add: keeps_def)

lemma keepsD: "keeps D len U V B m \<Longrightarrow> owns L h D len U V B s \<Longrightarrow> wp m (\<lambda>r t. \<forall>v. r = Val v \<longrightarrow> owns L h D len [] [] None t) s"
  by (simp add: keeps_def)

text \<open>Statements that touch neither the heap nor the mappings, and set no static pointer to or from \<^verbatim>\<open>NULL\<close>.\<close>

definition idle :: "('k, 'a) prog \<Rightarrow> bool" where
  "idle m \<longleftrightarrow> (\<forall>s. wp m (\<lambda>r t. \<forall>v. r = Val v \<longrightarrow>
     live_areas (trace t) = live_areas (trace s) \<and> heap_blocks (trace t) = heap_blocks (trace s)
     \<and> (\<forall>x. statics t x = None \<longleftrightarrow> statics s x = None) \<and> statics t ''buf'' = statics s ''buf'') s)"

lemma idleD:
  assumes "idle m" "m s = (Val v, t)"
  shows "live_areas (trace t) = live_areas (trace s)" "heap_blocks (trace t) = heap_blocks (trace s)"
    "statics t x = None \<longleftrightarrow> statics s x = None" "statics t ''buf'' = statics s ''buf''"
  using wpD [OF assms(1) [unfolded idle_def, rule_format] assms(2)] by simp_all

lemma keeps_exec [keeps_rules]:
  assumes "idle m" and "\<And>v. keeps D len U V B (f v)"
  shows "keeps D len U V B (exec m f)"
proof (rule keepsI)
  fix L h and s :: "'a machine"
  assume o: "owns L h D len U V B s"
  show "wp (exec m f) (\<lambda>r t. \<forall>v. r = Val v \<longrightarrow> owns L h D len [] [] None t) s"
  proof (rule wpI)
    fix r t
    assume "exec m f s = (r, t)"
    then show "\<forall>v. r = Val v \<longrightarrow> owns L h D len [] [] None t"
    proof (cases rule: exec_cases)
      case (val v u)
      have u: "live_areas (trace u) = live_areas (trace s)" "heap_blocks (trace u) = heap_blocks (trace s)"
        "\<And>x. statics u x = None \<longleftrightarrow> statics s x = None" "statics u ''buf'' = statics s ''buf''"
        using idleD [OF assms(1) val(1)] by simp_all
      have "held D (statics u) = held D (statics s)" by (rule held_cong) (rule u(3))
      then have "owns L h D len U V B u" using o u unfolding owns_def by simp
      from keepsD [OF assms(2) this] val(2) show ?thesis by (rule wpD)
    qed simp
  qed
qed

lemma keeps_ret [keeps_rules]: "keeps D len U V B (ret v)"
  by (rule keepsI) (auto intro!: wp_ret dest: owns_weaken)

lemma keeps_stop [keeps_rules]: "keeps D len U V B (stop h)"
  by (rule keepsI) (auto intro!: wp_stop)

lemma keeps_tp_assert [keeps_rules]: "keeps D len U V B k \<Longrightarrow> keeps D len U V B (tp_assert b msg k)"
  by (cases b) (simp_all add: keeps_ret)

lemma keeps_if [keeps_rules]: "keeps D len U V B m \<Longrightarrow> keeps D len U V B n \<Longrightarrow> keeps D len U V B (if b then m else n)"
  by simp

text \<open>Idle statements.\<close>

lemma idle_ret [keeps_rules]: "idle (ret v)"
  by (simp add: idle_def wp_ret)

lemma idle_exec [keeps_rules]:
  assumes "idle m" "\<And>v. idle (f v)"
  shows "idle (exec m f)"
  unfolding idle_def
proof (intro allI wpI impI)
  fix s t r v
  assume "exec m f s = (r, t)" "r = Val v"
  then obtain w u where "m s = (Val w, u)" "f w u = (Val v, t)" by (auto elim: exec_cases)
  note idleD [OF assms(1) this(1)] idleD [OF assms(2) this(2)]
  then show "live_areas (trace t) = live_areas (trace s) \<and> heap_blocks (trace t) = heap_blocks (trace s)
     \<and> (\<forall>x. statics t x = None \<longleftrightarrow> statics s x = None) \<and> statics t ''buf'' = statics s ''buf''" by simp
qed

lemma idle_printf [keeps_rules]: "idle (printf fmt args)"
  by (auto simp: idle_def heap_blocks_append intro!: wp_emit)

lemma idle_get_errno [keeps_rules]: "idle get_errno"
  by (auto simp: idle_def intro!: wp_get_errno)

lemma idle_get_static [keeps_rules]: "idle (get_static x)"
  by (auto simp: idle_def intro!: wp_get_static)

lemma idle_stop [keeps_rules]: "idle (stop h)"
  by (auto simp: idle_def intro!: wp_stop)

lemma idle_sys_call:
  assumes "nm \<notin> {Mmap, Munmap, Malloc, Free, Asprintf}"
  shows "idle (sys_call nm args enc fail f)"
  using assms by (auto simp: idle_def heap_blocks_append intro!: wp_sys_call)

lemma idle_calls [keeps_rules]:
  "idle (set_mempolicy K mode nm mx)" "idle (get_mempolicy K mo nm mx addr flags)" "idle (mbind K addr len mode nm mx fl)"
  by (simp_all add: set_mempolicy_def get_mempolicy_def mbind_def idle_sys_call)

lemma idle_store [keeps_rules]: "idle (store K a b)"
  unfolding idle_def
  by (auto simp: wp_def store_def raise_signal_def stop_def split: prod.splits sum.splits option.splits)

lemma idle_print_words [keeps_rules]: "idle (print_words ws)"
  by (induction ws) (simp_all add: keeps_rules)

lemma idle_get_plain_policy [keeps_rules]: "idle (get_plain_policy K mode mx addr flags)"
  unfolding get_plain_policy_def by (intro keeps_rules) (auto split: prod.splits intro: keeps_rules)

lemma idle_node_mask_check [keeps_rules]: "idle (node_mask_check ws nr bits)"
proof -
  have "idle (node_mask_check_loop ws nr bits n)" for n
    by (induction n) (auto simp: keeps_rules split: option.splits)
  then show ?thesis by (simp add: node_mask_check_def)
qed

lemma idle_mbind_check [keeps_rules]: "idle (mbind_check K cfg es ws max_node ptr flags)"
proof -
  have "idle (mbind_check_from K cfg i es ws max_node ptr flags)" for i es ws
    by (induction K cfg i es ws max_node ptr flags rule: mbind_check_from.induct)
      (auto simp: keeps_rules split: prod.splits intro!: keeps_rules)
  then show ?thesis by (simp add: mbind_check_def)
qed

text \<open>The statement blocks.\<close>

lemma keeps_case_prod [keeps_rules]: "(\<And>a b. keeps D len U V B (f a b)) \<Longrightarrow> keeps D len U V B (case x of (a, b) \<Rightarrow> f a b)"
  by (cases x) simp

lemma idle_get_static_policy [keeps_rules]:
  assumes "x \<noteq> ''buf''"
  shows "idle (get_static_policy K x mode mx addr flags)"
  unfolding idle_def
proof (intro allI wpI impI)
  fix s t r v
  assume "get_static_policy K x mode mx addr flags s = (r, t)" "r = Val v"
  moreover have "\<exists>z u. get_mempolicy K mode (statics s x) mx addr flags s = (Val z, u)"
    unfolding get_mempolicy_def by (rule sys_call_never_halts)
  then obtain z u where "get_mempolicy K mode (statics s x) mx addr flags s = (Val z, u)" by blast
  moreover obtain q m ws where "z = (q, m, ws)" by (rule prod_cases3)
  ultimately have call: "get_mempolicy K mode (statics s x) mx addr flags s = (Val (q, m, ws), u)"
    and t: "t = u\<lparr>statics := (statics u)(x := ws)\<rparr>"
    by (auto simp: get_static_policy_def exec_def get_static_def set_static_def ret_def)
  have "ws = None \<longleftrightarrow> statics s x = None"
    using call by (auto simp: get_mempolicy_def sys_call_def split: prod.splits sum.splits)
  then show "live_areas (trace t) = live_areas (trace s) \<and> heap_blocks (trace t) = heap_blocks (trace s)
     \<and> (\<forall>y. statics t y = None \<longleftrightarrow> statics s y = None) \<and> statics t ''buf'' = statics s ''buf''"
    using idleD [OF idle_calls(2) call] assms by (auto simp: t)
qed

lemma keeps_with_word0 [keeps_rules]: "(\<And>w. keeps D len U V B (k w)) \<Longrightarrow> keeps D len U V B (with_word0 x k)"
  unfolding with_word0_def by (intro keeps_rules) (auto split: option.splits list.splits intro: keeps_rules)

lemma owns_set_static:
  assumes "owns L h D len U V B s" "x \<noteq> ''buf''" "statics s x \<noteq> None"
  shows "owns L h D len U V B (s\<lparr>statics := (statics s)(x := Some w)\<rparr>)"
proof -
  have "held D ((statics s)(x := Some w)) = held D (statics s)" using assms(3) by (intro held_cong) auto
  then show ?thesis using assms unfolding owns_def by auto
qed

lemma keeps_set_static:
  assumes "x \<in> set V" "x \<noteq> ''buf''" "keeps D len U V B k"
  shows "keeps D len U V B (exec (set_static x (Some w)) (\<lambda>_. k))"
proof (rule keepsI)
  fix L h and s :: "'a machine"
  assume o: "owns L h D len U V B s"
  then have "statics s x \<noteq> None" using assms(1) by (simp add: owns_def)
  from keepsD [OF assms(3) owns_set_static [OF o assms(2) this]]
  show "wp (exec (set_static x (Some w)) (\<lambda>_. k)) (\<lambda>r t. \<forall>v. r = Val v \<longrightarrow> owns L h D len [] [] None t) s"
    by (simp add: wp_def exec_def set_static_def)
qed

lemma keeps_put_word0 [keeps_rules]:
  assumes "x \<noteq> ''buf''" "keeps D len U V B k"
  shows "keeps D len U V B (put_word0 x w k)"
proof (rule keepsI)
  fix L h and s :: "'a machine"
  assume o: "owns L h D len U V B s"
  show "wp (put_word0 x w k) (\<lambda>r t. \<forall>v. r = Val v \<longrightarrow> owns L h D len [] [] None t) s"
  proof (cases "statics s x")
    case (Some ws)
    with keepsD [OF assms(2) owns_set_static [OF o assms(1)]] show ?thesis
      by (cases ws) (auto simp: put_word0_def wp_def exec_def get_static_def set_static_def stop_def)
  qed (simp add: put_word0_def wp_def exec_def get_static_def stop_def)
qed

lemma keeps_zero_words: "keeps D len U V B k \<Longrightarrow> keeps D len U V B (zero_words ws k)"
  by (induction ws) (simp_all add: keeps_rules)

lemma keeps_masks [keeps_rules]:
  "keeps D len U V B k \<Longrightarrow> keeps D len U V B (check_zero_mask x nr k)"
  "keeps D len U V B k \<Longrightarrow> keeps D len U V B (print_mask title x nr k)"
  "keeps D len U V B k \<Longrightarrow> keeps D len U V B (check_all_nodes x nr max_node k)"
  "x \<in> set V \<Longrightarrow> x \<noteq> ''buf'' \<Longrightarrow> keeps D len U V B k \<Longrightarrow> keeps D len U V B (fill_mask x nr max_node k)"
  by (auto simp: check_zero_mask_def print_mask_def check_all_nodes_def fill_mask_def expect_ok_def keeps_rules keeps_zero_words keeps_set_static
      split: option.splits intro!: keeps_rules)

lemma keeps_make_mask [keeps_rules]:
  assumes "x \<in> set U" "x \<in> set D" "\<And>nr. keeps D len (filter (\<lambda>y. y \<noteq> x) U) (x # V) B (k nr)"
  shows "keeps D len U V B (make_mask K x n msg k)"
proof (rule keepsI)
  fix L h and s :: "'a machine"
  assume o: "owns L h D len U V B s"
  let ?nr = "node_mask_words n"
  obtain ok k' where call: "os_alloc K (unat (?nr * 8)) (kern s) = (ok, k')" by (cases "os_alloc K (unat (?nr * 8)) (kern s)")
  let ?u = "after (errno s) k' (Called Malloc [AInt (int (unat (?nr * 8)))] (if ok then 1 else 0)) s"
  let ?p = "if ok then Some (replicate (unat ?nr) 0) else None"
  let ?t = "?u\<lparr>statics := (statics s)(x := ?p)\<rparr>"
  have run: "make_mask K x n msg k s = (if ok then k ?nr ?t else (Val (Some msg), ?t))"
    using call by (simp add: make_mask_def create_node_mask_eq exec_def c_malloc_def set_static_def ret_def)
  have x: "statics s x = None" "x \<noteq> ''buf''" "distinct D" using o assms(1,2) by (auto simp: owns_def)
  show "wp (make_mask K x n msg k) (\<lambda>r t. \<forall>v. r = Val v \<longrightarrow> owns L h D len [] [] None t) s"
  proof (cases ok)
    case True
    have "held D ((statics s)(x := ?p)) = held D (statics s) + 1" using x True assms(2) by (simp only: if_True held_set)
    then have "owns L h D len (filter (\<lambda>y. y \<noteq> x) U) (x # V) B ?t"
      using o x True unfolding owns_def by (auto simp: heap_blocks_append)
    from keepsD [OF assms(3) this] show ?thesis using True run by (simp add: wp_def)
  next
    case False
    have "(statics s)(x := None) = statics s" using x(1) by (simp add: fun_upd_idem)
    then have "owns L h D len [] [] None ?t" using o False unfolding owns_def by (simp add: heap_blocks_append)
    then show ?thesis using False run by (simp add: wp_def)
  qed
qed

lemma keeps_map_buf [keeps_rules]:
  assumes "''buf'' \<in> set U" "len = Some n" "\<And>buf. keeps D len (filter (\<lambda>y. y \<noteq> ''buf'') U) V (Some buf) (k buf)"
  shows "keeps D len U V B (map_buf K n k)"
proof (rule keepsI)
  fix L h and s :: "'a machine"
  assume o: "owns L h D len U V B s"
  have "\<exists>b u. mmap K 0 n (PROT_READ OR PROT_WRITE) (MAP_PRIVATE OR MAP_ANONYMOUS) (-1) 0 s = (Val b, u)"
    unfolding mmap_def by (rule sys_call_never_halts)
  then obtain b u where call: "mmap K 0 n (PROT_READ OR PROT_WRITE) (MAP_PRIVATE OR MAP_ANONYMOUS) (-1) 0 s = (Val b, u)" by blast
  then obtain e k' where u: "u = after e k' (Called Mmap [AInt (uint (0::u64)), AInt (uint n), AInt (uint (PROT_READ OR PROT_WRITE)),
      AInt (uint (MAP_PRIVATE OR MAP_ANONYMOUS)), AInt (-1), AInt (uint (0::u64))] (uint b)) s"
    by (auto simp: mmap_def sys_call_def split: prod.splits sum.splits)
  let ?t = "u\<lparr>statics := (statics s)(''buf'' := Some [b])\<rparr>"
  have "held D ((statics s)(''buf'' := Some [b])) = held D (statics s)" using o by (intro held_cong) (auto simp: owns_def)
  moreover have "uint b = uint MAP_FAILED \<longleftrightarrow> b = MAP_FAILED" by (simp add: word_uint_eq_iff)
  ultimately have "owns L h D len (filter (\<lambda>y. y \<noteq> ''buf'') U) V (Some b) ?t"
    using o assms(1,2) u unfolding owns_def by (auto simp: heap_blocks_append buf_area_def word_of_def)
  from keepsD [OF assms(3) this]
  show "wp (map_buf K n k) (\<lambda>r t. \<forall>v. r = Val v \<longrightarrow> owns L h D len [] [] None t) s"
    using call u by (simp add: map_buf_def wp_def exec_def set_static_def)
qed

lemma munmap_eq: "\<exists>e k' r. munmap K b n s = (Val r, after e k' (Called Munmap [AInt (uint b), AInt (uint n)] r) s)"
  by (auto simp: munmap_def sys_call_def split: prod.splits sum.splits)

lemma keeps_drop_buf [keeps_rules]:
  assumes "B = Some buf" "len = Some n"
  shows "keeps D len U V B (drop_buf K buf n)"
proof (rule keepsI)
  fix L h and s :: "'a machine"
  assume o: "owns L h D len U V B s"
  obtain e k' r where call: "munmap K buf n s = (Val r, after e k' (Called Munmap [AInt (uint buf), AInt (uint n)] r) s)"
    using munmap_eq [of K buf n s] by blast
  have "held D ((statics s)(''buf'' := Some [MAP_FAILED])) = held D (statics s)" using o by (intro held_cong) (auto simp: owns_def)
  then have "owns L h D len [] [] None ((after e k' (Called Munmap [AInt (uint buf), AInt (uint n)] r) s)
      \<lparr>statics := (statics s)(''buf'' := Some [MAP_FAILED])\<rparr>)"
    using o assms unfolding owns_def by (auto simp: heap_blocks_append buf_area_def word_of_def diff_single_trivial split: if_splits)
  then show "wp (drop_buf K buf n) (\<lambda>r t. \<forall>v. r = Val v \<longrightarrow> owns L h D len [] [] None t) s"
    using call by (simp add: drop_buf_def wp_def exec_def set_static_def ret_def)
qed

lemma keeps_bind_regions [keeps_rules]: "keeps D len U V B k \<Longrightarrow> keeps D len U V B (bind_regions K cfg max_node buf i ms k)"
  by (induction ms arbitrary: i) (auto simp: Let_def intro!: keeps_rules)

lemma keeps_check_regions [keeps_rules]:
  assumes "''node_mask'' \<in> set V" "keeps D len U V B k"
  shows "keeps D len U V B (check_regions K cfg es max_node buf k)"
  unfolding check_regions_def using assms
  by (auto simp: keeps_rules keeps_set_static split: option.splits)

text \<open>Every teardown releases what its test function may hold.\<close>

lemma owns_start:
  assumes "statics s = (\<lambda>_. None)" "distinct D" "''buf'' \<notin> set D"
  shows "owns (live_areas (trace s)) (heap_blocks (trace s)) D len U [] None s"
proof -
  have "held D (\<lambda>_. None) = 0" by (induction D) simp_all
  then show ?thesis using assms live_areas_failed by (simp add: owns_def buf_area_def word_of_def split: option.split)
qed

definition released :: "(int \<times> int) multiset \<Rightarrow> int \<Rightarrow> 'k machine \<Rightarrow> bool" where
  "released L h t \<longleftrightarrow> live_areas (trace t) = L \<and> heap_blocks (trace t) = h"

lemma destroy_eq: "destroy_node_mask v s = (Val (), logged (if v = None then [] else [Called Free [] 0]) s)"
  by (cases v) (simp_all add: destroy_node_mask_def ret_def c_free_def emit_def)

lemma teardown_mask_eq: "teardown_mask x num arg s = (Val (), logged (if statics s x = None then [] else [Called Free [] 0]) s)"
  by (simp add: teardown_mask_def exec_def get_static_def destroy_eq)

lemma unmap_static_releases:
  assumes "owns L h D (Some n) U V B s"
  shows "wp (unmap_static K ''buf'' n) (\<lambda>r t. live_areas (trace t) = L \<and> heap_blocks (trace t) = heap_blocks (trace s)) s"
proof -
  let ?b = "word_of (statics s ''buf'') MAP_FAILED"
  obtain e k' r where "munmap K ?b n s = (Val r, after e k' (Called Munmap [AInt (uint ?b), AInt (uint n)] r) s)"
    using munmap_eq [of K ?b n s] by blast
  then show ?thesis using assms
    by (auto simp: owns_def buf_area_def unmap_static_def exec_def get_static_def wp_def ret_def heap_blocks_append Let_def)
qed

lemma teardown_releases:
  "owns L h [] None [] [] None s \<Longrightarrow> wp (teardown_empty num arg) (\<lambda>r t. released L h t) s"
  "owns L h [x] None [] [] None s \<Longrightarrow> wp (teardown_mask x num arg) (\<lambda>r t. released L h t) s"
  "owns L h [x, y] None [] [] None s \<Longrightarrow> wp (teardown_masks x y num arg) (\<lambda>r t. released L h t) s"
  "owns L h [] (Some n) [] [] None s \<Longrightarrow> wp (teardown_buf K n num arg) (\<lambda>r t. released L h t) s"
proof -
  show "owns L h [] None [] [] None s \<Longrightarrow> wp (teardown_empty num arg) (\<lambda>r t. released L h t) s"
    by (simp add: owns_def buf_area_def teardown_empty_def wp_ret released_def)
  show "owns L h [x] None [] [] None s \<Longrightarrow> wp (teardown_mask x num arg) (\<lambda>r t. released L h t) s"
    by (auto simp: owns_def buf_area_def wp_def teardown_mask_eq released_def heap_blocks_append)
  show "owns L h [x, y] None [] [] None s \<Longrightarrow> wp (teardown_masks x y num arg) (\<lambda>r t. released L h t) s"
    by (auto simp: owns_def buf_area_def wp_def teardown_masks_def exec_def get_static_def destroy_eq released_def heap_blocks_append)
  assume o: "owns L h [] (Some n) [] [] None s"
  then have "heap_blocks (trace s) = h" by (simp add: owns_def)
  with unmap_static_releases [OF o, of K] show "wp (teardown_buf K n num arg) (\<lambda>r t. released L h t) s"
    unfolding teardown_buf_def released_def by (auto elim: wp_mono)
qed

lemma teardown_mask_buf_releases:
  assumes "owns L h [''node_mask''] (Some n) [] [] None s"
  shows "wp (teardown_mask_buf K n num arg) (\<lambda>r t. released L h t) s"
proof -
  let ?t = "logged (if statics s ''node_mask'' = None then [] else [Called Free [] 0]) s"
  have "owns L h [] (Some n) [] [] None ?t" using assms by (auto simp: owns_def heap_blocks_append)
  from teardown_releases(4) [OF this, of K num arg] show ?thesis
    by (simp add: teardown_mask_buf_def teardown_buf_def exec_def teardown_mask_eq wp_def)
qed

lemma case_releases:
  assumes "keeps D len (''buf'' # D) [] None run" "distinct D" "''buf'' \<notin> set D" "''max_node'' \<notin> set D"
    and "setup = setup_max_node \<or> setup = setup_empty"
    and behind: "\<And>L h t. owns L h D len [] [] None t \<Longrightarrow> wp (teardown num ()) (\<lambda>r u. released L h u) t"
    and s: "statics s = (\<lambda>_. None)"
  shows "wp (run_test_case (numa_case suite num setup run teardown) argv)
    (\<lambda>r t. (\<exists>v. r = Val v) \<longrightarrow> released (live_areas (trace s)) (heap_blocks (trace s)) t) s"
proof (rule wpI, rule impI, elim exE)
  fix r t v
  let ?L = "live_areas (trace s)" and ?h = "heap_blocks (trace s)"
  assume run: "run_test_case (numa_case suite num setup run teardown) argv s = (r, t)" "r = Val v"
  define S where "S = (if setup = setup_empty then statics s else (statics s)(''max_node'' := Some [arg_analyze argv]))"
  have S: "setup num argv s = (Val (), s\<lparr>statics := S\<rparr>)" "\<And>x. x \<noteq> ''max_node'' \<Longrightarrow> S x = None"
    using assms(5) s unfolding S_def by (auto simp: setup_max_node_def set_static_def setup_empty_def ret_def)
  have D: "S x = None" if "x \<in> set (''buf'' # D)" for x using that assms(4) by (intro S(2)) auto
  then have "held D S = held D (\<lambda>_. None)" by (intro held_cong) simp
  with D have "owns ?L ?h D len (''buf'' # D) [] None (s\<lparr>statics := S\<rparr>)"
    using owns_start [OF s assms(2,3), of len "[]"] unfolding owns_def by (simp add: s)
  note first = keepsD [OF assms(1) this]
  obtain msg u where u: "run (s\<lparr>statics := S\<rparr>) = (Val msg, u)" "(exec (teardown num ()) (\<lambda>_. ret msg)) u = (r, t)"
    using run S(1) unfolding run_test_case_def numa_case_def by (auto simp: exec_def split: prod.splits run.splits)
  from wpD [OF first u(1)] have "owns ?L ?h D len [] [] None u" by simp
  from behind [OF this] u(2) run(2) show "released ?L ?h t"
    by (auto simp: wp_def exec_def ret_def split: prod.splits run.splits)
qed

lemmas keeps_defs = need_max_node_def need_nodes_def expect_ok_def expect_failure_def expect_errno_def
  get_ok_def get_error_def check_mode_def check_word0_def with_node_mask_def usage_print_def Let_def

lemma set_mempolicy_keeps:
  "keeps [''node_mask''] None [''buf'', ''node_mask''] [] None (set_mempolicy_000 K)"
  "keeps [] None [''buf''] [] None (set_mempolicy_001 K)"
  "keeps [''node_mask''] None [''buf'', ''node_mask''] [] None (set_mempolicy_002 K)"
  "keeps [''node_mask''] None [''buf'', ''node_mask''] [] None (set_mempolicy_003 K)"
  "keeps [''node_mask''] None [''buf'', ''node_mask''] [] None (set_mempolicy_004 K)"
  "keeps [] None [''buf''] [] None (set_mempolicy_005 K)"
  "keeps [] None [''buf''] [] None (set_mempolicy_006 K)"
  "keeps [''node_mask''] None [''buf'', ''node_mask''] [] None (set_mempolicy_007 K)"
  "keeps [] None [''buf''] [] None (set_mempolicy_008 K)"
  "keeps [''node_mask''] None [''buf'', ''node_mask''] [] None (set_mempolicy_009 K)"
  "keeps [''node_mask''] None [''buf'', ''node_mask''] [] None (set_mempolicy_010 K)"
  "keeps [] None [''buf''] [] None (set_mempolicy_011 K)"
  "keeps [''node_mask'', ''set_node_mask''] None [''buf'', ''node_mask'', ''set_node_mask''] [] None (set_mempolicy_012 K)"
  "keeps [''set_node_mask''] None [''buf'', ''set_node_mask''] [] None (set_mempolicy_013 K cfg)"
  "keeps [''node_mask''] None [''buf'', ''node_mask''] [] None (set_mempolicy_014 K)"
  "keeps [''node_mask''] None [''buf'', ''node_mask''] [] None (set_mempolicy_015 K)"
  "keeps [''node_mask''] None [''buf'', ''node_mask''] [] None (set_mempolicy_016 K)"
  "keeps [] None [''buf''] [] None (set_mempolicy_017 K)"
  by (simp_all add: set_mempolicy_000_def set_mempolicy_001_def set_mempolicy_002_def set_mempolicy_003_def set_mempolicy_004_def
      set_mempolicy_005_def set_mempolicy_006_def set_mempolicy_007_def set_mempolicy_008_def set_mempolicy_009_def
      set_mempolicy_010_def set_mempolicy_011_def set_mempolicy_012_def set_mempolicy_013_def set_mempolicy_014_def
      set_mempolicy_015_def set_mempolicy_016_def set_mempolicy_017_def run_set_get_def keeps_defs keeps_rules)

lemma get_mempolicy_keeps:
  "keeps [] None [''buf''] [] None (get_mempolicy_000 K)"
  "keeps [''node_mask''] None [''buf'', ''node_mask''] [] None (get_mempolicy_001 K)"
  "keeps [] None [''buf''] [] None (get_mempolicy_002 K)"
  "keeps [''node_mask''] None [''buf'', ''node_mask''] [] None (get_mempolicy_003 K)"
  "keeps [''node_mask''] None [''buf'', ''node_mask''] [] None (get_mempolicy_004 K)"
  "keeps [''node_mask''] None [''buf'', ''node_mask''] [] None (get_mempolicy_005 K)"
  "keeps [''node_mask''] None [''buf'', ''node_mask''] [] None (get_mempolicy_006 K)"
  "keeps [''node_mask''] None [''buf'', ''node_mask''] [] None (get_mempolicy_007 K)"
  "keeps [] None [''buf''] [] None (get_mempolicy_008 K)"
  "keeps [''node_mask''] None [''buf'', ''node_mask''] [] None (get_mempolicy_009 K tmp_buf)"
  "keeps [''node_mask''] None [''buf'', ''node_mask''] [] None (get_mempolicy_010 K)"
  "keeps [] None [''buf''] [] None (get_mempolicy_011 K cfg tmp_buf)"
  "keeps [''node_mask''] None [''buf'', ''node_mask''] [] None (get_mempolicy_012 K tmp_buf)"
  "keeps [] None [''buf''] [] None (get_mempolicy_013 K)"
  "keeps [] (Some (PAGE_SIZE cfg)) [''buf''] [] None (get_mempolicy_014 K cfg)"
  "keeps [] None [''buf''] [] None (get_mempolicy_015 K)"
  "keeps [] None [''buf''] [] None (get_mempolicy_016 K tmp_buf)"
  "keeps [] None [''buf''] [] None (get_mempolicy_017 K tmp_buf)"
  "keeps [] None [''buf''] [] None (get_mempolicy_019 K)"
  "keeps [] None [''buf''] [] None (get_mempolicy_020 K)"
  by (simp_all add: get_mempolicy_000_def get_mempolicy_001_def get_mempolicy_002_def get_mempolicy_003_def get_mempolicy_004_def
      get_mempolicy_005_def get_mempolicy_006_def get_mempolicy_007_def get_mempolicy_008_def get_mempolicy_009_def
      get_mempolicy_010_def get_mempolicy_011_def get_mempolicy_012_def get_mempolicy_013_def get_mempolicy_014_def
      get_mempolicy_015_def get_mempolicy_016_def get_mempolicy_017_def get_mempolicy_019_def get_mempolicy_020_def
      run_get_allowed_def keeps_defs keeps_rules)

lemma mbind_keeps:
  "keeps [''node_mask''] None [''buf'', ''node_mask''] [] None (mbind_000 K cfg tmp_buf)"
  "keeps [] None [''buf''] [] None (mbind_001 K cfg tmp_buf)"
  "keeps [] None [''buf''] [] None (mbind_002 K cfg tmp_buf)"
  "keeps [] None [''buf''] [] None (mbind_003 K cfg tmp_buf)"
  "keeps [] None [''buf''] [] None (mbind_004 K cfg tmp_buf)"
  "keeps [''node_mask''] None [''buf'', ''node_mask''] [] None (mbind_005 K cfg tmp_buf)"
  "keeps [] None [''buf''] [] None (mbind_006 K cfg tmp_buf)"
  "keeps [''node_mask''] None [''buf'', ''node_mask''] [] None (mbind_007 K cfg tmp_buf)"
  "keeps [] None [''buf''] [] None (mbind_008 K cfg tmp_buf)"
  "keeps [] None [''buf''] [] None (mbind_009 K cfg tmp_buf)"
  "keeps [''node_mask''] None [''buf'', ''node_mask''] [] None (mbind_010 K cfg tmp_buf)"
  "keeps [''node_mask''] None [''buf'', ''node_mask''] [] None (mbind_011 K cfg tmp_buf)"
  "keeps [] None [''buf''] [] None (mbind_012 K cfg tmp_buf)"
  "keeps [''node_mask'', ''mbind_node_mask''] None [''buf'', ''node_mask'', ''mbind_node_mask''] [] None (mbind_013 K cfg tmp_buf)"
  "keeps [''mbind_node_mask''] None [''buf'', ''mbind_node_mask''] [] None (mbind_014 K cfg tmp_buf)"
  "keeps [''node_mask''] None [''buf'', ''node_mask''] [] None (mbind_024 K cfg tmp_buf)"
  "keeps [''node_mask''] None [''buf'', ''node_mask''] [] None (mbind_025 K cfg tmp_buf)"
  "keeps [''node_mask''] None [''buf'', ''node_mask''] [] None (mbind_026 K cfg tmp_buf)"
  "keeps [''node_mask''] (Some (PAGE_SIZE cfg)) [''buf'', ''node_mask''] [] None (mbind_027 K cfg)"
  "keeps [''node_mask''] None [''buf'', ''node_mask''] [] None (mbind_028 K cfg tmp_buf)"
  "keeps [] None [''buf''] [] None (mbind_029 K cfg tmp_buf)"
  "keeps [] None [''buf''] [] None (mbind_030 K cfg tmp_buf)"
  by (simp_all add: mbind_000_def mbind_001_def mbind_002_def mbind_003_def mbind_004_def mbind_005_def mbind_006_def mbind_007_def
      mbind_008_def mbind_009_def mbind_010_def mbind_011_def mbind_012_def mbind_013_def mbind_014_def mbind_024_def mbind_025_def
      mbind_026_def mbind_027_def mbind_028_def mbind_029_def mbind_030_def run_mbind_rejected_def run_mbind_get_def
      no_show_def show_007_def keeps_defs keeps_rules)

lemma regions_keeps:
  "keeps [''node_mask''] (Some (PAGE_SIZE cfg * of_nat NUM_REGION)) [''buf'', ''node_mask''] [] None (run_regions K cfg m_args m_expect)"
  by (simp add: run_regions_def keeps_defs keeps_rules)

lemma numa_tables_release:
  assumes s: "statics s = (\<lambda>_. None)"
    and "tc \<in> set (set_mempolicy_cases K cfg tmp_buf @ get_mempolicy_cases K cfg tmp_buf @ mbind_cases K cfg tmp_buf)"
    and "(tc_suite tc, tc_num tc) \<noteq> (''get_mempolicy'', 18)"
  shows "wp (run_test_case tc argv)
    (\<lambda>r t. (\<exists>v. r = Val v) \<longrightarrow> released (live_areas (trace s)) (heap_blocks (trace s)) t) s"
proof -
  let ?ok = "\<lambda>tc. wp (run_test_case tc argv)
    (\<lambda>r t. (\<exists>v. r = Val v) \<longrightarrow> released (live_areas (trace s)) (heap_blocks (trace s)) t) s"
  note rules = case_releases [where teardown = teardown_empty, OF _ _ _ _ _ teardown_releases(1) s]
    case_releases [where teardown = "teardown_mask x" for x, OF _ _ _ _ _ teardown_releases(2) s]
    case_releases [where teardown = "teardown_masks x y" for x y, OF _ _ _ _ _ teardown_releases(3) s]
    case_releases [where teardown = "teardown_buf K n" for n, OF _ _ _ _ _ teardown_releases(4) s]
    case_releases [where teardown = "teardown_mask_buf K n" for n, OF _ _ _ _ _ teardown_mask_buf_releases s]
  have "list_all ?ok (set_mempolicy_cases K cfg tmp_buf)"
    unfolding set_mempolicy_cases_def by (simp, intro conjI) (rule rules, rule set_mempolicy_keeps, simp_all)+
  moreover have "list_all (\<lambda>tc. (tc_suite tc, tc_num tc) \<noteq> (''get_mempolicy'', 18) \<longrightarrow> ?ok tc) (get_mempolicy_cases K cfg tmp_buf)"
    unfolding get_mempolicy_cases_def by (simp, intro conjI) (rule rules, rule get_mempolicy_keeps, simp_all)+
  moreover have "list_all ?ok (mbind_cases K cfg tmp_buf)"
    unfolding mbind_cases_def
      mbind_015_def mbind_016_def mbind_017_def mbind_018_def mbind_019_def mbind_020_def mbind_021_def mbind_022_def mbind_023_def
    by (simp, intro conjI) (rule rules, rule mbind_keeps regions_keeps, simp_all)+
  ultimately show ?thesis using assms(2,3) by (auto simp: list_all_iff)
qed



section \<open>The helpers\<close>

text \<open>
  C21. \<^verbatim>\<open>node_mask_check\<close> decides set equality: it returns 0 exactly when the words denote the nodes \<open>0\<close>
  to \<open>n - 1\<close>, with \<open>n\<close> the bits of all words but the last plus \<^verbatim>\<open>num_bits % 64\<close>, changes nothing, and never
  reads outside the array (\<^verbatim>\<open>num_bits % 64\<close> up to 30, where its \<^verbatim>\<open>int\<close> shift is defined).
\<close>

theorem node_mask_check_exact:
  assumes "length ws = unat nr" "0 < unat nr" "unat nr < 2 ^ 31" "unat num_bits mod 64 \<le> 30"
  shows "node_mask_check ws nr num_bits s =
    (Val (if mask_of ws = all_nodes (64 * (unat nr - 1) + unat num_bits mod 64) then 0 else -1), s)"
  by (rule node_mask_check_set [OF assms])

theorem node_mask_check_exact_witness:
  "fst (node_mask_check [-1, 7] 2 67 (fresh_process ())) = Val 0 \<and> fst (node_mask_check [-1, 15] 2 67 (fresh_process ())) = Val (-1)"
  using node_mask_check_exact [of "[-1, 7]" 2 67 "fresh_process ()"] node_mask_check_exact [of "[-1, 15]" 2 67 "fresh_process ()"]
  by (simp add: all_nodes_def unsigned_minus_1_eq_mask mask_eq_exp_minus_1)

text \<open>
  When the number of nodes is a multiple of 64 the check rejects the very mask that names all of
  them: it expects the last word to be \<^verbatim>\<open>(1 << 0) - 1\<close>.
\<close>

theorem node_mask_check_multiple:
  assumes "0 < q" "q < 2 ^ 31" "unat num_bits = 64 * q" "unat nr = q"
  shows "mask_of (replicate q (-1)) = all_nodes (unat num_bits)
    \<and> node_mask_check (replicate q (-1)) nr num_bits s = (Val (-1), s)"
proof -
  obtain p where q: "q = Suc p" using assms(1) by (cases q) auto
  have full: "replicate q (-1 :: u64) = replicate p (-1) @ [-1]" by (simp add: q replicate_append_same)
  have "mask_of (replicate q (-1)) = all_nodes (64 * p + 64)" unfolding full mask_of_full unat_max_word by (simp only: all_nodes_add)
  then have all: "mask_of (replicate q (-1)) = all_nodes (unat num_bits)" by (simp add: assms(3) q add.commute)
  have "all_nodes (64 * p) < all_nodes (64 * p + 64)" by (simp only: all_nodes_add) (simp add: all_nodes_def [of 64])
  moreover have "unat num_bits mod 64 = 0" by (simp add: assms(3))
  ultimately show ?thesis
    using node_mask_check_set [of "replicate q (-1)" nr num_bits s] all assms q by (simp add: add.commute)
qed

theorem node_mask_check_multiple_witness: "fst (node_mask_check [-1, -1] 2 128 (fresh_process ())) = Val (-1)"
proof -
  have "replicate 2 (-1 :: u64) = [-1, -1]" by (simp add: numeral_2_eq_2)
  then show ?thesis using node_mask_check_multiple [of 2 128 2 "fresh_process ()"] by simp
qed

lemma node_mask_words_wrap:
  assumes "\<not> unat max_node + 63 < 2 ^ 64"
  shows "node_mask_words max_node = 1"
proof -
  have "max_node + BITS_PER_LONG - 1 = max_node + 63" by (simp add: BITS_PER_LONG_def BITS_PER_BYTE_def)
  moreover have "unat (max_node + 63) < 64"
  proof -
    have "unat (max_node + 63) = (unat max_node + 63) mod 2 ^ 64" by (simp add: unat_word_ariths)
    also have "\<dots> = unat max_node + 63 - 2 ^ 64" using assms unat_lt2p64 [of max_node] by (simp add: le_mod_geq)
    finally show ?thesis using unat_lt2p64 [of max_node] by linarith
  qed
  then have "unat ((max_node + 63) div BITS_PER_LONG) = 0"
    by (simp add: unat_div_distrib BITS_PER_LONG_def BITS_PER_BYTE_def)
  ultimately have "(max_node + BITS_PER_LONG - 1) div BITS_PER_LONG = 0" by (simp only: unat_eq_0)
  then show ?thesis by (simp add: node_mask_words_def)
qed

lemma words_for_upper: "64 * words_for n \<le> n + 64" "64 * (words_for n - 1) \<le> n - 1"
proof -
  have "64 * ((n + 63) div 64) \<le> n + 63" by (rule times_div_less_eq_dividend)
  then have "n \<noteq> 0 \<Longrightarrow> 64 * words_for n \<le> n + 63" by (simp only: words_for_def if_False)
  then show "64 * words_for n \<le> n + 64" "64 * (words_for n - 1) \<le> n - 1"
    unfolding diff_mult_distrib2 by (cases "n = 0"; simp add: words_for_def [of 0])+
qed

text \<open>
  \<^verbatim>\<open>create_node_mask\<close> asks for 8 bytes a word, without overflow, and returns either \<^verbatim>\<open>NULL\<close> or zeros;
  the words hold \<^verbatim>\<open>max_node\<close> bits and no fewer words would. Within 63 of \<open>2 ^ 64\<close> the rounding
  wraps around and one word is returned.
\<close>

theorem create_node_mask_capacity:
  assumes "create_node_mask K max_node s = (r, t)"
  shows "\<exists>nr p b. r = Val (nr, p) \<and> trace t = trace s @ [Called Malloc [AInt (8 * uint nr)] b]
    \<and> (p = None \<or> p = Some (replicate (unat nr) 0))
    \<and> (if unat max_node + 63 < 2 ^ 64 then unat max_node \<le> 64 * unat nr \<and> 64 * (unat nr - 1) \<le> unat max_node - 1 else nr = 1)"
proof -
  let ?nr = "node_mask_words max_node"
  have nr: "unat ?nr = (if unat max_node + 63 < 2 ^ 64 then words_for (unat max_node) else 1)"
    by (simp add: unat_node_mask_words node_mask_words_wrap)
  have "unat ?nr * 8 < 2 ^ 64" using words_for_upper(1) [of "unat max_node"] nr by (simp split: if_splits)
  then have "unat (?nr * 8) = 8 * unat ?nr" by (simp add: unat_word_ariths)
  then have bytes: "uint (?nr * 8) = 8 * uint ?nr" by (simp only: of_nat_mult of_nat_numeral uint_nat)
  obtain ok k where call: "os_alloc K (unat (?nr * 8)) (kern s) = (ok, k)" by (cases "os_alloc K (unat (?nr * 8)) (kern s)")
  have "r = Val (?nr, if ok then Some (replicate (unat ?nr) 0) else None)"
    "trace t = trace s @ [Called Malloc [AInt (8 * uint ?nr)] (if ok then 1 else 0)]"
    using assms call by (auto simp: create_node_mask_eq exec_def c_malloc_def ret_def bytes)
  moreover have "unat max_node \<le> 64 * unat ?nr \<and> 64 * (unat ?nr - 1) \<le> unat max_node - 1" if "unat max_node + 63 < 2 ^ 64"
    using that words_for_bound [of "unat max_node"] words_for_upper(2) [of "unat max_node"] by (simp only: nr if_True)
  moreover have "?nr = 1" if "\<not> unat max_node + 63 < 2 ^ 64" using node_mask_words_wrap [OF that] .
  ultimately show ?thesis by (cases ok) auto
qed

theorem create_node_mask_capacity_witness:
  "\<exists>nr p b. fst (create_node_mask (ref_numa_os Pages4K) 65 (fresh_process four_nodes)) = Val (nr, p)
    \<and> trace (snd (create_node_mask (ref_numa_os Pages4K) 65 (fresh_process four_nodes))) = [Called Malloc [AInt (8 * uint nr)] b] \<and> 65 \<le> 64 * unat nr"
  using create_node_mask_capacity [of "ref_numa_os Pages4K" 65 "fresh_process four_nodes", OF prod.collapse [symmetric]]
  by (auto simp: fresh_process_def)

text \<open>
  The teardown of \<^verbatim>\<open>get_mempolicy\<close> 18 after a failed second \<^verbatim>\<open>mmap\<close>: the reserved range is given back
  with the length \<^verbatim>\<open>MAP_FAILED - reserve\<close>, that is up to the end of the address space, in place of the two large pages
  that were mapped.
\<close>

theorem teardown_018_length:
  assumes "os_mmap K 0 (LARGE_PAGE_SIZE cfg * 2) PROT_NONE (MAP_PRIVATE OR MAP_ANONYMOUS) (-1) 0 (kern s) = (Inr reserve, k)"
    and "reserve \<noteq> MAP_FAILED"
    and "os_mmap K (align_up reserve (LARGE_PAGE_SIZE cfg)) (LARGE_PAGE_SIZE cfg) (PROT_READ OR PROT_WRITE)
      (MAP_FIXED OR MAP_PRIVATE OR MAP_ANONYMOUS) (-1) 0 k = (Inl e, k')"
    and "statics s ''addr'' = None"
  shows "\<exists>evs r t. exec (interleave_loop K cfg i (Suc n) old_mode) (\<lambda>msg. exec (teardown_018 K cfg num ()) (\<lambda>_. ret msg)) s
      = (Val (Some ''mmap(buf) error''), t)
    \<and> trace t = trace s @ evs @ [Called Munmap [AInt (uint reserve), AInt (2 ^ 64 - 1 - uint reserve)] r]"
proof -
  let ?large = "LARGE_PAGE_SIZE cfg"
  have len: "uint (MAP_FAILED - reserve) = 2 ^ 64 - 1 - uint reserve"
  proof -
    have top: "uint MAP_FAILED = 2 ^ 64 - 1" by (simp add: MAP_FAILED_def unsigned_minus_1_eq_mask mask_eq_exp_minus_1)
    have "uint reserve \<le> uint MAP_FAILED" using uint_lt2p [of reserve] unfolding top by simp
    then have "uint (MAP_FAILED - reserve) = uint MAP_FAILED - uint reserve" by (simp only: uint_sub_lem)
    then show ?thesis by (simp only: top)
  qed
  let ?ev1 = "Called Mmap [AInt (uint (0 :: u64)), AInt (uint (?large * 2)), AInt (uint PROT_NONE),
      AInt (uint (MAP_PRIVATE OR MAP_ANONYMOUS)), AInt (-1), AInt (uint (0 :: u64))] (uint reserve)"
    and ?ev2 = "Called Mmap [AInt (uint (align_up reserve ?large)), AInt (uint ?large), AInt (uint (PROT_READ OR PROT_WRITE)),
      AInt (uint (MAP_FIXED OR MAP_PRIVATE OR MAP_ANONYMOUS)), AInt (-1), AInt (uint (0 :: u64))] (uint MAP_FAILED)"
  let ?u = "(after e k' ?ev2 ((after (errno s) k ?ev1 s)\<lparr>statics := (statics s)(''reserve'' := Some [reserve])\<rparr>))
    \<lparr>statics := (statics s)(''reserve'' := Some [reserve], ''buf'' := Some [MAP_FAILED])\<rparr>"
  have run: "interleave_loop K cfg i (Suc n) old_mode s = (Val (Some ''mmap(buf) error''), ?u)"
    using assms(1-3) by (simp add: exec_def mmap_def sys_call_def set_static_def ret_def Let_def)
  let ?v = "logged (if statics s ''node_mask'' = None then [] else [Called Free [] 0]) ?u"
  obtain e' k'' r where un: "munmap K reserve (MAP_FAILED - reserve) ?v
      = (Val r, after e' k'' (Called Munmap [AInt (uint reserve), AInt (uint (MAP_FAILED - reserve))] r) ?v)"
    using munmap_eq [of K reserve "MAP_FAILED - reserve" ?v] by blast
  have "teardown_018 K cfg num () ?u = (Val (), after e' k'' (Called Munmap [AInt (uint reserve), AInt (uint (MAP_FAILED - reserve))] r) ?v)"
    using un assms(2,4) by (simp add: teardown_018_def exec_def teardown_mask_eq get_static_def word_of_def ret_def Let_def)
  then show ?thesis using run unfolding len by (simp add: exec_def ret_def)
qed

definition no_fixed :: "nat numa_os" where
  "no_fixed = file_os.extend ((failing_os ENOMEM)\<lparr>os_mmap := (\<lambda>a _ _ _ _ _ k. if a = 0 then (Inr 0x40000000, k) else (Inl ENOMEM, k))\<rparr>)
     (numa_os.fields (\<lambda>_ _ _ k. (Inr 0, k)) (\<lambda>_ _ _ _ k. (Inr (0, []), k)) (\<lambda>_ _ _ _ _ _ k. (Inr 0, k)))"

theorem teardown_018_length_witness:
  "\<exists>evs r t. exec (interleave_loop no_fixed Pages4K 0 (Suc 2) 0) (\<lambda>msg. exec (teardown_018 no_fixed Pages4K 18 ()) (\<lambda>_. ret msg)) (fresh_process 0)
      = (Val (Some ''mmap(buf) error''), t)
    \<and> trace t = evs @ [Called Munmap [AInt 0x40000000, AInt (2 ^ 64 - 1 - 0x40000000)] r]"
  using teardown_018_length [of no_fixed Pages4K "fresh_process 0" "0x40000000" 0 ENOMEM 0 0 2 0 18]
  by (simp add: no_fixed_def file_os.defs numa_os.defs failing_os_def fresh_process_def MAP_FAILED_def
      align_up_def align_down_def LARGE_PAGE_SIZE_def LARGE_PAGE_SHIFT_def)

end
