(* ===== verification/Rlimit.thy ===== *)
theory Rlimit
  imports Framework
begin

text \<open>
  The suites \<^verbatim>\<open>getrlimit\<close> and \<^verbatim>\<open>setrlimit\<close>. The two system calls are parameters (\<open>rlimit_os\<close>), and
  \<open>rlimit_contract\<close> is their documented behaviour, over the limits \<open>L k\<close> of the process in kernel state \<open>k\<close>. The verdict of
  every test case on such a kernel is a theorem, and so is that no kernel passes the whole \<^verbatim>\<open>getrlimit\<close> suite.
\<close>

section \<open>The interface\<close>

record rlimit =
  rlim_cur :: u64
  rlim_max :: u64

record 'k rlimit_os =
  os_getrlimit :: "int \<Rightarrow> 'k \<Rightarrow> (int + rlimit) \<times> 'k"
  os_setrlimit :: "int \<Rightarrow> rlimit \<Rightarrow> 'k \<Rightarrow> (int + int) \<times> 'k"

definition RLIMIT_CPU :: int where "RLIMIT_CPU = 0"
definition RLIMIT_FSIZE :: int where "RLIMIT_FSIZE = 1"
definition RLIMIT_DATA :: int where "RLIMIT_DATA = 2"
definition RLIMIT_STACK :: int where "RLIMIT_STACK = 3"
definition RLIMIT_CORE :: int where "RLIMIT_CORE = 4"
definition RLIMIT_RSS :: int where "RLIMIT_RSS = 5"
definition RLIMIT_NPROC :: int where "RLIMIT_NPROC = 6"
definition RLIMIT_NOFILE :: int where "RLIMIT_NOFILE = 7"
definition RLIMIT_MEMLOCK :: int where "RLIMIT_MEMLOCK = 8"
definition RLIMIT_AS :: int where "RLIMIT_AS = 9"
definition RLIMIT_LOCKS :: int where "RLIMIT_LOCKS = 10"
definition RLIMIT_SIGPENDING :: int where "RLIMIT_SIGPENDING = 11"
definition RLIMIT_MSGQUEUE :: int where "RLIMIT_MSGQUEUE = 12"
definition RLIMIT_NICE :: int where "RLIMIT_NICE = 13"
definition RLIMIT_RTPRIO :: int where "RLIMIT_RTPRIO = 14"
definition RLIMIT_NLIMITS :: int where "RLIMIT_NLIMITS = 16"

lemmas resource_defs =
  RLIMIT_CPU_def RLIMIT_FSIZE_def RLIMIT_DATA_def RLIMIT_STACK_def RLIMIT_CORE_def RLIMIT_RSS_def RLIMIT_NPROC_def
  RLIMIT_NOFILE_def RLIMIT_MEMLOCK_def RLIMIT_AS_def RLIMIT_LOCKS_def RLIMIT_SIGPENDING_def RLIMIT_MSGQUEUE_def
  RLIMIT_NICE_def RLIMIT_RTPRIO_def RLIMIT_NLIMITS_def

definition ENOSYS :: int where "ENOSYS = 38"

text \<open>\<^verbatim>\<open>getrlimit\<close> leaves the structure \<open>old\<close> it is given as it was when it fails.\<close>

definition c_getrlimit :: "('k, 'z) rlimit_os_scheme \<Rightarrow> int \<Rightarrow> rlimit \<Rightarrow> ('k, int \<times> rlimit) prog" where
  "c_getrlimit K res old =
     sys_call (Lib ''getrlimit'') [AInt res] fst (-1, old)
       (\<lambda>k. case os_getrlimit K res k of (Inl e, k') \<Rightarrow> (Inl e, k') | (Inr r, k') \<Rightarrow> (Inr (0, r), k'))"

definition c_setrlimit :: "('k, 'z) rlimit_os_scheme \<Rightarrow> int \<Rightarrow> rlimit \<Rightarrow> ('k, int) prog" where
  "c_setrlimit K res r =
     sys_int (Lib ''setrlimit'') [AInt res, AInt (uint (rlim_cur r)), AInt (uint (rlim_max r))] (os_setrlimit K res r)"

section \<open>getrlimit\<close>

definition TEST_GETRLIMIT_SUCCESS :: int where "TEST_GETRLIMIT_SUCCESS = 0"
definition TEST_GETRLIMIT_FAILUER :: int where "TEST_GETRLIMIT_FAILUER = -1"

record getrlimit_tc =
  resource :: int
  res_str :: string
  expect_result :: int
  expect_errno :: int
  errno_str :: string

definition uninitialised :: rlimit where
  "uninitialised = \<lparr>rlim_cur = 0, rlim_max = 0\<rparr>"

text \<open>
  The call and its report, which every case but 17 makes. None of these cases reads the structure, so its
  initial content does not matter.
\<close>

definition get_and_report :: "('k, 'z) rlimit_os_scheme \<Rightarrow> getrlimit_tc \<Rightarrow> ('k, int) prog" where
  "get_and_report K tc =
     exec (c_getrlimit K (resource tc) uninitialised) (\<lambda>(result, rlim).
     exec (printf ''getrlimit(%s)=%d'' [AStr (res_str tc), AInt result]) (\<lambda>_.
     exec (if result \<noteq> 0
       then exec get_errno (\<lambda>e. printf ''errno=%d (McK may return %s(=%d))'' [AInt e, AStr (errno_str tc), AInt (expect_errno tc)])
       else ret ()) (\<lambda>_.
     ret result)))"

definition run_getrlimit :: "('k, 'z) rlimit_os_scheme \<Rightarrow> getrlimit_tc \<Rightarrow> int \<Rightarrow> ('k, string option) prog" where
  "run_getrlimit K tc num =
     tp_assert (0 \<le> num) (Some ''invalid tp number.'') (
     exec (get_and_report K tc) (\<lambda>result.
     tp_assert (result = expect_result tc) (Some ''getrlimit failed.'') (
     ret None)))"

definition run_getrlimit_errno :: "('k, 'z) rlimit_os_scheme \<Rightarrow> getrlimit_tc \<Rightarrow> int \<Rightarrow> ('k, string option) prog" where
  "run_getrlimit_errno K tc num =
     tp_assert (0 \<le> num) (Some ''invalid tp number.'') (
     exec (get_and_report K tc) (\<lambda>result.
     tp_assert (result = expect_result tc) (Some ''getrlimit failed. (retval different)'') (
     exec get_errno (\<lambda>e.
     tp_assert (e = expect_errno tc) (Some ''getrlimit failed. (errno different)'') (
     ret None)))))"

definition getrlimit_000 :: "('k, 'z) rlimit_os_scheme \<Rightarrow> int \<Rightarrow> ('k, string option) prog" where
  "getrlimit_000 K = run_getrlimit K (getrlimit_tc.make RLIMIT_CPU ''RLIMIT_CPU'' TEST_GETRLIMIT_FAILUER ENOSYS ''ENOSYS'')"

definition getrlimit_001 :: "('k, 'z) rlimit_os_scheme \<Rightarrow> int \<Rightarrow> ('k, string option) prog" where
  "getrlimit_001 K = run_getrlimit K (getrlimit_tc.make RLIMIT_FSIZE ''RLIMIT_FSIZE'' TEST_GETRLIMIT_SUCCESS 0 ''0'')"

definition getrlimit_002 :: "('k, 'z) rlimit_os_scheme \<Rightarrow> int \<Rightarrow> ('k, string option) prog" where
  "getrlimit_002 K = run_getrlimit K (getrlimit_tc.make RLIMIT_DATA ''RLIMIT_DATA'' TEST_GETRLIMIT_FAILUER ENOSYS ''ENOSYS'')"

definition getrlimit_003 :: "('k, 'z) rlimit_os_scheme \<Rightarrow> int \<Rightarrow> ('k, string option) prog" where
  "getrlimit_003 K = run_getrlimit K (getrlimit_tc.make RLIMIT_STACK ''RLIMIT_STACK'' TEST_GETRLIMIT_SUCCESS 0 ''0'')"

definition getrlimit_004 :: "('k, 'z) rlimit_os_scheme \<Rightarrow> int \<Rightarrow> ('k, string option) prog" where
  "getrlimit_004 K = run_getrlimit K (getrlimit_tc.make RLIMIT_CORE ''RLIMIT_CORE'' TEST_GETRLIMIT_FAILUER ENOSYS ''ENOSYS'')"

definition getrlimit_005 :: "('k, 'z) rlimit_os_scheme \<Rightarrow> int \<Rightarrow> ('k, string option) prog" where
  "getrlimit_005 K = run_getrlimit K (getrlimit_tc.make RLIMIT_RSS ''RLIMIT_RSS'' TEST_GETRLIMIT_FAILUER ENOSYS ''ENOSYS'')"

definition getrlimit_006 :: "('k, 'z) rlimit_os_scheme \<Rightarrow> int \<Rightarrow> ('k, string option) prog" where
  "getrlimit_006 K = run_getrlimit K (getrlimit_tc.make RLIMIT_NOFILE ''RLIMIT_NOFILE'' TEST_GETRLIMIT_SUCCESS 0 ''0'')"

definition getrlimit_007 :: "('k, 'z) rlimit_os_scheme \<Rightarrow> int \<Rightarrow> ('k, string option) prog" where
  "getrlimit_007 K = run_getrlimit K (getrlimit_tc.make RLIMIT_NPROC ''RLIMIT_NPROC'' TEST_GETRLIMIT_FAILUER ENOSYS ''ENOSYS'')"

definition getrlimit_008 :: "('k, 'z) rlimit_os_scheme \<Rightarrow> int \<Rightarrow> ('k, string option) prog" where
  "getrlimit_008 K = run_getrlimit K (getrlimit_tc.make RLIMIT_MEMLOCK ''RLIMIT_MEMLOCK'' TEST_GETRLIMIT_FAILUER ENOSYS ''ENOSYS'')"

definition getrlimit_009 :: "('k, 'z) rlimit_os_scheme \<Rightarrow> int \<Rightarrow> ('k, string option) prog" where
  "getrlimit_009 K = run_getrlimit K (getrlimit_tc.make RLIMIT_AS ''RLIMIT_AS'' TEST_GETRLIMIT_FAILUER ENOSYS ''ENOSYS'')"

definition getrlimit_010 :: "('k, 'z) rlimit_os_scheme \<Rightarrow> int \<Rightarrow> ('k, string option) prog" where
  "getrlimit_010 K = run_getrlimit K (getrlimit_tc.make RLIMIT_LOCKS ''RLIMIT_LOCKS'' TEST_GETRLIMIT_SUCCESS 0 ''0'')"

definition getrlimit_011 :: "('k, 'z) rlimit_os_scheme \<Rightarrow> int \<Rightarrow> ('k, string option) prog" where
  "getrlimit_011 K = run_getrlimit K (getrlimit_tc.make RLIMIT_SIGPENDING ''RLIMIT_SIGPENDING'' TEST_GETRLIMIT_FAILUER ENOSYS ''ENOSYS'')"

definition getrlimit_012 :: "('k, 'z) rlimit_os_scheme \<Rightarrow> int \<Rightarrow> ('k, string option) prog" where
  "getrlimit_012 K = run_getrlimit K (getrlimit_tc.make RLIMIT_MSGQUEUE ''RLIMIT_MSGQUEUE'' TEST_GETRLIMIT_FAILUER ENOSYS ''ENOSYS'')"

definition getrlimit_013 :: "('k, 'z) rlimit_os_scheme \<Rightarrow> int \<Rightarrow> ('k, string option) prog" where
  "getrlimit_013 K = run_getrlimit K (getrlimit_tc.make RLIMIT_NICE ''RLIMIT_NICE'' TEST_GETRLIMIT_FAILUER ENOSYS ''ENOSYS'')"

definition getrlimit_014 :: "('k, 'z) rlimit_os_scheme \<Rightarrow> int \<Rightarrow> ('k, string option) prog" where
  "getrlimit_014 K = run_getrlimit K (getrlimit_tc.make RLIMIT_RTPRIO ''RLIMIT_RTPRIO'' TEST_GETRLIMIT_FAILUER ENOSYS ''ENOSYS'')"

definition getrlimit_015 :: "('k, 'z) rlimit_os_scheme \<Rightarrow> int \<Rightarrow> ('k, string option) prog" where
  "getrlimit_015 K = run_getrlimit_errno K (getrlimit_tc.make RLIMIT_NLIMITS ''RLIMIT_NLIMITS'' TEST_GETRLIMIT_FAILUER ENOSYS ''ENOSYS'')"

definition getrlimit_016 :: "('k, 'z) rlimit_os_scheme \<Rightarrow> int \<Rightarrow> ('k, string option) prog" where
  "getrlimit_016 K = run_getrlimit K (getrlimit_tc.make RLIMIT_NPROC ''RLIMIT_NPROC'' TEST_GETRLIMIT_SUCCESS 0 ''0'')"

definition getrlimit_018 :: "('k, 'z) rlimit_os_scheme \<Rightarrow> int \<Rightarrow> ('k, string option) prog" where
  "getrlimit_018 K = run_getrlimit_errno K (getrlimit_tc.make RLIMIT_NLIMITS ''RLIMIT_NLIMITS'' TEST_GETRLIMIT_FAILUER EINVAL ''EINVAL'')"

text \<open>Case 17 asks for all resources in turn; \<open>rlim\<close> is the content of its structure before the first call.\<close>

definition tc_017 :: "getrlimit_tc list" where
  "tc_017 = [
     getrlimit_tc.make RLIMIT_AS ''RLIMIT_AS'' TEST_GETRLIMIT_SUCCESS 0 ''0'',
     getrlimit_tc.make RLIMIT_CORE ''RLIMIT_CORE'' TEST_GETRLIMIT_SUCCESS 0 ''0'',
     getrlimit_tc.make RLIMIT_CPU ''RLIMIT_CPU'' TEST_GETRLIMIT_SUCCESS 0 ''0'',
     getrlimit_tc.make RLIMIT_DATA ''RLIMIT_DATA'' TEST_GETRLIMIT_SUCCESS 0 ''0'',
     getrlimit_tc.make RLIMIT_FSIZE ''RLIMIT_FSIZE'' TEST_GETRLIMIT_SUCCESS 0 ''0'',
     getrlimit_tc.make RLIMIT_LOCKS ''RLIMIT_LOCKS'' TEST_GETRLIMIT_SUCCESS 0 ''0'',
     getrlimit_tc.make RLIMIT_MEMLOCK ''RLIMIT_MEMLOCK'' TEST_GETRLIMIT_SUCCESS 0 ''0'',
     getrlimit_tc.make RLIMIT_MSGQUEUE ''RLIMIT_MSGQUEUE'' TEST_GETRLIMIT_SUCCESS 0 ''0'',
     getrlimit_tc.make RLIMIT_NICE ''RLIMIT_NICE'' TEST_GETRLIMIT_SUCCESS 0 ''0'',
     getrlimit_tc.make RLIMIT_NOFILE ''RLIMIT_NOFILE'' TEST_GETRLIMIT_SUCCESS 0 ''0'',
     getrlimit_tc.make RLIMIT_NPROC ''RLIMIT_NPROC'' TEST_GETRLIMIT_SUCCESS 0 ''0'',
     getrlimit_tc.make RLIMIT_RSS ''RLIMIT_RSS'' TEST_GETRLIMIT_SUCCESS 0 ''0'',
     getrlimit_tc.make RLIMIT_RTPRIO ''RLIMIT_RTPRIO'' TEST_GETRLIMIT_SUCCESS 0 ''0'',
     getrlimit_tc.make RLIMIT_SIGPENDING ''RLIMIT_SIGPENDING'' TEST_GETRLIMIT_SUCCESS 0 ''0'',
     getrlimit_tc.make RLIMIT_STACK ''RLIMIT_STACK'' TEST_GETRLIMIT_SUCCESS 0 ''0'']"

fun get_each :: "('k, 'z) rlimit_os_scheme \<Rightarrow> getrlimit_tc list \<Rightarrow> rlimit \<Rightarrow> bool \<Rightarrow> ('k, bool) prog" where
  "get_each K [] rlim failed = ret failed"
| "get_each K (tc # tcs) rlim failed =
     exec (c_getrlimit K (resource tc) rlim) (\<lambda>(result, rlim).
     exec (printf ''getrlimit(%s)=%d'' [AStr (res_str tc), AInt result]) (\<lambda>_.
     exec (printf ''  rlim_cur = %lx'' [AInt (uint (rlim_cur rlim))]) (\<lambda>_.
     exec (printf ''  rlim_max = %lx'' [AInt (uint (rlim_max rlim))]) (\<lambda>_.
     exec (if result \<noteq> 0
       then exec get_errno (\<lambda>e. printf ''  errno=%d (McK may return %s(=%d))'' [AInt e, AStr (errno_str tc), AInt (expect_errno tc)])
       else ret ()) (\<lambda>_.
     if result \<noteq> expect_result tc
     then exec (printf ''  failed %s (McK may return %s(=%d))'' [AStr (res_str tc), AStr (errno_str tc), AInt (expect_errno tc)]) (\<lambda>_.
       get_each K tcs rlim True)
     else get_each K tcs rlim failed)))))"

definition getrlimit_017 :: "('k, 'z) rlimit_os_scheme \<Rightarrow> rlimit \<Rightarrow> int \<Rightarrow> ('k, string option) prog" where
  "getrlimit_017 K rlim num =
     tp_assert (0 \<le> num) (Some ''invalid tp number.'') (
     exec (get_each K tc_017 rlim False) (\<lambda>failed.
     tp_assert (\<not> failed) (Some ''getrlimit failed.'') (
     ret None)))"

section \<open>setrlimit\<close>

text \<open>The test function of the cases 0 to 14: the initial \<^verbatim>\<open>set_rlim\<close>, the resource and its name.\<close>

definition run_setrlimit :: "('k, 'z) rlimit_os_scheme \<Rightarrow> rlimit \<Rightarrow> int \<Rightarrow> string \<Rightarrow> ('k, string option) prog" where
  "run_setrlimit K set_rlim res res_name =
     exec (c_getrlimit K res uninitialised) (\<lambda>(result, org_rlim).
     tp_assert (result = 0) (Some ''getrlimit failed.'') (
     let set_rlim = set_rlim\<lparr>rlim_max := rlim_max org_rlim\<rparr> in
     exec (c_setrlimit K res set_rlim) (\<lambda>result.
     tp_assert (result = 0) (Some ''setrlimit failed.'') (
     exec (c_getrlimit K res uninitialised) (\<lambda>(result, cmp_rlim).
     tp_assert (result = 0) (Some ''getrlimit failed.'') (
     exec (printf ''  getrlimit(%s, %lx, %lx)'' [AStr res_name, AInt (uint (rlim_cur org_rlim)), AInt (uint (rlim_max org_rlim))]) (\<lambda>_.
     exec (printf ''  setrlimit(%s, %lx, %lx)'' [AStr res_name, AInt (uint (rlim_cur set_rlim)), AInt (uint (rlim_max set_rlim))]) (\<lambda>_.
     exec (printf ''  getrlimit(%s, %lx, %lx)'' [AStr res_name, AInt (uint (rlim_cur cmp_rlim)), AInt (uint (rlim_max cmp_rlim))]) (\<lambda>_.
     tp_assert (rlim_cur set_rlim = rlim_cur cmp_rlim) (Some ''setrlimit failed, rlim_cur not set.'') (
     tp_assert (rlim_max set_rlim = rlim_max cmp_rlim) (Some ''setrlimit failed, rlim_max not set.'') (
     exec (c_setrlimit K res org_rlim) (\<lambda>result.
     tp_assert (result = 0) (Some ''setrlimit failed.'') (
     ret None)))))))))))))"

definition setrlimit_000 :: "('k, 'z) rlimit_os_scheme \<Rightarrow> ('k, string option) prog" where
  "setrlimit_000 K = run_setrlimit K \<lparr>rlim_cur = 0x80000000, rlim_max = 0\<rparr> RLIMIT_AS ''RLIMIT_AS''"

definition setrlimit_001 :: "('k, 'z) rlimit_os_scheme \<Rightarrow> ('k, string option) prog" where
  "setrlimit_001 K = run_setrlimit K \<lparr>rlim_cur = 0x90000000, rlim_max = 0\<rparr> RLIMIT_CORE ''RLIMIT_CORE''"

definition setrlimit_002 :: "('k, 'z) rlimit_os_scheme \<Rightarrow> ('k, string option) prog" where
  "setrlimit_002 K = run_setrlimit K \<lparr>rlim_cur = 0xa0000000, rlim_max = 0\<rparr> RLIMIT_CPU ''RLIMIT_CPU''"

definition setrlimit_003 :: "('k, 'z) rlimit_os_scheme \<Rightarrow> ('k, string option) prog" where
  "setrlimit_003 K = run_setrlimit K \<lparr>rlim_cur = 0xb0000000, rlim_max = 0\<rparr> RLIMIT_DATA ''RLIMIT_DATA''"

definition setrlimit_004 :: "('k, 'z) rlimit_os_scheme \<Rightarrow> ('k, string option) prog" where
  "setrlimit_004 K = run_setrlimit K \<lparr>rlim_cur = 0xc0000000, rlim_max = 0\<rparr> RLIMIT_FSIZE ''RLIMIT_FSIZE''"

definition setrlimit_005 :: "('k, 'z) rlimit_os_scheme \<Rightarrow> ('k, string option) prog" where
  "setrlimit_005 K = run_setrlimit K \<lparr>rlim_cur = 0xd0000000, rlim_max = 0\<rparr> RLIMIT_LOCKS ''RLIMIT_LOCKS''"

definition setrlimit_006 :: "('k, 'z) rlimit_os_scheme \<Rightarrow> ('k, string option) prog" where
  "setrlimit_006 K = run_setrlimit K \<lparr>rlim_cur = 0xa000, rlim_max = 0\<rparr> RLIMIT_MEMLOCK ''RLIMIT_MEMLOCK''"

definition setrlimit_007 :: "('k, 'z) rlimit_os_scheme \<Rightarrow> ('k, string option) prog" where
  "setrlimit_007 K = run_setrlimit K \<lparr>rlim_cur = 0xb000, rlim_max = 0\<rparr> RLIMIT_MSGQUEUE ''RLIMIT_MSGQUEUE''"

definition setrlimit_008 :: "('k, 'z) rlimit_os_scheme \<Rightarrow> ('k, string option) prog" where
  "setrlimit_008 K = run_setrlimit K \<lparr>rlim_cur = 0, rlim_max = 0\<rparr> RLIMIT_NICE ''RLIMIT_NICE''"

definition setrlimit_009 :: "('k, 'z) rlimit_os_scheme \<Rightarrow> ('k, string option) prog" where
  "setrlimit_009 K = run_setrlimit K \<lparr>rlim_cur = 0x600, rlim_max = 0\<rparr> RLIMIT_NOFILE ''RLIMIT_NOFILE''"

definition setrlimit_010 :: "('k, 'z) rlimit_os_scheme \<Rightarrow> ('k, string option) prog" where
  "setrlimit_010 K = run_setrlimit K \<lparr>rlim_cur = 0x700, rlim_max = 0\<rparr> RLIMIT_NPROC ''RLIMIT_NPROC''"

definition setrlimit_011 :: "('k, 'z) rlimit_os_scheme \<Rightarrow> ('k, string option) prog" where
  "setrlimit_011 K = run_setrlimit K \<lparr>rlim_cur = 0xe0000000, rlim_max = 0\<rparr> RLIMIT_RSS ''RLIMIT_RSS''"

definition setrlimit_012 :: "('k, 'z) rlimit_os_scheme \<Rightarrow> ('k, string option) prog" where
  "setrlimit_012 K = run_setrlimit K \<lparr>rlim_cur = 0, rlim_max = 0\<rparr> RLIMIT_RTPRIO ''RLIMIT_RTPRIO''"

definition setrlimit_013 :: "('k, 'z) rlimit_os_scheme \<Rightarrow> ('k, string option) prog" where
  "setrlimit_013 K = run_setrlimit K \<lparr>rlim_cur = 0x100, rlim_max = 0\<rparr> RLIMIT_SIGPENDING ''RLIMIT_SIGPENDING''"

definition setrlimit_014 :: "('k, 'z) rlimit_os_scheme \<Rightarrow> ('k, string option) prog" where
  "setrlimit_014 K = run_setrlimit K \<lparr>rlim_cur = 0x800000, rlim_max = 0xffffffffffffff\<rparr> RLIMIT_STACK ''RLIMIT_STACK''"

definition setrlimit_015 :: "('k, 'z) rlimit_os_scheme \<Rightarrow> ('k, string option) prog" where
  "setrlimit_015 K =
     exec (c_getrlimit K RLIMIT_SIGPENDING uninitialised) (\<lambda>(result, org_rlim).
     tp_assert (result = 0) (Some ''getrlimit failed.'') (
     let set_rlim = \<lparr>rlim_cur = 0xffffffffffffffff, rlim_max = rlim_max org_rlim\<rparr> in
     tp_assert (rlim_max set_rlim < rlim_cur set_rlim) (Some ''rlim_cur is less than rlim_max'') (
     exec (c_setrlimit K RLIMIT_SIGPENDING set_rlim) (\<lambda>result.
     exec get_errno (\<lambda>e.
     exec (printf ''setrlimit() = %d, errno = %d'' [AInt result, AInt e]) (\<lambda>_.
     tp_assert (result \<noteq> 0) (Some ''setrlimit why successed ?'') (
     tp_assert (e = EINVAL) (Some ''setrlimit errno is not EINVAL'') (
     ret None)))))))) "

section \<open>The tables\<close>

text \<open>Set-up and tear-down are empty in all cases.\<close>

definition rlimit_case :: "string \<Rightarrow> int \<Rightarrow> (int \<Rightarrow> ('k, string option) prog) \<Rightarrow> ('k, unit) test_case" where
  "rlimit_case suite n run =
     \<lparr>tc_suite = suite, tc_num = n, tc_setup = (\<lambda>_ _. ret ()), tc_run = (\<lambda>n _. run n), tc_teardown = (\<lambda>_ _. ret ())\<rparr>"

definition getrlimit_cases :: "('k, 'z) rlimit_os_scheme \<Rightarrow> rlimit \<Rightarrow> ('k, unit) test_case list" where
  "getrlimit_cases K rlim = [
     rlimit_case ''getrlimit'' 0 (getrlimit_000 K),
     rlimit_case ''getrlimit'' 1 (getrlimit_001 K),
     rlimit_case ''getrlimit'' 2 (getrlimit_002 K),
     rlimit_case ''getrlimit'' 3 (getrlimit_003 K),
     rlimit_case ''getrlimit'' 4 (getrlimit_004 K),
     rlimit_case ''getrlimit'' 5 (getrlimit_005 K),
     rlimit_case ''getrlimit'' 6 (getrlimit_006 K),
     rlimit_case ''getrlimit'' 7 (getrlimit_007 K),
     rlimit_case ''getrlimit'' 8 (getrlimit_008 K),
     rlimit_case ''getrlimit'' 9 (getrlimit_009 K),
     rlimit_case ''getrlimit'' 10 (getrlimit_010 K),
     rlimit_case ''getrlimit'' 11 (getrlimit_011 K),
     rlimit_case ''getrlimit'' 12 (getrlimit_012 K),
     rlimit_case ''getrlimit'' 13 (getrlimit_013 K),
     rlimit_case ''getrlimit'' 14 (getrlimit_014 K),
     rlimit_case ''getrlimit'' 15 (getrlimit_015 K),
     rlimit_case ''getrlimit'' 16 (getrlimit_016 K),
     rlimit_case ''getrlimit'' 17 (getrlimit_017 K rlim),
     rlimit_case ''getrlimit'' 18 (getrlimit_018 K)]"

definition setrlimit_cases :: "('k, 'z) rlimit_os_scheme \<Rightarrow> ('k, unit) test_case list" where
  "setrlimit_cases K = [
     rlimit_case ''setrlimit'' 0 (\<lambda>_. setrlimit_000 K),
     rlimit_case ''setrlimit'' 1 (\<lambda>_. setrlimit_001 K),
     rlimit_case ''setrlimit'' 2 (\<lambda>_. setrlimit_002 K),
     rlimit_case ''setrlimit'' 3 (\<lambda>_. setrlimit_003 K),
     rlimit_case ''setrlimit'' 4 (\<lambda>_. setrlimit_004 K),
     rlimit_case ''setrlimit'' 5 (\<lambda>_. setrlimit_005 K),
     rlimit_case ''setrlimit'' 6 (\<lambda>_. setrlimit_006 K),
     rlimit_case ''setrlimit'' 7 (\<lambda>_. setrlimit_007 K),
     rlimit_case ''setrlimit'' 8 (\<lambda>_. setrlimit_008 K),
     rlimit_case ''setrlimit'' 9 (\<lambda>_. setrlimit_009 K),
     rlimit_case ''setrlimit'' 10 (\<lambda>_. setrlimit_010 K),
     rlimit_case ''setrlimit'' 11 (\<lambda>_. setrlimit_011 K),
     rlimit_case ''setrlimit'' 12 (\<lambda>_. setrlimit_012 K),
     rlimit_case ''setrlimit'' 13 (\<lambda>_. setrlimit_013 K),
     rlimit_case ''setrlimit'' 14 (\<lambda>_. setrlimit_014 K),
     rlimit_case ''setrlimit'' 15 (\<lambda>_. setrlimit_015 K)]"

section \<open>The contract of the kernel\<close>

text \<open>
  \<open>L k r\<close> is the limit of resource \<open>r\<close>. \<^verbatim>\<open>getrlimit\<close> reports it for the 16 resources and fails with \<^verbatim>\<open>EINVAL\<close> beyond;
  \<^verbatim>\<open>setrlimit\<close> fails with \<^verbatim>\<open>EINVAL\<close> when the soft limit exceeds the hard limit, and otherwise, when the hard limit is not raised,
  installs the limit. The soft limit never exceeds the hard limit.
\<close>

definition limits_ok :: "(int \<Rightarrow> rlimit) \<Rightarrow> bool" where
  "limits_ok l \<longleftrightarrow> (\<forall>r. rlim_cur (l r) \<le> rlim_max (l r))"

definition valid_resource :: "int \<Rightarrow> bool" where
  "valid_resource r \<longleftrightarrow> 0 \<le> r \<and> r < RLIMIT_NLIMITS"

definition rlimit_contract :: "('k, 'z) rlimit_os_scheme \<Rightarrow> ('k \<Rightarrow> int \<Rightarrow> rlimit) \<Rightarrow> bool" where
  "rlimit_contract K L \<longleftrightarrow>
     (\<forall>r k. valid_resource r \<longrightarrow> (\<exists>k'. os_getrlimit K r k = (Inr (L k r), k') \<and> L k' = L k)) \<and>
     (\<forall>r k. \<not> valid_resource r \<longrightarrow> (\<exists>k'. os_getrlimit K r k = (Inl EINVAL, k') \<and> L k' = L k)) \<and>
     (\<forall>r l k. valid_resource r \<and> rlim_cur l \<le> rlim_max l \<and> rlim_max l \<le> rlim_max (L k r) \<longrightarrow>
        (\<exists>k'. os_setrlimit K r l k = (Inr 0, k') \<and> L k' = (L k)(r := l))) \<and>
     (\<forall>r l k. valid_resource r \<and> rlim_max l < rlim_cur l \<longrightarrow> (\<exists>k'. os_setrlimit K r l k = (Inl EINVAL, k') \<and> L k' = L k))"

text \<open>A kernel that meets it: the state is the table of limits.\<close>

definition ref_rlimit_os :: "(int \<Rightarrow> rlimit) rlimit_os" where
  "ref_rlimit_os = \<lparr>
     os_getrlimit = (\<lambda>r l. if valid_resource r then (Inr (l r), l) else (Inl EINVAL, l)),
     os_setrlimit = (\<lambda>r n l.
       if \<not> valid_resource r \<or> rlim_max n < rlim_cur n then (Inl EINVAL, l)
       else if rlim_max (l r) < rlim_max n then (Inl EPERM, l)
       else (Inr 0, l(r := n)))\<rparr>"

lemma ref_rlimit_contract: "rlimit_contract ref_rlimit_os (\<lambda>l. l)"
  by (auto simp: rlimit_contract_def ref_rlimit_os_def not_less)

definition common_limits :: "int \<Rightarrow> rlimit" where
  "common_limits r = \<lparr>rlim_cur = 0x10, rlim_max = (if r = RLIMIT_SIGPENDING then 0x10000 else 0x100000000)\<rparr>"

section \<open>The calls under the contract\<close>

lemma wp_getrlimit:
  assumes "rlimit_contract K L"
    and "\<And>t. valid_resource r \<Longrightarrow> L (kern t) = L (kern s) \<Longrightarrow> Q (Val (0, L (kern s) r)) t"
    and "\<And>t. \<not> valid_resource r \<Longrightarrow> L (kern t) = L (kern s) \<Longrightarrow> errno t = EINVAL \<Longrightarrow> Q (Val (-1, old)) t"
  shows "wp (c_getrlimit K r old) Q s"
proof (cases "valid_resource r")
  case True
  then obtain k where "os_getrlimit K r (kern s) = (Inr (L (kern s) r), k)" "L k = L (kern s)"
    using assms(1) unfolding rlimit_contract_def by blast
  with assms(2) [OF True] show ?thesis
    by (simp add: wp_def c_getrlimit_def sys_call_def)
next
  case False
  then obtain k where "os_getrlimit K r (kern s) = (Inl EINVAL, k)" "L k = L (kern s)"
    using assms(1) unfolding rlimit_contract_def by blast
  with assms(3) [OF False] show ?thesis
    by (simp add: wp_def c_getrlimit_def sys_call_def)
qed

lemma wp_getrlimit_valid:
  assumes "rlimit_contract K L" "valid_resource r" and "\<And>t. L (kern t) = L (kern s) \<Longrightarrow> Q (Val (0, L (kern s) r)) t"
  shows "wp (c_getrlimit K r old) Q s"
  by (rule wp_getrlimit [OF assms(1)]) (simp_all add: assms)

lemma wp_setrlimit:
  assumes "rlimit_contract K L" "valid_resource r" "rlim_cur l \<le> rlim_max l" "rlim_max l \<le> rlim_max (L (kern s) r)"
    and "\<And>t. L (kern t) = (L (kern s))(r := l) \<Longrightarrow> Q (Val 0) t"
  shows "wp (c_setrlimit K r l) Q s"
proof -
  obtain k where "os_setrlimit K r l (kern s) = (Inr 0, k)" "L k = (L (kern s))(r := l)"
    using assms(1-4) unfolding rlimit_contract_def by blast
  with assms(5) show ?thesis
    by (simp add: wp_def c_setrlimit_def sys_call_def)
qed

lemma wp_setrlimit_invalid:
  assumes "rlimit_contract K L" "valid_resource r" "rlim_max l < rlim_cur l"
    and "\<And>t. L (kern t) = L (kern s) \<Longrightarrow> errno t = EINVAL \<Longrightarrow> Q (Val (-1)) t"
  shows "wp (c_setrlimit K r l) Q s"
proof -
  obtain k where "os_setrlimit K r l (kern s) = (Inl EINVAL, k)" "L k = L (kern s)"
    using assms(1-3) unfolding rlimit_contract_def by blast
  with assms(4) show ?thesis
    by (simp add: wp_def c_setrlimit_def sys_call_def)
qed

section \<open>setrlimit\<close>

lemma run_setrlimit_ok:
  assumes K: "rlimit_contract K L" and r: "valid_resource r"
    and org: "rlim_cur (L (kern s) r) \<le> rlim_max (L (kern s) r)" and new: "rlim_cur l \<le> rlim_max (L (kern s) r)"
  shows "wp (run_setrlimit K l r nm) (\<lambda>x t. x = Val None \<and> L (kern t) = L (kern s)) s"
  unfolding run_setrlimit_def Let_def
  apply (rule wp_exec, rule wp_getrlimit_valid [OF K r], simp)
  apply (rule wp_exec, rule wp_setrlimit [OF K r], simp add: new, simp, simp)
  apply (rule wp_exec, rule wp_getrlimit_valid [OF K r], simp)
  apply (intro wp_rules; simp)
  apply (rule wp_setrlimit [OF K r], simp add: org, simp)
  apply (intro wp_rules; simp)
  done

text \<open>The soft limits the cases 0 to 14 ask for.\<close>

definition requested :: "int \<Rightarrow> u64" where
  "requested r =
     (if r = RLIMIT_AS then 0x80000000 else if r = RLIMIT_CORE then 0x90000000 else if r = RLIMIT_CPU then 0xa0000000
      else if r = RLIMIT_DATA then 0xb0000000 else if r = RLIMIT_FSIZE then 0xc0000000 else if r = RLIMIT_LOCKS then 0xd0000000
      else if r = RLIMIT_MEMLOCK then 0xa000 else if r = RLIMIT_MSGQUEUE then 0xb000 else if r = RLIMIT_NOFILE then 0x600
      else if r = RLIMIT_NPROC then 0x700 else if r = RLIMIT_RSS then 0xe0000000 else if r = RLIMIT_SIGPENDING then 0x100
      else if r = RLIMIT_STACK then 0x800000 else 0)"

lemma run_rlimit_case: "run_test_case (rlimit_case suite n run) argv = run n"
  by (simp add: run_test_case_def rlimit_case_def)

lemmas setrlimit_defs =
  setrlimit_000_def setrlimit_001_def setrlimit_002_def setrlimit_003_def setrlimit_004_def setrlimit_005_def setrlimit_006_def
  setrlimit_007_def setrlimit_008_def setrlimit_009_def setrlimit_010_def setrlimit_011_def setrlimit_012_def setrlimit_013_def
  setrlimit_014_def

lemma setrlimit_015_verdict:
  assumes K: "rlimit_contract K L"
  shows "wp (setrlimit_015 K) (\<lambda>x t. passed x = (rlim_max (L (kern s) RLIMIT_SIGPENDING) < 0xffffffffffffffff) \<and> L (kern t) = L (kern s)) s"
proof -
  have r: "valid_resource RLIMIT_SIGPENDING"
    by (simp add: valid_resource_def resource_defs)
  show ?thesis
    unfolding setrlimit_015_def Let_def
    apply (rule wp_exec, rule wp_getrlimit_valid [OF K r], simp)
    apply (rule wp_tp_assert)
     apply (rule wp_exec, rule wp_setrlimit_invalid [OF K r], simp)
     apply (intro wp_rules; simp add: passed_def)
    apply (simp add: passed_def)
    done
qed

lemma setrlimit_case_passes:
  assumes K: "rlimit_contract K L" and ok: "limits_ok (L (kern s))" and room: "\<And>r. requested r \<le> rlim_max (L (kern s) r)"
    and inf: "rlim_max (L (kern s) RLIMIT_SIGPENDING) < 0xffffffffffffffff"
    and tc: "tc \<in> set (setrlimit_cases K)"
  shows "wp (run_test_case tc argv) (\<lambda>x t. passed x \<and> L (kern t) = L (kern s)) s"
proof -
  have run: "wp (run_setrlimit K l r nm) (\<lambda>x t. passed x \<and> L (kern t) = L (kern s)) s" if "valid_resource r" "rlim_cur l = requested r" for l r nm
    using that ok room [of r] by (intro wp_mono [OF run_setrlimit_ok [OF K]]) (auto simp: limits_ok_def passed_def)
  have last: "wp (setrlimit_015 K) (\<lambda>x t. passed x \<and> L (kern t) = L (kern s)) s"
    by (rule wp_mono [OF setrlimit_015_verdict [OF K]]) (simp add: inf)
  have "list_all (\<lambda>tc. wp (run_test_case tc argv) (\<lambda>x t. passed x \<and> L (kern t) = L (kern s)) s) (setrlimit_cases K)"
    unfolding setrlimit_cases_def list.pred_inject run_rlimit_case setrlimit_defs
    by (intro conjI TrueI run last) (simp_all add: valid_resource_def requested_def resource_defs)
  with tc show ?thesis by (simp add: list_all_iff)
qed

section \<open>getrlimit\<close>

lemma get_and_report_verdict:
  assumes K: "rlimit_contract K L"
  shows "wp (get_and_report K tc) (\<lambda>x t. x = Val (if valid_resource (resource tc) then 0 else -1) \<and>
    (\<not> valid_resource (resource tc) \<longrightarrow> errno t = EINVAL)) s"
  unfolding get_and_report_def
  by (rule wp_exec, rule wp_getrlimit [OF K]) (auto intro!: wp_rules)

lemma run_getrlimit_verdict:
  assumes K: "rlimit_contract K L" and "0 \<le> num"
  shows "wp (run_getrlimit K tc num) (\<lambda>x t. passed x \<longleftrightarrow> expect_result tc = (if valid_resource (resource tc) then 0 else -1)) s"
  unfolding run_getrlimit_def using assms(2)
  by (auto intro!: wp_exec wp_mono [OF get_and_report_verdict [OF K]] wp_rules simp: passed_def split: if_splits)

lemma run_getrlimit_errno_verdict:
  assumes K: "rlimit_contract K L" and "0 \<le> num" and "expect_result tc = -1"
  shows "wp (run_getrlimit_errno K tc num) (\<lambda>x t. passed x \<longleftrightarrow> \<not> valid_resource (resource tc) \<and> expect_errno tc = EINVAL) s"
  unfolding run_getrlimit_errno_def using assms(2,3)
  by (auto intro!: wp_exec wp_mono [OF get_and_report_verdict [OF K]] wp_rules simp: passed_def split: if_splits)

lemma get_each_verdict:
  assumes K: "rlimit_contract K L" and "\<forall>tc \<in> set tcs. valid_resource (resource tc) \<and> expect_result tc = 0"
  shows "wp (get_each K tcs rlim b) (\<lambda>x t. x = Val b) s"
  using assms(2)
proof (induction tcs arbitrary: rlim s)
  case (Cons tc tcs)
  then have r: "valid_resource (resource tc)" and e: "expect_result tc = 0"
    by simp_all
  show ?case
    unfolding get_each.simps
    by (rule wp_exec, rule wp_getrlimit_valid [OF K r]) (use Cons e in \<open>auto intro!: wp_rules\<close>)
qed (auto intro!: wp_rules)

lemmas getrlimit_defs =
  getrlimit_000_def getrlimit_001_def getrlimit_002_def getrlimit_003_def getrlimit_004_def getrlimit_005_def getrlimit_006_def
  getrlimit_007_def getrlimit_008_def getrlimit_009_def getrlimit_010_def getrlimit_011_def getrlimit_012_def getrlimit_013_def
  getrlimit_014_def getrlimit_016_def

lemmas rlimit_values = valid_resource_def resource_defs getrlimit_tc.make_def TEST_GETRLIMIT_SUCCESS_def TEST_GETRLIMIT_FAILUER_def ENOSYS_def EINVAL_def

lemma tc_num_rlimit_case: "tc_num (rlimit_case suite n run) = n"
  by (simp add: rlimit_case_def)

lemma common_limits_room:
  "limits_ok common_limits" "requested r \<le> rlim_max (common_limits r)" "rlim_max (common_limits RLIMIT_SIGPENDING) < 0xffffffffffffffff"
  by (simp_all add: limits_ok_def common_limits_def requested_def resource_defs)

lemma getrlimit_017_passes:
  assumes K: "rlimit_contract K L" and "0 \<le> num"
  shows "wp (getrlimit_017 K rlim num) (\<lambda>x t. passed x) s"
proof -
  have "\<forall>tc \<in> set tc_017. valid_resource (resource tc) \<and> expect_result tc = 0"
    by (simp add: tc_017_def rlimit_values)
  then show ?thesis
    unfolding getrlimit_017_def using assms(2)
    by (auto intro!: wp_exec wp_mono [OF get_each_verdict [OF K]] wp_rules simp: passed_def)
qed

text \<open>
  C34. On every kernel that meets the contract, whose limits are well-formed, allow the values the suite asks for, and have a finite
  hard limit for pending signals, every case of the \<^verbatim>\<open>setrlimit\<close> suite passes and leaves all limits as they were.
\<close>

theorem setrlimit_suite_passes:
  assumes "rlimit_contract K L" and "limits_ok (L (kern s))" and "\<And>r. requested r \<le> rlim_max (L (kern s) r)"
    and "rlim_max (L (kern s) RLIMIT_SIGPENDING) < 0xffffffffffffffff" and "tc \<in> set (setrlimit_cases K)"
  shows "wp (run_test_case tc argv) (\<lambda>x t. passed x \<and> L (kern t) = L (kern s) \<and> limits_ok (L (kern t))) s"
  using wp_mono [OF setrlimit_case_passes [OF assms]] assms(2) by simp

theorem setrlimit_suite_passes_witness:
  "wp (run_test_case (rlimit_case ''setrlimit'' 9 (\<lambda>_. setrlimit_009 ref_rlimit_os)) [])
     (\<lambda>x t. passed x \<and> kern t = common_limits) (fresh_process common_limits)"
proof -
  have "rlimit_case ''setrlimit'' 9 (\<lambda>_. setrlimit_009 ref_rlimit_os) \<in> set (setrlimit_cases ref_rlimit_os)"
    by (simp add: setrlimit_cases_def)
  from setrlimit_suite_passes [OF ref_rlimit_contract _ _ _ this, of "fresh_process common_limits" "[]"] show ?thesis
    by (rule wp_mono [OF _]) (simp_all add: common_limits_room fresh_process_def)
qed

text \<open>
  C35. The verdict of every case of the \<^verbatim>\<open>getrlimit\<close> suite on a kernel that meets the contract: the cases 1, 3, 6, 10, 16, 17
  and 18 pass; the others, which expect the calls to be missing, fail.
\<close>

theorem getrlimit_suite_verdict:
  assumes "rlimit_contract K L" and "tc \<in> set (getrlimit_cases K rlim)"
  shows "wp (run_test_case tc argv) (\<lambda>x t. passed x \<longleftrightarrow> tc_num tc \<in> {1, 3, 6, 10, 16, 17, 18}) s"
proof -
  note K = assms(1)
  define good :: "int set" where "good = {1, 3, 6, 10, 16, 17, 18}"
  have one: "wp (run_test_case (rlimit_case ''getrlimit'' n (run_getrlimit K tc)) argv) (\<lambda>x t. passed x \<longleftrightarrow> n \<in> good) s"
    if "0 \<le> n" "(n \<in> good) = (expect_result tc = (if valid_resource (resource tc) then 0 else -1))" for n tc
    unfolding run_rlimit_case that(2) by (rule run_getrlimit_verdict [OF K that(1)])
  have two: "wp (run_test_case (rlimit_case ''getrlimit'' n (run_getrlimit_errno K tc)) argv) (\<lambda>x t. passed x \<longleftrightarrow> n \<in> good) s"
    if "0 \<le> n" "expect_result tc = -1" "(n \<in> good) = (\<not> valid_resource (resource tc) \<and> expect_errno tc = EINVAL)" for n tc
    unfolding run_rlimit_case that(3) by (rule run_getrlimit_errno_verdict [OF K that(1,2)])
  have three: "wp (run_test_case (rlimit_case ''getrlimit'' 17 (getrlimit_017 K rlim)) argv) (\<lambda>x t. passed x \<longleftrightarrow> 17 \<in> good) s"
    unfolding run_rlimit_case by (rule wp_mono [OF getrlimit_017_passes [OF K]]) (simp_all add: good_def)
  have "list_all (\<lambda>tc. wp (run_test_case tc argv) (\<lambda>x t. passed x \<longleftrightarrow> tc_num tc \<in> good) s) (getrlimit_cases K rlim)"
    unfolding getrlimit_cases_def list.pred_inject getrlimit_defs getrlimit_015_def getrlimit_018_def tc_num_rlimit_case
    by (intro conjI TrueI one two three) (simp_all add: good_def rlimit_values)
  with assms(2) show ?thesis by (simp add: list_all_iff good_def)
qed

theorem getrlimit_suite_verdict_witness:
  "wp (run_test_case (rlimit_case ''getrlimit'' 7 (getrlimit_007 ref_rlimit_os)) []) (\<lambda>x t. \<not> passed x) (fresh_process common_limits)"
proof -
  have "rlimit_case ''getrlimit'' 7 (getrlimit_007 ref_rlimit_os) \<in> set (getrlimit_cases ref_rlimit_os uninitialised)"
    by (simp add: getrlimit_cases_def)
  from getrlimit_suite_verdict [OF ref_rlimit_contract this, of "[]" "fresh_process common_limits"] show ?thesis
    by (simp add: tc_num_rlimit_case)
qed

text \<open>
  No kernel, whatever it does, passes the whole \<^verbatim>\<open>getrlimit\<close> suite: started in the same state, case 7 and case 16 do not both
  pass, and neither do case 15 and case 18.
\<close>

theorem getrlimit_suite_contradictory:
  "\<not> (passed (fst (getrlimit_007 K n s)) \<and> passed (fst (getrlimit_016 K m s))) \<and>
   \<not> (passed (fst (getrlimit_015 K n s)) \<and> passed (fst (getrlimit_018 K m s)))"
proof -
  have "\<exists>x t. get_and_report K tc s = (Val x, t) \<and> (\<forall>tc'. resource tc' = resource tc \<longrightarrow> (\<exists>t'. get_and_report K tc' s = (Val x, t') \<and> errno t' = errno t))" for tc
    by (cases "os_getrlimit K (resource tc) (kern s)")
      (auto simp: get_and_report_def c_getrlimit_def exec_def sys_call_def emit_def get_errno_def ret_def split: sum.splits)
  note same = this
  show ?thesis
  proof
    define a where "a = getrlimit_tc.make RLIMIT_NPROC ''RLIMIT_NPROC'' TEST_GETRLIMIT_FAILUER ENOSYS ''ENOSYS''"
    define b where "b = getrlimit_tc.make RLIMIT_NPROC ''RLIMIT_NPROC'' TEST_GETRLIMIT_SUCCESS 0 ''0''"
    obtain x t t' where "get_and_report K a s = (Val x, t)" "get_and_report K b s = (Val x, t')"
      using same [of a] by (force simp: a_def b_def getrlimit_tc.make_def)
    then show "\<not> (passed (fst (getrlimit_007 K n s)) \<and> passed (fst (getrlimit_016 K m s)))"
      unfolding getrlimit_007_def getrlimit_016_def a_def [symmetric] b_def [symmetric] run_getrlimit_def
      by (auto simp: tp_assert_def exec_def ret_def passed_def) (simp_all add: a_def b_def rlimit_values)
  next
    define a where "a = getrlimit_tc.make RLIMIT_NLIMITS ''RLIMIT_NLIMITS'' TEST_GETRLIMIT_FAILUER ENOSYS ''ENOSYS''"
    define b where "b = getrlimit_tc.make RLIMIT_NLIMITS ''RLIMIT_NLIMITS'' TEST_GETRLIMIT_FAILUER EINVAL ''EINVAL''"
    obtain x t t' where "get_and_report K a s = (Val x, t)" "get_and_report K b s = (Val x, t')" "errno t' = errno t"
      using same [of a] by (force simp: a_def b_def getrlimit_tc.make_def)
    then show "\<not> (passed (fst (getrlimit_015 K n s)) \<and> passed (fst (getrlimit_018 K m s)))"
      unfolding getrlimit_015_def getrlimit_018_def a_def [symmetric] b_def [symmetric] run_getrlimit_errno_def
      by (auto simp: tp_assert_def exec_def ret_def get_errno_def passed_def) (simp_all add: a_def b_def rlimit_values)
  qed
qed

end
