(* ===== verification/Credentials.thy ===== *)
theory Credentials
  imports Framework
begin

text \<open>
  The suites that set and read the user and group ids of the process: \<^verbatim>\<open>setuid\<close>, \<^verbatim>\<open>setreuid\<close>, \<^verbatim>\<open>setresuid\<close>, \<^verbatim>\<open>setfsuid\<close>,
  \<^verbatim>\<open>getuid\<close>, \<^verbatim>\<open>geteuid\<close>, \<^verbatim>\<open>getresuid\<close> and the same for groups. A user suite and its group suite are the same code with
  another letter in the names, so the functions here take that letter; \<open>users\<close> and \<open>groups\<close> of the kernel are two records
  of the same calls. The option parsers of the suites fill a structure of ids, a function from option letters here.
\<close>

section \<open>The system calls\<close>

record 'k id_os =
  os_setid :: "u32 \<Rightarrow> 'k \<Rightarrow> (int + int) \<times> 'k"
  os_setreid :: "u32 \<Rightarrow> u32 \<Rightarrow> 'k \<Rightarrow> (int + int) \<times> 'k"
  os_setresid :: "u32 \<Rightarrow> u32 \<Rightarrow> u32 \<Rightarrow> 'k \<Rightarrow> (int + int) \<times> 'k"
  os_setfsid :: "u32 \<Rightarrow> 'k \<Rightarrow> u32 \<times> 'k"
  os_getid :: "'k \<Rightarrow> u32 \<times> 'k"
  os_geteid :: "'k \<Rightarrow> u32 \<times> 'k"
  os_getresid :: "'k \<Rightarrow> (int + u32 \<times> u32 \<times> u32) \<times> 'k"

text \<open>\<open>os_fopen\<close> gives what reading the file to its end returns.\<close>

record 'k cred_os =
  users :: "'k id_os"
  groups :: "'k id_os"
  os_getpid :: "'k \<Rightarrow> nat \<times> 'k"
  os_fopen :: "string \<Rightarrow> 'k \<Rightarrow> (int + string) \<times> 'k"
  os_fclose :: "'k \<Rightarrow> (int + int) \<times> 'k"

text \<open>An id as \<^verbatim>\<open>%d\<close> prints it.\<close>

definition id_arg :: "u32 \<Rightarrow> arg" where
  "id_arg i = AInt (sint i)"

definition setid_call :: "('k, 'z) id_os_scheme \<Rightarrow> char \<Rightarrow> u32 \<Rightarrow> ('k, int) prog" where
  "setid_call I x i = sys_int (Lib (''set'' @ [x] @ ''id'')) [id_arg i] (os_setid I i)"

definition setreid_call :: "('k, 'z) id_os_scheme \<Rightarrow> char \<Rightarrow> u32 \<Rightarrow> u32 \<Rightarrow> ('k, int) prog" where
  "setreid_call I x r e = sys_int (Lib (''setre'' @ [x] @ ''id'')) [id_arg r, id_arg e] (os_setreid I r e)"

definition setresid_call :: "('k, 'z) id_os_scheme \<Rightarrow> char \<Rightarrow> u32 \<Rightarrow> u32 \<Rightarrow> u32 \<Rightarrow> ('k, int) prog" where
  "setresid_call I x r e s = sys_int (Lib (''setres'' @ [x] @ ''id'')) [id_arg r, id_arg e, id_arg s] (os_setresid I r e s)"

text \<open>A call that cannot fail.\<close>

definition id_call :: "string \<Rightarrow> arg list \<Rightarrow> ('k \<Rightarrow> u32 \<times> 'k) \<Rightarrow> ('k, u32) prog" where
  "id_call nm args f s = (case f (kern s) of (i, k) \<Rightarrow> (Val i, after (errno s) k (Called (Lib nm) args (sint i)) s))"

definition getid_call :: "('k, 'z) id_os_scheme \<Rightarrow> char \<Rightarrow> ('k, u32) prog" where
  "getid_call I x = id_call (''get'' @ [x] @ ''id'') [] (os_getid I)"

definition geteid_call :: "('k, 'z) id_os_scheme \<Rightarrow> char \<Rightarrow> ('k, u32) prog" where
  "geteid_call I x = id_call (''gete'' @ [x] @ ''id'') [] (os_geteid I)"

text \<open>\<^verbatim>\<open>getresuid\<close> leaves the variables, 0 in the callers, alone when it fails.\<close>

definition getresid_call :: "('k, 'z) id_os_scheme \<Rightarrow> char \<Rightarrow> ('k, int \<times> u32 \<times> u32 \<times> u32) prog" where
  "getresid_call I x =
     sys_call (Lib (''getres'' @ [x] @ ''id'')) [] fst (-1, 0, 0, 0)
       (\<lambda>k. case os_getresid I k of (Inl e, k') \<Rightarrow> (Inl e, k') | (Inr ids, k') \<Rightarrow> (Inr (0, ids), k'))"

section \<open>The option parsers\<close>

text \<open>
  The loop over the options stores \<^verbatim>\<open>atoi(optarg)\<close> for a known letter and gives up (\<open>None\<close>, the pointer \<^verbatim>\<open>NULL\<close>)
  otherwise. After the loop a missing id, one that is 0 or \<open>-1\<close>, only causes a message.
\<close>

fun id_opts :: "string \<Rightarrow> optres list \<Rightarrow> (char \<Rightarrow> u32) \<Rightarrow> (char \<Rightarrow> u32) option" where
  "id_opts letters [] param = Some param"
| "id_opts letters (Opt c (Some optarg) # rs) param =
     (if c \<in> set letters then id_opts letters rs (param(c := of_int (atoi optarg))) else None)"
| "id_opts letters (_ # rs) param = None"

fun warn_missing :: "(char \<times> string) list \<Rightarrow> (char \<Rightarrow> u32) \<Rightarrow> ('k, unit) prog" where
  "warn_missing [] param = ret ()"
| "warn_missing ((c, nm) # opts) param =
     exec (if param c = -1 \<or> param c = 0
       then printf (''mandatory parameter '' @ [CHR 0x27, CHR ''-'', c] @ '' <'' @ nm @ ''>'' @ [CHR 0x27]) [] else ret ()) (\<lambda>_.
     warn_missing opts param)"

definition id_parse_args :: "(char \<times> string) list \<Rightarrow> string list \<Rightarrow> ('k, (char \<Rightarrow> u32) option) prog" where
  "id_parse_args opts argv =
     (case id_opts (map fst opts) (fst (getopt (concat (map (\<lambda>(c, nm). [c, CHR '':'']) opts)) argv)) (\<lambda>_. 0) of
        None \<Rightarrow> ret None
      | Some param \<Rightarrow> exec (warn_missing opts param) (\<lambda>_. ret (Some param)))"

definition one_option :: "char \<Rightarrow> (char \<times> string) list" where
  "one_option x = [(x, [x] @ ''id'')]"

definition e_option :: "char \<Rightarrow> (char \<times> string) list" where
  "e_option x = [(CHR ''e'', ''e'' @ [x] @ ''id'')]"

definition fs_option :: "char \<Rightarrow> (char \<times> string) list" where
  "fs_option x = [(CHR ''f'', ''fs'' @ [x] @ ''id'')]"

definition re_options :: "char \<Rightarrow> (char \<times> string) list" where
  "re_options x = [(CHR ''r'', ''r'' @ [x] @ ''id''), (CHR ''e'', ''e'' @ [x] @ ''id'')]"

definition res_options :: "char \<Rightarrow> (char \<times> string) list" where
  "res_options x = [(CHR ''r'', ''r'' @ [x] @ ''id''), (CHR ''e'', ''e'' @ [x] @ ''id''), (CHR ''s'', ''s'' @ [x] @ ''id'')]"

section \<open>The test functions\<close>

text \<open>Statements they share: the checks of the arguments, a setter with its report, and the getters with theirs.\<close>

fun need_ids :: "(char \<times> string) list \<Rightarrow> (char \<Rightarrow> u32) \<Rightarrow> ('k, string option) prog \<Rightarrow> ('k, string option) prog" where
  "need_ids [] param rest = rest"
| "need_ids ((c, nm) # opts) param rest = tp_assert (param c \<noteq> 0) (Some (''invalid '' @ nm @ ''.'')) (need_ids opts param rest)"

definition with_args ::
    "(char \<times> string) list \<Rightarrow> (char \<Rightarrow> u32) option \<Rightarrow> ((char \<Rightarrow> u32) \<Rightarrow> ('k, string option) prog) \<Rightarrow> ('k, string option) prog" where
  "with_args opts args rest =
     tp_assert (args \<noteq> None) (Some ''invalid arguement.'') (need_ids opts (the args) (rest (the args)))"

fun commas :: "nat \<Rightarrow> string" where
  "commas 0 = []"
| "commas (Suc 0) = ''%d''"
| "commas (Suc n) = ''%d, '' @ commas n"

definition set_ids :: "string \<Rightarrow> ('k, int) prog \<Rightarrow> u32 list \<Rightarrow> ('k, string option) prog \<Rightarrow> ('k, string option) prog" where
  "set_ids nm call ids rest =
     exec call (\<lambda>status.
     exec get_errno (\<lambda>e.
     exec (printf (nm @ ''('' @ commas (length ids) @ '') = %d, errno = %d'') (map id_arg ids @ [AInt status, AInt e])) (\<lambda>_.
     tp_assert (status \<noteq> -1) (Some (nm @ ''() failed.'')) rest)))"

definition get_one :: "string \<Rightarrow> ('k, u32) prog \<Rightarrow> (u32 \<Rightarrow> ('k, string option) prog) \<Rightarrow> ('k, string option) prog" where
  "get_one nm call rest = exec call (\<lambda>i. exec (printf (nm @ ''() = %d'') [id_arg i]) (\<lambda>_. rest i))"

definition get_three ::
    "('k, 'z) id_os_scheme \<Rightarrow> char \<Rightarrow> (u32 \<Rightarrow> u32 \<Rightarrow> u32 \<Rightarrow> ('k, string option) prog) \<Rightarrow> ('k, string option) prog" where
  "get_three I x rest =
     exec (getresid_call I x) (\<lambda>(status, r, e, s).
     exec get_errno (\<lambda>en.
     exec (printf (''getres'' @ [x] @ ''id(%d, %d, %d) = %d, errno = %d'') [id_arg r, id_arg e, id_arg s, AInt status, AInt en]) (\<lambda>_.
     tp_assert (status \<noteq> -1) (Some (''getres'' @ [x] @ ''id() failed.'')) (rest r e s))))"

text \<open>\<^verbatim>\<open>setuid\<close>, \<^verbatim>\<open>setgid\<close>.\<close>

definition run_setid :: "('k, 'z) id_os_scheme \<Rightarrow> char \<Rightarrow> (char \<Rightarrow> u32) option \<Rightarrow> ('k, string option) prog" where
  "run_setid I x args =
     with_args (one_option x) args (\<lambda>param.
     set_ids (''set'' @ [x] @ ''id'') (setid_call I x (param x)) [param x] (
     get_one (''get'' @ [x] @ ''id'') (getid_call I x) (\<lambda>get.
     tp_assert (param x = get) (Some (''set'' @ [x] @ ''id() failed.'')) (
     ret None))))"

text \<open>\<^verbatim>\<open>getuid\<close>, \<^verbatim>\<open>getgid\<close>.\<close>

definition run_getid :: "('k, 'z) id_os_scheme \<Rightarrow> char \<Rightarrow> (char \<Rightarrow> u32) option \<Rightarrow> ('k, string option) prog" where
  "run_getid I x args =
     with_args (one_option x) args (\<lambda>param.
     get_one (''get'' @ [x] @ ''id'') (getid_call I x) (\<lambda>_.
     set_ids (''set'' @ [x] @ ''id'') (setid_call I x (param x)) [param x] (
     get_one (''get'' @ [x] @ ''id'') (getid_call I x) (\<lambda>get.
     tp_assert (param x = get) (Some (''get'' @ [x] @ ''id() failed.'')) (
     ret None)))))"

text \<open>\<^verbatim>\<open>setreuid\<close>, \<^verbatim>\<open>setregid\<close>.\<close>

definition run_setreid :: "('k, 'z) id_os_scheme \<Rightarrow> char \<Rightarrow> (char \<Rightarrow> u32) option \<Rightarrow> ('k, string option) prog" where
  "run_setreid I x args =
     with_args (re_options x) args (\<lambda>param.
     let r = param (CHR ''r''); e = param (CHR ''e'') in
     set_ids (''setre'' @ [x] @ ''id'') (setreid_call I x r e) [r, e] (
     get_one (''get'' @ [x] @ ''id'') (getid_call I x) (\<lambda>get.
     tp_assert (r = get) (Some (''setre'' @ [x] @ ''id() failed.'')) (
     get_one (''gete'' @ [x] @ ''id'') (geteid_call I x) (\<lambda>get.
     tp_assert (e = get) (Some (''setre'' @ [x] @ ''id() failed.'')) (
     ret None))))))"

text \<open>\<^verbatim>\<open>geteuid\<close>, \<^verbatim>\<open>getegid\<close>.\<close>

definition run_geteid :: "('k, 'z) id_os_scheme \<Rightarrow> char \<Rightarrow> (char \<Rightarrow> u32) option \<Rightarrow> ('k, string option) prog" where
  "run_geteid I x args =
     with_args (e_option x) args (\<lambda>param.
     let e = param (CHR ''e'') in
     get_one (''gete'' @ [x] @ ''id'') (geteid_call I x) (\<lambda>_.
     set_ids (''setre'' @ [x] @ ''id'') (setreid_call I x e e) [e, e] (
     get_one (''gete'' @ [x] @ ''id'') (geteid_call I x) (\<lambda>get.
     tp_assert (e = get) (Some (''gete'' @ [x] @ ''id() failed.'')) (
     ret None)))))"

text \<open>\<^verbatim>\<open>setresuid\<close>, \<^verbatim>\<open>setresgid\<close>, and after a first \<^verbatim>\<open>getresuid\<close> the suites \<^verbatim>\<open>getresuid\<close> and \<^verbatim>\<open>getresgid\<close>.\<close>

definition set_and_get_three :: "('k, 'z) id_os_scheme \<Rightarrow> char \<Rightarrow> u32 \<Rightarrow> u32 \<Rightarrow> u32 \<Rightarrow> ('k, string option) prog" where
  "set_and_get_three I x r e s =
     set_ids (''setres'' @ [x] @ ''id'') (setresid_call I x r e s) [r, e, s] (
     get_three I x (\<lambda>r' e' s'.
     tp_assert (r = r') (Some (''setres'' @ [x] @ ''id() failed.'')) (
     tp_assert (e = e') (Some (''setres'' @ [x] @ ''id() failed.'')) (
     tp_assert (s = s') (Some (''setres'' @ [x] @ ''id() failed.'')) (
     ret None)))))"

definition run_setresid :: "('k, 'z) id_os_scheme \<Rightarrow> char \<Rightarrow> (char \<Rightarrow> u32) option \<Rightarrow> ('k, string option) prog" where
  "run_setresid I x args =
     with_args (res_options x) args (\<lambda>param. set_and_get_three I x (param (CHR ''r'')) (param (CHR ''e'')) (param (CHR ''s'')))"

definition run_getresid :: "('k, 'z) id_os_scheme \<Rightarrow> char \<Rightarrow> (char \<Rightarrow> u32) option \<Rightarrow> ('k, string option) prog" where
  "run_getresid I x args =
     with_args (res_options x) args (\<lambda>param.
     get_three I x (\<lambda>_ _ _. set_and_get_three I x (param (CHR ''r'')) (param (CHR ''e'')) (param (CHR ''s''))))"

section \<open>The file system id, read from the proc file system\<close>

text \<open>\<^verbatim>\<open>fgets\<close> with a buffer of \<open>n + 1\<close> bytes: the text up to a line end, at most \<open>n\<close> characters, and the rest.\<close>

fun fgets :: "nat \<Rightarrow> string \<Rightarrow> string \<times> string" where
  "fgets 0 inp = ([], inp)"
| "fgets (Suc n) [] = ([], [])"
| "fgets (Suc n) (c # cs) = (if c = CHR 0x0A then ([c], cs) else (let (l, rest) = fgets n cs in (c # l, rest)))"

lemma fgets_shorter: "length (snd (fgets n inp)) \<le> length inp"
  by (induction n inp rule: fgets.induct) (auto simp: Let_def split: prod.splits)

lemma fgets_progress: "0 < n \<Longrightarrow> inp \<noteq> [] \<Longrightarrow> length (snd (fgets n inp)) < length inp"
  using fgets_shorter [of "n - 1" "tl inp"] by (cases n; cases inp) (auto simp: Let_def split: prod.splits)

fun contains :: "string \<Rightarrow> string \<Rightarrow> bool" where
  "contains pat [] = (pat = [])"
| "contains pat (c # cs) = (starts_with pat (c # cs) \<or> contains pat cs)"

text \<open>\<^verbatim>\<open>strrchr(buf, c)\<close>, advanced by one: the text after the last \<open>c\<close>.\<close>

fun after_last :: "char \<Rightarrow> string \<Rightarrow> string option" where
  "after_last c [] = None"
| "after_last c (d # ds) = (case after_last c ds of Some t \<Rightarrow> Some t | None \<Rightarrow> if d = c then Some ds else None)"

definition FREAD_BUF_SIZE :: nat where "FREAD_BUF_SIZE = 1024"

text \<open>The loop: the first buffer that contains the label, if any.\<close>

function scan_status :: "string \<Rightarrow> string \<Rightarrow> string option" where
  "scan_status label inp =
     (if inp = [] then None
      else let (buf, rest) = fgets (FREAD_BUF_SIZE - 1) inp in if contains label buf then Some buf else scan_status label rest)"
  by pat_completeness auto
termination
proof (relation "measure (\<lambda>(label, inp). length inp)")
  fix label inp :: string and p buf rest
  assume "inp \<noteq> []" and "p = fgets (FREAD_BUF_SIZE - 1) inp" and "(buf, rest) = p"
  then have "rest = snd (fgets (FREAD_BUF_SIZE - 1) inp)"
    by (metis snd_conv)
  with \<open>inp \<noteq> []\<close> show "((label, rest), label, inp) \<in> measure (\<lambda>(label, inp). length inp)"
    using fgets_progress [of "FREAD_BUF_SIZE - 1" inp] by (simp add: FREAD_BUF_SIZE_def)
qed simp

declare scan_status.simps [simp del]

definition status_path :: "nat \<Rightarrow> string" where
  "status_path pid = ''/proc/'' @ show_base 10 pid @ ''/status''"

definition check_procfs_status :: "('k, 'z) cred_os_scheme \<Rightarrow> string \<Rightarrow> u32 \<Rightarrow> ('k, int) prog" where
  "check_procfs_status C label set_fsid =
     exec (\<lambda>s. case os_getpid C (kern s) of (pid, k) \<Rightarrow> (Val pid, after (errno s) k (Called (Lib ''getpid'') [] (int pid)) s)) (\<lambda>pid.
     let fname = status_path pid in
     exec (sys_call (Lib ''fopen'') [AStr fname] (\<lambda>f. if f = None then 0 else 1) None
       (\<lambda>k. case os_fopen C fname k of (Inl e, k') \<Rightarrow> (Inl e, k') | (Inr inp, k') \<Rightarrow> (Inr (Some inp), k'))) (\<lambda>f.
     case f of
       None \<Rightarrow> exec (printf ''fopen error.'' []) (\<lambda>_. ret 0)
     | Some inp \<Rightarrow>
         exec (case scan_status label inp of
             None \<Rightarrow> ret 0
           | Some buf \<Rightarrow> exec (printf ''%s'' [AStr buf]) (\<lambda>_.
               ret (case after_last (CHR 0x09) buf of None \<Rightarrow> 0 | Some p \<Rightarrow> of_int (atoi p)))) (\<lambda>p_fsid.
         exec (sys_int (Lib ''fclose'') [] (os_fclose C)) (\<lambda>st.
         if st \<noteq> 0 then exec (printf ''fclose error.'' []) (\<lambda>_. ret 0)
         else
           exec (printf ''cmp %d == %d ? '' [id_arg set_fsid, id_arg p_fsid]) (\<lambda>_.
           ret (of_bool (set_fsid = p_fsid)))))))"

definition setfsid_call :: "('k, 'z) id_os_scheme \<Rightarrow> char \<Rightarrow> u32 \<Rightarrow> ('k, int) prog" where
  "setfsid_call I x i = exec (id_call (''setfs'' @ [x] @ ''id'') [id_arg i] (os_setfsid I i)) (\<lambda>old. ret (sint old))"

text \<open>\<^verbatim>\<open>setfsuid\<close>, \<^verbatim>\<open>setfsgid\<close>; the message for a missing id names \<^verbatim>\<open>uid\<close> and \<^verbatim>\<open>gid\<close>.\<close>

definition run_setfsid ::
    "('k, 'z) cred_os_scheme \<Rightarrow> 'k id_os \<Rightarrow> char \<Rightarrow> string \<Rightarrow> (char \<Rightarrow> u32) option \<Rightarrow> ('k, string option) prog" where
  "run_setfsid C I x label args =
     with_args [(CHR ''f'', [x] @ ''id'')] args (\<lambda>param.
     let i = param (CHR ''f'') in
     set_ids (''setfs'' @ [x] @ ''id'') (setfsid_call I x i) [i] (
     exec (check_procfs_status C label i) (\<lambda>ok.
     tp_assert (ok = 1) (Some (''setfs'' @ [x] @ ''id() failed.'')) (
     ret None))))"

section \<open>The suites\<close>

definition setuid_parse_args :: "string list \<Rightarrow> ('k, (char \<Rightarrow> u32) option) prog" where
  "setuid_parse_args = id_parse_args (one_option (CHR ''u''))"

definition setuid_000 :: "('k, 'z) cred_os_scheme \<Rightarrow> (char \<Rightarrow> u32) option \<Rightarrow> ('k, string option) prog" where
  "setuid_000 C = run_setid (users C) (CHR ''u'')"

definition setgid_parse_args :: "string list \<Rightarrow> ('k, (char \<Rightarrow> u32) option) prog" where
  "setgid_parse_args = id_parse_args (one_option (CHR ''g''))"

definition setgid_000 :: "('k, 'z) cred_os_scheme \<Rightarrow> (char \<Rightarrow> u32) option \<Rightarrow> ('k, string option) prog" where
  "setgid_000 C = run_setid (groups C) (CHR ''g'')"

definition getuid_parse_args :: "string list \<Rightarrow> ('k, (char \<Rightarrow> u32) option) prog" where
  "getuid_parse_args = id_parse_args (one_option (CHR ''u''))"

definition getuid_000 :: "('k, 'z) cred_os_scheme \<Rightarrow> (char \<Rightarrow> u32) option \<Rightarrow> ('k, string option) prog" where
  "getuid_000 C = run_getid (users C) (CHR ''u'')"

definition getgid_parse_args :: "string list \<Rightarrow> ('k, (char \<Rightarrow> u32) option) prog" where
  "getgid_parse_args = id_parse_args (one_option (CHR ''g''))"

definition getgid_000 :: "('k, 'z) cred_os_scheme \<Rightarrow> (char \<Rightarrow> u32) option \<Rightarrow> ('k, string option) prog" where
  "getgid_000 C = run_getid (groups C) (CHR ''g'')"

definition setreuid_parse_args :: "string list \<Rightarrow> ('k, (char \<Rightarrow> u32) option) prog" where
  "setreuid_parse_args = id_parse_args (re_options (CHR ''u''))"

definition setreuid_000 :: "('k, 'z) cred_os_scheme \<Rightarrow> (char \<Rightarrow> u32) option \<Rightarrow> ('k, string option) prog" where
  "setreuid_000 C = run_setreid (users C) (CHR ''u'')"

definition setregid_parse_args :: "string list \<Rightarrow> ('k, (char \<Rightarrow> u32) option) prog" where
  "setregid_parse_args = id_parse_args (re_options (CHR ''g''))"

definition setregid_000 :: "('k, 'z) cred_os_scheme \<Rightarrow> (char \<Rightarrow> u32) option \<Rightarrow> ('k, string option) prog" where
  "setregid_000 C = run_setreid (groups C) (CHR ''g'')"

definition geteuid_parse_args :: "string list \<Rightarrow> ('k, (char \<Rightarrow> u32) option) prog" where
  "geteuid_parse_args = id_parse_args (e_option (CHR ''u''))"

definition geteuid_000 :: "('k, 'z) cred_os_scheme \<Rightarrow> (char \<Rightarrow> u32) option \<Rightarrow> ('k, string option) prog" where
  "geteuid_000 C = run_geteid (users C) (CHR ''u'')"

definition getegid_parse_args :: "string list \<Rightarrow> ('k, (char \<Rightarrow> u32) option) prog" where
  "getegid_parse_args = id_parse_args (e_option (CHR ''g''))"

definition getegid_000 :: "('k, 'z) cred_os_scheme \<Rightarrow> (char \<Rightarrow> u32) option \<Rightarrow> ('k, string option) prog" where
  "getegid_000 C = run_geteid (groups C) (CHR ''g'')"

definition setresuid_parse_args :: "string list \<Rightarrow> ('k, (char \<Rightarrow> u32) option) prog" where
  "setresuid_parse_args = id_parse_args (res_options (CHR ''u''))"

definition setresuid_000 :: "('k, 'z) cred_os_scheme \<Rightarrow> (char \<Rightarrow> u32) option \<Rightarrow> ('k, string option) prog" where
  "setresuid_000 C = run_setresid (users C) (CHR ''u'')"

definition setresgid_parse_args :: "string list \<Rightarrow> ('k, (char \<Rightarrow> u32) option) prog" where
  "setresgid_parse_args = id_parse_args (res_options (CHR ''g''))"

definition setresgid_000 :: "('k, 'z) cred_os_scheme \<Rightarrow> (char \<Rightarrow> u32) option \<Rightarrow> ('k, string option) prog" where
  "setresgid_000 C = run_setresid (groups C) (CHR ''g'')"

definition getresuid_parse_args :: "string list \<Rightarrow> ('k, (char \<Rightarrow> u32) option) prog" where
  "getresuid_parse_args = id_parse_args (res_options (CHR ''u''))"

definition getresuid_000 :: "('k, 'z) cred_os_scheme \<Rightarrow> (char \<Rightarrow> u32) option \<Rightarrow> ('k, string option) prog" where
  "getresuid_000 C = run_getresid (users C) (CHR ''u'')"

definition getresgid_parse_args :: "string list \<Rightarrow> ('k, (char \<Rightarrow> u32) option) prog" where
  "getresgid_parse_args = id_parse_args (res_options (CHR ''g''))"

definition getresgid_000 :: "('k, 'z) cred_os_scheme \<Rightarrow> (char \<Rightarrow> u32) option \<Rightarrow> ('k, string option) prog" where
  "getresgid_000 C = run_getresid (groups C) (CHR ''g'')"

definition setfsuid_parse_args :: "string list \<Rightarrow> ('k, (char \<Rightarrow> u32) option) prog" where
  "setfsuid_parse_args = id_parse_args (fs_option (CHR ''u''))"

definition setfsuid_000 :: "('k, 'z) cred_os_scheme \<Rightarrow> (char \<Rightarrow> u32) option \<Rightarrow> ('k, string option) prog" where
  "setfsuid_000 C = run_setfsid C (users C) (CHR ''u'') ''Uid:''"

definition setfsgid_parse_args :: "string list \<Rightarrow> ('k, (char \<Rightarrow> u32) option) prog" where
  "setfsgid_parse_args = id_parse_args (fs_option (CHR ''g''))"

definition setfsgid_000 :: "('k, 'z) cred_os_scheme \<Rightarrow> (char \<Rightarrow> u32) option \<Rightarrow> ('k, string option) prog" where
  "setfsgid_000 C = run_setfsid C (groups C) (CHR ''g'') ''Gid:''"

text \<open>Every suite has one case, number 0, whose set-up parses the arguments and whose tear-down is empty.\<close>

definition cred_case ::
    "string \<Rightarrow> (string list \<Rightarrow> ('k, (char \<Rightarrow> u32) option) prog) \<Rightarrow> ((char \<Rightarrow> u32) option \<Rightarrow> ('k, string option) prog)
     \<Rightarrow> ('k, (char \<Rightarrow> u32) option) test_case" where
  "cred_case suite parse run =
     \<lparr>tc_suite = suite, tc_num = 0, tc_setup = (\<lambda>_ argv. parse argv), tc_run = (\<lambda>_ args. run args), tc_teardown = (\<lambda>_ _. ret ())\<rparr>"

definition cred_cases :: "('k, 'z) cred_os_scheme \<Rightarrow> ('k, (char \<Rightarrow> u32) option) test_case list" where
  "cred_cases C = [
     cred_case ''setuid'' setuid_parse_args (setuid_000 C),
     cred_case ''setgid'' setgid_parse_args (setgid_000 C),
     cred_case ''getuid'' getuid_parse_args (getuid_000 C),
     cred_case ''getgid'' getgid_parse_args (getgid_000 C),
     cred_case ''setreuid'' setreuid_parse_args (setreuid_000 C),
     cred_case ''setregid'' setregid_parse_args (setregid_000 C),
     cred_case ''geteuid'' geteuid_parse_args (geteuid_000 C),
     cred_case ''getegid'' getegid_parse_args (getegid_000 C),
     cred_case ''setresuid'' setresuid_parse_args (setresuid_000 C),
     cred_case ''setresgid'' setresgid_parse_args (setresgid_000 C),
     cred_case ''getresuid'' getresuid_parse_args (getresuid_000 C),
     cred_case ''getresgid'' getresgid_parse_args (getresgid_000 C),
     cred_case ''setfsuid'' setfsuid_parse_args (setfsuid_000 C),
     cred_case ''setfsgid'' setfsgid_parse_args (setfsgid_000 C)]"

text \<open>The options each suite takes.\<close>

definition cred_options :: "string \<Rightarrow> (char \<times> string) list" where
  "cred_options suite = the (map_of [
     (''setuid'', one_option (CHR ''u'')),
     (''setgid'', one_option (CHR ''g'')),
     (''getuid'', one_option (CHR ''u'')),
     (''getgid'', one_option (CHR ''g'')),
     (''setreuid'', re_options (CHR ''u'')),
     (''setregid'', re_options (CHR ''g'')),
     (''geteuid'', e_option (CHR ''u'')),
     (''getegid'', e_option (CHR ''g'')),
     (''setresuid'', res_options (CHR ''u'')),
     (''setresgid'', res_options (CHR ''g'')),
     (''getresuid'', res_options (CHR ''u'')),
     (''getresgid'', res_options (CHR ''g'')),
     (''setfsuid'', fs_option (CHR ''u'')),
     (''setfsgid'', fs_option (CHR ''g''))] suite)"

lemmas parse_defs = setuid_parse_args_def setgid_parse_args_def getuid_parse_args_def getgid_parse_args_def setreuid_parse_args_def setregid_parse_args_def geteuid_parse_args_def getegid_parse_args_def setresuid_parse_args_def setresgid_parse_args_def getresuid_parse_args_def getresgid_parse_args_def setfsuid_parse_args_def setfsgid_parse_args_def

lemmas cred_run_defs = setuid_000_def setgid_000_def getuid_000_def getgid_000_def setreuid_000_def setregid_000_def geteuid_000_def getegid_000_def setresuid_000_def setresgid_000_def getresuid_000_def getresgid_000_def setfsuid_000_def setfsgid_000_def

section \<open>The contract of the kernel\<close>

record idset =
  id_real :: u32
  id_eff :: u32
  id_saved :: u32
  id_fs :: u32

text \<open>
  \<open>U k\<close> are the ids of the process. The getters report them. In a state where the process is privileged (\<open>P k\<close>) the
  setters install the given ids; an id of \<open>-1\<close> is an error for \<^verbatim>\<open>setuid\<close> and leaves the old id in place for \<^verbatim>\<open>setreuid\<close> and
  \<^verbatim>\<open>setresuid\<close>. Changing the effective id changes the file system id as well; \<^verbatim>\<open>setfsuid\<close> returns the old one.
\<close>

definition choose_id :: "u32 \<Rightarrow> u32 \<Rightarrow> u32" where
  "choose_id new old = (if new = -1 then old else new)"

definition id_contract :: "('k, 'z) id_os_scheme \<Rightarrow> ('k \<Rightarrow> idset) \<Rightarrow> ('k \<Rightarrow> bool) \<Rightarrow> bool" where
  "id_contract I U P \<longleftrightarrow>
     (\<forall>k. \<exists>k'. os_getid I k = (id_real (U k), k') \<and> U k' = U k \<and> P k' = P k) \<and>
     (\<forall>k. \<exists>k'. os_geteid I k = (id_eff (U k), k') \<and> U k' = U k \<and> P k' = P k) \<and>
     (\<forall>k. \<exists>k'. os_getresid I k = (Inr (id_real (U k), id_eff (U k), id_saved (U k)), k') \<and> U k' = U k \<and> P k' = P k) \<and>
     (\<forall>i k. P k \<and> i \<noteq> -1 \<longrightarrow> (\<exists>k'. os_setid I i k = (Inr 0, k') \<and> U k' = \<lparr>id_real = i, id_eff = i, id_saved = i, id_fs = i\<rparr>)) \<and>
     (\<forall>k. \<exists>k'. os_setid I (-1) k = (Inl EINVAL, k') \<and> U k' = U k) \<and>
     (\<forall>r e k. P k \<longrightarrow> (\<exists>k'. os_setreid I r e k = (Inr 0, k') \<and>
        id_real (U k') = choose_id r (id_real (U k)) \<and> id_eff (U k') = choose_id e (id_eff (U k)) \<and> id_fs (U k') = id_eff (U k'))) \<and>
     (\<forall>r e s k. P k \<longrightarrow> (\<exists>k'. os_setresid I r e s k = (Inr 0, k') \<and>
        id_real (U k') = choose_id r (id_real (U k)) \<and> id_eff (U k') = choose_id e (id_eff (U k)) \<and>
        id_saved (U k') = choose_id s (id_saved (U k)) \<and> id_fs (U k') = id_eff (U k'))) \<and>
     (\<forall>i k. P k \<and> i \<noteq> -1 \<longrightarrow> (\<exists>k'. os_setfsid I i k = (id_fs (U k), k') \<and> U k' = (U k)\<lparr>id_fs := i\<rparr>))"

text \<open>
  The file \<^verbatim>\<open>/proc/<pid>/status\<close> of the process: lines that fit the buffer, among them one with the four ids after the
  label, and no line before it contains the label.
\<close>

definition status_line :: "string \<Rightarrow> idset \<Rightarrow> string" where
  "status_line label ids =
     label @ concat (map (\<lambda>i. CHR 0x09 # show_base 10 (unat i)) [id_real ids, id_eff ids, id_saved ids, id_fs ids]) @ [CHR 0x0A]"

definition other_line :: "string \<Rightarrow> string \<Rightarrow> bool" where
  "other_line label l \<longleftrightarrow> (\<exists>b. l = b @ [CHR 0x0A] \<and> CHR 0x0A \<notin> set b \<and> length l < FREAD_BUF_SIZE \<and> \<not> contains label l)"

definition status_contract :: "('k, 'z) cred_os_scheme \<Rightarrow> string \<Rightarrow> ('k \<Rightarrow> idset) \<Rightarrow> bool" where
  "status_contract C label U \<longleftrightarrow>
     (\<forall>k. \<exists>pid k1 before rest k2. os_getpid C k = (pid, k1) \<and> U k1 = U k \<and>
        os_fopen C (status_path pid) k1 = (Inr (concat before @ status_line label (U k) @ rest), k2) \<and>
        (\<forall>l \<in> set before. other_line label l)) \<and>
     (\<forall>k. \<exists>k'. os_fclose C k = (Inr 0, k'))"

definition cred_contract :: "('k, 'z) cred_os_scheme \<Rightarrow> ('k \<Rightarrow> idset) \<Rightarrow> ('k \<Rightarrow> idset) \<Rightarrow> ('k \<Rightarrow> bool) \<Rightarrow> bool" where
  "cred_contract C U G P \<longleftrightarrow>
     id_contract (users C) U P \<and> id_contract (groups C) G P \<and> status_contract C ''Uid:'' U \<and> status_contract C ''Gid:'' G"

section \<open>Reading the status file\<close>

lemma fgets_line: "CHR 0x0A \<notin> set b \<Longrightarrow> length b < n \<Longrightarrow> fgets n (b @ CHR 0x0A # rest) = (b @ [CHR 0x0A], rest)"
proof (induction b arbitrary: n)
  case Nil
  then show ?case by (cases n) auto
next
  case (Cons c b)
  then show ?case by (cases n) auto
qed

lemma contains_prefix: "contains label (label @ rest)"
proof -
  have "starts_with label (label @ rest)"
    by (induction label) auto
  then show ?thesis
    by (cases "label @ rest") auto
qed

lemma scan_status_line:
  assumes "\<forall>l \<in> set before. other_line label l" and "line = b @ [CHR 0x0A]" and "CHR 0x0A \<notin> set b" and "length line < FREAD_BUF_SIZE"
    and "contains label line"
  shows "scan_status label (concat before @ line @ rest) = Some line"
  using assms(1)
proof (induction before)
  case Nil
  have "fgets (FREAD_BUF_SIZE - 1) (line @ rest) = (line, rest)"
    using fgets_line [OF assms(3), of "FREAD_BUF_SIZE - 1" rest] assms(2,4) by simp
  with assms(2,5) show ?case
    by (subst scan_status.simps) simp
next
  case (Cons l before)
  then obtain c where c: "l = c @ [CHR 0x0A]" "CHR 0x0A \<notin> set c" "length l < FREAD_BUF_SIZE" "\<not> contains label l"
    unfolding other_line_def by auto
  have "fgets (FREAD_BUF_SIZE - 1) (l @ concat before @ line @ rest) = (l, concat before @ line @ rest)"
    using fgets_line [OF c(2), of "FREAD_BUF_SIZE - 1" "concat before @ line @ rest"] c(1,3) by simp
  then show ?case
    using Cons c by (subst scan_status.simps) simp
qed

lemma after_last_none: "c \<notin> set s \<Longrightarrow> after_last c s = None"
  by (induction s) auto

lemma after_last_append: "c \<notin> set s \<Longrightarrow> after_last c (p @ c # s) = Some s"
  by (induction p) (auto simp: after_last_none)

lemma show_decimal_chars: "c \<in> set (show_base 10 n) \<Longrightarrow> c \<noteq> CHR 0x09 \<and> c \<noteq> CHR 0x0A"
  using show_base_digits [of 10 n] by (auto simp: digit_val_def char_code_def)

lemma length_show_base: "n < 10 ^ k \<Longrightarrow> 0 < k \<Longrightarrow> length (show_base 10 n) \<le> k"
proof (induction k arbitrary: n)
  case (Suc k)
  show ?case
  proof (cases "n < 10")
    case True
    then show ?thesis by (subst show_base.simps) simp
  next
    case False
    then have "0 < k" using Suc.prems by (cases k) auto
    with Suc have "length (show_base 10 (n div 10)) \<le> k" by (simp add: less_mult_imp_div_less)
    with False show ?thesis by (subst show_base.simps) simp
  qed
qed simp

lemma length_show_u32: "length (show_base 10 (unat (i :: u32))) \<le> 10"
proof -
  have "unat i < 2 ^ 32"
    using unsigned_less [of i] by simp
  then show ?thesis by (intro length_show_base) simp_all
qed

text \<open>\<^verbatim>\<open>atoi\<close> of the decimal digits of an id, up to a character that is no digit, is the id, for all 32-bit ids.\<close>

lemma strto_raw_decimal_stops:
  assumes "stops 10 s"
  shows "strto_raw 10 (show_base 10 n @ s) = (False, n, length (show_base 10 n))"
proof -
  obtain c cs where eq: "show_base 10 n = c # cs" by (cases "show_base 10 n") auto
  have "\<exists>d. digit_val c = Some d" using show_base_digits [of 10 n] eq by auto
  then show ?thesis
    using scan_show_base_stops [of 10 s n] assms by (simp add: eq strto_raw_digits detect_base_def)
qed

lemma word_of_to_int32: "(of_int (to_int32 x) :: u32) = of_int x"
proof -
  have "((x + 2 ^ 31) mod 2 ^ 32 - 2 ^ 31) mod 2 ^ 32 = x mod (2 ^ 32 :: int)"
    by (simp add: mod_diff_left_eq)
  then show ?thesis
    unfolding to_int32_def word_of_int_eq_iff by (simp add: take_bit_eq_mod)
qed

lemma atoi_show_u32:
  assumes "stops 10 s"
  shows "of_int (atoi (show_base 10 (unat i) @ s)) = (i :: u32)"
proof -
  have "unat i < 2 ^ 32"
    using unsigned_less [of i] by simp
  then have "atoi (show_base 10 (unat i) @ s) = to_int32 (uint i)"
    by (simp add: atoi_def strtoll_def strto_raw_decimal_stops [OF assms] Let_def)
  then show ?thesis
    by (simp add: word_of_to_int32)
qed

lemma status_line_fits:
  assumes "CHR 0x0A \<notin> set label" and "length label < 900"
  shows "\<exists>b. status_line label ids = b @ [CHR 0x0A] \<and> CHR 0x0A \<notin> set b \<and> length (status_line label ids) < FREAD_BUF_SIZE"
proof (intro exI conjI)
  show "status_line label ids =
      (label @ concat (map (\<lambda>i. CHR 0x09 # show_base 10 (unat i)) [id_real ids, id_eff ids, id_saved ids, id_fs ids])) @ [CHR 0x0A]"
    by (simp add: status_line_def)
  show "CHR 0x0A \<notin> set (label @ concat (map (\<lambda>i. CHR 0x09 # show_base 10 (unat i)) [id_real ids, id_eff ids, id_saved ids, id_fs ids]))"
    using assms(1) show_decimal_chars by auto
  show "length (status_line label ids) < FREAD_BUF_SIZE"
    using assms(2) length_show_u32 [of "id_real ids"] length_show_u32 [of "id_eff ids"] length_show_u32 [of "id_saved ids"] length_show_u32 [of "id_fs ids"]
    by (simp add: status_line_def FREAD_BUF_SIZE_def)
qed

lemma scan_status_ids:
  assumes "\<forall>l \<in> set before. other_line label l" and "CHR 0x0A \<notin> set label" and "length label < 900"
  shows "scan_status label (concat before @ status_line label ids @ rest) = Some (status_line label ids)"
proof -
  obtain b where "status_line label ids = b @ [CHR 0x0A]" "CHR 0x0A \<notin> set b" "length (status_line label ids) < FREAD_BUF_SIZE"
    using status_line_fits [OF assms(2,3)] by blast
  moreover have "contains label (status_line label ids)"
    unfolding status_line_def by (rule contains_prefix)
  ultimately show ?thesis
    by (intro scan_status_line [OF assms(1)])
qed

lemma fs_of_status_line:
  "(case after_last (CHR 0x09) (status_line label ids) of None \<Rightarrow> 0 | Some p \<Rightarrow> of_int (atoi p)) = id_fs ids"
proof -
  have "status_line label ids = (label @ concat (map (\<lambda>i. CHR 0x09 # show_base 10 (unat i)) [id_real ids, id_eff ids, id_saved ids])) @
      CHR 0x09 # show_base 10 (unat (id_fs ids)) @ [CHR 0x0A]"
    by (simp add: status_line_def)
  moreover have "CHR 0x09 \<notin> set (show_base 10 (unat (id_fs ids)) @ [CHR 0x0A])"
    using show_decimal_chars by auto
  ultimately have "after_last (CHR 0x09) (status_line label ids) = Some (show_base 10 (unat (id_fs ids)) @ [CHR 0x0A])"
    by (metis after_last_append)
  moreover have "stops 10 [CHR 0x0A]"
    by (simp add: stops_def digit_val_def char_code_def)
  ultimately show ?thesis
    by (simp add: atoi_show_u32)
qed

lemma check_procfs_status_result:
  assumes "status_contract C label U" and "CHR 0x0A \<notin> set label" and "length label < 900"
  shows "wp (check_procfs_status C label i) (\<lambda>r t. r = Val (of_bool (i = id_fs (U (kern s))))) s"
proof -
  obtain pid k1 before rest k2 where pid: "os_getpid C (kern s) = (pid, k1)"
    and open_: "os_fopen C (status_path pid) k1 = (Inr (concat before @ status_line label (U (kern s)) @ rest), k2)"
    and before: "\<forall>l \<in> set before. other_line label l"
    using assms(1) unfolding status_contract_def by meson
  have line: "scan_status label (concat before @ status_line label (U (kern s)) @ rest) = Some (status_line label (U (kern s)))"
    by (rule scan_status_ids [OF before assms(2,3)])
  obtain k3 where "os_fclose C k2 = (Inr 0, k3)"
    using assms(1) unfolding status_contract_def by blast
  then show ?thesis
    unfolding check_procfs_status_def
    by (simp add: wp_def exec_def pid sys_call_def open_ line emit_def ret_def fs_of_status_line Let_def)
qed

section \<open>Parsing the ids\<close>

definition id_argv :: "(char \<times> string) list \<Rightarrow> (char \<Rightarrow> u32) \<Rightarrow> string list" where
  "id_argv opts ids = concat (map (\<lambda>(c, nm). [[CHR ''-'', c], show_base 10 (unat (ids c))]) opts)"

lemma getopt_id_argv:
  assumes "\<forall>(c, nm) \<in> set opts. spec c = Some True \<and> c \<noteq> CHR ''-''"
  shows "fst (getopt_args spec (id_argv opts ids)) = map (\<lambda>(c, nm). Opt c (Some (show_base 10 (unat (ids c))))) opts"
  using assms
proof (induction opts)
  case (Cons a opts)
  obtain c nm where a: "a = (c, nm)" by force
  with Cons.prems have "spec c = Some True" "c \<noteq> CHR ''-''" by auto
  moreover have "id_argv (a # opts) ids = [CHR ''-'', c] # show_base 10 (unat (ids c)) # id_argv opts ids"
    by (simp add: id_argv_def a)
  ultimately show ?case
    using Cons by (cases "getopt_args spec (id_argv opts ids)") (simp add: is_option_def a Let_def)
qed (simp add: id_argv_def)

lemma id_opts_all:
  assumes "fst ` set opts \<subseteq> set letters"
  shows "\<exists>p. id_opts letters (map (\<lambda>(c, nm). Opt c (Some (show_base 10 (unat (ids c))))) opts) param = Some p \<and>
    (\<forall>c. p c = (if c \<in> fst ` set opts then ids c else param c))"
  using assms
proof (induction opts arbitrary: param)
  case (Cons a opts)
  obtain c nm where a: "a = (c, nm)" by force
  have "of_int (atoi (show_base 10 (unat (ids c)))) = ids c"
    using atoi_show_u32 [of "[]" "ids c"] by (simp add: stops_def)
  with Cons.prems Cons.IH [of "param(c := ids c)"] show ?case
    by (auto simp: a fun_upd_def)
qed simp

lemma wp_warn_missing: "(\<And>t. kern t = kern s \<Longrightarrow> Q (Val ()) t) \<Longrightarrow> wp (warn_missing opts p) Q s"
proof (induction opts arbitrary: s)
  case (Cons a opts)
  have "wp (warn_missing opts p) Q t" if "kern t = kern s" for t
    using that Cons by simp
  then show ?case
    by (cases a) (auto intro!: wp_rules)
qed (auto intro!: wp_rules)

lemma id_parse_args_ok:
  assumes "\<forall>(c, nm) \<in> set opts. optspec (concat (map (\<lambda>(c, nm). [c, CHR '':'']) opts)) c = Some True \<and> c \<noteq> CHR ''-''"
  shows "\<exists>p t. id_parse_args opts (app # id_argv opts ids) s = (Val (Some p), t) \<and> kern t = kern s \<and> (\<forall>c \<in> fst ` set opts. p c = ids c)"
proof -
  have "fst (getopt (concat (map (\<lambda>(c, nm). [c, CHR '':'']) opts)) (app # id_argv opts ids)) =
      map (\<lambda>(c, nm). Opt c (Some (show_base 10 (unat (ids c))))) opts"
    using getopt_id_argv [OF assms] by (simp add: getopt_def case_prod_beta)
  moreover obtain p where "id_opts (map fst opts) (map (\<lambda>(c, nm). Opt c (Some (show_base 10 (unat (ids c))))) opts) (\<lambda>_. 0) = Some p"
    and "\<forall>c. p c = (if c \<in> fst ` set opts then ids c else 0)"
    using id_opts_all [of opts "map fst opts" ids "\<lambda>_. 0"] by auto
  moreover obtain t where "warn_missing opts p s = (Val (), t)" "kern t = kern s"
    using wp_warn_missing [where Q = "\<lambda>r t. r = Val () \<and> kern t = kern s" and s = s] by (auto simp: wp_def split: prod.splits)
  ultimately show ?thesis
    by (auto simp: id_parse_args_def exec_def ret_def)
qed

section \<open>The calls under the contract\<close>

lemma wp_set_ids:
  assumes "f (kern s) = (Inr 0, k)" and "\<And>t. kern t = k \<Longrightarrow> wp rest Q t"
  shows "wp (set_ids nm (sys_int n args f) ids rest) Q s"
  unfolding set_ids_def using assms(1)
  by (intro wp_exec, rule wp_sys_call_Inr) (auto intro!: wp_rules assms(2))

lemma wp_set_ids_fails:
  assumes "fst (f (kern s)) = Inl e" and "\<And>t. Q (Val (Some (nm @ ''() failed.''))) t"
  shows "wp (set_ids nm (sys_int n args f) ids rest) Q s"
  unfolding set_ids_def
  by (rule wp_exec, rule wp_sys_call_Inl [where f = f and s = s and e = e], rule assms(1)) (auto intro!: wp_rules assms(2))

lemma wp_get_one:
  assumes "f (kern s) = (i, k)" and "\<And>t. kern t = k \<Longrightarrow> wp (rest i) Q t"
  shows "wp (get_one nm (id_call n args f) rest) Q s"
  unfolding get_one_def using assms
  by (intro wp_exec) (auto simp: wp_def [of "id_call n args f"] id_call_def intro!: wp_rules assms(2))

lemma wp_get_three:
  assumes "os_getresid I (kern s) = (Inr (r, e, v), k)" and "\<And>t. kern t = k \<Longrightarrow> wp (rest r e v) Q t"
  shows "wp (get_three I x rest) Q s"
  unfolding get_three_def getresid_call_def
  by (rule wp_exec, rule wp_sys_call_Inr [where v = "(0, r, e, v)" and k = k]) (auto simp: assms(1) intro!: wp_rules assms(2))

lemma need_ids_ok: "\<forall>(c, nm) \<in> set opts. p c \<noteq> 0 \<Longrightarrow> need_ids opts p rest = rest"
  by (induction opts) auto

lemma wp_with_args:
  assumes "\<forall>(c, nm) \<in> set opts. p c \<noteq> 0" and "wp (rest p) Q s"
  shows "wp (with_args opts (Some p) rest) Q s"
  using assms by (simp add: with_args_def need_ids_ok)

section \<open>The test functions under the contract\<close>

lemma id_laws:
  assumes "id_contract I U P"
  shows "\<exists>k'. os_getid I k = (id_real (U k), k') \<and> U k' = U k \<and> P k' = P k"
    and "\<exists>k'. os_geteid I k = (id_eff (U k), k') \<and> U k' = U k \<and> P k' = P k"
    and "\<exists>k'. os_getresid I k = (Inr (id_real (U k), id_eff (U k), id_saved (U k)), k') \<and> U k' = U k \<and> P k' = P k"
    and "P k \<Longrightarrow> i \<noteq> -1 \<Longrightarrow> \<exists>k'. os_setid I i k = (Inr 0, k') \<and> id_real (U k') = i"
    and "P k \<Longrightarrow> \<exists>k'. os_setreid I r e k = (Inr 0, k') \<and> id_real (U k') = choose_id r (id_real (U k)) \<and> id_eff (U k') = choose_id e (id_eff (U k))"
    and "P k \<Longrightarrow> \<exists>k'. os_setresid I r e s k = (Inr 0, k') \<and> id_real (U k') = choose_id r (id_real (U k)) \<and>
      id_eff (U k') = choose_id e (id_eff (U k)) \<and> id_saved (U k') = choose_id s (id_saved (U k))"
    and "P k \<Longrightarrow> i \<noteq> -1 \<Longrightarrow> \<exists>k'. os_setfsid I i k = (id_fs (U k), k') \<and> id_fs (U k') = i"
    and "\<exists>k'. os_setid I (-1) k = (Inl EINVAL, k')"
proof -
  note laws = assms [unfolded id_contract_def]
  note l1 = conjunct1 [OF laws] and r1 = conjunct2 [OF laws]
  note l2 = conjunct1 [OF r1] and r2 = conjunct2 [OF r1]
  note l3 = conjunct1 [OF r2] and r3 = conjunct2 [OF r2]
  note l4 = conjunct1 [OF r3] and r4 = conjunct2 [OF r3]
  note l5 = conjunct1 [OF r4] and r5 = conjunct2 [OF r4]
  note l6 = conjunct1 [OF r5] and r6 = conjunct2 [OF r5]
  note l7 = conjunct1 [OF r6] and l8 = conjunct2 [OF r6]
  show "\<exists>k'. os_getid I k = (id_real (U k), k') \<and> U k' = U k \<and> P k' = P k"
    by (rule l1 [rule_format])
  show "\<exists>k'. os_geteid I k = (id_eff (U k), k') \<and> U k' = U k \<and> P k' = P k"
    by (rule l2 [rule_format])
  show "\<exists>k'. os_getresid I k = (Inr (id_real (U k), id_eff (U k), id_saved (U k)), k') \<and> U k' = U k \<and> P k' = P k"
    by (rule l3 [rule_format])
  show "\<exists>k'. os_setid I i k = (Inr 0, k') \<and> id_real (U k') = i" if "P k" "i \<noteq> -1"
    using l4 [rule_format, of k i] that by auto
  show "\<exists>k'. os_setreid I r e k = (Inr 0, k') \<and> id_real (U k') = choose_id r (id_real (U k)) \<and> id_eff (U k') = choose_id e (id_eff (U k))" if "P k"
    using l6 [rule_format, of k r e] that by auto
  show "\<exists>k'. os_setresid I r e s k = (Inr 0, k') \<and> id_real (U k') = choose_id r (id_real (U k)) \<and>
      id_eff (U k') = choose_id e (id_eff (U k)) \<and> id_saved (U k') = choose_id s (id_saved (U k))" if "P k"
    using l7 [rule_format, of k r e s] that by auto
  show "\<exists>k'. os_setfsid I i k = (id_fs (U k), k') \<and> id_fs (U k') = i" if "P k" "i \<noteq> -1"
    using l8 [rule_format, of k i] that by auto
  show "\<exists>k'. os_setid I (-1) k = (Inl EINVAL, k')"
    using l5 by blast
qed

lemma run_setid_passes:
  assumes I: "id_contract I U P" "P (kern s)" and "p x \<noteq> 0" "p x \<noteq> -1"
  shows "wp (run_setid I x (Some p)) (\<lambda>r t. r = Val None) s"
proof -
  obtain k where set: "os_setid I (p x) (kern s) = (Inr 0, k)" "id_real (U k) = p x"
    using id_laws(4) [OF I assms(4)] by blast
  obtain k' where get: "os_getid I k = (p x, k')"
    using id_laws(1) [OF I(1), of k] set(2) by auto
  show ?thesis
    unfolding run_setid_def setid_call_def getid_call_def using assms(3)
    by (intro wp_with_args wp_set_ids [where f = "os_setid I (p x)", OF set(1)] wp_get_one [where f = "os_getid I"])
      (auto simp: one_option_def get intro!: wp_rules)
qed

lemma run_getid_passes:
  assumes I: "id_contract I U P" "P (kern s)" and "p x \<noteq> 0" "p x \<noteq> -1"
  shows "wp (run_getid I x (Some p)) (\<lambda>r t. r = Val None) s"
proof -
  obtain k0 where get0: "os_getid I (kern s) = (id_real (U (kern s)), k0)" and "P k0"
    using id_laws(1) [OF I(1), of "kern s"] I(2) by auto
  obtain k where set: "os_setid I (p x) k0 = (Inr 0, k)" "id_real (U k) = p x"
    using id_laws(4) [OF I(1) \<open>P k0\<close> assms(4)] by blast
  obtain k' where get: "os_getid I k = (p x, k')"
    using id_laws(1) [OF I(1), of k] set(2) by auto
  show ?thesis
    unfolding run_getid_def setid_call_def getid_call_def using assms(3)
    by (intro wp_with_args wp_get_one [where f = "os_getid I", OF get0] wp_set_ids [where f = "os_setid I (p x)" and k = k] wp_get_one [where f = "os_getid I"])
      (auto simp: one_option_def get set intro!: wp_rules)
qed

lemma run_setreid_passes:
  assumes I: "id_contract I U P" "P (kern s)" and "\<forall>c \<in> {CHR ''r'', CHR ''e''}. p c \<noteq> 0 \<and> p c \<noteq> -1"
  shows "wp (run_setreid I x (Some p)) (\<lambda>r t. r = Val None) s"
proof -
  obtain k where set: "os_setreid I (p (CHR ''r'')) (p (CHR ''e'')) (kern s) = (Inr 0, k)" "id_real (U k) = p (CHR ''r'')" "id_eff (U k) = p (CHR ''e'')"
    using id_laws(5) [OF I, of "p (CHR ''r'')" "p (CHR ''e'')"] assms(3) by (auto simp: choose_id_def)
  obtain k1 where get1: "os_getid I k = (p (CHR ''r''), k1)" "U k1 = U k"
    using id_laws(1) [OF I(1), of k] set(2) by auto
  obtain k2 where get2: "os_geteid I k1 = (p (CHR ''e''), k2)"
    using id_laws(2) [OF I(1), of k1] set(3) get1(2) by auto
  show ?thesis
    unfolding run_setreid_def setreid_call_def getid_call_def geteid_call_def Let_def using assms(3)
    by (intro wp_with_args wp_set_ids [where f = "os_setreid I (p (CHR ''r'')) (p (CHR ''e''))", OF set(1)] wp_get_one [where f = "os_getid I"])
      (use get1 get2 in \<open>auto simp: re_options_def intro!: wp_rules wp_get_one [where f = "os_geteid I" and k = k2]\<close>)
qed

lemma run_geteid_passes:
  assumes I: "id_contract I U P" "P (kern s)" and "p (CHR ''e'') \<noteq> 0" "p (CHR ''e'') \<noteq> -1"
  shows "wp (run_geteid I x (Some p)) (\<lambda>r t. r = Val None) s"
proof -
  obtain k0 where get0: "os_geteid I (kern s) = (id_eff (U (kern s)), k0)" and "P k0"
    using id_laws(2) [OF I(1), of "kern s"] I(2) by auto
  obtain k where set: "os_setreid I (p (CHR ''e'')) (p (CHR ''e'')) k0 = (Inr 0, k)" "id_eff (U k) = p (CHR ''e'')"
    using id_laws(5) [OF I(1) \<open>P k0\<close>, of "p (CHR ''e'')" "p (CHR ''e'')"] assms(4) by (auto simp: choose_id_def)
  obtain k1 where get: "os_geteid I k = (p (CHR ''e''), k1)"
    using id_laws(2) [OF I(1), of k] set(2) by auto
  show ?thesis
    unfolding run_geteid_def setreid_call_def geteid_call_def Let_def using assms(3)
    by (intro wp_with_args wp_get_one [where f = "os_geteid I", OF get0] wp_set_ids [where f = "os_setreid I (p (CHR ''e'')) (p (CHR ''e''))" and k = k]
          wp_get_one [where f = "os_geteid I"])
      (auto simp: e_option_def get set intro!: wp_rules)
qed

text \<open>The verdict of the three-id functions for all ids, \<open>-1\<close> included.\<close>

lemma set_and_get_three_verdict:
  assumes I: "id_contract I U P" "P (kern s)"
    and "id_real (U (kern s)) \<noteq> -1" "id_eff (U (kern s)) \<noteq> -1" "id_saved (U (kern s)) \<noteq> -1"
  shows "wp (set_and_get_three I x r e v) (\<lambda>y t. (y = Val None) = (r \<noteq> -1 \<and> e \<noteq> -1 \<and> v \<noteq> -1) \<and> (\<exists>m. y = Val m)) s"
proof -
  obtain k where set: "os_setresid I r e v (kern s) = (Inr 0, k)"
    "id_real (U k) = choose_id r (id_real (U (kern s)))" "id_eff (U k) = choose_id e (id_eff (U (kern s)))"
    "id_saved (U k) = choose_id v (id_saved (U (kern s)))"
    using id_laws(6) [OF I, of r e v] by blast
  obtain k1 where get: "os_getresid I k = (Inr (id_real (U k), id_eff (U k), id_saved (U k)), k1)"
    using id_laws(3) [OF I(1), of k] by blast
  show ?thesis
    unfolding set_and_get_three_def setresid_call_def
    apply (rule wp_set_ids [where f = "os_setresid I r e v", OF set(1)])
    apply (rule wp_get_three [where k = k1 and r = "id_real (U k)" and e = "id_eff (U k)" and v = "id_saved (U k)"], simp add: get)
    apply (use assms(3-5) set(2-4) in \<open>auto simp: choose_id_def tp_assert_def intro!: wp_rules split: if_splits\<close>)
    done
qed

definition ids_valid :: "idset \<Rightarrow> bool" where
  "ids_valid u \<longleftrightarrow> id_real u \<noteq> -1 \<and> id_eff u \<noteq> -1 \<and> id_saved u \<noteq> -1 \<and> id_fs u \<noteq> -1"

lemma run_setresid_verdict:
  assumes "id_contract I U P" "P (kern s)" "ids_valid (U (kern s))" and "\<forall>c \<in> {CHR ''r'', CHR ''e'', CHR ''s''}. p c \<noteq> 0"
  shows "wp (run_setresid I x (Some p)) (\<lambda>y t. (y = Val None) = (\<forall>c \<in> {CHR ''r'', CHR ''e'', CHR ''s''}. p c \<noteq> -1) \<and> (\<exists>m. y = Val m)) s"
  unfolding run_setresid_def using assms
  by (intro wp_with_args wp_mono [OF set_and_get_three_verdict [OF assms(1,2)]]) (auto simp: res_options_def ids_valid_def)

lemma run_getresid_verdict:
  assumes I: "id_contract I U P" "P (kern s)" "ids_valid (U (kern s))" and "\<forall>c \<in> {CHR ''r'', CHR ''e'', CHR ''s''}. p c \<noteq> 0"
  shows "wp (run_getresid I x (Some p)) (\<lambda>y t. (y = Val None) = (\<forall>c \<in> {CHR ''r'', CHR ''e'', CHR ''s''}. p c \<noteq> -1) \<and> (\<exists>m. y = Val m)) s"
proof -
  obtain k where get: "os_getresid I (kern s) = (Inr (id_real (U (kern s)), id_eff (U (kern s)), id_saved (U (kern s))), k)" "U k = U (kern s)" "P k"
    using id_laws(3) [OF I(1), of "kern s"] I(2) by auto
  have "wp (set_and_get_three I x r e v) (\<lambda>y t. (y = Val None) = (r \<noteq> -1 \<and> e \<noteq> -1 \<and> v \<noteq> -1) \<and> (\<exists>m. y = Val m)) t" if "kern t = k" for t r e v
    using that get I(3) by (intro set_and_get_three_verdict [OF I(1)]) (auto simp: ids_valid_def)
  note three = wp_mono [OF this]
  show ?thesis
    unfolding run_getresid_def using assms(4)
    by (intro wp_with_args wp_get_three [OF get(1)] three) (auto simp: res_options_def)
qed

lemma sint_minus_one: "sint (w :: u32) = -1 \<Longrightarrow> w = -1"
  by (drule arg_cong [where f = "of_int :: int \<Rightarrow> u32"]) simp

lemma run_setfsid_passes:
  assumes I: "id_contract I U P" "P (kern s)" "ids_valid (U (kern s))" and C: "status_contract C label U" "CHR 0x0A \<notin> set label" "length label < 900"
    and p: "p (CHR ''f'') \<noteq> 0" "p (CHR ''f'') \<noteq> -1"
  shows "wp (run_setfsid C I x label (Some p)) (\<lambda>r t. r = Val None) s"
proof -
  obtain k where set: "os_setfsid I (p (CHR ''f'')) (kern s) = (id_fs (U (kern s)), k)" "id_fs (U k) = p (CHR ''f'')"
    using id_laws(7) [OF I(1,2) p(2)] by blast
  have old: "sint (id_fs (U (kern s))) \<noteq> -1"
    using I(3) sint_minus_one unfolding ids_valid_def by blast
  show ?thesis
    unfolding run_setfsid_def Let_def
  proof (rule wp_with_args)
    show "wp (set_ids (''setfs'' @ [x] @ ''id'') (setfsid_call I x (p (CHR ''f''))) [p (CHR ''f'')]
        (exec (check_procfs_status C label (p (CHR ''f''))) (\<lambda>ok. tp_assert (ok = 1) (Some (''setfs'' @ [x] @ ''id() failed.'')) (ret None))))
        (\<lambda>r t. r = Val None) s"
      unfolding set_ids_def setfsid_call_def
      apply (rule wp_exec, rule wp_exec)
      apply (simp add: wp_def [of "id_call n a f" for n a f] id_call_def set)
      apply (intro wp_rules; simp add: old)
      apply (rule wp_mono [OF check_procfs_status_result [OF C]])
      apply (auto simp: set intro!: wp_rules)
      done
  qed (simp add: p)
qed

section \<open>The suites under the contract\<close>

lemma cred_case_passes:
  assumes "\<forall>(c, nm) \<in> set opts. optspec (concat (map (\<lambda>(c, nm). [c, CHR '':'']) opts)) c = Some True \<and> c \<noteq> CHR ''-''"
    and "\<And>p t. \<forall>c \<in> fst ` set opts. p c = ids c \<Longrightarrow> kern t = kern s \<Longrightarrow> wp (run (Some p)) (\<lambda>r t. r = Val None) t"
  shows "wp (run_test_case (cred_case suite (id_parse_args opts) run) (app # id_argv opts ids)) (\<lambda>r t. passed r) s"
proof -
  obtain p t where "id_parse_args opts (app # id_argv opts ids) s = (Val (Some p), t)" "kern t = kern s" "\<forall>c \<in> fst ` set opts. p c = ids c"
    using id_parse_args_ok [OF assms(1)] by blast
  with assms(2) [OF this(3,2)] show ?thesis
    by (auto simp: run_test_case_def cred_case_def wp_def exec_def ret_def passed_def split: prod.splits)
qed

lemma option_letters:
  assumes "opts \<in> {one_option (CHR ''u''), one_option (CHR ''g''), e_option x, fs_option x, re_options x, res_options x}"
  shows "\<forall>(c, nm) \<in> set opts. optspec (concat (map (\<lambda>(c, nm). [c, CHR '':'']) opts)) c = Some True \<and> c \<noteq> CHR ''-''"
  using assms by (auto simp: one_option_def e_option_def fs_option_def re_options_def res_options_def)

lemma one_kind_passes:
  assumes I: "id_contract I U P" "P (kern s)" "ids_valid (U (kern s))" and ids: "\<And>c. ids c \<noteq> 0 \<and> ids c \<noteq> -1" and x: "x = CHR ''u'' \<or> x = CHR ''g''"
  shows "wp (run_test_case (cred_case suite (id_parse_args (one_option x)) (run_setid I x)) (app # id_argv (one_option x) ids)) (\<lambda>r t. passed r) s"
    and "wp (run_test_case (cred_case suite (id_parse_args (one_option x)) (run_getid I x)) (app # id_argv (one_option x) ids)) (\<lambda>r t. passed r) s"
    and "wp (run_test_case (cred_case suite (id_parse_args (re_options x)) (run_setreid I x)) (app # id_argv (re_options x) ids)) (\<lambda>r t. passed r) s"
    and "wp (run_test_case (cred_case suite (id_parse_args (e_option x)) (run_geteid I x)) (app # id_argv (e_option x) ids)) (\<lambda>r t. passed r) s"
    and "wp (run_test_case (cred_case suite (id_parse_args (res_options x)) (run_setresid I x)) (app # id_argv (res_options x) ids)) (\<lambda>r t. passed r) s"
    and "wp (run_test_case (cred_case suite (id_parse_args (res_options x)) (run_getresid I x)) (app # id_argv (res_options x) ids)) (\<lambda>r t. passed r) s"
    and "status_contract C label U \<Longrightarrow> CHR 0x0A \<notin> set label \<Longrightarrow> length label < 900 \<Longrightarrow>
      wp (run_test_case (cred_case suite (id_parse_args (fs_option x)) (run_setfsid C I x label)) (app # id_argv (fs_option x) ids)) (\<lambda>r t. passed r) s"
proof -
  have letters: "\<forall>(c, nm) \<in> set opts. optspec (concat (map (\<lambda>(c, nm). [c, CHR '':'']) opts)) c = Some True \<and> c \<noteq> CHR ''-''"
    if "opts \<in> {one_option x, e_option x, fs_option x, re_options x, res_options x}" for opts
    using that x by (intro option_letters [of _ x]) auto
  note case_passes = cred_case_passes [OF letters]
  show "wp (run_test_case (cred_case suite (id_parse_args (one_option x)) (run_setid I x)) (app # id_argv (one_option x) ids)) (\<lambda>r t. passed r) s"
    by (rule case_passes, simp, rule run_setid_passes [OF I(1)]) (simp_all add: one_option_def I ids)
  show "wp (run_test_case (cred_case suite (id_parse_args (one_option x)) (run_getid I x)) (app # id_argv (one_option x) ids)) (\<lambda>r t. passed r) s"
    by (rule case_passes, simp, rule run_getid_passes [OF I(1)]) (simp_all add: one_option_def I ids)
  show "wp (run_test_case (cred_case suite (id_parse_args (re_options x)) (run_setreid I x)) (app # id_argv (re_options x) ids)) (\<lambda>r t. passed r) s"
    by (rule case_passes, simp, rule run_setreid_passes [OF I(1)]) (simp_all add: re_options_def I ids)
  show "wp (run_test_case (cred_case suite (id_parse_args (e_option x)) (run_geteid I x)) (app # id_argv (e_option x) ids)) (\<lambda>r t. passed r) s"
    by (rule case_passes, simp, rule run_geteid_passes [OF I(1)]) (simp_all add: e_option_def I ids)
  show "wp (run_test_case (cred_case suite (id_parse_args (res_options x)) (run_setresid I x)) (app # id_argv (res_options x) ids)) (\<lambda>r t. passed r) s"
    by (rule case_passes, simp, rule wp_mono, rule run_setresid_verdict [OF I(1)]) (simp_all add: res_options_def I ids)
  show "wp (run_test_case (cred_case suite (id_parse_args (res_options x)) (run_getresid I x)) (app # id_argv (res_options x) ids)) (\<lambda>r t. passed r) s"
    by (rule case_passes, simp, rule wp_mono, rule run_getresid_verdict [OF I(1)]) (simp_all add: res_options_def I ids)
  show "wp (run_test_case (cred_case suite (id_parse_args (fs_option x)) (run_setfsid C I x label)) (app # id_argv (fs_option x) ids)) (\<lambda>r t. passed r) s"
    if "status_contract C label U" "CHR 0x0A \<notin> set label" "length label < 900"
    by (rule case_passes, simp, rule run_setfsid_passes [OF I(1) _ _ that]) (simp_all add: fs_option_def I ids)
qed

lemma suite_options:
  "cred_options (tc_suite (cred_case ''setuid'' f r)) = one_option (CHR ''u'')" "cred_options (tc_suite (cred_case ''setgid'' f r)) = one_option (CHR ''g'')"
  "cred_options (tc_suite (cred_case ''getuid'' f r)) = one_option (CHR ''u'')" "cred_options (tc_suite (cred_case ''getgid'' f r)) = one_option (CHR ''g'')"
  "cred_options (tc_suite (cred_case ''setreuid'' f r)) = re_options (CHR ''u'')" "cred_options (tc_suite (cred_case ''setregid'' f r)) = re_options (CHR ''g'')"
  "cred_options (tc_suite (cred_case ''geteuid'' f r)) = e_option (CHR ''u'')" "cred_options (tc_suite (cred_case ''getegid'' f r)) = e_option (CHR ''g'')"
  "cred_options (tc_suite (cred_case ''setresuid'' f r)) = res_options (CHR ''u'')" "cred_options (tc_suite (cred_case ''setresgid'' f r)) = res_options (CHR ''g'')"
  "cred_options (tc_suite (cred_case ''getresuid'' f r)) = res_options (CHR ''u'')" "cred_options (tc_suite (cred_case ''getresgid'' f r)) = res_options (CHR ''g'')"
  "cred_options (tc_suite (cred_case ''setfsuid'' f r)) = fs_option (CHR ''u'')" "cred_options (tc_suite (cred_case ''setfsgid'' f r)) = fs_option (CHR ''g'')"
  by (simp_all add: cred_options_def cred_case_def)

text \<open>
  C37. On every kernel that meets the contract, from a state in which the process may set its ids, each of the fourteen suites passes when it is
  given, on its command line, ids other than 0 and 4294967295: the parser recovers the ids, the setters install them and the getters, or the
  status file in the proc file system, show them.
\<close>

theorem cred_suites_pass:
  assumes C: "cred_contract C U G P" "P (kern s)" "ids_valid (U (kern s))" "ids_valid (G (kern s))"
    and ids: "\<And>c. ids c \<noteq> 0 \<and> ids c \<noteq> -1" and tc: "tc \<in> set (cred_cases C)"
  shows "wp (run_test_case tc (app # id_argv (cred_options (tc_suite tc)) ids)) (\<lambda>r t. passed r) s"
proof -
  have U: "id_contract (users C) U P" and G: "id_contract (groups C) G P" and SU: "status_contract C ''Uid:'' U" and SG: "status_contract C ''Gid:'' G"
    using C(1) by (simp_all add: cred_contract_def)
  note u = one_kind_passes [OF U C(2,3) ids, where x = "CHR ''u''", simplified]
    and g = one_kind_passes [OF G C(2,4) ids, where x = "CHR ''g''", simplified]
  have "list_all (\<lambda>tc. wp (run_test_case tc (app # id_argv (cred_options (tc_suite tc)) ids)) (\<lambda>r t. passed r) s) (cred_cases C)"
    unfolding cred_cases_def list.pred_inject(2) parse_defs cred_run_defs suite_options
    by (intro conjI list.pred_inject(1) u g) (simp_all add: SU SG)
  with tc show ?thesis by (simp add: list_all_iff)
qed

section \<open>A kernel that meets the contract\<close>

definition id_calls :: "('k \<Rightarrow> idset) \<Rightarrow> (idset \<Rightarrow> 'k \<Rightarrow> 'k) \<Rightarrow> 'k id_os" where
  "id_calls get put = \<lparr>
     os_setid = (\<lambda>i k. if i = -1 then (Inl EINVAL, k) else (Inr 0, put \<lparr>id_real = i, id_eff = i, id_saved = i, id_fs = i\<rparr> k)),
     os_setreid = (\<lambda>r e k. let u = get k; e' = choose_id e (id_eff u) in
       (Inr 0, put \<lparr>id_real = choose_id r (id_real u), id_eff = e', id_saved = (if r \<noteq> -1 \<or> e' \<noteq> id_real u then e' else id_saved u), id_fs = e'\<rparr> k)),
     os_setresid = (\<lambda>r e s k. let u = get k; e' = choose_id e (id_eff u) in
       (Inr 0, put \<lparr>id_real = choose_id r (id_real u), id_eff = e', id_saved = choose_id s (id_saved u), id_fs = e'\<rparr> k)),
     os_setfsid = (\<lambda>i k. (id_fs (get k), put ((get k)\<lparr>id_fs := i\<rparr>) k)),
     os_getid = (\<lambda>k. (id_real (get k), k)), os_geteid = (\<lambda>k. (id_eff (get k), k)),
     os_getresid = (\<lambda>k. (Inr (id_real (get k), id_eff (get k), id_saved (get k)), k))\<rparr>"

lemma id_calls_contract: "(\<And>u k. get (put u k) = u) \<Longrightarrow> id_contract (id_calls get put) get (\<lambda>_. True)"
  by (auto simp: id_contract_def id_calls_def Let_def)

definition name_line :: string where
  "name_line = ''Name:'' @ [CHR 0x09] @ ''test_mck'' @ [CHR 0x0A]"

definition ref_cred_os :: "(idset \<times> idset) cred_os" where
  "ref_cred_os = \<lparr>users = id_calls fst (\<lambda>u k. (u, snd k)), groups = id_calls snd (\<lambda>g k. (fst k, g)),
     os_getpid = (\<lambda>k. (42, k)), os_fopen = (\<lambda>path k. (Inr (name_line @ status_line ''Uid:'' (fst k) @ status_line ''Gid:'' (snd k)), k)),
     os_fclose = (\<lambda>k. (Inr 0, k))\<rparr>"

lemma contains_head: "contains (c # cs) l \<Longrightarrow> c \<in> set l"
  by (induction l) auto

lemma status_line_chars:
  "c \<in> set (status_line label ids) \<Longrightarrow> c \<in> set label \<or> c = CHR 0x09 \<or> c = CHR 0x0A \<or> (\<exists>d < 10. digit_val c = Some d)"
  using show_base_digits [of 10] by (fastforce simp: status_line_def)

lemma ref_lines_other:
  "other_line ''Gid:'' (status_line ''Uid:'' ids)" "other_line ''Uid:'' name_line" "other_line ''Gid:'' name_line"
proof -
  have "\<not> contains ''Gid:'' (status_line ''Uid:'' ids)"
  proof
    assume "contains ''Gid:'' (status_line ''Uid:'' ids)"
    from status_line_chars [OF contains_head [OF this]] show False
      by (auto simp: digit_val_def char_code_def)
  qed
  with status_line_fits [of "''Uid:''" ids] show "other_line ''Gid:'' (status_line ''Uid:'' ids)"
    unfolding other_line_def by auto
  have "name_line = (''Name:'' @ [CHR 0x09] @ ''test_mck'') @ [CHR 0x0A]" "CHR 0x0A \<notin> set (''Name:'' @ [CHR 0x09] @ ''test_mck'')"
    "length name_line < FREAD_BUF_SIZE" "\<not> contains ''Uid:'' name_line" "\<not> contains ''Gid:'' name_line"
    by (simp_all add: name_line_def FREAD_BUF_SIZE_def)
  then show "other_line ''Uid:'' name_line" "other_line ''Gid:'' name_line"
    unfolding other_line_def by blast+
qed

lemma ref_cred_contract: "cred_contract ref_cred_os fst snd (\<lambda>_. True)"
proof -
  have "status_contract ref_cred_os ''Uid:'' fst"
    unfolding status_contract_def
    by (auto simp: ref_cred_os_def ref_lines_other intro!: exI [of _ "[name_line]"])
  moreover have "status_contract ref_cred_os ''Gid:'' snd"
    unfolding status_contract_def
  proof (intro conjI allI)
    fix k :: "idset \<times> idset"
    show "\<exists>pid k1 before rest k2. os_getpid ref_cred_os k = (pid, k1) \<and> snd k1 = snd k \<and>
        os_fopen ref_cred_os (status_path pid) k1 = (Inr (concat before @ status_line ''Gid:'' (snd k) @ rest), k2) \<and>
        (\<forall>l \<in> set before. other_line ''Gid:'' l)"
      by (intro exI [of _ 42] exI [of _ k] exI [of _ "[name_line, status_line ''Uid:'' (fst k)]"] exI [of _ "[]"])
        (simp add: ref_cred_os_def ref_lines_other)
  qed (simp add: ref_cred_os_def)
  ultimately show ?thesis
    by (simp add: cred_contract_def ref_cred_os_def id_calls_contract)
qed

definition root_ids :: "idset \<times> idset" where
  "root_ids = (\<lparr>id_real = 0, id_eff = 0, id_saved = 0, id_fs = 0\<rparr>, \<lparr>id_real = 0, id_eff = 0, id_saved = 0, id_fs = 0\<rparr>)"

lemma root_valid: "ids_valid (fst root_ids)" "ids_valid (snd root_ids)"
  by (simp_all add: root_ids_def ids_valid_def)

theorem cred_suites_pass_witness:
  "wp (run_test_case (cred_case ''setfsuid'' setfsuid_parse_args (setfsuid_000 ref_cred_os)) (''test_mck'' # id_argv (fs_option (CHR ''u'')) (\<lambda>_. 1000)))
     (\<lambda>r t. passed r) (fresh_process root_ids)"
proof -
  have "cred_case ''setfsuid'' setfsuid_parse_args (setfsuid_000 ref_cred_os) \<in> set (cred_cases ref_cred_os)"
    by (simp add: cred_cases_def)
  from cred_suites_pass [OF ref_cred_contract _ _ _ _ this, of "fresh_process root_ids" "\<lambda>_. 1000" "''test_mck''"] show ?thesis
    by (simp add: fresh_process_def root_valid suite_options)
qed

text \<open>
  An id of 4294967295, which is \<open>-1\<close> for the kernel and which the parser reports as missing but lets through, makes the \<^verbatim>\<open>setresuid\<close> suite fail
  on every kernel that meets the contract; with three ids other than 0, it passes exactly when none of them is that value.
\<close>

theorem setresuid_verdict:
  assumes C: "cred_contract C U G P" "P (kern s)" "ids_valid (U (kern s))" and ids: "\<And>c. ids c \<noteq> 0"
  shows "wp (run_test_case (cred_case ''setresuid'' setresuid_parse_args (setresuid_000 C)) (app # id_argv (res_options (CHR ''u'')) ids))
    (\<lambda>r t. passed r \<longleftrightarrow> ids (CHR ''r'') \<noteq> 4294967295 \<and> ids (CHR ''e'') \<noteq> 4294967295 \<and> ids (CHR ''s'') \<noteq> 4294967295) s"
proof -
  have letters: "\<forall>(c, nm) \<in> set (res_options (CHR ''u'')).
      optspec (concat (map (\<lambda>(c, nm). [c, CHR '':'']) (res_options (CHR ''u'')))) c = Some True \<and> c \<noteq> CHR ''-''"
    by (rule option_letters [of _ "CHR ''u''"]) simp
  obtain p t where parse: "id_parse_args (res_options (CHR ''u'')) (app # id_argv (res_options (CHR ''u'')) ids) s = (Val (Some p), t)"
    and t: "kern t = kern s" and "\<forall>c \<in> fst ` set (res_options (CHR ''u'')). p c = ids c"
    using id_parse_args_ok [OF letters] by blast
  then have p: "\<forall>c \<in> {CHR ''r'', CHR ''e'', CHR ''s''}. p c = ids c"
    by (simp add: res_options_def)
  have "id_contract (users C) U P"
    using C(1) by (simp add: cred_contract_def)
  from run_setresid_verdict [OF this, of t p "CHR ''u''"] have
    "wp (run_setresid (users C) (CHR ''u'') (Some p)) (\<lambda>y t. (y = Val None) = (\<forall>c \<in> {CHR ''r'', CHR ''e'', CHR ''s''}. p c \<noteq> -1) \<and> (\<exists>m. y = Val m)) t"
    using C t p ids by simp
  then show ?thesis
    using parse p
    by (auto simp: wp_def run_test_case_def cred_case_def setresuid_parse_args_def setresuid_000_def exec_def ret_def passed_def split: prod.splits)
qed

theorem setresuid_verdict_witness:
  "wp (run_test_case (cred_case ''setresuid'' setresuid_parse_args (setresuid_000 ref_cred_os)) (''test_mck'' # id_argv (res_options (CHR ''u'')) (\<lambda>_. 4294967295)))
     (\<lambda>r t. \<not> passed r) (fresh_process root_ids)"
  using setresuid_verdict [OF ref_cred_contract, of "fresh_process root_ids" "\<lambda>_. 4294967295" "''test_mck''"]
  by (simp add: fresh_process_def root_valid)

text \<open>
  C39. \<^verbatim>\<open>check_procfs_status_uid\<close> and \<^verbatim>\<open>check_procfs_status_gid\<close>: on every kernel whose status file has the documented form they return whether the
  given id is the file system id of the process, for all 32-bit ids; when the file cannot be opened they return 0.
\<close>

theorem check_procfs_status_decides:
  assumes "cred_contract C U G P"
  shows "fst (check_procfs_status C ''Uid:'' i s) = Val (of_bool (i = id_fs (U (kern s)))) \<and>
    fst (check_procfs_status C ''Gid:'' i s) = Val (of_bool (i = id_fs (G (kern s)))) \<and>
    fst (check_procfs_status (C\<lparr>os_fopen := \<lambda>path k. (Inl EACCES, k)\<rparr>) label i s) = Val 0"
  using assms check_procfs_status_result [of C "''Uid:''" U i s] check_procfs_status_result [of C "''Gid:''" G i s]
  by (auto simp: cred_contract_def wp_def check_procfs_status_def [of "C\<lparr>os_fopen := f\<rparr>" for f] exec_def sys_call_def Let_def emit_def ret_def split: prod.splits)

theorem check_procfs_status_decides_witness:
  "fst (check_procfs_status ref_cred_os ''Uid:'' 7 (fresh_process root_ids)) = Val 0"
  using check_procfs_status_decides [OF ref_cred_contract, of 7 "fresh_process root_ids"]
  by (simp add: fresh_process_def root_ids_def)

end
