(* ===== verification/Ihk_Lib.thy ===== *)
theory Ihk_Lib
  imports Files
begin

text \<open>
  The interface of the IHK library and the \<^verbatim>\<open>main\<close> function that the tools \<^verbatim>\<open>cpu_pa_info\<close> and \<^verbatim>\<open>condition_monitor\<close>
  share. The library is not part of the repository: its functions are a record of parameters (\<open>ihk_os\<close>), and the
  theorems hold for all of them. A test function may wait in a loop that need not end, so programs here may be
  option-valued, \<open>None\<close> for a run that never returns; \<open>completes\<close> is for those that return from every state.
\<close>

unbundle bit_operations_syntax

section \<open>The library interface\<close>

record perf_attr =
  pa_config :: u64
  pa_disabled :: bool
  pa_pinned :: bool
  pa_exclude_user :: bool
  pa_exclude_kernel :: bool
  pa_exclude_hv :: bool
  pa_exclude_idle :: bool

definition zero_attr :: perf_attr where
  "zero_attr = \<lparr>pa_config = 0, pa_disabled = False, pa_pinned = False, pa_exclude_user = False, pa_exclude_kernel = False,
     pa_exclude_hv = False, pa_exclude_idle = False\<rparr>"

datatype perf_op = PERF_EVENT_ENABLE | PERF_EVENT_DISABLE | PERF_EVENT_DESTROY

definition op_name :: "perf_op \<Rightarrow> string" where
  "op_name op =
     (case op of
        PERF_EVENT_ENABLE \<Rightarrow> ''PERF_EVENT_ENABLE''
      | PERF_EVENT_DISABLE \<Rightarrow> ''PERF_EVENT_DISABLE''
      | PERF_EVENT_DESTROY \<Rightarrow> ''PERF_EVENT_DESTROY'')"

datatype eventfd_type = IHK_OS_EVENTFD_TYPE_OOM | IHK_OS_EVENTFD_TYPE_STATUS

text \<open>An array field of \<^verbatim>\<open>struct ihk_os_rusage\<close> is the function from its indices.\<close>

record ihk_rusage =
  memory_stat_rss :: "nat \<Rightarrow> u64"
  memory_stat_mapped_file :: "nat \<Rightarrow> u64"
  memory_max_usage :: u64
  memory_kmem_usage :: u64
  memory_kmem_max_usage :: u64
  memory_numa_stat :: "nat \<Rightarrow> u64"
  cpuacct_stat_system :: u64
  cpuacct_stat_user :: u64
  cpuacct_usage :: u64
  cpuacct_usage_percpu :: "nat \<Rightarrow> u64"
  num_threads :: int
  max_num_threads :: int

text \<open>
  A library function returns its value and leaves a value in \<^verbatim>\<open>errno\<close>. The numbers the headers of the
  library give to the event types and to the array sizes are fields as well.
\<close>

record 'k ihk_os = "'k file_os" +
  ihk_setperfevent :: "int \<Rightarrow> perf_attr list \<Rightarrow> 'k \<Rightarrow> int \<times> int \<times> 'k"
  ihk_perfctl :: "int \<Rightarrow> perf_op \<Rightarrow> 'k \<Rightarrow> int \<times> int \<times> 'k"
  ihk_getperfevent :: "int \<Rightarrow> nat \<Rightarrow> 'k \<Rightarrow> int \<times> int \<times> u64 list \<times> 'k"
  ihk_get_status :: "int \<Rightarrow> 'k \<Rightarrow> int \<times> int \<times> 'k"
  eventfd_type_code :: "eventfd_type \<Rightarrow> int"
  ihk_get_eventfd :: "int \<Rightarrow> eventfd_type \<Rightarrow> 'k \<Rightarrow> int \<times> int \<times> 'k"
  ihk_freeze :: "u64 \<Rightarrow> 'k \<Rightarrow> int \<times> int \<times> 'k"
  ihk_thaw :: "u64 \<Rightarrow> 'k \<Rightarrow> int \<times> int \<times> 'k"
  max_num_pgsizes :: nat
  max_num_numa_nodes :: nat
  max_num_cpus :: nat
  ihk_getrusage :: "int \<Rightarrow> 'k \<Rightarrow> int \<times> int \<times> ihk_rusage \<times> 'k"
  os_epoll_create :: "'k \<Rightarrow> (int + int) \<times> 'k"
  os_epoll_ctl :: "int \<Rightarrow> int \<Rightarrow> 'k \<Rightarrow> (int + int) \<times> 'k"
  os_epoll_wait :: "int \<Rightarrow> 'k \<Rightarrow> (int + int list) \<times> 'k"

definition lib_call :: "string \<Rightarrow> arg list \<Rightarrow> ('k \<Rightarrow> int \<times> int \<times> 'k) \<Rightarrow> ('k, int) prog" where
  "lib_call nm args f s = (case f (kern s) of (r, e, k) \<Rightarrow> (Val r, after e k (Called (Lib nm) args r) s))"

lemma wp_lib_call [wp_rules]:
  assumes "\<And>r e k. Q (Val r) (after e k (Called (Lib nm) args r) s)"
  shows "wp (lib_call nm args f) Q s"
  using assms by (auto simp: wp_def lib_call_def split: prod.splits)

definition perror :: "string \<Rightarrow> ('k, unit) prog" where
  "perror msg = exec get_errno (\<lambda>e. printf (msg @ '': %s'') [AInt e])"

definition attr_args :: "perf_attr \<Rightarrow> arg list" where
  "attr_args a = AInt (uint (pa_config a)) #
     map (\<lambda>b. AInt (of_bool b)) [pa_disabled a, pa_pinned a, pa_exclude_user a, pa_exclude_kernel a, pa_exclude_hv a, pa_exclude_idle a]"

definition ihk_os_setperfevent :: "('k, 'z) ihk_os_scheme \<Rightarrow> int \<Rightarrow> perf_attr list \<Rightarrow> ('k, int) prog" where
  "ihk_os_setperfevent K os_num attr =
     lib_call ''ihk_os_setperfevent'' (AInt os_num # concat (map attr_args attr)) (ihk_setperfevent K os_num attr)"

definition ihk_os_perfctl :: "('k, 'z) ihk_os_scheme \<Rightarrow> int \<Rightarrow> perf_op \<Rightarrow> ('k, int) prog" where
  "ihk_os_perfctl K os_num op = lib_call ''ihk_os_perfctl'' [AInt os_num, AStr (op_name op)] (ihk_perfctl K os_num op)"

text \<open>The counters the library stores into an array of \<open>n\<close> zeros.\<close>

definition ihk_os_getperfevent :: "('k, 'z) ihk_os_scheme \<Rightarrow> int \<Rightarrow> nat \<Rightarrow> ('k, int \<times> u64 list) prog" where
  "ihk_os_getperfevent K os_num n s =
     (case ihk_getperfevent K os_num n (kern s) of
        (r, e, ws, k) \<Rightarrow> (Val (r, map (\<lambda>i. if i < length ws then ws ! i else 0) [0..<n]),
          after e k (Called (Lib ''ihk_os_getperfevent'') [AInt os_num, AInt (int n)] r) s))"

lemma wp_getperfevent [wp_rules]:
  assumes "\<And>r ws e k. length ws = n \<Longrightarrow>
    Q (Val (r, ws)) (after e k (Called (Lib ''ihk_os_getperfevent'') [AInt os_num, AInt (int n)] r) s)"
  shows "wp (ihk_os_getperfevent K os_num n) Q s"
  using assms by (auto simp: wp_def ihk_os_getperfevent_def split: prod.splits)

lemma wp_perror [wp_rules]: "Q (Val ()) (logged [Printed (msg @ '': %s'') [AInt (errno s)]] s) \<Longrightarrow> wp (perror msg) Q s"
  by (simp add: perror_def wp_def exec_def get_errno_def emit_def)

section \<open>Programs that may not return\<close>

type_synonym ('k, 'a) oprog = "'k machine \<Rightarrow> ('a run \<times> 'k machine) option"

definition returns :: "('k, 'a) prog \<Rightarrow> ('k, 'a) oprog" where
  "returns m s = Some (m s)"

definition oexec :: "('k, 'a) oprog \<Rightarrow> ('a \<Rightarrow> ('k, 'b) oprog) \<Rightarrow> ('k, 'b) oprog" where
  "oexec m f s =
     (case m s of
        None \<Rightarrow> None
      | Some (Val a, t) \<Rightarrow> f a t
      | Some (Halt h, t) \<Rightarrow> Some (Halt h, t))"

lemma oexec_returns: "oexec (returns m) (\<lambda>a. returns (f a)) = returns (exec m f)"
  by (auto simp: oexec_def returns_def exec_def fun_eq_iff split: prod.splits run.splits)

section \<open>The main function of cpu\_pa\_info and condition\_monitor\<close>

text \<open>
  The two \<^verbatim>\<open>main.c\<close> differ only in their messages and in the table of test functions, which the
  build generates; both are arguments. An entry of the table may be \<^verbatim>\<open>NULL\<close>.
\<close>

fun usage_lines :: "nat \<Rightarrow> string list \<Rightarrow> ('k, unit) prog" where
  "usage_lines i [] = ret ()"
| "usage_lines i (m # ms) = exec (printf ''%6d : %s'' [AInt (int i), AStr m]) (\<lambda>_. usage_lines (Suc i) ms)"

definition tool_usage :: "string list \<Rightarrow> string \<Rightarrow> ('k, unit) prog" where
  "tool_usage usage_messages str =
     exec (printf ''%s <os_num> <tp_num>'' [AStr str]) (\<lambda>_.
     exec (printf ''   os_num    : os number.'' []) (\<lambda>_.
     exec (printf ''   tp_num    : tp number. (0-%d)'' [AInt (int (length usage_messages) - 1)]) (\<lambda>_.
     usage_lines 0 usage_messages)))"

definition tool_main :: "string list \<Rightarrow> (int \<Rightarrow> int \<Rightarrow> ('k, int) oprog) option list \<Rightarrow> string list \<Rightarrow> ('k, int) oprog" where
  "tool_main usage_messages test_cases argv =
     (if length usage_messages \<noteq> length test_cases then
        returns (exec (printf ''BUG: Usage strings and TP count are different.'' []) (\<lambda>_. ret (-1)))
      else if length argv \<noteq> 3 then returns (exec (tool_usage usage_messages (argv ! 0)) (\<lambda>_. ret (-1)))
      else
        let os_num = atoi (argv ! 1) in
        if os_num < 0 \<or> 63 < os_num then
          returns (exec (printf ''Invalid argument 1 os_num.'' []) (\<lambda>_. exec (tool_usage usage_messages (argv ! 0)) (\<lambda>_. ret (-1))))
        else
          let tp_num = atoi (argv ! 2) in
          if int (length test_cases) \<le> tp_num then
            returns (exec (printf ''TP number invaid.'' []) (\<lambda>_. exec (tool_usage usage_messages (argv ! 0)) (\<lambda>_. ret (-1))))
          else if tp_num < 0 then returns (stop (Undefined ''array index''))
          else
            oexec (case test_cases ! nat tp_num of
                     Some func \<Rightarrow> func tp_num os_num
                   | None \<Rightarrow> returns (exec (printf ''BUG: TP function pointer is NULL.'' []) (\<lambda>_. ret (-1))))
              (\<lambda>r. returns (exec (printf (if r \<noteq> 0 then ''RESULT:NG.'' else ''RESULT:OK.'') []) (\<lambda>_. ret r))))"

definition print_test_overview :: "string list \<Rightarrow> int \<Rightarrow> ('k, unit) prog" where
  "print_test_overview usage_messages tp_num =
     (if 0 \<le> tp_num \<and> tp_num < int (length usage_messages)
      then printf ''# %2d : %s'' [AInt tp_num, AStr (usage_messages ! nat tp_num)]
      else stop (Undefined ''array index''))"

section \<open>Programs that always return\<close>

definition completes :: "('k, 'a) prog \<Rightarrow> bool" where
  "completes m \<longleftrightarrow> (\<forall>s. \<exists>v t. m s = (Val v, t))"

named_theorems completes_rules \<open>programs that return a value from every state\<close>

lemma completes_ret [completes_rules]: "completes (ret a)"
  by (simp add: completes_def ret_def)

lemma completes_exec [completes_rules]: "completes m \<Longrightarrow> (\<And>a. completes (f a)) \<Longrightarrow> completes (exec m f)"
  by (metis (mono_tags) completes_def exec_Val)

lemma completes_emit [completes_rules]: "completes (emit ev)" "completes (get_errno)"
  by (simp_all add: completes_def emit_def get_errno_def)

lemma completes_calls [completes_rules]: "completes (lib_call nm args f)" "completes (sys_call sn args enc fail g)" "completes (c_malloc K n)" "completes (ihk_os_getperfevent K os n)"
  by (auto simp: completes_def lib_call_def sys_call_def c_malloc_def ihk_os_getperfevent_def split: prod.splits sum.splits)

lemma completes_if [completes_rules]: "(b \<Longrightarrow> completes m) \<Longrightarrow> (\<not> b \<Longrightarrow> completes n) \<Longrightarrow> completes (if b then m else n)"
  by simp

lemma completes_prod [completes_rules]: "(\<And>a b. completes (f a b)) \<Longrightarrow> completes (case x of (a, b) \<Rightarrow> f a b)"
  by (simp split: prod.splits)

lemma completes_Let [completes_rules]: "(\<And>a. completes (f a)) \<Longrightarrow> completes (let a = x in f a)"
  by simp

lemma completes_prints [completes_rules]: "completes (perror msg)" "completes (usage_lines i ms)"
   apply (simp add: perror_def completes_rules)
  by (induction ms arbitrary: i; simp add: completes_rules)

lemma completes_overview [completes_rules]: "0 \<le> tp \<Longrightarrow> tp < int (length us) \<Longrightarrow> completes (print_test_overview us tp)"
  by (simp add: print_test_overview_def completes_rules)

lemma completesE: "completes m \<Longrightarrow> (\<And>v t. m s = (Val v, t) \<Longrightarrow> thesis) \<Longrightarrow> thesis"
  unfolding completes_def by blast


section \<open>The outcomes of main\<close>

text \<open>The calls of a trace, without the output.\<close>

definition lib_calls :: "event list \<Rightarrow> event list" where
  "lib_calls evs = filter (\<lambda>e. case e of Called _ _ _ \<Rightarrow> True | _ \<Rightarrow> False) evs"

text \<open>What the usage message prints, ending with a line for each test function.\<close>

fun usage_events :: "nat \<Rightarrow> string list \<Rightarrow> event list" where
  "usage_events i [] = []"
| "usage_events i (m # ms) = Printed ''%6d : %s'' [AInt (int i), AStr m] # usage_events (Suc i) ms"

lemma usage_lines_run: "usage_lines i ms s = (Val (), logged (usage_events i ms) s)"
  by (induction ms arbitrary: i s) (simp_all add: ret_def exec_def emit_def)

lemma usage_events_quiet: "lib_calls (usage_events i ms) = []"
  by (induction ms arbitrary: i) (simp_all add: lib_calls_def)

lemma usage_events_lines: "e \<in> set (usage_events i ms) \<Longrightarrow> \<exists>j m. e = Printed ''%6d : %s'' [AInt j, AStr m]"
  by (induction ms arbitrary: i) auto

lemma last_usage_events: "ms \<noteq> [] \<Longrightarrow> usage_events i ms \<noteq> [] \<and> last (usage_events i ms) \<noteq> Printed ''RESULT:OK.'' []"
  using usage_events_lines [OF last_in_set, of i ms] by (cases ms) auto

lemma tool_usage_run:
  assumes "us \<noteq> []"
  shows "\<exists>evs. tool_usage us cmd s = (Val (), logged evs s) \<and> lib_calls evs = [] \<and> evs \<noteq> [] \<and> last evs \<noteq> Printed ''RESULT:OK.'' []"
  using last_usage_events [OF assms, of 0] usage_events_quiet [of 0 us]
  by (simp add: tool_usage_def usage_lines_run exec_def emit_def) (intro exI conjI, rule refl, simp_all add: lib_calls_def)

text \<open>
  What \<^verbatim>\<open>main\<close> needs of a tool, that it has a usage line for each of its test functions and a function for each
  line, and the outcomes of \<^verbatim>\<open>main\<close> with two arguments for such a tool.
\<close>

locale test_tool =
  fixes us :: "string list" and tcs :: "(int \<Rightarrow> int \<Rightarrow> ('k, int) oprog) option list"
  assumes lengths: "length us = length tcs" and nonempty: "us \<noteq> []" and no_null: "i < length tcs \<Longrightarrow> \<exists>f. tcs ! i = Some f"
begin

lemma main_run:
  assumes "0 \<le> atoi a" "atoi a \<le> 63" "0 \<le> atoi b" "atoi b < int (length tcs)"
  shows "tool_main us tcs [cmd, a, b] s =
    (case the (tcs ! nat (atoi b)) (atoi b) (atoi a) s of
       Some (Val x, t) \<Rightarrow> Some (Val x, logged [Printed (if x \<noteq> 0 then ''RESULT:NG.'' else ''RESULT:OK.'') []] t)
     | y \<Rightarrow> y)"
proof -
  have "nat (atoi b) < length tcs"
    using assms by linarith
  from no_null [OF this] obtain f where "tcs ! nat (atoi b) = Some f" ..
  then show ?thesis
    using assms lengths
    by (auto simp: tool_main_def Let_def oexec_def returns_def exec_def emit_def ret_def split: option.splits prod.splits run.splits)
qed

lemma main_negative:
  "0 \<le> atoi a \<Longrightarrow> atoi a \<le> 63 \<Longrightarrow> atoi b < 0 \<Longrightarrow>
   tool_main us tcs [cmd, a, b] s = Some (Halt (Undefined ''array index''), s)"
  using lengths by (simp add: tool_main_def returns_def stop_def)

lemma main_rejects:
  assumes "atoi a < 0 \<or> 63 < atoi a \<or> int (length tcs) \<le> atoi b"
  shows "\<exists>evs. tool_main us tcs [cmd, a, b] s = Some (Val (-1), logged evs s) \<and> lib_calls evs = [] \<and> evs \<noteq> [] \<and>
    last evs \<noteq> Printed ''RESULT:OK.'' []"
proof -
  define msg where "msg = Printed (if atoi a < 0 \<or> 63 < atoi a then ''Invalid argument 1 os_num.'' else ''TP number invaid.'') []"
  obtain evs where "tool_usage us cmd (logged [msg] s) = (Val (), logged evs (logged [msg] s))"
    and evs: "lib_calls evs = []" "evs \<noteq> []" "last evs \<noteq> Printed ''RESULT:OK.'' []"
    using tool_usage_run [OF nonempty] by blast
  then have "tool_main us tcs [cmd, a, b] s = Some (Val (-1), logged (msg # evs) s)"
    using assms lengths by (auto simp: tool_main_def Let_def returns_def exec_def emit_def ret_def msg_def)
  with evs show ?thesis
    by (intro exI [of _ "msg # evs"]) (auto simp: lib_calls_def msg_def)
qed

end

section \<open>A library for witnesses\<close>

text \<open>
  It registers every event, reports status 2, hands out descriptor 7 for the events of the kernel, and
  wakes it up at the second wait; the kernel state counts the waits.
\<close>

definition ihk_ref :: "nat ihk_os" where
  "ihk_ref = file_os.extend ((failing_os EIO)\<lparr>os_alloc := \<lambda>_ k. (True, k)\<rparr>)
     (ihk_os.fields
       (\<lambda>_ attr k. (int (length attr), 0, k)) (\<lambda>_ _ k. (0, 0, k)) (\<lambda>_ n k. (0, 0, replicate n 5, k))
       (\<lambda>_ k. (2, 0, k)) (\<lambda>_. 0) (\<lambda>_ _ k. (7, 0, k)) (\<lambda>_ k. (0, 0, k)) (\<lambda>_ k. (0, 0, k))
       2 2 4 (\<lambda>_ k. (0, 0, \<lparr>memory_stat_rss = (\<lambda>i. of_nat i), memory_stat_mapped_file = (\<lambda>_. 0), memory_max_usage = 9, memory_kmem_usage = 3,
          memory_kmem_max_usage = 4, memory_numa_stat = (\<lambda>_. 6), cpuacct_stat_system = 1, cpuacct_stat_user = 2, cpuacct_usage = 3,
          cpuacct_usage_percpu = (\<lambda>i. if i = 3 then 8 else 0), num_threads = 2, max_num_threads = 5\<rparr>, k))
       (\<lambda>k. (Inr 8, k)) (\<lambda>_ _ k. (Inr 0, k)) (\<lambda>_ k. (if k = 0 then Inl EIO else Inr [7], Suc k)))"

lemma ihk_ref_simps [simp]:
  "os_alloc ihk_ref n k = (True, k)" "ihk_setperfevent ihk_ref os attr k = (int (length attr), 0, k)"
  "ihk_get_eventfd ihk_ref os ty k = (7, 0, k)" "os_epoll_create ihk_ref k = (Inr 8, k)" "os_epoll_ctl ihk_ref fd ev k = (Inr 0, k)"
  "os_epoll_wait ihk_ref fd k = (if k = 0 then Inl EIO else Inr [7], Suc k)" "eventfd_type_code ihk_ref ty = 0"
  "ihk_freeze ihk_ref w k = (0, 0, k)" "max_num_cpus ihk_ref = 4" "ihk_get_status ihk_ref os k = (2, 0, k)"
  by (simp_all add: ihk_ref_def ihk_os.defs file_os.defs failing_os_def)

end
