(* ===== verification/Cpu_Pa_Info.thy ===== *)
theory Cpu_Pa_Info
  imports Ihk_Lib
begin

text \<open>
  The tool \<^verbatim>\<open>cpu_pa_info\<close>: the sequence of library calls that registers, starts, reads, stops and destroys
  performance counters, the six test functions built on it, and \<^verbatim>\<open>main\<close>. The calls are checked against a protocol, a
  transition system over the phases of the counters; \<open>perf_at\<close> carries the phase through a program.
\<close>

unbundle bit_operations_syntax

section \<open>cpu\_pa\_info\<close>

definition config_str :: "string list" where
  "config_str = [
     ''SW_INCR'', ''L1I_CACHE_REFILL'', ''L1I_TLB_REFILL'', ''L1D_CACHE_REFILL'', ''L1D_CACHE'', ''L1D_TLB_REFILL'',
     ''LD_RETIRED'', ''ST_RETIRED'', ''INST_RETIRED'', ''EXC_TAKEN'', ''EXC_RETURN'', ''CID_WRITE_RETIRED'',
     ''PC_WRITE_RETIRED'', ''BR_IMMED_RETIRED'', ''BR_RETURN_RETIRED'', ''UNALIGNED_LDST_RETIRED'',
     ''BR_MIS_PRED'', ''CPU_CYCLES'', ''BR_PRED'', ''MEM_ACCESS'', ''L1I_CACHE'', ''L1D_CACHE_WB'', ''L2D_CACHE'',
     ''L2D_CACHE_REFILL'', ''L2D_CACHE_WB'', ''BUS_ACCESS'', ''MEMORY_ERROR'', ''INST_SPEC'', ''TTBR_WRITE_RETIRED'',
     ''BUS_CYCLES'', ''CHAIN'', ''L1D_CACHE_ALLOCATE'', ''L2D_CACHE_ALLOCATE'', ''BR_RETIRED'', ''BR_MIS_PRED_RETIRED'',
     ''STALL_FRONTEND'', ''STALL_BACKEND'', ''L1D_TLB'', ''L1I_TLB'', ''L2I_CACHE'', ''L2I_CACHE_REFILL'',
     ''L3D_CACHE_ALLOCATE'', ''L3D_CACHE_REFILL'', ''L3D_CACHE'', ''L3D_CACHE_WB'', ''L2D_TLB_REFILL'', ''L2I_TLB_REFILL'',
     ''L2D_TLB'', ''L2I_TLB'', ''REMOTE_ACCESS'', ''LL_CACHE'', ''LL_CACHE_MISS'', ''DTLB_WALK'', ''ITLB_WALK'',
     ''LL_CACHE_RD'', ''LL_CACHE_MISS_RD'', ''REMOTE_ACCESS_RD'']"

definition get_config_num :: nat where
  "get_config_num = length config_str"

definition print_perf_config :: "u64 \<Rightarrow> ('k, unit) prog" where
  "print_perf_config config =
     (if unat config < length config_str
      then printf ''  event#0x%02lx (%s)'' [AInt (uint config), AStr (config_str ! unat config)]
      else ret ())"

fun print_counts :: "nat \<Rightarrow> u64 list \<Rightarrow> ('k, unit) prog" where
  "print_counts i [] = ret ()"
| "print_counts i (w # ws) = exec (printf ''  countval[%d] = 0x%lx'' [AInt (int i), AInt (uint w)]) (\<lambda>_. print_counts (Suc i) ws)"

text \<open>
  \<^verbatim>\<open>perfevent_exec\<close>. The label \<^verbatim>\<open>err\<close> frees the array if there is one and returns \<^verbatim>\<open>ret\<close>; \<open>leave\<close> is that
  code.
\<close>

definition leave :: "bool \<Rightarrow> int \<Rightarrow> ('k, int) prog" where
  "leave countval r = exec (if countval then c_free else ret ()) (\<lambda>_. ret r)"

definition perfevent_exec :: "('k, 'z) ihk_os_scheme \<Rightarrow> int \<Rightarrow> perf_attr list \<Rightarrow> ('k, int) prog" where
  "perfevent_exec K os_num attr =
     exec (ihk_os_setperfevent K os_num attr) (\<lambda>r.
     if r < 0 then exec (perror ''  ihk_os_setperfevent'') (\<lambda>_. leave False r)
     else
       exec (printf ''  set event %d / %d registered.'' [AInt r, AInt (int (length attr))]) (\<lambda>_.
       if r = 0 then exec (printf ''  no registered perfevent.'' []) (\<lambda>_. leave False r)
       else
         let get_count = nat r in
         exec (ihk_os_perfctl K os_num PERF_EVENT_ENABLE) (\<lambda>r.
         if r < 0 then exec (perror ''  ihk_os_perfctl(PERF_EVENT_ENABLE)'') (\<lambda>_. leave False r)
         else
           exec (c_malloc K (8 * get_count)) (\<lambda>countval.
           if \<not> countval then exec (printf ''  memory allocate failed. (countval)'' []) (\<lambda>_. leave False r)
           else
             exec (ihk_os_getperfevent K os_num get_count) (\<lambda>(r, ws).
             if r < 0 then exec (perror ''  ihk_os_getperfevent'') (\<lambda>_. leave True r)
             else
               exec (print_counts 0 ws) (\<lambda>_.
               exec (ihk_os_perfctl K os_num PERF_EVENT_DISABLE) (\<lambda>r.
               if r < 0 then exec (perror ''  ihk_os_perfctl(PERF_EVENT_DISABLE)'') (\<lambda>_. leave True r)
               else
                 exec (ihk_os_perfctl K os_num PERF_EVENT_DESTROY) (\<lambda>r.
                 if r < 0 then exec (perror ''  ihk_os_perfctl(PERF_EVENT_DESTROY)'') (\<lambda>_. leave True r)
                 else leave True 0))))))))"

text \<open>
  The test functions. \<^verbatim>\<open>000\<close>, \<^verbatim>\<open>002\<close>, \<^verbatim>\<open>003\<close> and \<^verbatim>\<open>004\<close> run the sequence for one event after the other and stop at
  the first one that does not return 0; \<^verbatim>\<open>001\<close> and \<^verbatim>\<open>005\<close> register several events at once.
\<close>

fun each_event ::
    "('k, 'z) ihk_os_scheme \<Rightarrow> int \<Rightarrow> (perf_attr \<Rightarrow> ('k, unit) prog) \<Rightarrow> string \<Rightarrow> string \<Rightarrow> perf_attr list \<Rightarrow> int \<Rightarrow> ('k, int) prog" where
  "each_event K os_num head failed success [] r = ret r"
| "each_event K os_num head failed success (a # as) r =
     exec (head a) (\<lambda>_.
     exec (print_perf_config (pa_config a)) (\<lambda>_.
     exec (perfevent_exec K os_num [a]) (\<lambda>r.
     exec (printf (if r \<noteq> 0 then failed else success) [AInt (uint (pa_config a))]) (\<lambda>_.
     exec (printf (''##### end              #####'' @ [CHR 0x0A]) []) (\<lambda>_.
     if r \<noteq> 0 then ret r else each_event K os_num head failed success as r)))))"

definition usage_messages_cpu :: "string list" where
  "usage_messages_cpu = [
     ''set/enable/get/disable/destroy check config(0x00-0x3f). (for each)'',
     ''set/enable/get/disable/destroy check config(0x00-0x3f). (all at once)'',
     ''set/enable/get/disable/destroy check disabled flags on.'',
     ''set/enable/get/disable/destroy check pinned flags on.'',
     ''set/enable/get/disable/destroy check exclude flags on.'',
     ''set/enable/get/disable/destroy check config(0x00-0x07). (8 counter at once)'']"

definition CPU_CYCLES :: u64 where "CPU_CYCLES = 0x11"
definition INST_RETIRED :: u64 where "INST_RETIRED = 0x08"

definition config_attr :: "nat \<Rightarrow> perf_attr" where
  "config_attr i = zero_attr\<lparr>pa_config := of_nat i\<rparr>"

definition cpu_pa_000 :: "('k, 'z) ihk_os_scheme \<Rightarrow> int \<Rightarrow> int \<Rightarrow> ('k, int) prog" where
  "cpu_pa_000 K tp_num os_num =
     exec (print_test_overview usage_messages_cpu tp_num) (\<lambda>_.
     each_event K os_num (\<lambda>a. printf ''##### start event#0x%02x #####'' [AInt (uint (pa_config a))])
       ''  failed  to event#0x%x'' ''  success to event#0x%x'' (map config_attr [0..<get_config_num]) 0)"

text \<open>\<^verbatim>\<open>001\<close> with \<^verbatim>\<open>get_config_num()\<close> events, \<^verbatim>\<open>005\<close> with 6.\<close>

definition all_events :: "('k, 'z) ihk_os_scheme \<Rightarrow> nat \<Rightarrow> int \<Rightarrow> int \<Rightarrow> ('k, int) prog" where
  "all_events K count tp_num os_num =
     exec (print_test_overview usage_messages_cpu tp_num) (\<lambda>_.
     exec (printf ''##### start event#0x%02x-0x%02x #####'' [AInt 0, AInt (int count - 1)]) (\<lambda>_.
     exec (perfevent_exec K os_num (map config_attr [0..<count])) (\<lambda>r.
     exec (printf (if r \<noteq> 0 then ''  failed.'' else ''  success.'') []) (\<lambda>_.
     exec (printf (''##### end                   #####'' @ [CHR 0x0A]) []) (\<lambda>_.
     ret r)))))"

definition cpu_pa_001 :: "('k, 'z) ihk_os_scheme \<Rightarrow> int \<Rightarrow> int \<Rightarrow> ('k, int) prog" where
  "cpu_pa_001 K = all_events K get_config_num"

definition start_event :: "perf_attr \<Rightarrow> ('k, unit) prog" where
  "start_event a = printf ''##### start event#0x%02lx #####'' [AInt (uint (pa_config a))]"

definition cpu_pa_002 :: "('k, 'z) ihk_os_scheme \<Rightarrow> int \<Rightarrow> int \<Rightarrow> ('k, int) prog" where
  "cpu_pa_002 K tp_num os_num =
     exec (print_test_overview usage_messages_cpu tp_num) (\<lambda>_.
     each_event K os_num start_event ''  failed  to event#0x%lx'' ''  success to event#0x%lx''
       [zero_attr\<lparr>pa_config := CPU_CYCLES, pa_disabled := True\<rparr>, zero_attr\<lparr>pa_config := INST_RETIRED, pa_disabled := True\<rparr>] 0)"

definition cpu_pa_003 :: "('k, 'z) ihk_os_scheme \<Rightarrow> int \<Rightarrow> int \<Rightarrow> ('k, int) prog" where
  "cpu_pa_003 K tp_num os_num =
     exec (print_test_overview usage_messages_cpu tp_num) (\<lambda>_.
     each_event K os_num start_event ''  failed  to event#0x%lx'' ''  success to event#0x%lx''
       [zero_attr\<lparr>pa_config := CPU_CYCLES, pa_pinned := True\<rparr>, zero_attr\<lparr>pa_config := INST_RETIRED, pa_pinned := True\<rparr>] 0)"

text \<open>The table of \<^verbatim>\<open>004.c\<close>: entry \<open>i\<close>, from 1 to 15, has the bits of \<open>i\<close> as its exclude flags.\<close>

definition exclude_attr :: "nat \<Rightarrow> perf_attr" where
  "exclude_attr i = zero_attr\<lparr>pa_exclude_user := bit i 0, pa_exclude_kernel := bit i 1, pa_exclude_hv := bit i 2, pa_exclude_idle := bit i 3\<rparr>"

definition start_exclude :: "perf_attr \<Rightarrow> ('k, unit) prog" where
  "start_exclude a =
     exec (start_event a) (\<lambda>_.
     printf ''##### exclude_user:%d, exclude_kernel:%d, exclude_hv:%d, exclude_idle:%d #####''
       [AInt (of_bool (pa_exclude_user a)), AInt (of_bool (pa_exclude_kernel a)), AInt (of_bool (pa_exclude_hv a)), AInt (of_bool (pa_exclude_idle a))])"

definition cpu_pa_004 :: "('k, 'z) ihk_os_scheme \<Rightarrow> int \<Rightarrow> int \<Rightarrow> ('k, int) prog" where
  "cpu_pa_004 K tp_num os_num =
     exec (print_test_overview usage_messages_cpu tp_num) (\<lambda>_.
     each_event K os_num start_exclude ''  failed  to event#0x%lx'' ''  success to event#0x%lx''
       (concat (map (\<lambda>i. [(exclude_attr i)\<lparr>pa_config := CPU_CYCLES\<rparr>, (exclude_attr i)\<lparr>pa_config := INST_RETIRED\<rparr>]) [1..<16])) 0)"

definition cpu_pa_005 :: "('k, 'z) ihk_os_scheme \<Rightarrow> int \<Rightarrow> int \<Rightarrow> ('k, int) prog" where
  "cpu_pa_005 K = all_events K 6"

definition cpu_pa_cases :: "('k, 'z) ihk_os_scheme \<Rightarrow> (int \<Rightarrow> int \<Rightarrow> ('k, int) oprog) option list" where
  "cpu_pa_cases K =
     map (\<lambda>f. Some (\<lambda>tp_num os_num. returns (f K tp_num os_num))) [cpu_pa_000, cpu_pa_001, cpu_pa_002, cpu_pa_003, cpu_pa_004, cpu_pa_005]"

definition cpu_pa_info_main :: "('k, 'z) ihk_os_scheme \<Rightarrow> string list \<Rightarrow> ('k, int) oprog" where
  "cpu_pa_info_main K = tool_main usage_messages_cpu (cpu_pa_cases K)"

section \<open>The protocol of the performance counters\<close>

text \<open>
  What the library expects of a client, as a transition system: events are registered, then counted,
  read only while they count and with the number of registered events, stopped, and destroyed. A call
  that fails leaves the phase as it was. \<open>perf_run\<close> holds of the traces that follow the protocol and of
  the phase they reach.
\<close>

datatype perf_phase = Clear | Registered nat | Counting nat | Stopped nat

inductive perf_step :: "int \<Rightarrow> perf_phase \<Rightarrow> event \<Rightarrow> perf_phase \<Rightarrow> bool" for os where
  print: "perf_step os p (Printed fmt args) p"
| memory: "nm = Malloc \<or> nm = Free \<Longrightarrow> perf_step os p (Called nm args r) p"
| register: "0 < r \<Longrightarrow> perf_step os Clear (Called (Lib ''ihk_os_setperfevent'') (AInt os # as) r) (Registered (nat r))"
| nothing: "r \<le> 0 \<Longrightarrow> perf_step os Clear (Called (Lib ''ihk_os_setperfevent'') (AInt os # as) r) Clear"
| enable: "perf_step os (Registered n) (Called (Lib ''ihk_os_perfctl'') [AInt os, AStr ''PERF_EVENT_ENABLE''] r)
             (if 0 \<le> r then Counting n else Registered n)"
| sample: "perf_step os (Counting n) (Called (Lib ''ihk_os_getperfevent'') [AInt os, AInt (int n)] r) (Counting n)"
| disable: "perf_step os (Counting n) (Called (Lib ''ihk_os_perfctl'') [AInt os, AStr ''PERF_EVENT_DISABLE''] r)
             (if 0 \<le> r then Stopped n else Counting n)"
| destroy: "perf_step os (Stopped n) (Called (Lib ''ihk_os_perfctl'') [AInt os, AStr ''PERF_EVENT_DESTROY''] r)
             (if 0 \<le> r then Clear else Stopped n)"

inductive perf_run :: "int \<Rightarrow> event list \<Rightarrow> perf_phase \<Rightarrow> bool" for os where
  start: "perf_run os [] Clear"
| step: "perf_run os tr p \<Longrightarrow> perf_step os p ev q \<Longrightarrow> perf_run os (tr @ [ev]) q"

inductive_cases perf_step_setE: "perf_step os p (Called (Lib ''ihk_os_setperfevent'') as r) q"
inductive_simps perf_run_Nil [simp]: "perf_run os [] p"

lemma perf_run_print [simp, intro]: "perf_run os tr p \<Longrightarrow> perf_run os (tr @ [Printed fmt args]) p"
  by (rule perf_run.step [OF _ perf_step.print])

lemma perf_run_memory [intro]:
  "perf_run os tr p \<Longrightarrow> perf_run os (tr @ [Called Malloc args r]) p"
  "perf_run os tr p \<Longrightarrow> perf_run os (tr @ [Called Free args r]) p"
  by (auto intro: perf_run.step perf_step.memory)

lemma perf_run_set:
  assumes "perf_run os tr Clear"
  shows "perf_run os (tr @ [Called (Lib ''ihk_os_setperfevent'') (AInt os # as) r]) (if 0 < r then Registered (nat r) else Clear)"
  using perf_run.step [OF assms] perf_step.register [of r os as] perf_step.nothing [of r os as] by (cases "0 < r") auto

lemma perf_run_ctl:
  "perf_run os tr (Registered n) \<Longrightarrow>
   perf_run os (tr @ [Called (Lib ''ihk_os_perfctl'') [AInt os, AStr ''PERF_EVENT_ENABLE''] r]) (if 0 \<le> r then Counting n else Registered n)"
  "perf_run os tr (Counting n) \<Longrightarrow>
   perf_run os (tr @ [Called (Lib ''ihk_os_perfctl'') [AInt os, AStr ''PERF_EVENT_DISABLE''] r]) (if 0 \<le> r then Stopped n else Counting n)"
  "perf_run os tr (Stopped n) \<Longrightarrow>
   perf_run os (tr @ [Called (Lib ''ihk_os_perfctl'') [AInt os, AStr ''PERF_EVENT_DESTROY''] r]) (if 0 \<le> r then Clear else Stopped n)"
  "perf_run os tr (Counting n) \<Longrightarrow>
   perf_run os (tr @ [Called (Lib ''ihk_os_getperfevent'') [AInt os, AInt (int n)] r]) (Counting n)"
  by (blast intro: perf_run.step perf_step.intros)+

text \<open>The requests a trace makes of \<^verbatim>\<open>ihk_os_setperfevent\<close>, and whether an allocation failed.\<close>

fun set_request :: "event \<Rightarrow> arg list list" where
  "set_request (Called nm args r) = (if nm = Lib ''ihk_os_setperfevent'' then [tl args] else [])"
| "set_request (Printed fmt args) = []"

definition set_requests :: "event list \<Rightarrow> arg list list" where
  "set_requests tr = concat (map set_request tr)"

definition alloc_failed :: "event list \<Rightarrow> bool" where
  "alloc_failed tr \<longleftrightarrow> (\<exists>n. Called Malloc [AInt n] 0 \<in> set tr)"

lemma set_requests_append [simp]: "set_requests (tr @ evs) = set_requests tr @ set_requests evs"
  by (simp add: set_requests_def)

text \<open>
  The state of a client between two calls: the phase reached, the balance of the heap, the requests made
  so far, and whether an allocation failed. \<open>perf_at\<close> is what the rules below carry through a program.
\<close>

definition perf_at :: "int \<Rightarrow> perf_phase \<Rightarrow> int \<Rightarrow> arg list list \<Rightarrow> bool \<Rightarrow> 'k machine \<Rightarrow> bool" where
  "perf_at os p h q m s \<longleftrightarrow> perf_run os (trace s) p \<and> heap_blocks (trace s) = h \<and> set_requests (trace s) = q \<and> alloc_failed (trace s) = m"

named_theorems perf_rules \<open>rules that carry \<open>perf_at\<close> over a call\<close>

lemma perf_at_print [perf_rules]: "perf_at os p h q m s \<Longrightarrow> perf_at os p h q m (logged [Printed fmt args] s)"
  by (auto simp: perf_at_def heap_blocks_append set_requests_def alloc_failed_def)

lemma perf_at_set [perf_rules]:
  "perf_at os Clear h q m s \<Longrightarrow>
   perf_at os (if 0 < r then Registered (nat r) else Clear) h (q @ [as]) m (after e k (Called (Lib ''ihk_os_setperfevent'') (AInt os # as) r) s)"
  using perf_run_set by (auto simp: perf_at_def heap_blocks_append set_requests_def alloc_failed_def)

lemma perf_at_ctl [perf_rules]:
  "perf_at os (Registered n) h q m s \<Longrightarrow>
   perf_at os (if 0 \<le> r then Counting n else Registered n) h q m (after e k (Called (Lib ''ihk_os_perfctl'') [AInt os, AStr ''PERF_EVENT_ENABLE''] r) s)"
  "perf_at os (Counting n) h q m s \<Longrightarrow>
   perf_at os (if 0 \<le> r then Stopped n else Counting n) h q m (after e k (Called (Lib ''ihk_os_perfctl'') [AInt os, AStr ''PERF_EVENT_DISABLE''] r) s)"
  "perf_at os (Stopped n) h q m s \<Longrightarrow>
   perf_at os (if 0 \<le> r then Clear else Stopped n) h q m (after e k (Called (Lib ''ihk_os_perfctl'') [AInt os, AStr ''PERF_EVENT_DESTROY''] r) s)"
  "perf_at os (Counting n) h q m s \<Longrightarrow>
   perf_at os (Counting n) h q m (after e k (Called (Lib ''ihk_os_getperfevent'') [AInt os, AInt (int n)] r) s)"
  using perf_run_ctl by (auto simp: perf_at_def heap_blocks_append set_requests_def alloc_failed_def)

lemma perf_at_memory [perf_rules]:
  "perf_at os p h q m s \<Longrightarrow> perf_at os p (if ok then h + 1 else h) q (m \<or> \<not> ok) (after e k (Called Malloc [AInt n] (if ok then 1 else 0)) s)"
  "perf_at os p h q m s \<Longrightarrow> perf_at os p (h - 1) q m (logged [Called Free args r] s)"
  by (auto simp: perf_at_def heap_blocks_append set_requests_def alloc_failed_def)

lemma wp_print_counts:
  "perf_at os p h q m s \<Longrightarrow> (\<And>t. perf_at os p h q m t \<Longrightarrow> Q (Val ()) t) \<Longrightarrow> wp (print_counts i ws) Q s"
  by (induction ws arbitrary: i s) (auto intro!: wp_rules intro: perf_rules)

lemma wp_leave:
  assumes "perf_at os p h q m s" and "\<And>t. perf_at os p (if b then h - 1 else h) q m t \<Longrightarrow> Q (Val r) t"
  shows "wp (leave b r) Q s"
  using assms perf_at_memory(2) [OF assms(1), of "[]" 0]
  by (auto simp: leave_def c_free_def intro!: wp_rules)

lemma wp_perror_at:
  assumes "perf_at os p h q m s" and "\<And>t. perf_at os p h q m t \<Longrightarrow> Q (Val ()) t"
  shows "wp (perror msg) Q s"
  by (rule wp_perror, rule assms(2), rule perf_at_print [OF assms(1)])

lemma wp_printf_at:
  assumes "perf_at os p h q m s" and "\<And>t. perf_at os p h q m t \<Longrightarrow> Q (Val ()) t"
  shows "wp (printf fmt args) Q s"
  by (rule wp_emit, rule assms(2), rule perf_at_print [OF assms(1)])

lemma wp_set_at:
  assumes "perf_at os Clear h q m s"
    and "\<And>r t. perf_at os (if 0 < r then Registered (nat r) else Clear) h (q @ [concat (map attr_args attr)]) m t \<Longrightarrow> Q (Val r) t"
  shows "wp (ihk_os_setperfevent K os attr) Q s"
  unfolding ihk_os_setperfevent_def by (rule wp_lib_call, rule assms(2), rule perf_at_set [OF assms(1)])

lemma wp_enable_at:
  assumes "perf_at os (Registered n) h q m s"
    and "\<And>r t. perf_at os (if 0 \<le> r then Counting n else Registered n) h q m t \<Longrightarrow> Q (Val r) t"
  shows "wp (ihk_os_perfctl K os PERF_EVENT_ENABLE) Q s"
  unfolding ihk_os_perfctl_def op_name_def perf_op.case by (rule wp_lib_call, rule assms(2), rule perf_at_ctl(1) [OF assms(1)])

lemma wp_disable_at:
  assumes "perf_at os (Counting n) h q m s"
    and "\<And>r t. perf_at os (if 0 \<le> r then Stopped n else Counting n) h q m t \<Longrightarrow> Q (Val r) t"
  shows "wp (ihk_os_perfctl K os PERF_EVENT_DISABLE) Q s"
  unfolding ihk_os_perfctl_def op_name_def perf_op.case by (rule wp_lib_call, rule assms(2), rule perf_at_ctl(2) [OF assms(1)])

lemma wp_destroy_at:
  assumes "perf_at os (Stopped n) h q m s"
    and "\<And>r t. perf_at os (if 0 \<le> r then Clear else Stopped n) h q m t \<Longrightarrow> Q (Val r) t"
  shows "wp (ihk_os_perfctl K os PERF_EVENT_DESTROY) Q s"
  unfolding ihk_os_perfctl_def op_name_def perf_op.case by (rule wp_lib_call, rule assms(2), rule perf_at_ctl(3) [OF assms(1)])

lemma wp_sample_at:
  assumes "perf_at os (Counting n) h q m s" and "\<And>r ws t. perf_at os (Counting n) h q m t \<Longrightarrow> Q (Val (r, ws)) t"
  shows "wp (ihk_os_getperfevent K os n) Q s"
  by (rule wp_getperfevent, rule assms(2), rule perf_at_ctl(4) [OF assms(1)])

lemma wp_malloc_at:
  assumes "perf_at os p h q m s"
    and "\<And>ok t. perf_at os p (if ok then h + 1 else h) q (m \<or> \<not> ok) t \<Longrightarrow> ok \<or> (\<exists>n k. \<not> fst (os_alloc K n k)) \<Longrightarrow> Q (Val ok) t"
  shows "wp (c_malloc K n) Q s"
proof (cases "os_alloc K n (kern s)")
  case (Pair ok k)
  then have "ok \<or> (\<exists>n k. \<not> fst (os_alloc K n k))"
    by (metis fst_conv)
  with Pair show ?thesis
    using assms(2) [OF perf_at_memory(1) [OF assms(1)]] by (simp add: wp_def c_malloc_def)
qed

text \<open>
  What \<^verbatim>\<open>perfevent_exec\<close> leaves: no block of memory, one more request, and a phase of the protocol. A
  result that is not negative comes with the phase \<open>Clear\<close>, unless the allocation of the counter array failed.
\<close>

definition perf_result :: "int \<Rightarrow> perf_phase \<Rightarrow> bool \<Rightarrow> bool" where
  "perf_result r p no_memory \<longleftrightarrow> r < 0 \<or> r = 0 \<and> p = Clear \<or> no_memory \<and> (\<exists>n. p = Counting n)"

lemma perfevent_exec_at:
  assumes "perf_at os Clear h q m s"
  shows "wp (perfevent_exec K os attr)
    (\<lambda>r t. \<exists>x p m'. r = Val x \<and> perf_at os p h (q @ [concat (map attr_args attr)]) m' t \<and> (m' = m \<or> (\<exists>n k. \<not> fst (os_alloc K n k))) \<and> perf_result x p m') s"
  unfolding perfevent_exec_def
  apply (rule wp_exec, rule wp_set_at [OF assms], rule run_case_Val)
  apply (rule wp_if)
   apply (rule wp_exec, erule wp_perror_at, rule run_case_Val, erule wp_leave, force simp: perf_result_def)
  apply (rule wp_exec, erule wp_printf_at, rule run_case_Val, rule wp_if)
   apply (rule wp_exec, erule wp_printf_at, rule run_case_Val, erule wp_leave, force simp: perf_result_def)
  apply (rule wp_Let, simp)
  apply (rule wp_exec, erule wp_enable_at, rule run_case_Val, rule wp_if)
   apply (rule wp_exec, erule wp_perror_at, rule run_case_Val, erule wp_leave, force simp: perf_result_def)
  apply (rule wp_exec, erule wp_malloc_at, rule run_case_Val, rule wp_if)
   apply (rule wp_exec, erule wp_printf_at, rule run_case_Val, erule wp_leave, force simp: perf_result_def)
  apply simp
  apply (rule wp_exec, erule wp_sample_at, rule run_case_Val, simp only: prod.case, rule wp_if)
   apply (rule wp_exec, erule wp_perror_at, rule run_case_Val, erule wp_leave, force simp: perf_result_def)
  apply (rule wp_exec, erule wp_print_counts, rule run_case_Val)
  apply (rule wp_exec, erule wp_disable_at, rule run_case_Val, rule wp_if)
   apply (rule wp_exec, erule wp_perror_at, rule run_case_Val, erule wp_leave, force simp: perf_result_def)
  apply simp
  apply (rule wp_exec, erule wp_destroy_at, rule run_case_Val, rule wp_if)
   apply (rule wp_exec, erule wp_perror_at, rule run_case_Val, erule wp_leave, force simp: perf_result_def)
  apply (erule wp_leave, force simp: perf_result_def)
  done

lemma perf_at_start: "perf_run os (trace s) p \<Longrightarrow> perf_at os p (heap_blocks (trace s)) (set_requests (trace s)) (alloc_failed (trace s)) s"
  by (simp add: perf_at_def)

lemma wp_print_config_at:
  assumes "perf_at os p h q m s" and "\<And>t. perf_at os p h q m t \<Longrightarrow> Q (Val ()) t"
  shows "wp (print_perf_config c) Q s"
  unfolding print_perf_config_def
  by (rule wp_if, rule wp_printf_at [OF assms(1)], erule assms(2), rule wp_ret, rule assms(2), rule assms(1))

text \<open>The loop over single events, where the heading \<open>head\<close> of an event only prints.\<close>

definition events_done :: "int \<Rightarrow> int \<Rightarrow> arg list list \<Rightarrow> perf_attr list \<Rightarrow> int \<Rightarrow> 'k machine \<Rightarrow> bool" where
  "events_done os h q as x t \<longleftrightarrow>
     (\<exists>p j. perf_at os p h (q @ map attr_args (take j as)) False t \<and> j \<le> length as \<and> (x = 0 \<and> p = Clear \<and> j = length as \<or> x < 0))"

lemma events_done_first: "perf_at os p h (q @ [attr_args a]) False t \<Longrightarrow> x < 0 \<Longrightarrow> events_done os h q (a # as) x t"
  unfolding events_done_def by (intro exI [of _ p] exI [of _ "Suc 0"]) simp

lemma events_done_Cons:
  assumes "events_done os h (q @ [attr_args a]) as x t"
  shows "events_done os h q (a # as) x t"
proof -
  from assms obtain p j where "perf_at os p h ((q @ [attr_args a]) @ map attr_args (take j as)) False t"
    and "j \<le> length as" and "x = 0 \<and> p = Clear \<and> j = length as \<or> x < 0"
    unfolding events_done_def by blast
  then show ?thesis
    unfolding events_done_def by (intro exI [of _ p] exI [of _ "Suc j"]) simp
qed

lemma each_event_at:
  assumes alloc: "\<forall>n k. fst (os_alloc K n k)"
    and head: "\<And>a h q s Q. perf_at os Clear h q False s \<Longrightarrow> (\<And>t. perf_at os Clear h q False t \<Longrightarrow> Q (Val ()) t) \<Longrightarrow> wp (head a) Q s"
    and "perf_at os Clear h q False s"
  shows "wp (each_event K os head failed success as 0) (\<lambda>r t. \<exists>x. r = Val x \<and> events_done os h q as x t) s"
  using assms(3)
proof (induction as arbitrary: q s)
  case Nil
  then show ?case
    by (auto simp: events_done_def intro!: wp_rules)
next
  case (Cons a as)
  show ?case
    unfolding each_event.simps
    apply (rule wp_exec, rule head [OF Cons.prems], rule run_case_Val)
    apply (rule wp_exec, erule wp_print_config_at, rule run_case_Val)
    apply (rule wp_exec, rule wp_mono, erule perfevent_exec_at)
    apply (elim exE conjE, simp only: run.case)
    apply (rule wp_exec, erule wp_printf_at, rule run_case_Val)
    apply (rule wp_exec, erule wp_printf_at, rule run_case_Val)
    apply (rule wp_if)
     apply (use alloc in \<open>auto intro!: wp_ret events_done_first simp: perf_result_def\<close>) []
    apply (simp only: not_not, rule wp_mono, rule Cons.IH)
     apply (use alloc in \<open>auto simp: perf_result_def intro: events_done_Cons\<close>)
    done
qed

lemma completes_cpu_prints [completes_rules]:
  "completes (print_counts i ws)" "completes (print_perf_config c)" "completes (start_event a)" "completes (start_exclude a)" "completes (leave b r)"
      apply (simp_all add: print_perf_config_def start_event_def start_exclude_def leave_def c_free_def completes_rules)
  by (induction ws arbitrary: i; simp add: completes_rules)

lemma completes_perfevent_exec [completes_rules]: "completes (perfevent_exec K os attr)"
  unfolding perfevent_exec_def ihk_os_setperfevent_def ihk_os_perfctl_def by (intro completes_rules)

lemma completes_each_event [completes_rules]: "(\<And>a. completes (head a)) \<Longrightarrow> completes (each_event K os head failed success as r)"
  by (induction as arbitrary: r) (auto intro!: completes_rules)

lemma completes_cpu_pa:
  assumes "f \<in> {cpu_pa_000, cpu_pa_001, cpu_pa_002, cpu_pa_003, cpu_pa_004, cpu_pa_005}" and "0 \<le> tp" and "tp < 6"
  shows "completes (f K tp os)"
proof -
  have "tp < int (length usage_messages_cpu)"
    using assms(3) by (simp add: usage_messages_cpu_def)
  then show ?thesis
    using assms(1,2)
    by (auto simp: cpu_pa_000_def cpu_pa_001_def cpu_pa_002_def cpu_pa_003_def cpu_pa_004_def cpu_pa_005_def all_events_def intro!: completes_rules)
qed

section \<open>Properties of cpu\_pa\_info\<close>

text \<open>
  C26. \<^verbatim>\<open>perfevent_exec\<close> refines the protocol of the performance counters: from a phase in which nothing
  is registered it returns, whatever the library and the allocator answer, its calls are steps of the
  protocol, and it leaves the heap as it was. When its result is not negative the result is 0 and the
  phase is \<open>Clear\<close> again, except that after a failed allocation the counters are left running.
\<close>

theorem perfevent_exec_refines:
  assumes "perf_run os (trace s) Clear"
  shows "\<exists>x t p. perfevent_exec K os attr s = (Val x, t) \<and> perf_run os (trace t) p \<and> heap_blocks (trace t) = heap_blocks (trace s) \<and>
    set_requests (trace t) = set_requests (trace s) @ [concat (map attr_args attr)] \<and>
    (x < 0 \<or> x = 0 \<and> p = Clear \<or> alloc_failed (trace t) \<and> (\<exists>n. p = Counting n))"
  using perfevent_exec_at [OF perf_at_start [OF assms], of K attr]
  by (auto simp: wp_def perf_at_def perf_result_def split: prod.splits)

theorem perfevent_exec_refines_witness:
  "perf_run 0 (trace (fresh_process (0 :: nat))) Clear \<and>
   (\<exists>x t p. perfevent_exec ihk_ref 0 [config_attr 3] (fresh_process 0) = (Val x, t) \<and> perf_run 0 (trace t) p)"
proof -
  have start: "perf_run 0 (trace (fresh_process (0 :: nat))) Clear"
    by (simp add: fresh_process_def)
  show ?thesis
    using start perfevent_exec_refines [OF start, of ihk_ref "[config_attr 3]"] by blast
qed

text \<open>
  C27. Test 0 asks for the event codes 0, 1, 2, ... one at a time, without flags. When it returns 0 it has asked for each
  of the 57 codes of \<^verbatim>\<open>config_str\<close> and no counter is registered any more; otherwise its result is negative and it has
  stopped after the code that failed. (Allocations succeed.)
\<close>

theorem cpu_pa_000_requests:
  assumes "\<forall>n k. fst (os_alloc K n k)" and "perf_run os (trace s) Clear" and "\<not> alloc_failed (trace s)" and "0 \<le> tp" and "tp < 6"
  shows "\<exists>x t p j. cpu_pa_000 K tp os s = (Val x, t) \<and> perf_run os (trace t) p \<and> heap_blocks (trace t) = heap_blocks (trace s) \<and>
    set_requests (trace t) = set_requests (trace s) @ map (\<lambda>i. attr_args (config_attr i)) [0..<j] \<and>
    j \<le> 57 \<and> (x = 0 \<and> p = Clear \<and> j = 57 \<or> x < 0)"
proof -
  have n: "get_config_num = 57"
    by (simp add: get_config_num_def config_str_def)
  have at: "perf_at os Clear (heap_blocks (trace s)) (set_requests (trace s)) False s"
    using assms(2,3) by (simp add: perf_at_def)
  have "wp (cpu_pa_000 K tp os)
      (\<lambda>r t. \<exists>x. r = Val x \<and> events_done os (heap_blocks (trace s)) (set_requests (trace s)) (map config_attr [0..<get_config_num]) x t) s"
    unfolding cpu_pa_000_def print_test_overview_def using assms(4,5)
    by (simp add: usage_messages_cpu_def)
      (rule wp_exec, rule wp_printf_at [OF at], rule run_case_Val, rule each_event_at [OF assms(1) wp_printf_at])
  then obtain x t p j where "cpu_pa_000 K tp os s = (Val x, t)" and "j \<le> 57"
    and "perf_at os p (heap_blocks (trace s)) (set_requests (trace s) @ map attr_args (take j (map config_attr [0..<57]))) False t"
    and "x = 0 \<and> p = Clear \<and> j = 57 \<or> x < 0"
    by (auto simp: wp_def events_done_def n split: prod.splits)
  moreover from this(2) have "map attr_args (take j (map config_attr [0..<57])) = map (\<lambda>i. attr_args (config_attr i)) [0..<j]"
    by (simp add: take_map)
  ultimately show ?thesis
    unfolding perf_at_def by metis
qed

theorem cpu_pa_000_requests_witness:
  "\<exists>x t p j. cpu_pa_000 ihk_ref 0 0 (fresh_process 0) = (Val x, t) \<and> perf_run 0 (trace t) p \<and> j \<le> (57 :: nat)"
  using cpu_pa_000_requests [of ihk_ref 0 "fresh_process 0" 0] by (fastforce simp: fresh_process_def alloc_failed_def)

lemma no_requests: "lib_calls evs = [] \<Longrightarrow> set_requests evs = []"
  by (induction evs) (auto simp: lib_calls_def set_requests_def split: event.splits)

lemma length_cpu_pa_cases [simp]: "length (cpu_pa_cases K) = 6"
  by (simp add: cpu_pa_cases_def)

interpretation cpu_pa: test_tool usage_messages_cpu "cpu_pa_cases K" for K
  by unfold_locales (simp_all add: usage_messages_cpu_def cpu_pa_cases_def del: list.map)

text \<open>
  \<^verbatim>\<open>cpu_pa_info\<close> with two arguments returns, whatever the library answers, and prints \<open>RESULT:OK.\<close> last exactly when
  it returns 0. The one exception is a negative \<^verbatim>\<open>tp_num\<close>, which \<^verbatim>\<open>main\<close> does not reject: it reads the table of
  test functions before its first entry.
\<close>

theorem cpu_pa_info_main_outcome:
  fixes K :: "('k, 'z) ihk_os_scheme"
  assumes "argv = [cmd, a, b]"
  shows "\<exists>r t. cpu_pa_info_main K argv s = Some (r, t) \<and>
    (if 0 \<le> atoi a \<and> atoi a \<le> 63 \<and> atoi b < 0 then r = Halt (Undefined ''array index'')
     else \<exists>x. r = Val x \<and> (last (trace t) = Printed ''RESULT:OK.'' [] \<longleftrightarrow> x = 0) \<and>
       (\<not> (0 \<le> atoi a \<and> atoi a \<le> 63 \<and> atoi b < 6) \<longrightarrow> x = -1 \<and> set_requests (trace t) = set_requests (trace s)))"
proof -
  let ?fs = "[cpu_pa_000, cpu_pa_001, cpu_pa_002, cpu_pa_003, cpu_pa_004, cpu_pa_005]"
  consider (neg) "0 \<le> atoi a" "atoi a \<le> 63" "atoi b < 0" | (reject) "atoi a < 0 \<or> 63 < atoi a \<or> 6 \<le> atoi b"
    | (run) "0 \<le> atoi a" "atoi a \<le> 63" "0 \<le> atoi b" "atoi b < 6"
    by linarith
  then show ?thesis
  proof cases
    case neg
    then show ?thesis
      using assms by (simp add: cpu_pa_info_main_def cpu_pa.main_negative)
  next
    case run
    define f :: "('k, 'z) ihk_os_scheme \<Rightarrow> int \<Rightarrow> int \<Rightarrow> ('k, int) prog" where "f = ?fs ! nat (atoi b)"
    have "f \<in> set ?fs"
      unfolding f_def using run by (intro nth_mem) simp
    then have "completes (f K (atoi b) (atoi a))"
      using run by (intro completes_cpu_pa) simp_all
    then obtain x t where "f K (atoi b) (atoi a) s = (Val x, t)"
      unfolding completes_def by blast
    moreover have "the (cpu_pa_cases K ! nat (atoi b)) = (\<lambda>tp os. returns (f K tp os))"
      using run by (simp add: cpu_pa_cases_def f_def nth_map del: list.map)
    ultimately show ?thesis
      using assms run by (simp add: cpu_pa_info_main_def cpu_pa.main_run returns_def)
  next
    case reject
    then show ?thesis
      using assms cpu_pa.main_rejects [where K = K and a = a and b = b and cmd = cmd and s = s]
      by (auto simp: cpu_pa_info_main_def dest: no_requests)
  qed
qed

theorem cpu_pa_info_main_outcome_witness:
  "\<exists>r t. cpu_pa_info_main ihk_ref [''cpu_pa_info'', ''0'', ''-1''] (fresh_process 0) = Some (r, t) \<and> r = Halt (Undefined ''array index'')"
proof -
  have "atoi ''0'' = 0" "atoi ''-1'' = -1"
    by code_simp+
  then show ?thesis
    using cpu_pa_info_main_outcome [of "[''cpu_pa_info'', ''0'', ''-1'']" "''cpu_pa_info''" "''0''" "''-1''" ihk_ref "fresh_process 0"]
    by simp
qed

end
