(* ===== verification/Condition_Monitor.thy ===== *)
theory Condition_Monitor
  imports Ihk_Lib
begin

text \<open>
  The tool \<^verbatim>\<open>condition_monitor\<close>: waiting for an event of the lightweight kernel with \<^verbatim>\<open>epoll_wait\<close> in a loop without
  bound, a partial function here, and the report of the kernel's state.
\<close>

section \<open>condition\_monitor\<close>

definition usage_messages_monitor :: "string list" where
  "usage_messages_monitor = [
     ''event check IHK_OS_EVENTFD_TYPE_OOM. (physical memory used exceeds the limit)'',
     ''event check IHK_OS_EVENTFD_TYPE_STATUS. (LWK state panic or hung-up)'',
     ''LWK state check.'']"

definition status_strings :: "string list" where
  "status_strings = [''INACTIVE'', ''BOOTING'', ''RUNNING'', ''SHUTDOWN'', ''PANIC'', ''HUNGUP'', ''FREEZING'', ''FROZEN'']"

definition get_status :: "('k, 'z) ihk_os_scheme \<Rightarrow> int \<Rightarrow> ('k, int) prog" where
  "get_status K os_num =
     exec (lib_call ''ihk_os_get_status'' [AInt os_num] (ihk_get_status K os_num)) (\<lambda>status.
     exec (if status < 0 then printf ''ihk_os_get_status(): error(%d)'' [AInt status] else ret ()) (\<lambda>_.
     ret status))"

definition c_epoll_create :: "('k, 'z) ihk_os_scheme \<Rightarrow> ('k, int) prog" where
  "c_epoll_create K = sys_int (Lib ''epoll_create'') [AInt 1] (os_epoll_create K)"

definition c_epoll_ctl :: "('k, 'z) ihk_os_scheme \<Rightarrow> int \<Rightarrow> int \<Rightarrow> ('k, int) prog" where
  "c_epoll_ctl K epfd evfd = sys_int (Lib ''epoll_ctl'') [AInt epfd, AInt evfd] (os_epoll_ctl K epfd evfd)"

text \<open>
  \<^verbatim>\<open>epoll_wait (epfd, events, 1, -1)\<close>: the descriptors the events carry, at most one, or none when the call
  fails.
\<close>

definition epoll_wait :: "('k, 'z) ihk_os_scheme \<Rightarrow> int \<Rightarrow> 'k machine \<Rightarrow> int list \<times> 'k machine" where
  "epoll_wait K epfd s =
     (case os_epoll_wait K epfd (kern s) of
        (Inl e, k) \<Rightarrow> ([], after e k (Called (Lib ''epoll_wait'') [AInt epfd] (-1)) s)
      | (Inr fds, k) \<Rightarrow> (take 1 fds, after (errno s) k (Called (Lib ''epoll_wait'') [AInt epfd] (int (length (take 1 fds)))) s))"

text \<open>The \<^verbatim>\<open>do ... while(1)\<close> loop, which a wake-up of the event descriptor leaves.\<close>

partial_function (option) poll_loop ::
    "('k, 'z) ihk_os_scheme \<Rightarrow> int \<Rightarrow> eventfd_type \<Rightarrow> int \<Rightarrow> int \<Rightarrow> 'k machine \<Rightarrow> (int run \<times> 'k machine) option" where
  "poll_loop K os_num type epfd evfd s =
     (let w = epoll_wait K epfd s in
      if evfd \<in> set (fst w)
      then Some (exec (printf ''eventfd(os=%d, type=%d) epoll() wakeuped.'' [AInt os_num, AInt (eventfd_type_code K type)]) (\<lambda>_. ret 0) (snd w))
      else poll_loop K os_num type epfd evfd (snd w))"

definition event_polling :: "('k, 'z) ihk_os_scheme \<Rightarrow> int \<Rightarrow> eventfd_type \<Rightarrow> ('k, int) oprog" where
  "event_polling K os_num type =
     oexec (returns (lib_call ''ihk_os_get_eventfd'' [AInt os_num, AInt (eventfd_type_code K type)] (ihk_get_eventfd K os_num type))) (\<lambda>evfd.
     if evfd < 0 then returns (exec (printf ''ihk_os_get_eventfd(): error(%d)'' [AInt evfd]) (\<lambda>_. ret evfd))
     else
       oexec (returns (c_epoll_create K)) (\<lambda>epfd.
       if epfd = -1 then returns (exec (perror ''epoll_create()'') (\<lambda>_. get_errno))
       else
         oexec (returns (c_epoll_ctl K epfd evfd)) (\<lambda>lib_ret.
         if lib_ret \<noteq> 0 then returns (exec (perror ''epoll_ctl()'') (\<lambda>_. get_errno))
         else poll_loop K os_num type epfd evfd)))"

definition monitor_000 :: "('k, 'z) ihk_os_scheme \<Rightarrow> int \<Rightarrow> int \<Rightarrow> ('k, int) oprog" where
  "monitor_000 K tp_num os_num =
     oexec (returns (print_test_overview usage_messages_monitor tp_num)) (\<lambda>_. event_polling K os_num IHK_OS_EVENTFD_TYPE_OOM)"

definition monitor_001 :: "('k, 'z) ihk_os_scheme \<Rightarrow> int \<Rightarrow> int \<Rightarrow> ('k, int) oprog" where
  "monitor_001 K tp_num os_num =
     oexec (returns (print_test_overview usage_messages_monitor tp_num)) (\<lambda>_. event_polling K os_num IHK_OS_EVENTFD_TYPE_STATUS)"

definition monitor_002 :: "('k, 'z) ihk_os_scheme \<Rightarrow> int \<Rightarrow> int \<Rightarrow> ('k, int) prog" where
  "monitor_002 K tp_num os_num =
     exec (print_test_overview usage_messages_monitor tp_num) (\<lambda>_.
     exec (get_status K os_num) (\<lambda>status.
     if status < 0 then ret (-1)
     else if nat status < length status_strings
       then exec (printf ''status:%s detected.'' [AStr (status_strings ! nat status)]) (\<lambda>_. ret 0)
     else exec (printf ''unknown status (%d)'' [AInt status]) (\<lambda>_. ret (-1))))"

definition monitor_cases :: "('k, 'z) ihk_os_scheme \<Rightarrow> (int \<Rightarrow> int \<Rightarrow> ('k, int) oprog) option list" where
  "monitor_cases K = [Some (monitor_000 K), Some (monitor_001 K), Some (\<lambda>tp_num os_num. returns (monitor_002 K tp_num os_num))]"

definition condition_monitor_main :: "('k, 'z) ihk_os_scheme \<Rightarrow> string list \<Rightarrow> ('k, int) oprog" where
  "condition_monitor_main K = tool_main usage_messages_monitor (monitor_cases K)"

section \<open>Properties of condition\_monitor\<close>

text \<open>The state after \<open>n\<close> waits, and the waits that report the event descriptor.\<close>

primrec polls :: "('k, 'z) ihk_os_scheme \<Rightarrow> int \<Rightarrow> nat \<Rightarrow> 'k machine \<Rightarrow> 'k machine" where
  "polls K epfd 0 s = s"
| "polls K epfd (Suc n) s = polls K epfd n (snd (epoll_wait K epfd s))"

definition wakes :: "('k, 'z) ihk_os_scheme \<Rightarrow> int \<Rightarrow> int \<Rightarrow> nat \<Rightarrow> 'k machine \<Rightarrow> bool" where
  "wakes K epfd evfd n s \<longleftrightarrow> evfd \<in> set (fst (epoll_wait K epfd (polls K epfd n s)))"

lemma wakes_Suc: "wakes K epfd evfd (Suc n) s \<longleftrightarrow> wakes K epfd evfd n (snd (epoll_wait K epfd s))"
  by (simp add: wakes_def)

definition woken :: "('k, 'z) ihk_os_scheme \<Rightarrow> int \<Rightarrow> eventfd_type \<Rightarrow> event" where
  "woken K os ty = Printed ''eventfd(os=%d, type=%d) epoll() wakeuped.'' [AInt os, AInt (eventfd_type_code K ty)]"

lemma poll_loop_wakes:
  "wakes K epfd evfd n s \<Longrightarrow> (\<And>i. i < n \<Longrightarrow> \<not> wakes K epfd evfd i s) \<Longrightarrow>
   poll_loop K os ty epfd evfd s = Some (Val 0, logged [woken K os ty] (polls K epfd (Suc n) s))"
proof (induction n arbitrary: s)
  case 0
  then show ?case
    by (subst poll_loop.simps) (simp add: wakes_def Let_def exec_def emit_def ret_def woken_def)
next
  case (Suc n)
  from Suc.prems(2) [of 0] have "evfd \<notin> set (fst (epoll_wait K epfd s))"
    by (simp add: wakes_def)
  moreover have "poll_loop K os ty epfd evfd (snd (epoll_wait K epfd s)) =
      Some (Val 0, logged [woken K os ty] (polls K epfd (Suc n) (snd (epoll_wait K epfd s))))"
    using Suc.prems(1) Suc.prems(2) [of "Suc i" for i] by (intro Suc.IH) (auto simp: wakes_Suc)
  ultimately show ?case
    by (subst poll_loop.simps) (simp add: Let_def)
qed

lemma poll_loop_Some:
  assumes "poll_loop K os ty epfd evfd s = Some y"
  shows "\<exists>n. wakes K epfd evfd n s"
proof (rule poll_loop.raw_induct [OF _ assms, where P = "\<lambda>K os ty epfd evfd s y. \<exists>n. wakes K epfd evfd n s"])
  fix loop K os ty epfd evfd s y
  assume IH: "\<And>K os ty epfd evfd s y. loop K os ty epfd evfd s = Some y \<Longrightarrow> \<exists>n. wakes K epfd evfd n s"
    and body: "(let w = epoll_wait K epfd s in
      if evfd \<in> set (fst w)
      then Some (exec (printf ''eventfd(os=%d, type=%d) epoll() wakeuped.'' [AInt os, AInt (eventfd_type_code K ty)]) (\<lambda>_. ret 0) (snd w))
      else loop K os ty epfd evfd (snd w)) = Some y"
  show "\<exists>n. wakes K epfd evfd n s"
  proof (cases "evfd \<in> set (fst (epoll_wait K epfd s))")
    case True
    then show ?thesis
      by (intro exI [of _ 0]) (simp add: wakes_def)
  next
    case False
    with body have "loop K os ty epfd evfd (snd (epoll_wait K epfd s)) = Some y"
      by (simp add: Let_def)
    from IH [OF this] show ?thesis
      unfolding wakes_Suc [symmetric] by blast
  qed
qed

lemma poll_loop_None: "poll_loop K os ty epfd evfd s = None \<longleftrightarrow> (\<forall>n. \<not> wakes K epfd evfd n s)"
proof
  assume "poll_loop K os ty epfd evfd s = None"
  show "\<forall>n. \<not> wakes K epfd evfd n s"
  proof (rule ccontr)
    assume "\<not> (\<forall>n. \<not> wakes K epfd evfd n s)"
    then obtain n where "wakes K epfd evfd n s" "\<And>i. i < n \<Longrightarrow> \<not> wakes K epfd evfd i s"
      using exists_least_iff [of "\<lambda>n. wakes K epfd evfd n s"] by blast
    from poll_loop_wakes [OF this, of os ty] \<open>poll_loop K os ty epfd evfd s = None\<close> show False
      by simp
  qed
next
  assume "\<forall>n. \<not> wakes K epfd evfd n s"
  then show "poll_loop K os ty epfd evfd s = None"
    using poll_loop_Some by (cases "poll_loop K os ty epfd evfd s") blast+
qed

lemma completes_epoll: "completes (c_epoll_create K)" "completes (c_epoll_ctl K epfd evfd)"
  by (simp_all only: c_epoll_create_def c_epoll_ctl_def completes_rules)

text \<open>What the waits append to the trace.\<close>

lemma epoll_wait_trace:
  "\<exists>r. trace (snd (epoll_wait K epfd s)) = trace s @ [Called (Lib ''epoll_wait'') [AInt epfd] r] \<and> (fst (epoll_wait K epfd s) \<noteq> [] \<longrightarrow> r = 1)"
  by (auto simp: epoll_wait_def min_def neq_Nil_conv split: prod.splits sum.splits)

lemma polls_trace: "\<exists>rs. trace (polls K epfd n s) = trace s @ map (\<lambda>r. Called (Lib ''epoll_wait'') [AInt epfd] r) rs"
proof (induction n arbitrary: s)
  case (Suc n)
  obtain r where "trace (snd (epoll_wait K epfd s)) = trace s @ [Called (Lib ''epoll_wait'') [AInt epfd] r]"
    using epoll_wait_trace by blast
  then show ?case
    using Suc.IH [of "snd (epoll_wait K epfd s)"] by (auto intro: exI [of _ "r # rs" for rs])
qed (simp add: exI [of _ "[]"])

lemma polls_Suc: "polls K epfd (Suc n) s = snd (epoll_wait K epfd (polls K epfd n s))"
  by (induction n arbitrary: s) simp_all

lemma poll_loop_trace:
  assumes "poll_loop K os ty epfd evfd s = Some (r, t)"
  shows "r = Val 0 \<and> (\<exists>waits. trace t = trace s @ map (\<lambda>r. Called (Lib ''epoll_wait'') [AInt epfd] r) waits @ [woken K os ty] \<and> waits \<noteq> [] \<and> last waits = 1)"
proof -
  obtain n where n: "wakes K epfd evfd n s" "\<And>i. i < n \<Longrightarrow> \<not> wakes K epfd evfd i s"
    using poll_loop_Some [OF assms] exists_least_iff [of "\<lambda>n. wakes K epfd evfd n s"] by blast
  obtain rs where rs: "trace (polls K epfd n s) = trace s @ map (\<lambda>r. Called (Lib ''epoll_wait'') [AInt epfd] r) rs"
    using polls_trace by blast
  have "trace (polls K epfd (Suc n) s) = trace s @ map (\<lambda>r. Called (Lib ''epoll_wait'') [AInt epfd] r) (rs @ [1])"
    using n(1) epoll_wait_trace [of K epfd "polls K epfd n s"] rs by (force simp: polls_Suc wakes_def simp del: polls.simps)
  with poll_loop_wakes [OF n, of os ty] assms show ?thesis
    by (intro conjI exI [of _ "rs @ [1]"]) auto
qed

text \<open>
  C29. When \<^verbatim>\<open>event_polling\<close> returns: it does not return exactly when the event descriptor and the epoll instance
  were set up and no wait, however many there are, reports the descriptor. A wait that fails counts as
  one that reports nothing.
\<close>

theorem event_polling_diverges_iff:
  "event_polling K os ty s = None \<longleftrightarrow>
   (\<exists>evfd epfd s1 s2 s3.
      lib_call ''ihk_os_get_eventfd'' [AInt os, AInt (eventfd_type_code K ty)] (ihk_get_eventfd K os ty) s = (Val evfd, s1) \<and> 0 \<le> evfd \<and>
      c_epoll_create K s1 = (Val epfd, s2) \<and> epfd \<noteq> -1 \<and>
      c_epoll_ctl K epfd evfd s2 = (Val 0, s3) \<and> (\<forall>n. \<not> wakes K epfd evfd n s3))"
proof -
  obtain evfd s1 where 1: "lib_call ''ihk_os_get_eventfd'' [AInt os, AInt (eventfd_type_code K ty)] (ihk_get_eventfd K os ty) s = (Val evfd, s1)"
    by (rule completesE [OF completes_calls(1)])
  obtain epfd s2 where 2: "c_epoll_create K s1 = (Val epfd, s2)"
    by (rule completesE [OF completes_epoll(1)])
  obtain r s3 where 3: "c_epoll_ctl K epfd evfd s2 = (Val r, s3)"
    by (rule completesE [OF completes_epoll(2)])
  show ?thesis
    using 1 2 3 by (auto simp: event_polling_def oexec_def returns_def poll_loop_None)
qed

text \<open>
  When \<^verbatim>\<open>event_polling\<close> returns 0 and error numbers are not 0, it has been woken up through the event descriptor:
  its last action is the message. It has called for the event descriptor, the epoll instance and the waits only, and has
  closed neither of the two descriptors.
\<close>

theorem event_polling_leaves_descriptors:
  assumes "event_polling K os ty s = Some (Val 0, t)"
    and "\<And>k e k'. os_epoll_create K k = (Inl e, k') \<Longrightarrow> e \<noteq> 0" and "\<And>epfd evfd k e k'. os_epoll_ctl K epfd evfd k = (Inl e, k') \<Longrightarrow> e \<noteq> 0"
    and "\<And>epfd evfd k v k'. os_epoll_ctl K epfd evfd k = (Inr v, k') \<Longrightarrow> v = 0" and "\<And>k v k'. os_epoll_create K k = (Inr v, k') \<Longrightarrow> 0 \<le> v"
  shows "\<exists>evfd epfd waits. 0 \<le> evfd \<and> 0 \<le> epfd \<and>
    trace t = trace s @ [Called (Lib ''ihk_os_get_eventfd'') [AInt os, AInt (eventfd_type_code K ty)] evfd, Called (Lib ''epoll_create'') [AInt 1] epfd,
      Called (Lib ''epoll_ctl'') [AInt epfd, AInt evfd] 0] @ map (\<lambda>r. Called (Lib ''epoll_wait'') [AInt epfd] r) waits @ [woken K os ty] \<and>
    waits \<noteq> [] \<and> last waits = 1"
proof -
  obtain evfd e k where get: "ihk_get_eventfd K os ty (kern s) = (evfd, e, k)"
    by (rule prod_cases3)
  define s1 where "s1 = after e k (Called (Lib ''ihk_os_get_eventfd'') [AInt os, AInt (eventfd_type_code K ty)] evfd) s"
  have s1: "lib_call ''ihk_os_get_eventfd'' [AInt os, AInt (eventfd_type_code K ty)] (ihk_get_eventfd K os ty) s = (Val evfd, s1)"
    by (simp add: lib_call_def get s1_def)
  have ev: "0 \<le> evfd"
    using assms(1) s1 by (auto simp: event_polling_def oexec_def returns_def exec_def emit_def ret_def split: if_splits)
  obtain epfd k2 where create: "os_epoll_create K (kern s1) = (Inr epfd, k2)"
    using assms(1,2) s1 ev
    by (cases "os_epoll_create K (kern s1)")
      (auto simp: event_polling_def oexec_def returns_def exec_def emit_def get_errno_def perror_def c_epoll_create_def sys_call_def split: sum.splits)
  define s2 where "s2 = after (errno s1) k2 (Called (Lib ''epoll_create'') [AInt 1] epfd) s1"
  have s2: "c_epoll_create K s1 = (Val epfd, s2)" and ep: "0 \<le> epfd"
    using create assms(5) by (auto simp: c_epoll_create_def sys_call_def s2_def)
  obtain k3 where ctl: "os_epoll_ctl K epfd evfd (kern s2) = (Inr 0, k3)"
    using assms(1,3,4) s1 ev s2 ep
    by (cases "os_epoll_ctl K epfd evfd (kern s2)")
      (auto simp: event_polling_def oexec_def returns_def exec_def emit_def get_errno_def perror_def c_epoll_ctl_def sys_call_def split: sum.splits)
  define s3 where "s3 = after (errno s2) k3 (Called (Lib ''epoll_ctl'') [AInt epfd, AInt evfd] 0) s2"
  have s3: "c_epoll_ctl K epfd evfd s2 = (Val 0, s3)"
    using ctl by (simp add: c_epoll_ctl_def sys_call_def s3_def)
  have "poll_loop K os ty epfd evfd s3 = Some (Val 0, t)"
    using assms(1) s1 ev s2 ep s3 by (simp add: event_polling_def oexec_def returns_def)
  from poll_loop_trace [OF this] ev ep show ?thesis
    by (intro exI [of _ evfd] exI [of _ epfd]) (auto simp: s1_def s2_def s3_def)
qed

theorem event_polling_leaves_descriptors_witness:
  "\<exists>t evfd epfd waits. event_polling ihk_ref 0 IHK_OS_EVENTFD_TYPE_OOM (fresh_process 0) = Some (Val 0, t) \<and> (0 :: int) \<le> evfd \<and> (0 :: int) \<le> epfd \<and>
     length (trace t) = 4 + length (waits :: int list) \<and> last waits = 1"
proof -
  have "wakes ihk_ref 8 7 1 s \<and> \<not> wakes ihk_ref 8 7 0 s" if "kern s = 0" for s
    using that by (simp add: wakes_def epoll_wait_def)
  then have "poll_loop ihk_ref 0 IHK_OS_EVENTFD_TYPE_OOM 8 7 s = Some (Val 0, logged [woken ihk_ref 0 IHK_OS_EVENTFD_TYPE_OOM] (polls ihk_ref 8 (Suc 1) s))"
    if "kern s = 0" for s
    using that by (intro poll_loop_wakes) (auto simp: less_Suc_eq)
  then obtain t where t: "event_polling ihk_ref 0 IHK_OS_EVENTFD_TYPE_OOM (fresh_process 0) = Some (Val 0, t)"
    by (auto simp: event_polling_def oexec_def returns_def lib_call_def c_epoll_create_def c_epoll_ctl_def sys_call_def fresh_process_def)
  show ?thesis
    using event_polling_leaves_descriptors [OF t] t by (fastforce simp: fresh_process_def EIO_def)
qed

section \<open>The status report of condition\_monitor\<close>

lemma length_monitor_cases [simp]: "length (monitor_cases K) = 3"
  by (simp add: monitor_cases_def)

interpretation monitor: test_tool usage_messages_monitor "monitor_cases K" for K
proof
  show "\<exists>f. monitor_cases K ! i = Some f" if "i < length (monitor_cases K)" for i
    using that by (auto simp: monitor_cases_def less_Suc_eq numeral_3_eq_3)
qed (simp_all add: usage_messages_monitor_def)

text \<open>
  Test 2 of \<^verbatim>\<open>condition_monitor\<close>, run from the command line, names the state of the kernel: it ends with \<open>RESULT:OK.\<close> and
  status 0 exactly when the library reports one of the eight known states, whose name is the line before; for any other answer
  it returns \<open>-1\<close> after \<open>RESULT:NG.\<close>.
\<close>

theorem condition_monitor_status:
  assumes "argv = [cmd, a, b]" and "0 \<le> atoi a" and "atoi a \<le> 63" and "atoi b = 2" and "ihk_get_status K (atoi a) (kern s) = (status, e, k)"
  shows "\<exists>x t evs. condition_monitor_main K argv s = Some (Val x, t) \<and> trace t = trace s @ evs \<and>
    (if 0 \<le> status \<and> status < 8
     then x = 0 \<and> drop 2 evs = [Printed ''status:%s detected.'' [AStr (status_strings ! nat status)], Printed ''RESULT:OK.'' []]
     else x = -1 \<and> last evs = Printed ''RESULT:NG.'' [])"
proof -
  have n: "length status_strings = 8"
    by (simp add: status_strings_def)
  have "the (monitor_cases K ! nat (atoi b)) = (\<lambda>tp os. returns (monitor_002 K tp os))"
    using assms by (simp add: monitor_cases_def)
  then have "condition_monitor_main K argv s =
      (case monitor_002 K 2 (atoi a) s of
         (Val x, t) \<Rightarrow> Some (Val x, logged [Printed (if x \<noteq> 0 then ''RESULT:NG.'' else ''RESULT:OK.'') []] t)
       | y \<Rightarrow> Some y)"
    using assms by (simp add: condition_monitor_main_def monitor.main_run returns_def split: prod.splits run.splits)
  moreover have "\<not> 8 \<le> status \<Longrightarrow> 0 \<le> status \<Longrightarrow> nat status < 8"
    by linarith
  ultimately show ?thesis
    using assms
    by (auto simp: monitor_002_def get_status_def print_test_overview_def usage_messages_monitor_def lib_call_def exec_def emit_def ret_def n)
qed

theorem condition_monitor_status_witness:
  "\<exists>x t evs. condition_monitor_main ihk_ref [''condition_monitor'', ''0'', ''2''] (fresh_process 0) = Some (Val x, t) \<and> trace t = evs \<and>
     drop 2 evs = [Printed ''status:%s detected.'' [AStr ''RUNNING''], Printed ''RESULT:OK.'' []]"
proof -
  have "atoi ''0'' = 0" "atoi ''2'' = 2"
    by code_simp+
  then show ?thesis
    using condition_monitor_status [of "[''condition_monitor'', ''0'', ''2'']" "''condition_monitor''" "''0''" "''2''" ihk_ref "fresh_process 0" 2 0 0]
    by (fastforce simp: fresh_process_def status_strings_def)
qed

end
