(* ===== verification/Ihk_Commands.thy ===== *)
theory Ihk_Commands
  imports Ihk_Lib
begin

text \<open>
  The commands \<^verbatim>\<open>freeze_thaw\<close> and \<^verbatim>\<open>get_rusage\<close>: one call of the IHK library each, for the kernel whose number is the first
  argument.
\<close>

unbundle bit_operations_syntax

section \<open>freeze\_thaw\<close>

definition freeze_usage :: "string \<Rightarrow> ('k, unit) prog" where
  "freeze_usage cmd = exec (printf ''Usage:'' []) (\<lambda>_. printf ''  %s <os_number> [freeze | thaw]'' [AStr cmd])"

definition os_set :: "int \<Rightarrow> u64" where
  "os_set os_num = push_bit (nat os_num) 1"

definition do_freeze :: "('k, 'z) ihk_os_scheme \<Rightarrow> int \<Rightarrow> ('k, int) prog" where
  "do_freeze K os_num = lib_call ''ihk_os_freeze'' [AInt (uint (os_set os_num)), AInt 1] (ihk_freeze K (os_set os_num))"

definition do_thaw :: "('k, 'z) ihk_os_scheme \<Rightarrow> int \<Rightarrow> ('k, int) prog" where
  "do_thaw K os_num = lib_call ''ihk_os_thaw'' [AInt (uint (os_set os_num)), AInt 1] (ihk_thaw K (os_set os_num))"

definition freeze_thaw_main :: "('k, 'z) ihk_os_scheme \<Rightarrow> string list \<Rightarrow> ('k, int) prog" where
  "freeze_thaw_main K argv =
     (if length argv < 3 then exec (freeze_usage (argv ! 0)) (\<lambda>_. ret (-1))
      else
        let os_num = atoi (argv ! 1) in
        if os_num < 0 \<or> 63 < os_num then
          exec (printf ''Invalid argument 1 os_num.'' []) (\<lambda>_. exec (freeze_usage (argv ! 0)) (\<lambda>_. ret (-1)))
        else if argv ! 2 = ''freeze'' then
          exec (do_freeze K os_num) (\<lambda>r.
          exec (if r \<noteq> 0 then printf ''ihk_freeze failed.'' [] else ret ()) (\<lambda>_. ret r))
        else if argv ! 2 = ''thaw'' then
          exec (do_thaw K os_num) (\<lambda>r.
          exec (if r \<noteq> 0 then printf ''ihk_thaw failed.'' [] else ret ()) (\<lambda>_. ret r))
        else exec (printf ''Invalid argument 2 string.'' []) (\<lambda>_. exec (freeze_usage (argv ! 0)) (\<lambda>_. ret (-1))))"

section \<open>get\_rusage\<close>

definition rusage_usage :: "string \<Rightarrow> ('k, unit) prog" where
  "rusage_usage cmd = exec (printf ''Usage:'' []) (\<lambda>_. printf ''  %s <os_number>'' [AStr cmd])"

text \<open>
  The loop over an array field: a line for every entry that is not zero, and a line of its own when
  there is none.
\<close>

fun array_lines :: "string \<Rightarrow> (nat \<Rightarrow> u64) \<Rightarrow> nat \<Rightarrow> nat \<Rightarrow> bool \<Rightarrow> ('k, bool) prog" where
  "array_lines fmt a i 0 nonzero = ret nonzero"
| "array_lines fmt a i (Suc n) nonzero =
     (if a i \<noteq> 0
      then exec (printf fmt [AInt (int i), AInt (uint (a i))]) (\<lambda>_. array_lines fmt a (Suc i) n True)
      else array_lines fmt a (Suc i) n nonzero)"

definition print_array :: "string \<Rightarrow> (nat \<Rightarrow> u64) \<Rightarrow> nat \<Rightarrow> ('k, unit) prog" where
  "print_array nm a n =
     exec (array_lines (''  '' @ nm @ ''[%d] : 0x%lx'') a 0 n False) (\<lambda>nonzero.
     if \<not> nonzero then printf (''  '' @ nm @ '' is all 0x0'') [] else ret ())"

definition print_rusage :: "('k, 'z) ihk_os_scheme \<Rightarrow> ihk_rusage \<Rightarrow> ('k, unit) prog" where
  "print_rusage K u =
     exec (printf ''show rusage:'' []) (\<lambda>_.
     exec (print_array ''memory_stat_rss'' (memory_stat_rss u) (max_num_pgsizes K)) (\<lambda>_.
     exec (print_array ''memory_stat_mapped_file'' (memory_stat_mapped_file u) (max_num_pgsizes K)) (\<lambda>_.
     exec (printf ''  memory_max_usage : 0x%lx'' [AInt (uint (memory_max_usage u))]) (\<lambda>_.
     exec (printf ''  memory_kmem_usage : 0x%lx'' [AInt (uint (memory_kmem_usage u))]) (\<lambda>_.
     exec (printf ''  memory_kmem_max_usage : 0x%lx'' [AInt (uint (memory_kmem_max_usage u))]) (\<lambda>_.
     exec (print_array ''memory_numa_stat'' (memory_numa_stat u) (max_num_numa_nodes K)) (\<lambda>_.
     exec (printf ''  cpuacct_stat_system : 0x%lx'' [AInt (uint (cpuacct_stat_system u))]) (\<lambda>_.
     exec (printf ''  cpuacct_stat_user : 0x%lx'' [AInt (uint (cpuacct_stat_user u))]) (\<lambda>_.
     exec (printf ''  cpuacct_usage : 0x%lx'' [AInt (uint (cpuacct_usage u))]) (\<lambda>_.
     exec (print_array ''cpuacct_usage_percpu'' (cpuacct_usage_percpu u) (max_num_cpus K)) (\<lambda>_.
     exec (printf ''  num_threads : 0x%x'' [AInt (num_threads u)]) (\<lambda>_.
     printf ''  max_num_threads : 0x%x'' [AInt (max_num_threads u)]))))))))))))"

definition ihk_os_getrusage :: "('k, 'z) ihk_os_scheme \<Rightarrow> int \<Rightarrow> ('k, int \<times> ihk_rusage) prog" where
  "ihk_os_getrusage K os_num s =
     (case ihk_getrusage K os_num (kern s) of
        (r, e, u, k) \<Rightarrow> (Val (r, u), after e k (Called (Lib ''ihk_os_getrusage'') [AInt os_num] r) s))"

definition get_rusage_main :: "('k, 'z) ihk_os_scheme \<Rightarrow> string list \<Rightarrow> ('k, int) prog" where
  "get_rusage_main K argv =
     (if length argv \<noteq> 2 then exec (rusage_usage (argv ! 0)) (\<lambda>_. ret (-1))
      else
        let os_num = atoi (argv ! 1) in
        if os_num < 0 \<or> 63 < os_num then
          exec (printf ''Invalid argument 1 os_num.'' []) (\<lambda>_. exec (rusage_usage (argv ! 0)) (\<lambda>_. ret (-1)))
        else
          exec (ihk_os_getrusage K os_num) (\<lambda>(r, u).
          if r \<noteq> 0 then exec (perror ''ihk_os_getrusage()'') (\<lambda>_. ret r)
          else exec (print_rusage K u) (\<lambda>_. ret r)))"

section \<open>Properties of freeze\_thaw\<close>

lemma uint_os_set:
  assumes "0 \<le> n" and "n \<le> 63"
  shows "uint (os_set n) = 2 ^ nat n"
proof -
  have "(2 :: int) ^ nat n < 2 ^ 64"
    using assms by (intro power_strict_increasing) auto
  then show ?thesis
    by (simp add: os_set_def unsigned_push_bit_eq take_bit_eq_mod del: push_bit_of_1) (simp add: push_bit_eq_mult)
qed

text \<open>
  C32. \<^verbatim>\<open>freeze_thaw\<close> with two arguments makes one call of the library when the first argument is a number from 0 to
  63 and the second is a command, and none otherwise. The set it passes has the bit of that kernel and no other, and the
  result of the call is the exit status.
\<close>

theorem freeze_thaw_main_mask:
  assumes "argv = [cmd, a, b]"
  shows "\<exists>x t evs. freeze_thaw_main K argv s = (Val x, t) \<and> trace t = trace s @ evs \<and>
    lib_calls evs = (if 0 \<le> atoi a \<and> atoi a \<le> 63 \<and> b \<in> {''freeze'', ''thaw''}
      then [Called (Lib (''ihk_os_'' @ b)) [AInt (2 ^ nat (atoi a)), AInt 1] x] else []) \<and>
    (\<not> (0 \<le> atoi a \<and> atoi a \<le> 63 \<and> b \<in> {''freeze'', ''thaw''}) \<longrightarrow> x = -1)"
proof -
  obtain r e k where f: "ihk_freeze K (os_set (atoi a)) (kern s) = (r, e, k)"
    by (rule prod_cases3)
  obtain r' e' k' where t: "ihk_thaw K (os_set (atoi a)) (kern s) = (r', e', k')"
    by (rule prod_cases3)
  show ?thesis
    using assms f t
    by (auto simp: freeze_thaw_main_def Let_def do_freeze_def do_thaw_def freeze_usage_def lib_call_def exec_def emit_def ret_def lib_calls_def uint_os_set)
qed

theorem freeze_thaw_main_mask_witness:
  "\<exists>x t evs. freeze_thaw_main ihk_ref [''freeze_thaw'', ''3'', ''freeze''] (fresh_process 0) = (Val x, t) \<and>
     lib_calls evs = [Called (Lib ''ihk_os_freeze'') [AInt 8, AInt 1] x]"
proof -
  have "atoi ''3'' = 3"
    by code_simp
  then show ?thesis
    using freeze_thaw_main_mask [of "[''freeze_thaw'', ''3'', ''freeze'']" "''freeze_thaw''" "''3''" "''freeze''" ihk_ref "fresh_process 0"]
    by fastforce
qed

section \<open>Properties of get\_rusage\<close>

text \<open>
  Reading the output back: entry \<open>i\<close> of an array is the value on the line for \<open>i\<close>, or 0 when there is no
  such line; a scalar is the value on its line.
\<close>

fun line_value :: "string \<Rightarrow> arg list \<Rightarrow> event \<Rightarrow> int option" where
  "line_value fmt key (Printed f args) = (if f = fmt \<and> butlast args = key then (case last args of AInt v \<Rightarrow> Some v | _ \<Rightarrow> None) else None)"
| "line_value fmt key (Called nm args r) = None"

definition read_line :: "event list \<Rightarrow> string \<Rightarrow> arg list \<Rightarrow> int" where
  "read_line evs fmt key = (case List.map_filter (line_value fmt key) evs of [] \<Rightarrow> 0 | v # _ \<Rightarrow> v)"

definition read_array :: "event list \<Rightarrow> string \<Rightarrow> nat \<Rightarrow> u64" where
  "read_array evs nm i = word_of_int (read_line evs (''  '' @ nm @ ''[%d] : 0x%lx'') [AInt (int i)])"

definition read_field :: "event list \<Rightarrow> string \<Rightarrow> u64" where
  "read_field evs nm = word_of_int (read_line evs (''  '' @ nm @ '' : 0x%lx'') [])"

definition read_rusage :: "event list \<Rightarrow> ihk_rusage" where
  "read_rusage evs = \<lparr>
     memory_stat_rss = read_array evs ''memory_stat_rss'', memory_stat_mapped_file = read_array evs ''memory_stat_mapped_file'',
     memory_max_usage = read_field evs ''memory_max_usage'', memory_kmem_usage = read_field evs ''memory_kmem_usage'',
     memory_kmem_max_usage = read_field evs ''memory_kmem_max_usage'', memory_numa_stat = read_array evs ''memory_numa_stat'',
     cpuacct_stat_system = read_field evs ''cpuacct_stat_system'', cpuacct_stat_user = read_field evs ''cpuacct_stat_user'',
     cpuacct_usage = read_field evs ''cpuacct_usage'', cpuacct_usage_percpu = read_array evs ''cpuacct_usage_percpu'',
     num_threads = read_line evs ''  num_threads : 0x%x'' [], max_num_threads = read_line evs ''  max_num_threads : 0x%x'' []\<rparr>"

text \<open>The lines of an array.\<close>

definition entry_events :: "string \<Rightarrow> (nat \<Rightarrow> u64) \<Rightarrow> nat \<Rightarrow> nat \<Rightarrow> event list" where
  "entry_events fmt a i n = map (\<lambda>j. Printed fmt [AInt (int j), AInt (uint (a j))]) (filter (\<lambda>j. a j \<noteq> 0) [i..<i + n])"

definition array_events :: "string \<Rightarrow> (nat \<Rightarrow> u64) \<Rightarrow> nat \<Rightarrow> event list" where
  "array_events nm a n = entry_events (''  '' @ nm @ ''[%d] : 0x%lx'') a 0 n @
     (if \<forall>j < n. a j = 0 then [Printed (''  '' @ nm @ '' is all 0x0'') []] else [])"

lemma array_lines_run:
  "array_lines fmt a i n b s = (Val (b \<or> (\<exists>j \<in> {i..<i + n}. a j \<noteq> 0)), logged (entry_events fmt a i n) s)"
proof (induction n arbitrary: i b s)
  case (Suc n)
  have "{i..<i + Suc n} = insert i {Suc i..<Suc i + n}" "[i..<i + Suc n] = i # [Suc i..<Suc i + n]"
    by (auto simp: upt_conv_Cons)
  then show ?case
    by (simp add: Suc.IH entry_events_def exec_def emit_def del: upt_Suc)
qed (simp add: ret_def entry_events_def)

lemma print_array_run: "print_array nm a n s = (Val (), logged (array_events nm a n) s)"
  by (auto simp: print_array_def array_events_def array_lines_run exec_def emit_def ret_def)

lemma read_line_append:
  "read_line (xs @ ys) fmt key = (if List.map_filter (line_value fmt key) xs = [] then read_line ys fmt key else read_line xs fmt key)"
  by (cases "List.map_filter (line_value fmt key) xs") (simp_all add: read_line_def map_filter_def)

lemma other_lines [simp]:
  "fmt \<noteq> ''  '' @ nm @ ''[%d] : 0x%lx'' \<Longrightarrow> fmt \<noteq> ''  '' @ nm @ '' is all 0x0'' \<Longrightarrow> List.map_filter (line_value fmt key) (array_events nm a n) = []"
  by (auto simp: array_events_def entry_events_def List.map_filter_def filter_empty_conv)

lemma own_line:
  assumes "i < n"
  shows "List.map_filter (line_value (''  '' @ nm @ ''[%d] : 0x%lx'') [AInt (int i)]) (array_events nm a n) = (if a i \<noteq> 0 then [uint (a i)] else [])"
proof -
  have "List.map_filter (line_value fmt [AInt (int i)]) (map (\<lambda>j. Printed fmt [AInt (int j), AInt (uint (a j))]) js) =
      map (\<lambda>j. uint (a j)) (filter (\<lambda>j. j = i) js)" for fmt js
    by (induction js) (auto simp: List.map_filter_def)
  moreover have "filter (\<lambda>j. j = i) (filter (\<lambda>j. a j \<noteq> 0) [0..<n]) = (if a i \<noteq> 0 then [i] else [])"
  proof -
    have "filter (\<lambda>j. j = i) [0..<n] = [i]"
      using assms by (induction n) (auto simp: less_Suc_eq)
    then have "filter (\<lambda>j. a j \<noteq> 0) (filter (\<lambda>j. j = i) [0..<n]) = (if a i \<noteq> 0 then [i] else [])"
      by simp
    then show ?thesis
      by (simp add: conj_commute)
  qed
  ultimately show ?thesis
    by (auto simp: array_events_def entry_events_def List.map_filter_def)
qed

lemma read_line_Cons: "read_line (e # es) fmt key = (case line_value fmt key e of None \<Rightarrow> read_line es fmt key | Some v \<Rightarrow> v)"
  by (simp add: read_line_def map_filter_simps split: option.splits)

lemma map_filter_append: "List.map_filter f (xs @ ys) = List.map_filter f xs @ List.map_filter f ys"
  by (simp add: List.map_filter_def)

lemmas line_simps = map_filter_append map_filter_simps read_line_append read_line_Cons

text \<open>Everything a successful run prints.\<close>

definition rusage_events :: "('k, 'z) ihk_os_scheme \<Rightarrow> ihk_rusage \<Rightarrow> event list" where
  "rusage_events K u =
     [Printed ''show rusage:'' []] @ array_events ''memory_stat_rss'' (memory_stat_rss u) (max_num_pgsizes K) @
     array_events ''memory_stat_mapped_file'' (memory_stat_mapped_file u) (max_num_pgsizes K) @
     [Printed ''  memory_max_usage : 0x%lx'' [AInt (uint (memory_max_usage u))],
      Printed ''  memory_kmem_usage : 0x%lx'' [AInt (uint (memory_kmem_usage u))],
      Printed ''  memory_kmem_max_usage : 0x%lx'' [AInt (uint (memory_kmem_max_usage u))]] @
     array_events ''memory_numa_stat'' (memory_numa_stat u) (max_num_numa_nodes K) @
     [Printed ''  cpuacct_stat_system : 0x%lx'' [AInt (uint (cpuacct_stat_system u))],
      Printed ''  cpuacct_stat_user : 0x%lx'' [AInt (uint (cpuacct_stat_user u))],
      Printed ''  cpuacct_usage : 0x%lx'' [AInt (uint (cpuacct_usage u))]] @
     array_events ''cpuacct_usage_percpu'' (cpuacct_usage_percpu u) (max_num_cpus K) @
     [Printed ''  num_threads : 0x%x'' [AInt (num_threads u)], Printed ''  max_num_threads : 0x%x'' [AInt (max_num_threads u)]]"

lemma print_rusage_run: "print_rusage K u s = (Val (), logged (rusage_events K u) s)"
  by (simp add: print_rusage_def rusage_events_def print_array_run exec_def emit_def)

lemma read_rusage_arrays:
  shows "i < max_num_pgsizes K \<Longrightarrow> read_array (rusage_events K u) ''memory_stat_rss'' i = memory_stat_rss u i"
    and "i < max_num_pgsizes K \<Longrightarrow> read_array (rusage_events K u) ''memory_stat_mapped_file'' i = memory_stat_mapped_file u i"
    and "i < max_num_numa_nodes K \<Longrightarrow> read_array (rusage_events K u) ''memory_numa_stat'' i = memory_numa_stat u i"
    and "i < max_num_cpus K \<Longrightarrow> read_array (rusage_events K u) ''cpuacct_usage_percpu'' i = cpuacct_usage_percpu u i"
  using own_line [of i "max_num_pgsizes K" "''memory_stat_rss''" "memory_stat_rss u"]
    own_line [of i "max_num_pgsizes K" "''memory_stat_mapped_file''" "memory_stat_mapped_file u"]
    own_line [of i "max_num_numa_nodes K" "''memory_numa_stat''" "memory_numa_stat u"]
    own_line [of i "max_num_cpus K" "''cpuacct_usage_percpu''" "cpuacct_usage_percpu u"]
  by (simp_all add: rusage_events_def read_array_def line_simps) (simp_all add: read_line_def split: list.splits)

lemma read_rusage_fields:
  "read_field (rusage_events K u) ''memory_max_usage'' = memory_max_usage u"
  "read_field (rusage_events K u) ''memory_kmem_usage'' = memory_kmem_usage u"
  "read_field (rusage_events K u) ''memory_kmem_max_usage'' = memory_kmem_max_usage u"
  "read_field (rusage_events K u) ''cpuacct_stat_system'' = cpuacct_stat_system u"
  "read_field (rusage_events K u) ''cpuacct_stat_user'' = cpuacct_stat_user u"
  "read_field (rusage_events K u) ''cpuacct_usage'' = cpuacct_usage u"
  "read_line (rusage_events K u) ''  num_threads : 0x%x'' [] = num_threads u"
  "read_line (rusage_events K u) ''  max_num_threads : 0x%x'' [] = max_num_threads u"
  by (simp_all add: rusage_events_def read_field_def line_simps)

text \<open>
  C33. The output of \<^verbatim>\<open>get_rusage\<close> determines the record: when the library returns 0, reading the printed lines back gives
  every scalar field and every array entry the library filled in, the entries that are left out because they are zero
  included.
\<close>

theorem get_rusage_roundtrip:
  assumes "argv = [cmd, a]" and "0 \<le> atoi a" and "atoi a \<le> 63" and "ihk_getrusage K (atoi a) (kern s) = (0, e, u, k)"
  shows "\<exists>t evs. get_rusage_main K argv s = (Val 0, t) \<and> trace t = trace s @ evs \<and>
    (\<forall>i < max_num_pgsizes K. memory_stat_rss (read_rusage evs) i = memory_stat_rss u i \<and>
       memory_stat_mapped_file (read_rusage evs) i = memory_stat_mapped_file u i) \<and>
    (\<forall>i < max_num_numa_nodes K. memory_numa_stat (read_rusage evs) i = memory_numa_stat u i) \<and>
    (\<forall>i < max_num_cpus K. cpuacct_usage_percpu (read_rusage evs) i = cpuacct_usage_percpu u i) \<and>
    read_rusage evs = u\<lparr>memory_stat_rss := memory_stat_rss (read_rusage evs), memory_stat_mapped_file := memory_stat_mapped_file (read_rusage evs),
      memory_numa_stat := memory_numa_stat (read_rusage evs), cpuacct_usage_percpu := cpuacct_usage_percpu (read_rusage evs)\<rparr>"
proof -
  define evs where "evs = Called (Lib ''ihk_os_getrusage'') [AInt (atoi a)] 0 # rusage_events K u"
  have run: "get_rusage_main K argv s = (Val 0, logged (rusage_events K u) (after e k (Called (Lib ''ihk_os_getrusage'') [AInt (atoi a)] 0) s))"
    using assms by (simp add: get_rusage_main_def Let_def ihk_os_getrusage_def print_rusage_run exec_def ret_def)
  have "read_rusage evs = read_rusage (rusage_events K u)"
    by (simp add: read_rusage_def read_array_def read_field_def read_line_Cons evs_def fun_eq_iff)
  with run show ?thesis
    by (intro exI [of _ "logged (rusage_events K u) (after e k (Called (Lib ''ihk_os_getrusage'') [AInt (atoi a)] 0) s)"] exI [of _ evs])
      (simp add: evs_def read_rusage_def read_rusage_arrays read_rusage_fields)
qed

theorem get_rusage_roundtrip_witness:
  "\<exists>t evs. get_rusage_main ihk_ref [''get_rusage'', ''0''] (fresh_process 0) = (Val 0, t) \<and> trace t = evs \<and> cpuacct_usage_percpu (read_rusage evs) 3 = 8"
proof -
  have "atoi ''0'' = 0"
    by code_simp
  moreover obtain u where "ihk_getrusage ihk_ref 0 0 = (0, 0, u, 0)" "cpuacct_usage_percpu u 3 = 8"
    by (simp add: ihk_ref_def ihk_os.defs file_os.defs failing_os_def)
  ultimately show ?thesis
    using get_rusage_roundtrip [of "[''get_rusage'', ''0'']" "''get_rusage''" "''0''" ihk_ref "fresh_process 0" 0 u 0]
    by (fastforce simp: fresh_process_def)
qed

end
