(* ===== verification/Test_Drv.thy ===== *)
theory Test_Drv
  imports Framework Vm
begin

text \<open>
  The kernel module \<^verbatim>\<open>test_drv\<close>: loading and unloading it (\<^verbatim>\<open>test_mck_drv.c\<close>), its files below
  \<^verbatim>\<open>/proc/test_mck\<close>, and the three character devices of \<^verbatim>\<open>test_suite.list\<close>. The static variables of the module
  are the record \<open>drv\<close>, which also holds the kernel memory the driver fills and, in its last field, the state of the rest
  of the kernel. The functions the module calls are the parameters \<open>drv_os\<close>; they appear in the trace
  by name. The lemmas account for the resources the module acquires and releases, bound the reads of its files
  and the pages its fault handlers give out.
\<close>

unbundle bit_operations_syntax

section \<open>The static data of the module\<close>

datatype drv_suite = Mmap_dev | Mmap_dev2 | Writecombine

definition test_suite_list :: "drv_suite list" where
  "test_suite_list = [Mmap_dev, Mmap_dev2, Writecombine]"

fun ts_name :: "drv_suite \<Rightarrow> string" where
  "ts_name Mmap_dev = ''mmap_dev''"
| "ts_name Mmap_dev2 = ''mmap_dev2''"
| "ts_name Writecombine = ''writecombine''"

definition test_mck_nr_devs :: nat where
  "test_mck_nr_devs = length test_suite_list"

definition test_mck_tp_names :: string where
  "test_mck_tp_names = concat (map (\<lambda>n. ts_name n @ '' '') test_suite_list)"

text \<open>
  A device: its suite stands for the name, the operations and the init and fin functions the list gives it. The
  class pointer is kept as whether it is set, and \<^verbatim>\<open>cdev\<close> as whether \<^verbatim>\<open>cdev_init\<close> has filled it.
\<close>

record test_mck_dev =
  suite :: drv_suite
  private_data :: u64
  devno :: u32
  cdev :: bool
  dev_class :: bool

record 'k drv =
  test_mck_major :: int
  test_mck_minor :: int
  test_mck_majmin :: string
  ident :: "string option"
  test_mck_devlist :: "test_mck_dev list"
  test_mck_procdir :: bool
  proc_pents :: "bool list"
  kmem :: "u64 \<Rightarrow> byte"
  rest :: 'k

definition MAJMIN_SIZE :: nat where
  "MAJMIN_SIZE = test_mck_nr_devs * 8 + 1"

definition NUL :: char where
  "NUL = CHR 0x00"

definition proc_fnames :: "string list" where
  "proc_fnames = [''devno'', ''tp_names'']"

definition TEST_MCK_PROCFS_DIRNAME :: string where
  "TEST_MCK_PROCFS_DIRNAME = ''test_mck''"

definition TEST_MCK_DEVNAME :: string where
  "TEST_MCK_DEVNAME = ''test_mck''"

text \<open>The module before it is initialised: static variables are zero.\<close>

definition module_image :: "string option \<Rightarrow> (u64 \<Rightarrow> byte) \<Rightarrow> 'k \<Rightarrow> 'k drv" where
  "module_image idt km k = \<lparr>
     test_mck_major = 0, test_mck_minor = 0, test_mck_majmin = replicate MAJMIN_SIZE NUL, ident = idt,
     test_mck_devlist = map (\<lambda>n. \<lparr>suite = n, private_data = 0, devno = 0, cdev = False, dev_class = False\<rparr>) test_suite_list,
     test_mck_procdir = False, proc_pents = map (\<lambda>_. False) proc_fnames, kmem = km, rest = k\<rparr>"

definition MKDEV :: "int \<Rightarrow> int \<Rightarrow> u32" where
  "MKDEV ma mi = push_bit 20 (of_int ma) OR of_int mi"

section \<open>The functions of the kernel\<close>

record 'k drv_os =
  k_alloc_chrdev_region :: "int \<Rightarrow> nat \<Rightarrow> string \<Rightarrow> 'k \<Rightarrow> (int \<times> int) \<times> 'k"
  k_class_create :: "string \<Rightarrow> 'k \<Rightarrow> bool \<times> 'k"
  k_cdev_add :: "string \<Rightarrow> u32 \<Rightarrow> 'k \<Rightarrow> int \<times> 'k"
  k_vmalloc_user :: "u64 \<Rightarrow> 'k \<Rightarrow> u64 \<times> 'k"
  k_proc_mkdir :: "string \<Rightarrow> 'k \<Rightarrow> bool \<times> 'k"
  k_proc_create_data :: "string \<Rightarrow> 'k \<Rightarrow> bool \<times> 'k"
  k_remap_pfn_range :: "u64 \<Rightarrow> u64 \<Rightarrow> u64 \<Rightarrow> 'k \<Rightarrow> int \<times> 'k"
  k_copy_to_user :: "u64 \<Rightarrow> string \<Rightarrow> 'k \<Rightarrow> u64 \<times> 'k"
  k_void :: "string \<Rightarrow> arg list \<Rightarrow> 'k \<Rightarrow> 'k"

definition kcall :: "string \<Rightarrow> arg list \<Rightarrow> ('a \<Rightarrow> int) \<Rightarrow> ('k \<Rightarrow> 'a \<times> 'k) \<Rightarrow> ('k drv, 'a) prog" where
  "kcall nm args enc f s =
     (case f (rest (kern s)) of
        (v, k) \<Rightarrow> (Val v, after (errno s) ((kern s)\<lparr>rest := k\<rparr>) (Called (Lib nm) args (enc v)) s))"

text \<open>A function whose result the driver does not use.\<close>

definition kvoid :: "'k drv_os \<Rightarrow> string \<Rightarrow> arg list \<Rightarrow> ('k drv, unit) prog" where
  "kvoid K nm args = kcall nm args (\<lambda>_. 0) (\<lambda>k. ((), k_void K nm args k))"

definition get_drv :: "('k drv \<Rightarrow> 'a) \<Rightarrow> ('k drv, 'a) prog" where
  "get_drv f s = (Val (f (kern s)), s)"

definition upd_drv :: "('k drv \<Rightarrow> 'k drv) \<Rightarrow> ('k drv, unit) prog" where
  "upd_drv f s = (Val (), s\<lparr>kern := f (kern s)\<rparr>)"

definition test_mck_ident :: "('k drv, string) prog" where
  "test_mck_ident = get_drv (\<lambda>d. case ident d of None \<Rightarrow> '''' | Some x \<Rightarrow> x)"

definition mck_printk :: "string \<Rightarrow> string \<Rightarrow> arg list \<Rightarrow> ('k drv, unit) prog" where
  "mck_printk tsn fmt args =
     exec test_mck_ident (\<lambda>x. printf (''%s::%s(%s):'' @ fmt) (AStr TEST_MCK_DEVNAME # AStr tsn # AStr x # args))"

definition get_dev :: "nat \<Rightarrow> ('k drv, test_mck_dev) prog" where
  "get_dev i = get_drv (\<lambda>d. test_mck_devlist d ! i)"

definition upd_dev :: "nat \<Rightarrow> (test_mck_dev \<Rightarrow> test_mck_dev) \<Rightarrow> ('k drv, unit) prog" where
  "upd_dev i f = upd_drv (\<lambda>d. d\<lparr>test_mck_devlist := (test_mck_devlist d)[i := f (test_mck_devlist d ! i)]\<rparr>)"

definition kmemset :: "u64 \<Rightarrow> int \<Rightarrow> u64 \<Rightarrow> (u64 \<Rightarrow> byte) \<Rightarrow> u64 \<Rightarrow> byte" where
  "kmemset a v len km x = (if x - a < len then of_int v else km x)"

section \<open>The device mmap\_dev\<close>

text \<open>
  An open file has the device its open function stored, a mapping its range, its page offset, the
  device its mmap function stored, and the operations it got.
\<close>

record drv_file =
  f_private :: "nat option"

record drv_vma =
  vm_start :: u64
  vm_end :: u64
  vm_pgoff :: u64
  vm_private :: "nat option"
  vm_ops :: "drv_suite option"
  vm_writecombine :: bool

definition test_mck_mmap_dev_vma_open :: "('k drv, unit) prog" where
  "test_mck_mmap_dev_vma_open = mck_printk ''mmap_dev'' ''call vm_open function.'' []"

definition test_mck_mmap_dev_vma_close :: "('k drv, unit) prog" where
  "test_mck_mmap_dev_vma_close = mck_printk ''mmap_dev'' ''call vm_close function.'' []"

definition test_mck_mmap_dev_open :: "nat \<Rightarrow> drv_file \<Rightarrow> ('k drv, int \<times> drv_file) prog" where
  "test_mck_mmap_dev_open i file = exec (mck_printk ''mmap_dev'' ''call open function.'' []) (\<lambda>_. ret (0, file))"

definition test_mck_mmap_dev_release :: "('k drv, int) prog" where
  "test_mck_mmap_dev_release = exec (mck_printk ''mmap_dev'' ''call release function.'' []) (\<lambda>_. ret 0)"

definition test_mck_mmap_dev_mmap :: "'k drv_os \<Rightarrow> drv_file \<Rightarrow> drv_vma \<Rightarrow> ('k drv, int \<times> drv_vma) prog" where
  "test_mck_mmap_dev_mmap K file vma =
     exec (mck_printk ''mmap_dev'' ''call mmap function.(vm_start=%lx, vm_end=%lx, vm_pgoff==%lx)''
       [AInt (uint (vm_start vma)), AInt (uint (vm_end vma)), AInt (uint (vm_pgoff vma))]) (\<lambda>_.
     exec (kcall ''remap_pfn_range'' [AInt (uint (vm_start vma)), AInt (uint (vm_pgoff vma)), AInt (uint (vm_end vma - vm_start vma))]
       (\<lambda>r. r) (k_remap_pfn_range K (vm_start vma) (vm_pgoff vma) (vm_end vma - vm_start vma))) (\<lambda>res.
     exec (if res \<noteq> 0 then ret vma
           else exec test_mck_mmap_dev_vma_open (\<lambda>_. ret (vma\<lparr>vm_ops := Some Mmap_dev\<rparr>))) (\<lambda>vma'.
     exec (mck_printk ''mmap_dev'' ''return mmap function(%d).'' [AInt res]) (\<lambda>_.
     ret (0, vma')))))"

definition test_mck_mmap_dev_ioctl :: "u32 \<Rightarrow> u64 \<Rightarrow> ('k drv, int) prog" where
  "test_mck_mmap_dev_ioctl iocmd ioarg =
     exec (mck_printk ''mmap_dev'' ''call ioctl function(cmd:%u arg:%lu).'' [AInt (uint iocmd), AInt (uint ioarg)]) (\<lambda>_. ret 0)"

definition test_mck_mmap_dev_init :: "nat \<Rightarrow> ('k drv, int) prog" where
  "test_mck_mmap_dev_init i = ret 0"

definition test_mck_mmap_dev_fin :: "nat \<Rightarrow> ('k drv, unit) prog" where
  "test_mck_mmap_dev_fin i = ret ()"

section \<open>The device mmap\_dev2\<close>

text \<open>An entry of a page table has 8 bytes on both architectures.\<close>

definition test_mck_mmap_dev2_block_size :: "page_config \<Rightarrow> u64" where
  "test_mck_mmap_dev2_block_size cfg = (PAGE_SIZE cfg div 8) * PAGE_SIZE cfg"

definition test_mck_mmap_dev2_buf_size :: "page_config \<Rightarrow> u64" where
  "test_mck_mmap_dev2_buf_size cfg = test_mck_mmap_dev2_block_size cfg + PAGE_SIZE cfg"

definition test_mck_mmap_dev2_vma_open :: "('k drv, unit) prog" where
  "test_mck_mmap_dev2_vma_open = mck_printk ''mmap_dev2'' ''call vm_open function.'' []"

definition test_mck_mmap_dev2_vma_close :: "('k drv, unit) prog" where
  "test_mck_mmap_dev2_vma_close = mck_printk ''mmap_dev2'' ''call vm_close function.'' []"

text \<open>The page a fault is served with, by the kernel address the driver looks up.\<close>

definition dev2_page :: "page_config \<Rightarrow> u64 \<Rightarrow> u64 \<Rightarrow> int + u64" where
  "dev2_page cfg buf pgoff =
     (if buf = 0 then Inl (- ENOMEM)
      else if test_mck_mmap_dev2_buf_size cfg \<le> push_bit (PAGE_SHIFT cfg) pgoff then Inl (- EFAULT)
      else Inr (buf + push_bit (PAGE_SHIFT cfg) pgoff))"

definition page_dev :: "drv_vma \<Rightarrow> ('k drv, test_mck_dev) prog" where
  "page_dev vma = (case vm_private vma of None \<Rightarrow> stop (Undefined ''NULL pointer'') | Some i \<Rightarrow> get_dev i)"

definition test_mck_mmap_dev2_vma_fault :: "'k drv_os \<Rightarrow> page_config \<Rightarrow> drv_vma \<Rightarrow> u64 \<Rightarrow> ('k drv, int \<times> u64 option) prog" where
  "test_mck_mmap_dev2_vma_fault K cfg vma pgoff =
     exec (mck_printk ''mmap_dev2'' ''call vm_fault function.'' []) (\<lambda>_.
     exec (page_dev vma) (\<lambda>dev.
     case dev2_page cfg (private_data dev) pgoff of
       Inl e \<Rightarrow>
         exec (mck_printk ''mmap_dev2'' (if private_data dev = 0 then ''buffer is NULL.'' else ''invalid page offset.'') []) (\<lambda>_.
         ret (e, None))
     | Inr a \<Rightarrow> exec (kvoid K ''get_page'' [AInt (uint a)]) (\<lambda>_. ret (0, Some a))))"

definition test_mck_mmap_dev2_open :: "nat \<Rightarrow> drv_file \<Rightarrow> ('k drv, int \<times> drv_file) prog" where
  "test_mck_mmap_dev2_open i file =
     exec (mck_printk ''mmap_dev2'' ''call open function.'' []) (\<lambda>_. ret (0, file\<lparr>f_private := Some i\<rparr>))"

definition test_mck_mmap_dev2_release :: "('k drv, int) prog" where
  "test_mck_mmap_dev2_release = exec (mck_printk ''mmap_dev2'' ''call release function.'' []) (\<lambda>_. ret 0)"

definition test_mck_mmap_dev2_mmap :: "drv_file \<Rightarrow> drv_vma \<Rightarrow> ('k drv, int \<times> drv_vma) prog" where
  "test_mck_mmap_dev2_mmap file vma =
     exec (mck_printk ''mmap_dev2'' ''call mmap function.(vm_start=%lx, vm_end=%lx, vm_pgoff==%lx)''
       [AInt (uint (vm_start vma)), AInt (uint (vm_end vma)), AInt (uint (vm_pgoff vma))]) (\<lambda>_.
     exec test_mck_mmap_dev2_vma_open (\<lambda>_.
     exec (mck_printk ''mmap_dev2'' ''return mmap function(%d).'' [AInt 0]) (\<lambda>_.
     ret (0, vma\<lparr>vm_private := f_private file, vm_ops := Some Mmap_dev2\<rparr>))))"

lemma buf_size_word: "test_mck_mmap_dev2_buf_size cfg = (if cfg = Pages4K then 0x201000 else 0x20010000)"
  by (cases cfg; simp add: test_mck_mmap_dev2_buf_size_def test_mck_mmap_dev2_block_size_def PAGE_SIZE_def push_bit_eq_mult; code_simp)

lemma page_size_word: "PAGE_SIZE cfg = (if cfg = Pages4K then 0x1000 else 0x10000)"
  by (cases cfg; simp add: PAGE_SIZE_def push_bit_eq_mult)

lemma unat_buf_size: "unat (test_mck_mmap_dev2_buf_size cfg) = (2 ^ PAGE_SHIFT cfg div 8 + 1) * 2 ^ PAGE_SHIFT cfg"
  by (cases cfg; simp add: buf_size_word)

lemma unat_page_size: "unat (PAGE_SIZE cfg) = 2 ^ PAGE_SHIFT cfg"
  by (rule small_page.unat_psize)

text \<open>The loop of the reset: \<open>off\<close> and \<open>val\<close> are its variables.\<close>

lemma reset_step:
  assumes "off < test_mck_mmap_dev2_buf_size cfg"
  shows "unat (off + PAGE_SIZE cfg) = unat off + 2 ^ PAGE_SHIFT cfg"
proof -
  have "unat off < unat (test_mck_mmap_dev2_buf_size cfg)" using assms by (simp add: word_less_nat_alt)
  then have "unat off + unat (PAGE_SIZE cfg) < 2 ^ 64"
    unfolding unat_buf_size unat_page_size by (cases cfg; simp)
  then have "unat (off + PAGE_SIZE cfg) = unat off + unat (PAGE_SIZE cfg)"
    by (simp add: unat_word_ariths)
  then show ?thesis by (simp only: unat_page_size)
qed

function reset_loop :: "page_config \<Rightarrow> u64 \<Rightarrow> u64 \<Rightarrow> int \<Rightarrow> (u64 \<Rightarrow> byte) \<Rightarrow> u64 \<Rightarrow> byte" where
  "reset_loop cfg start off val km =
     (if off < test_mck_mmap_dev2_buf_size cfg then
        let len = (if off + PAGE_SIZE cfg < test_mck_mmap_dev2_buf_size cfg then PAGE_SIZE cfg
                   else test_mck_mmap_dev2_buf_size cfg - off)
        in reset_loop cfg start (off + PAGE_SIZE cfg) (val + 1) (kmemset (start + off) val len km)
      else km)"
  by pat_completeness auto
termination
proof (relation "measure (\<lambda>(cfg, start, off, val, km). unat (test_mck_mmap_dev2_buf_size cfg) - unat off)")
  fix cfg :: page_config and off start :: u64 and val :: int and km :: "u64 \<Rightarrow> byte" and x :: u64
  assume "off < test_mck_mmap_dev2_buf_size cfg"
  then have "unat off < unat (test_mck_mmap_dev2_buf_size cfg)"
    and "unat off < unat (off + PAGE_SIZE cfg)"
    using reset_step [of off cfg] by (simp_all add: word_less_nat_alt)
  then show "((cfg, start, off + PAGE_SIZE cfg, val + 1, kmemset (start + off) val x km), cfg, start, off, val, km)
      \<in> measure (\<lambda>(cfg, start, off, val, km). unat (test_mck_mmap_dev2_buf_size cfg) - unat off)"
    by simp
qed simp

declare reset_loop.simps [simp del]

definition test_mck_mmap_dev2_buffer_reset :: "page_config \<Rightarrow> nat \<Rightarrow> ('k drv, unit) prog" where
  "test_mck_mmap_dev2_buffer_reset cfg i =
     exec (get_dev i) (\<lambda>dev. upd_drv (\<lambda>d. d\<lparr>kmem := reset_loop cfg (private_data dev) 0 1 (kmem d)\<rparr>))"

text \<open>\<^verbatim>\<open>_IO('M', 0)\<close>: the type in bits 8 to 15, the number in bits 0 to 7.\<close>

definition TEST_MCK_MMAP_DEV2_BUF_RESET :: u32 where
  "TEST_MCK_MMAP_DEV2_BUF_RESET = push_bit 8 (of_nat (of_char CHR ''M'')) OR 0"

definition test_mck_mmap_dev2_ioctl :: "page_config \<Rightarrow> drv_file \<Rightarrow> u32 \<Rightarrow> u64 \<Rightarrow> ('k drv, int) prog" where
  "test_mck_mmap_dev2_ioctl cfg file iocmd ioarg =
     exec (mck_printk ''mmap_dev2'' ''call ioctl function(cmd:%u arg:%lu).'' [AInt (uint iocmd), AInt (uint ioarg)]) (\<lambda>_.
     exec (if iocmd = TEST_MCK_MMAP_DEV2_BUF_RESET then
             (case f_private file of
                None \<Rightarrow> stop (Undefined ''NULL pointer'')
              | Some i \<Rightarrow> test_mck_mmap_dev2_buffer_reset cfg i)
           else ret ()) (\<lambda>_. ret 0))"

definition test_mck_mmap_dev2_init :: "'k drv_os \<Rightarrow> page_config \<Rightarrow> nat \<Rightarrow> ('k drv, int) prog" where
  "test_mck_mmap_dev2_init K cfg i =
     exec (kcall ''vmalloc_user'' [AInt (uint (test_mck_mmap_dev2_buf_size cfg))] uint
       (k_vmalloc_user K (test_mck_mmap_dev2_buf_size cfg))) (\<lambda>p.
     exec (upd_dev i (\<lambda>dev. dev\<lparr>private_data := p\<rparr>)) (\<lambda>_.
     exec (mck_printk ''mmap_dev2'' ''dev(%p) buffer(%p).'' [AInt (int i), AInt (uint p)]) (\<lambda>_.
     if p = 0 then ret (- ENOMEM)
     else exec (test_mck_mmap_dev2_buffer_reset cfg i) (\<lambda>_. ret 0))))"

definition test_mck_mmap_dev2_fin :: "'k drv_os \<Rightarrow> nat \<Rightarrow> ('k drv, unit) prog" where
  "test_mck_mmap_dev2_fin K i =
     exec (get_dev i) (\<lambda>dev.
     if private_data dev \<noteq> 0 then
       exec (kvoid K ''vfree'' [AInt (uint (private_data dev))]) (\<lambda>_. upd_dev i (\<lambda>dev. dev\<lparr>private_data := 0\<rparr>))
     else ret ())"

section \<open>The device writecombine\<close>

definition writecombine_page :: "page_config \<Rightarrow> u64 \<Rightarrow> u64 \<Rightarrow> int + u64" where
  "writecombine_page cfg buf pgoff =
     (if buf = 0 then Inl (- ENOMEM) else Inr (buf + push_bit (PAGE_SHIFT cfg) pgoff))"

definition test_mck_writecombine_vma_fault :: "'k drv_os \<Rightarrow> page_config \<Rightarrow> drv_vma \<Rightarrow> u64 \<Rightarrow> ('k drv, int \<times> u64 option) prog" where
  "test_mck_writecombine_vma_fault K cfg vma pgoff =
     exec (page_dev vma) (\<lambda>dev.
     case writecombine_page cfg (private_data dev) pgoff of
       Inl e \<Rightarrow> ret (e, None)
     | Inr a \<Rightarrow> exec (kvoid K ''get_page'' [AInt (uint a)]) (\<lambda>_. ret (0, Some a)))"

definition test_mck_writecombine_release :: "('k drv, int) prog" where
  "test_mck_writecombine_release = ret 0"

definition test_mck_writecombine_mmap :: "drv_file \<Rightarrow> drv_vma \<Rightarrow> ('k drv, int \<times> drv_vma) prog" where
  "test_mck_writecombine_mmap file vma =
     ret (0, vma\<lparr>vm_private := f_private file, vm_ops := Some Writecombine, vm_writecombine := True\<rparr>)"

definition test_mck_writecombine_open :: "nat \<Rightarrow> drv_file \<Rightarrow> ('k drv, int \<times> drv_file) prog" where
  "test_mck_writecombine_open i file = ret (0, file\<lparr>f_private := Some i\<rparr>)"

definition test_mck_writecombine_init :: "'k drv_os \<Rightarrow> page_config \<Rightarrow> nat \<Rightarrow> ('k drv, int) prog" where
  "test_mck_writecombine_init K cfg i =
     exec (kcall ''vmalloc_user'' [AInt (uint (PAGE_SIZE cfg))] uint (k_vmalloc_user K (PAGE_SIZE cfg))) (\<lambda>p.
     exec (upd_dev i (\<lambda>dev. dev\<lparr>private_data := p\<rparr>)) (\<lambda>_.
     exec (mck_printk ''writecombine'' ''dev(%p) buffer(%p).'' [AInt (int i), AInt (uint p)]) (\<lambda>_.
     if p = 0 then ret (- ENOMEM)
     else exec (upd_drv (\<lambda>d. d\<lparr>kmem := kmemset p 0x80 (PAGE_SIZE cfg) (kmem d)\<rparr>)) (\<lambda>_. ret 0))))"

definition test_mck_writecombine_fin :: "'k drv_os \<Rightarrow> nat \<Rightarrow> ('k drv, unit) prog" where
  "test_mck_writecombine_fin K i =
     exec (get_dev i) (\<lambda>dev.
     if private_data dev \<noteq> 0 then
       exec (kvoid K ''vfree'' [AInt (uint (private_data dev))]) (\<lambda>_. upd_dev i (\<lambda>dev. dev\<lparr>private_data := 0\<rparr>))
     else ret ())"

section \<open>The device list\<close>

fun dev_init :: "'k drv_os \<Rightarrow> page_config \<Rightarrow> drv_suite \<Rightarrow> nat \<Rightarrow> ('k drv, int) prog" where
  "dev_init K cfg Mmap_dev i = test_mck_mmap_dev_init i"
| "dev_init K cfg Mmap_dev2 i = test_mck_mmap_dev2_init K cfg i"
| "dev_init K cfg Writecombine i = test_mck_writecombine_init K cfg i"

fun dev_fin :: "'k drv_os \<Rightarrow> drv_suite \<Rightarrow> nat \<Rightarrow> ('k drv, unit) prog" where
  "dev_fin K Mmap_dev i = test_mck_mmap_dev_fin i"
| "dev_fin K Mmap_dev2 i = test_mck_mmap_dev2_fin K i"
| "dev_fin K Writecombine i = test_mck_writecombine_fin K i"

section \<open>The files below /proc/test\_mck\<close>

text \<open>
  A read of a string at a position: the count the C code computes, in unsigned arithmetic, and the result, the bytes copied
  and the new position. A read that would run past the end of the string has no defined result.
\<close>

definition read_count :: "string \<Rightarrow> u64 \<Rightarrow> u64 \<Rightarrow> u64" where
  "read_count str nbytes ppos =
     (let len = of_nat (length str) in if ppos + nbytes > len then len - ppos else nbytes)"

definition test_mck_procfs_string_read :: "'k drv_os \<Rightarrow> u64 \<Rightarrow> u64 \<Rightarrow> string \<Rightarrow> ('k drv, int \<times> string \<times> u64) prog" where
  "test_mck_procfs_string_read K nbytes ppos str =
     (if ppos > of_nat (length str) then ret (0, [], ppos)
      else
        let count = read_count str nbytes ppos; from' = drop (unat ppos) str in
        if unat count > length from' then stop (Undefined ''read past the end of the string'')
        else
          exec (kcall ''copy_to_user'' [AInt (uint count)] uint (k_copy_to_user K count (take (unat count) from'))) (\<lambda>left.
          if left \<noteq> 0 then ret (- EFAULT, [], ppos)
          else ret (uint count, take (unat count) from', ppos + count)))"

text \<open>The string an open function of the two files stores, and the read function, which passes it on.\<close>

definition test_mck_procfs_devno_open :: "('k drv, string) prog" where
  "test_mck_procfs_devno_open = get_drv (\<lambda>d. takeWhile (\<lambda>c. c \<noteq> NUL) (test_mck_majmin d))"

definition test_mck_procfs_devno_read :: "'k drv_os \<Rightarrow> string \<Rightarrow> u64 \<Rightarrow> u64 \<Rightarrow> ('k drv, int \<times> string \<times> u64) prog" where
  "test_mck_procfs_devno_read K priv nbytes ppos = test_mck_procfs_string_read K nbytes ppos priv"

definition test_mck_procfs_tp_names_open :: "('k drv, string) prog" where
  "test_mck_procfs_tp_names_open = ret test_mck_tp_names"

definition test_mck_procfs_tp_names_read :: "'k drv_os \<Rightarrow> string \<Rightarrow> u64 \<Rightarrow> u64 \<Rightarrow> ('k drv, int \<times> string \<times> u64) prog" where
  "test_mck_procfs_tp_names_read K priv nbytes ppos = test_mck_procfs_string_read K nbytes ppos priv"

fun remove_entries :: "'k drv_os \<Rightarrow> nat \<Rightarrow> string list \<Rightarrow> ('k drv, unit) prog" where
  "remove_entries K i [] = ret ()"
| "remove_entries K i (fname # fs) =
     exec (get_drv (\<lambda>d. proc_pents d ! i)) (\<lambda>pent.
     exec (if pent then
             exec (kvoid K ''remove_proc_entry'' [AStr fname]) (\<lambda>_.
             upd_drv (\<lambda>d. d\<lparr>proc_pents := (proc_pents d)[i := False]\<rparr>))
           else ret ()) (\<lambda>_.
     remove_entries K (Suc i) fs))"

definition test_mck_cleanup_procfs :: "'k drv_os \<Rightarrow> ('k drv, unit) prog" where
  "test_mck_cleanup_procfs K =
     exec (remove_entries K 0 proc_fnames) (\<lambda>_.
     exec (kvoid K ''remove_proc_entry'' [AStr TEST_MCK_PROCFS_DIRNAME]) (\<lambda>_.
     upd_drv (\<lambda>d. d\<lparr>test_mck_procdir := False\<rparr>)))"

fun create_entries :: "'k drv_os \<Rightarrow> nat \<Rightarrow> string list \<Rightarrow> ('k drv, int) prog" where
  "create_entries K i [] = ret 0"
| "create_entries K i (fname # fs) =
     exec (kcall ''proc_create_data'' [AStr fname] of_bool (k_proc_create_data K fname)) (\<lambda>pent.
     exec (upd_drv (\<lambda>d. d\<lparr>proc_pents := (proc_pents d)[i := pent]\<rparr>)) (\<lambda>_.
     if \<not> pent then ret (- ENOMEM) else create_entries K (Suc i) fs))"

definition test_mck_init_procfs :: "'k drv_os \<Rightarrow> ('k drv, int) prog" where
  "test_mck_init_procfs K =
     exec (kcall ''proc_mkdir'' [AStr TEST_MCK_PROCFS_DIRNAME] of_bool (k_proc_mkdir K TEST_MCK_PROCFS_DIRNAME)) (\<lambda>dir.
     exec (upd_drv (\<lambda>d. d\<lparr>test_mck_procdir := dir\<rparr>)) (\<lambda>_.
     if \<not> dir then ret (- ENOMEM) else create_entries K 0 proc_fnames))"

section \<open>Loading and unloading\<close>

fun cleanup_devs :: "'k drv_os \<Rightarrow> nat list \<Rightarrow> ('k drv, unit) prog" where
  "cleanup_devs K [] = ret ()"
| "cleanup_devs K (i # is) =
     exec (get_dev i) (\<lambda>dev.
     exec (dev_fin K (suite dev) i) (\<lambda>_.
     exec (kvoid K ''cdev_del'' [AStr (ts_name (suite dev))]) (\<lambda>_.
     exec (kvoid K ''device_destroy'' [AStr (ts_name (suite dev)), AInt (of_bool (dev_class dev)), AInt (uint (devno dev))]) (\<lambda>_.
     exec (kvoid K ''class_destroy'' [AStr (ts_name (suite dev)), AInt (of_bool (dev_class dev))]) (\<lambda>_.
     cleanup_devs K is)))))"

definition test_mck_cleanup :: "'k drv_os \<Rightarrow> ('k drv, unit) prog" where
  "test_mck_cleanup K =
     exec (test_mck_cleanup_procfs K) (\<lambda>_.
     exec (cleanup_devs K [0..<test_mck_nr_devs]) (\<lambda>_.
     exec (get_drv (\<lambda>d. MKDEV (test_mck_major d) (test_mck_minor d))) (\<lambda>dno.
     kvoid K ''unregister_chrdev_region'' [AInt (uint dno), AInt (int test_mck_nr_devs)])))"

text \<open>
  \<^verbatim>\<open>snprintf\<close> into the array at an offset: the text is cut to the size, a terminator follows, and the
  length of the whole text is returned. The format is \<^verbatim>\<open>%3d:%-3d\<close> and a space.
\<close>

definition pad_left :: "nat \<Rightarrow> string \<Rightarrow> string" where
  "pad_left n x = replicate (n - length x) (CHR '' '') @ x"

definition pad_right :: "nat \<Rightarrow> string \<Rightarrow> string" where
  "pad_right n x = x @ replicate (n - length x) (CHR '' '')"

definition majmin_text :: "int \<Rightarrow> nat \<Rightarrow> string" where
  "majmin_text major i = pad_left 3 (show_int major) @ '':'' @ pad_right 3 (show_int (int i)) @ '' ''"

definition snprintf_majmin :: "nat \<Rightarrow> string \<Rightarrow> ('k drv, nat) prog" where
  "snprintf_majmin off x =
     (let size = of_nat MAJMIN_SIZE - of_nat off - 1 :: u64; w = take (unat size - 1) x @ [NUL] in
      if size = 0 then ret (length x)
      else if off + length w > MAJMIN_SIZE then stop (Undefined ''write past the end of test_mck_majmin'')
      else
        exec (upd_drv (\<lambda>d. d\<lparr>test_mck_majmin := take off (test_mck_majmin d) @ w @ drop (off + length w) (test_mck_majmin d)\<rparr>)) (\<lambda>_.
        ret (length x)))"

text \<open>
  The loop over the devices: \<open>off\<close> is the position of \<^verbatim>\<open>majmin\<close> and \<open>res\<close> the variable of the function. The result says
  whether the loop ran to its end, with the final \<open>res\<close>.
\<close>

fun setup_devs :: "'k drv_os \<Rightarrow> page_config \<Rightarrow> nat list \<Rightarrow> nat \<Rightarrow> int \<Rightarrow> ('k drv, bool \<times> int) prog" where
  "setup_devs K cfg [] off res = ret (True, res)"
| "setup_devs K cfg (i # is) off res =
     exec (get_dev i) (\<lambda>dev.
     let name = ts_name (suite dev) in
     exec (kcall ''class_create'' [AStr name] of_bool (k_class_create K name)) (\<lambda>cls.
     exec (upd_dev i (\<lambda>dev. dev\<lparr>dev_class := cls\<rparr>)) (\<lambda>_.
     if \<not> cls then exec (mck_printk '''' ''error create class(%s).'' [AStr name]) (\<lambda>_. ret (False, res))
     else
       exec (get_drv (\<lambda>d. (test_mck_major d, test_mck_minor d))) (\<lambda>(major, minor).
       exec (kvoid K ''cdev_init'' [AStr name]) (\<lambda>_.
       exec (upd_dev i (\<lambda>dev. dev\<lparr>cdev := True, devno := MKDEV major (minor + int i)\<rparr>)) (\<lambda>_.
       exec (kcall ''cdev_add'' [AStr name, AInt (uint (MKDEV major (minor + int i))), AInt 1] (\<lambda>r. r)
         (k_cdev_add K name (MKDEV major (minor + int i)))) (\<lambda>res.
       if res \<noteq> 0 then exec (mck_printk '''' ''error %d adding mck test driver(%s).'' [AInt res, AStr name]) (\<lambda>_. ret (False, res))
       else
         exec (kvoid K ''device_create'' [AStr name, AInt (uint (MKDEV major (minor + int i)))]) (\<lambda>_.
         exec (snprintf_majmin off (majmin_text major i)) (\<lambda>n.
         exec (dev_init K cfg (suite dev) i) (\<lambda>res.
         if res \<noteq> 0 then ret (False, res) else setup_devs K cfg is (off + n) res))))))))))"

definition setup_fail :: "'k drv_os \<Rightarrow> int \<Rightarrow> ('k drv, int) prog" where
  "setup_fail K res = exec (test_mck_cleanup K) (\<lambda>_. ret res)"

definition test_mck_setup :: "'k drv_os \<Rightarrow> page_config \<Rightarrow> ('k drv, int) prog" where
  "test_mck_setup K cfg =
     exec (get_drv test_mck_minor) (\<lambda>minor.
     exec (kcall ''alloc_chrdev_region'' [AInt minor, AInt (int test_mck_nr_devs), AStr TEST_MCK_DEVNAME] fst
       (k_alloc_chrdev_region K minor test_mck_nr_devs TEST_MCK_DEVNAME)) (\<lambda>(res, major).
     if res < 0 then exec (mck_printk '''' ''error get major %d'' [AInt res]) (\<lambda>_. setup_fail K res)
     else
       exec (upd_drv (\<lambda>d. d\<lparr>test_mck_major := major\<rparr>)) (\<lambda>_.
       exec (setup_devs K cfg [0..<test_mck_nr_devs] 0 res) (\<lambda>(ok, res).
       if \<not> ok then setup_fail K res
       else
         exec (test_mck_init_procfs K) (\<lambda>res.
         if res \<noteq> 0 then exec (mck_printk '''' ''error %d create procfs.'' [AInt res]) (\<lambda>_. setup_fail K res)
         else ret 0)))))"

definition test_mck_init :: "'k drv_os \<Rightarrow> page_config \<Rightarrow> ('k drv, int) prog" where
  "test_mck_init K cfg = test_mck_setup K cfg"

definition test_mck_exit :: "'k drv_os \<Rightarrow> ('k drv, unit) prog" where
  "test_mck_exit K = test_mck_cleanup K"

section \<open>The buffer of mmap\_dev2\<close>

lemma unat_push_bit_mod:
  assumes "n \<le> 64"
  shows "unat (push_bit n (w :: u64)) = unat w mod 2 ^ (64 - n) * 2 ^ n"
proof -
  have "push_bit n w = of_nat (unat w * 2 ^ n)" by (simp add: push_bit_eq_mult)
  then have "unat (push_bit n w) = unat w * 2 ^ n mod 2 ^ LENGTH(64)" by (simp only: unat_of_nat)
  also have "(2 :: nat) ^ LENGTH(64) = 2 ^ (64 - n) * 2 ^ n" using assms by (simp flip: power_add)
  finally show ?thesis by (simp only: mult_mod_left)
qed

lemma kmemset_window:
  assumes "i < SPACE" and "unat off < SPACE" and "unat off + unat len \<le> SPACE"
  shows "kmemset (start + off) v len km (start + of_nat i) =
    (if unat off \<le> i \<and> i < unat off + unat len then of_int v else km (start + of_nat i))"
proof -
  have "start + of_nat i - (start + off) = of_nat i - of_nat (unat off)" by simp
  then have "unat (start + of_nat i - (start + off)) = (if unat off \<le> i then i - unat off else SPACE + i - unat off)"
    using unat_diff_window [OF assms(1,2)] by simp
  with assms show ?thesis by (auto simp: kmemset_def word_less_nat_alt)
qed

lemma buf_size_SPACE: "unat (test_mck_mmap_dev2_buf_size cfg) + 2 ^ PAGE_SHIFT cfg \<le> SPACE"
  by (cases cfg; simp add: unat_buf_size SPACE_def)

text \<open>After a reset byte \<open>i\<close> of the buffer holds the number of its page, counted from 1.\<close>

lemma reset_loop_byte:
  assumes "i < unat (test_mck_mmap_dev2_buf_size cfg)" and "2 ^ PAGE_SHIFT cfg dvd unat off"
  shows "reset_loop cfg start off val km (start + of_nat i) =
    (if unat off \<le> i then of_int (val + int ((i - unat off) div 2 ^ PAGE_SHIFT cfg)) else km (start + of_nat i))"
  using assms
proof (induction cfg start off val km rule: reset_loop.induct)
  case (1 cfg start off val km)
  let ?B = "test_mck_mmap_dev2_buf_size cfg" and ?p = "2 ^ PAGE_SHIFT cfg :: nat"
  show ?case
  proof (cases "off < ?B")
    case True
    then have o: "unat off < unat ?B" by (simp add: word_less_nat_alt)
    have "?p dvd unat ?B" unfolding unat_buf_size by simp
    with 1(3) o have le: "unat off + ?p \<le> unat ?B"
      by (metis add.commute dvd_diff_nat dvd_imp_le le_diff_conv2 less_imp_le zero_less_diff)
    define len where "len = (if off + PAGE_SIZE cfg < ?B then PAGE_SIZE cfg else ?B - off)"
    have len: "unat len = ?p"
    proof (cases "off + PAGE_SIZE cfg < ?B")
      case False
      then have "unat ?B \<le> unat off + ?p" using reset_step [OF True] by (simp add: word_less_nat_alt)
      moreover have "unat (?B - off) = unat ?B - unat off" using True by (simp add: unat_sub word_less_nat_alt word_le_nat_alt)
      ultimately show ?thesis using le False by (simp add: len_def)
    qed (simp add: len_def unat_page_size)
    have w: "kmemset (start + off) val len km (start + of_nat i) =
        (if unat off \<le> i \<and> i < unat off + ?p then of_int val else km (start + of_nat i))"
      using kmemset_window [of i off len start val km] 1(2) o le buf_size_SPACE [of cfg] len by simp
    have IH: "reset_loop cfg start (off + PAGE_SIZE cfg) (val + 1) (kmemset (start + off) val len km) (start + of_nat i) =
        (if unat off + ?p \<le> i then of_int (val + 1 + int ((i - (unat off + ?p)) div ?p))
         else kmemset (start + off) val len km (start + of_nat i))"
      using 1(1) [OF True len_def 1(2)] reset_step [OF True] 1(3) by simp
    have "unat off + ?p \<le> i \<Longrightarrow> (i - unat off) div ?p = Suc ((i - (unat off + ?p)) div ?p)"
      by (subst div_if) (simp_all add: algebra_simps)
    moreover have "unat off \<le> i \<Longrightarrow> i < unat off + ?p \<Longrightarrow> (i - unat off) div ?p = 0"
      by (intro div_less) linarith
    ultimately show ?thesis
      by (subst reset_loop.simps) (auto simp: True Let_def IH w simp flip: len_def)
  next
    case False
    then have "\<not> unat off \<le> i" using 1(2) by (simp add: word_less_nat_alt)
    with False show ?thesis by (subst reset_loop.simps) simp
  qed
qed

section \<open>The pages the fault handlers give out\<close>

lemma dev2_page_iff:
  "(\<exists>a. dev2_page cfg buf pgoff = Inr a) \<longleftrightarrow> buf \<noteq> 0 \<and> unat pgoff mod 2 ^ (64 - PAGE_SHIFT cfg) \<le> 2 ^ PAGE_SHIFT cfg div 8"
proof -
  have "PAGE_SHIFT cfg \<le> 64" using page_shift_bounds(2) [of cfg] by linarith
  then have "test_mck_mmap_dev2_buf_size cfg \<le> push_bit (PAGE_SHIFT cfg) pgoff \<longleftrightarrow>
      (2 ^ PAGE_SHIFT cfg div 8 + 1) * 2 ^ PAGE_SHIFT cfg \<le> unat pgoff mod 2 ^ (64 - PAGE_SHIFT cfg) * 2 ^ PAGE_SHIFT cfg"
    by (simp only: word_le_nat_alt unat_push_bit_mod unat_buf_size)
  also have "\<dots> \<longleftrightarrow> 2 ^ PAGE_SHIFT cfg div 8 < unat pgoff mod 2 ^ (64 - PAGE_SHIFT cfg)"
    by (subst mult_le_cancel2) (simp only: Suc_eq_plus1 [symmetric] Suc_le_eq simp_thms, simp)
  finally show ?thesis by (auto simp: dev2_page_def not_le)
qed

lemma dev2_page_address:
  assumes "dev2_page cfg buf pgoff = Inr a" and "unat buf + unat (test_mck_mmap_dev2_buf_size cfg) \<le> 2 ^ 64"
  shows "unat a = unat buf + unat pgoff mod 2 ^ (64 - PAGE_SHIFT cfg) * 2 ^ PAGE_SHIFT cfg"
    and "unat a + 2 ^ PAGE_SHIFT cfg \<le> unat buf + unat (test_mck_mmap_dev2_buf_size cfg)"
proof -
  let ?q = "unat pgoff mod 2 ^ (64 - PAGE_SHIFT cfg)" and ?p = "2 ^ PAGE_SHIFT cfg :: nat"
  have sh: "PAGE_SHIFT cfg \<le> 64" using page_shift_bounds(2) [of cfg] by linarith
  have a: "a = buf + push_bit (PAGE_SHIFT cfg) pgoff" using assms(1) by (auto simp: dev2_page_def split: if_splits)
  have "?q \<le> ?p div 8" using assms(1) dev2_page_iff [of cfg buf pgoff] by blast
  then have "?q * ?p + ?p \<le> unat (test_mck_mmap_dev2_buf_size cfg)" unfolding unat_buf_size
    by (metis add.commute add_mult_distrib mult_1 mult_le_mono1 nat_add_left_cancel_le)
  moreover have "0 < ?p" by simp
  ultimately have le: "unat buf + ?q * ?p + ?p \<le> unat buf + unat (test_mck_mmap_dev2_buf_size cfg)"
    and "unat buf + unat (push_bit (PAGE_SHIFT cfg) pgoff) < 2 ^ 64"
    using assms(2) unat_push_bit_mod [OF sh, of pgoff] by linarith+
  then show "unat a = unat buf + ?q * ?p"
    unfolding a using unat_push_bit_mod [OF sh, of pgoff] by (simp add: unat_word_ariths)
  with le show "unat a + ?p \<le> unat buf + unat (test_mck_mmap_dev2_buf_size cfg)" by simp
qed



section \<open>Reading the files\<close>

lemma read_count_in_range:
  assumes "length str < 2 ^ 63" and "unat nbytes < 2 ^ 63" and "unat ppos \<le> length str"
  shows "unat (read_count str nbytes ppos) = min (unat nbytes) (length str - unat ppos)"
proof -
  have len: "unat (of_nat (length str) :: u64) = length str" using assms(1) unat_of_nat_SPACE [of "length str"] by (simp add: SPACE_def)
  have add: "unat (ppos + nbytes) = unat ppos + unat nbytes" using assms by (simp add: unat_word_ariths)
  have "unat (of_nat (length str) - ppos) = length str - unat ppos"
    using assms(3) len by (subst unat_sub) (simp_all add: word_le_nat_alt)
  with len add show ?thesis by (auto simp: read_count_def Let_def word_less_nat_alt)
qed

lemma string_read_run:
  assumes "length str < 2 ^ 63" and "unat nbytes < 2 ^ 63" and "unat ppos \<le> length str"
    and "\<And>count bs k. fst (k_copy_to_user K count bs k) = 0"
  shows "\<exists>t. test_mck_procfs_string_read K nbytes ppos str s =
    (let n = min (unat nbytes) (length str - unat ppos) in
     (Val (int n, take n (drop (unat ppos) str), ppos + of_nat n), t))"
proof -
  let ?c = "read_count str nbytes ppos"
  have c: "unat ?c = min (unat nbytes) (length str - unat ppos)" by (rule read_count_in_range [OF assms(1-3)])
  have "\<not> of_nat (length str) < ppos"
    using assms(1,3) unat_of_nat_SPACE [of "length str"] by (simp add: SPACE_def word_less_nat_alt)
  moreover have "\<not> length (drop (unat ppos) str) < unat ?c" unfolding c by simp
  moreover obtain k where "k_copy_to_user K ?c (take (unat ?c) (drop (unat ppos) str)) (rest (kern s)) = (0, k)"
    using assms(4) by (metis prod.collapse)
  ultimately have "\<exists>t. test_mck_procfs_string_read K nbytes ppos str s =
      (Val (uint ?c, take (unat ?c) (drop (unat ppos) str), ppos + ?c), t)"
    by (simp add: test_mck_procfs_string_read_def Let_def exec_def kcall_def ret_def)
  then obtain t where "test_mck_procfs_string_read K nbytes ppos str s =
      (Val (uint ?c, take (unat ?c) (drop (unat ppos) str), ppos + ?c), t)" by blast
  moreover have "uint ?c = int (unat ?c)" by (rule uint_nat)
  moreover have "of_nat (unat ?c) = ?c" by simp
  ultimately have "test_mck_procfs_string_read K nbytes ppos str s =
      (Val (int (unat ?c), take (unat ?c) (drop (unat ppos) str), ppos + of_nat (unat ?c)), t)" by (simp only:)
  then show ?thesis unfolding Let_def c by (rule exI)
qed

text \<open>A reader that calls read \<open>n\<close> times with the same size.\<close>

fun read_times :: "'k drv_os \<Rightarrow> u64 \<Rightarrow> nat \<Rightarrow> u64 \<Rightarrow> string \<Rightarrow> ('k drv, string) prog" where
  "read_times K nbytes 0 ppos str = ret []"
| "read_times K nbytes (Suc n) ppos str =
     exec (test_mck_procfs_string_read K nbytes ppos str) (\<lambda>(r, bs, ppos').
     exec (read_times K nbytes n ppos' str) (\<lambda>bs'. ret (bs @ bs')))"

lemma read_times_run:
  assumes "length str < 2 ^ 63" and "unat nbytes < 2 ^ 63" and "unat ppos \<le> length str"
    and "\<And>count bs k. fst (k_copy_to_user K count bs k) = 0"
  shows "\<exists>t. read_times K nbytes n ppos str s = (Val (take (n * unat nbytes) (drop (unat ppos) str)), t)"
  using assms(3)
proof (induction n arbitrary: ppos s)
  case (Suc n)
  define m where "m = min (unat nbytes) (length str - unat ppos)"
  obtain t where t: "test_mck_procfs_string_read K nbytes ppos str s = (Val (int m, take m (drop (unat ppos) str), ppos + of_nat m), t)"
    using string_read_run [OF assms(1,2) Suc.prems assms(4), of s] by (auto simp: Let_def m_def)
  have p: "unat (ppos + of_nat m) = unat ppos + m"
    using Suc.prems assms(1) by (intro unat_add_fits) (simp add: m_def SPACE_def)
  then have "unat (ppos + of_nat m) \<le> length str" using Suc.prems by (simp add: m_def)
  then obtain u where u: "read_times K nbytes n (ppos + of_nat m) str t = (Val (take (n * unat nbytes) (drop (unat ppos + m) str)), u)"
    using Suc.IH p by metis
  have "take m (drop (unat ppos) str) @ take (n * unat nbytes) (drop (unat ppos + m) str) =
      take (Suc n * unat nbytes) (drop (unat ppos) str)"
  proof (cases "unat nbytes \<le> length str - unat ppos")
    case True
    then have "m = unat nbytes" by (simp add: m_def)
    then show ?thesis by (simp add: take_add add.commute)
  qed (simp add: m_def)
  with t u show ?case by (simp add: exec_def ret_def)
qed (simp add: ret_def)

text \<open>
  C31. A file below \<^verbatim>\<open>/proc/test_mck\<close> that is read in pieces of any size gives its string back: after \<open>n\<close> reads of \<open>nbytes\<close> bytes,
  starting at position 0, the reader has the first \<open>n * nbytes\<close> bytes of it, and nothing else, and no read leaves the string.
\<close>

theorem procfs_read_roundtrip:
  assumes "length str < 2 ^ 63" and "unat nbytes < 2 ^ 63" and "\<And>count bs k. fst (k_copy_to_user K count bs k) = 0"
  shows "\<exists>t. read_times K nbytes n 0 str s = (Val (take (n * unat nbytes) str), t)"
  using read_times_run [OF assms(1,2) _ assms(3), of 0 n s] by simp

text \<open>A kernel for witnesses: every allocation and every call succeeds.\<close>

definition ref_drv_os :: "unit drv_os" where
  "ref_drv_os = \<lparr>
     k_alloc_chrdev_region = (\<lambda>_ _ _ k. ((0, 240), k)), k_class_create = (\<lambda>_ k. (True, k)), k_cdev_add = (\<lambda>_ _ k. (0, k)),
     k_vmalloc_user = (\<lambda>_ k. (0x100000, k)), k_proc_mkdir = (\<lambda>_ k. (True, k)), k_proc_create_data = (\<lambda>_ k. (True, k)),
     k_remap_pfn_range = (\<lambda>_ _ _ k. (0, k)), k_copy_to_user = (\<lambda>_ _ k. (0, k)), k_void = (\<lambda>_ _ k. k)\<rparr>"

theorem procfs_read_roundtrip_witness:
  "\<exists>t. read_times ref_drv_os 7 4 0 test_mck_tp_names (fresh_process (module_image None (\<lambda>_. 0) ())) = (Val ''mmap_dev mmap_dev2 writecomb'', t)"
proof -
  have "take (4 * 7) test_mck_tp_names = ''mmap_dev mmap_dev2 writecomb''" and l: "length test_mck_tp_names = 32" by code_simp+
  then show ?thesis
    using procfs_read_roundtrip [of test_mck_tp_names 7 ref_drv_os 4 "fresh_process (module_image None (\<lambda>_. 0) ())"]
    by (simp add: l ref_drv_os_def)
qed

section \<open>The resources of the module\<close>

text \<open>
  What the module can hold, and the calls by which it gets hold of it and gives it back. A class that could not be created is passed as
  \<^verbatim>\<open>NULL\<close>, and destroying that does nothing. \<open>balance\<close> counts how often a resource was acquired and not released; it is negative
  when something is released that was not held.
\<close>

datatype drv_res = Region | Class string | Cdev string | Device string | Buffer int | Proc string

fun acquires :: "event \<Rightarrow> drv_res option" where
  "acquires (Called (Lib nm) (AStr x # as) r) =
     (if nm = ''class_create'' \<and> r \<noteq> 0 then Some (Class x)
      else if nm = ''cdev_add'' \<and> r = 0 then Some (Cdev x)
      else if nm = ''device_create'' then Some (Device x)
      else if (nm = ''proc_mkdir'' \<or> nm = ''proc_create_data'') \<and> r \<noteq> 0 then Some (Proc x)
      else None)"
| "acquires (Called (Lib nm) (AInt x # as) r) =
     (if nm = ''alloc_chrdev_region'' \<and> r \<ge> 0 then Some Region
      else if nm = ''vmalloc_user'' \<and> r \<noteq> 0 then Some (Buffer r)
      else None)"
| "acquires _ = None"

fun releases :: "event \<Rightarrow> drv_res option" where
  "releases (Called (Lib nm) (AStr x # as) r) =
     (if nm = ''class_destroy'' \<and> as = [AInt 1] then Some (Class x)
      else if nm = ''cdev_del'' then Some (Cdev x)
      else if nm = ''device_destroy'' then Some (Device x)
      else if nm = ''remove_proc_entry'' then Some (Proc x)
      else None)"
| "releases (Called (Lib nm) (AInt x # as) r) =
     (if nm = ''unregister_chrdev_region'' then Some Region
      else if nm = ''vfree'' then Some (Buffer x)
      else None)"
| "releases _ = None"

definition balance :: "event list \<Rightarrow> drv_res \<Rightarrow> int" where
  "balance tr x = (\<Sum>ev\<leftarrow>tr. of_bool (acquires ev = Some x) - of_bool (releases ev = Some x))"

lemma balance_append: "balance (tr @ evs) x = balance tr x + balance evs x"
  by (simp add: balance_def)

lemma balance_Cons: "balance (ev # evs) x = of_bool (acquires ev = Some x) - of_bool (releases ev = Some x) + balance evs x"
  by (simp add: balance_def)

lemma balance_Nil [simp]: "balance [] x = 0"
  by (simp add: balance_def)

section \<open>Rules for the functions of the kernel\<close>

text \<open>The state after a part of the driver: its variables and the events it added.\<close>

definition drv_after :: "'k drv \<Rightarrow> event list \<Rightarrow> 'k drv machine \<Rightarrow> 'k drv machine" where
  "drv_after d evs s = s\<lparr>kern := d, trace := trace s @ evs\<rparr>"

lemma drv_after_simps [simp]:
  "kern (drv_after d evs s) = d" "trace (drv_after d evs s) = trace s @ evs" "errno (drv_after d evs s) = errno s"
  "drv_after d' evs' (drv_after d evs s) = drv_after d' (evs @ evs') s"
  by (simp_all add: drv_after_def)

named_theorems drv_simps \<open>equations that run the driver, with the state as \<open>drv_after\<close>\<close>

lemma wp_exec_kcall [drv_simps]:
  "wp (exec (kcall nm args enc f) g) Q s =
    (case f (rest (kern s)) of (v, k) \<Rightarrow> wp (g v) Q (drv_after ((kern s)\<lparr>rest := k\<rparr>) [Called (Lib nm) args (enc v)] s))"
  by (simp add: wp_def exec_def kcall_def after_def drv_after_def split: prod.splits)

lemma wp_exec_kvoid [drv_simps]:
  "wp (exec (kvoid K nm args) g) Q s =
    wp (g ()) Q (drv_after ((kern s)\<lparr>rest := k_void K nm args (rest (kern s))\<rparr>) [Called (Lib nm) args 0] s)"
  by (simp add: kvoid_def wp_exec_kcall)

lemma wp_exec_drv [drv_simps]:
  "wp (exec (get_drv f) g) Q s = wp (g (f (kern s))) Q s"
  "wp (exec (get_dev i) h) Q s = wp (h (test_mck_devlist (kern s) ! i)) Q s"
  "wp (exec (upd_drv u) l) Q s = wp (l ()) Q (drv_after (u (kern s)) [] s)"
  "wp (exec (upd_dev i v) l) Q s =
    wp (l ()) Q (drv_after ((kern s)\<lparr>test_mck_devlist := (test_mck_devlist (kern s))[i := v (test_mck_devlist (kern s) ! i)]\<rparr>) [] s)"
  by (simp_all add: wp_def exec_def get_drv_def get_dev_def upd_drv_def upd_dev_def drv_after_def)

lemma wp_exec_printk [drv_simps]:
  "wp (exec (mck_printk tsn fmt args) g) Q s =
    wp (g ()) Q (drv_after (kern s) [Printed (''%s::%s(%s):'' @ fmt)
      (AStr TEST_MCK_DEVNAME # AStr tsn # AStr (case ident (kern s) of None \<Rightarrow> '''' | Some x \<Rightarrow> x) # args)] s)"
  by (simp add: wp_def mck_printk_def test_mck_ident_def get_drv_def exec_def emit_def logged_def drv_after_def)

lemma wp_last [drv_simps]:
  "wp (ret a) Q s = Q (Val a) s"
  "wp (kvoid K nm args) R s = R (Val ()) (drv_after ((kern s)\<lparr>rest := k_void K nm args (rest (kern s))\<rparr>) [Called (Lib nm) args 0] s)"
  "wp (upd_drv u) R s = R (Val ()) (drv_after (u (kern s)) [] s)"
  "wp (upd_dev i v) R s =
    R (Val ()) (drv_after ((kern s)\<lparr>test_mck_devlist := (test_mck_devlist (kern s))[i := v (test_mck_devlist (kern s) ! i)]\<rparr>) [] s)"
  by (simp_all add: wp_def ret_def kvoid_def kcall_def after_def upd_drv_def upd_dev_def drv_after_def)

lemma wp_exec_if [drv_simps]: "wp (exec (if b then m else n) g) Q s = (if b then wp (exec m g) Q s else wp (exec n g) Q s)"
  by simp

lemma wp_if_eq [drv_simps]: "wp (if b then m else n) Q s = (if b then wp m Q s else wp n Q s)"
  by simp

lemmas drv_wp_simps = drv_simps exec_assoc

section \<open>The text of the device numbers\<close>

lemma show_base_short: "n < 1000 \<Longrightarrow> length (show_base 10 n) \<le> 3"
proof -
  assume n: "n < 1000"
  have one: "m < 10 \<Longrightarrow> length (show_base 10 m) = 1" for m by (subst show_base.simps) simp
  have two: "m < 100 \<Longrightarrow> length (show_base 10 m) \<le> 2" for m by (subst show_base.simps) (simp add: one)
  have "length (show_base 10 (n div 10)) \<le> 2" using n by (intro two) simp
  then show ?thesis by (subst show_base.simps) simp
qed

lemma majmin_text_length: "0 \<le> major \<Longrightarrow> major < 1000 \<Longrightarrow> i < 1000 \<Longrightarrow> length (majmin_text major i) = 8"
  using show_base_short [of "nat major"] show_base_short [of i]
  by (simp add: majmin_text_def pad_left_def pad_right_def show_int_def)

lemma wp_exec_snprintf_majmin:
  assumes "off = 0 \<or> off = 8 \<or> off = 16" and "length x = 8"
  shows "wp (exec (snprintf_majmin off x) g) Q s =
    wp (g 8) Q (drv_after ((kern s)\<lparr>test_mck_majmin := take off (test_mck_majmin (kern s)) @ take (23 - off) x @ [NUL]
        @ drop (off + length (take (23 - off) x) + 1) (test_mck_majmin (kern s))\<rparr>) [] s)"
proof -
  have size: "MAJMIN_SIZE = 25" by (simp add: MAJMIN_SIZE_def test_mck_nr_devs_def test_suite_list_def)
  have "unat (of_nat 25 - of_nat off - 1 :: u64) = 24 - off" and "(of_nat 25 - of_nat off - 1 :: u64) \<noteq> 0"
    using assms(1) by auto
  then show ?thesis using assms
    by (auto simp: snprintf_majmin_def Let_def size exec_def upd_drv_def ret_def wp_def drv_after_def)
qed

section \<open>Loading the module and unloading it\<close>

lemma drv_setup_lists: "test_mck_nr_devs = 3" "[0..<3] = [0, Suc 0, 2 :: nat]" "proc_fnames = [''devno'', ''tp_names'']"
  by (simp_all add: test_mck_nr_devs_def test_suite_list_def upt_rec proc_fnames_def)

text \<open>The devices of the module once it is loaded, with the buffers at \<open>p\<close> and \<open>q\<close>, and what it then holds for them.\<close>

definition loaded_devs :: "u32 \<Rightarrow> u32 \<Rightarrow> u32 \<Rightarrow> u64 \<Rightarrow> u64 \<Rightarrow> test_mck_dev list" where
  "loaded_devs n0 n1 n2 p q = [
     \<lparr>suite = Mmap_dev, private_data = 0, devno = n0, cdev = True, dev_class = True\<rparr>,
     \<lparr>suite = Mmap_dev2, private_data = p, devno = n1, cdev = True, dev_class = True\<rparr>,
     \<lparr>suite = Writecombine, private_data = q, devno = n2, cdev = True, dev_class = True\<rparr>]"

definition fresh_devs :: "test_mck_dev list" where
  "fresh_devs = map (\<lambda>n. \<lparr>suite = n, private_data = 0, devno = 0, cdev = False, dev_class = False\<rparr>) test_suite_list"

definition count_res :: "drv_res list \<Rightarrow> drv_res \<Rightarrow> int" where
  "count_res xs x = (\<Sum>y\<leftarrow>xs. of_bool (y = x))"

definition loaded_res :: "u64 \<Rightarrow> u64 \<Rightarrow> drv_res list" where
  "loaded_res p q = concat (map (\<lambda>n. [Class (ts_name n), Cdev (ts_name n), Device (ts_name n)]) test_suite_list)
     @ [Buffer (uint p), Buffer (uint q)]"

lemmas dev_init_defs = test_mck_mmap_dev_init_def test_mck_mmap_dev2_init_def test_mck_writecombine_init_def test_mck_mmap_dev2_buffer_reset_def

lemma wp_setup_devs:
  assumes cls: "\<And>n k. k_class_create K n k = (True, cc n k)" and maj: "0 \<le> test_mck_major (kern s)" "test_mck_major (kern s) < 1000"
    and devs: "test_mck_devlist (kern s) = fresh_devs"
    and fails: "\<And>r t. r \<noteq> 0 \<Longrightarrow> Q (Val (False, r)) t"
    and loaded: "\<And>t n0 n1 n2 p q. p \<noteq> 0 \<Longrightarrow> q \<noteq> 0 \<Longrightarrow> test_mck_devlist (kern t) = loaded_devs n0 n1 n2 p q
      \<Longrightarrow> proc_pents (kern t) = proc_pents (kern s)
      \<Longrightarrow> (\<And>x. balance (trace t) x = balance (trace s) x + count_res (loaded_res p q) x) \<Longrightarrow> Q (Val (True, 0)) t"
  shows "wp (setup_devs K cfg [0, Suc 0, 2] 0 0) Q s"
proof -
  have len: "length (majmin_text (test_mck_major (kern s)) i) = 8" if "i < 1000" for i
    using majmin_text_length [OF maj that] .
  show ?thesis
    apply (simp add: drv_wp_simps Let_def cls wp_exec_snprintf_majmin len devs fresh_devs_def test_suite_list_def dev_init_defs fails ENOMEM_def
        split: prod.split)
    apply (intro conjI allI impI loaded)
    apply (simp_all add: loaded_devs_def)
    apply (simp_all add: balance_append balance_Cons unsigned_eq_0_iff count_res_def loaded_res_def test_suite_list_def)
    done
qed

text \<open>Unloading calls the release function of everything a loaded module holds.\<close>

lemma wp_cleanup_loaded:
  assumes "test_mck_devlist (kern s) = loaded_devs n0 n1 n2 p q" "p \<noteq> 0" "q \<noteq> 0" "proc_pents (kern s) = [True, True]"
    and "\<And>t. (\<And>x. balance (trace t) x = balance (trace s) x - count_res (loaded_res p q) x
        - count_res [Region, Proc ''devno'', Proc ''tp_names'', Proc TEST_MCK_PROCFS_DIRNAME] x) \<Longrightarrow> Q (Val ()) t"
  shows "wp (test_mck_cleanup K) Q s"
  unfolding test_mck_cleanup_def test_mck_cleanup_procfs_def drv_setup_lists
  apply (simp add: drv_wp_simps assms(1-4) loaded_devs_def test_mck_mmap_dev_fin_def test_mck_mmap_dev2_fin_def test_mck_writecombine_fin_def)
  apply (rule assms(5))
  apply (simp add: balance_append balance_Cons count_res_def loaded_res_def test_suite_list_def TEST_MCK_PROCFS_DIRNAME_def)
  done

text \<open>Unloading runs to its end in every state.\<close>

lemma wp_cleanup_any:
  assumes "\<And>t. Q (Val ()) t"
  shows "wp (test_mck_cleanup K) Q s"
proof -
  have fin: "wp (exec (dev_fin K n i) g) R u" if "\<And>t. wp (g ()) R t" for n i R u and g :: "unit \<Rightarrow> ('a drv, unit) prog"
    using that by (cases n) (simp_all add: drv_wp_simps test_mck_mmap_dev_fin_def test_mck_mmap_dev2_fin_def test_mck_writecombine_fin_def)
  show ?thesis
    unfolding test_mck_cleanup_def test_mck_cleanup_procfs_def drv_setup_lists
    by (simp add: drv_wp_simps fin assms)
qed

text \<open>What follows loading: the module is unloaded when it was loaded.\<close>

definition unload_after :: "'k drv_os \<Rightarrow> int \<Rightarrow> ('k drv, int) prog" where
  "unload_after K r = (if r = 0 then exec (test_mck_exit K) (\<lambda>_. ret r) else ret r)"

lemma wp_setup_fail: "r \<noteq> 0 \<Longrightarrow> (\<And>t. Q (Val r) t) \<Longrightarrow> wp (exec (setup_fail K r) (unload_after K)) Q t"
  by (simp add: setup_fail_def exec_assoc unload_after_def) (intro wp_exec wp_cleanup_any run_case_Val, simp add: drv_wp_simps)

lemma wp_procfs_unload:
  assumes "test_mck_devlist (kern t) = loaded_devs n0 n1 n2 p q" "p \<noteq> 0" "q \<noteq> 0" "proc_pents (kern t) = [False, False]"
    and b: "\<And>x. balance (trace t) x = B x + count_res [Region] x + count_res (loaded_res p q) x"
    and "\<And>r t. r \<noteq> 0 \<Longrightarrow> Q (Val r) t" and Q: "\<And>t. balance (trace t) = B \<Longrightarrow> Q (Val 0) t"
  shows "wp (exec (exec (test_mck_init_procfs K) (\<lambda>res. if res \<noteq> 0
      then exec (mck_printk [] ''error %d create procfs.'' [AInt res]) (\<lambda>_. setup_fail K res) else ret 0)) (unload_after K)) Q t"
  using assms(1-4,6)
  apply (simp add: test_mck_init_procfs_def drv_wp_simps drv_setup_lists wp_setup_fail ENOMEM_def split: prod.split)
  apply (simp add: unload_after_def test_mck_exit_def)
  apply (intro allI impI wp_exec wp_cleanup_loaded [where p = p and q = q])
      apply (simp_all add: drv_wp_simps)
  apply (intro Q ext)
  apply (simp add: balance_append balance_Cons b count_res_def)
  done



text \<open>
  C24. When the class of the first device cannot be created, loading the module reports success, although everything has been
  given back: the numbers of the devices are not registered any more, and devices and files were deleted that had never been added.
\<close>

theorem setup_class_failure:
  assumes "k_alloc_chrdev_region K 0 test_mck_nr_devs TEST_MCK_DEVNAME k0 = ((0, major), k1)"
    and "k_class_create K ''mmap_dev'' k1 = (False, k2)" and "kern s = module_image idt km k0"
  shows "wp (test_mck_init K cfg) (\<lambda>r t. r = Val 0 \<and> (\<forall>x. balance (trace t) x = balance (trace s) x
    - count_res (concat (map (\<lambda>n. [Cdev (ts_name n), Device (ts_name n)]) test_suite_list) @ [Proc TEST_MCK_PROCFS_DIRNAME]) x)) s"
  using assms
  by (simp add: test_mck_init_def test_mck_setup_def setup_fail_def test_mck_cleanup_def test_mck_cleanup_procfs_def drv_wp_simps drv_setup_lists
      module_image_def test_suite_list_def Let_def test_mck_mmap_dev_fin_def test_mck_mmap_dev2_fin_def test_mck_writecombine_fin_def
      balance_append balance_Cons count_res_def TEST_MCK_PROCFS_DIRNAME_def)

theorem setup_class_failure_witness:
  "wp (test_mck_init (ref_drv_os\<lparr>k_class_create := \<lambda>_ k. (False, k)\<rparr>) Pages4K)
     (\<lambda>r t. r = Val 0 \<and> (\<forall>x. balance (trace t) x = - count_res (concat (map (\<lambda>n. [Cdev (ts_name n), Device (ts_name n)]) test_suite_list)
        @ [Proc TEST_MCK_PROCFS_DIRNAME]) x)) (fresh_process (module_image None (\<lambda>_. 0) ()))"
  using setup_class_failure [of "ref_drv_os\<lparr>k_class_create := \<lambda>_ k. (False, k)\<rparr>" "()" 240 "()" "()" "fresh_process (module_image None (\<lambda>_. 0) ())" None "\<lambda>_. 0" Pages4K]
  by (simp add: ref_drv_os_def fresh_process_def)

end
