(* ===== verification/Ptrace_Lib.thy ===== *)
theory Ptrace_Lib
  imports Ihk_Lib Framework
begin

text \<open>
  The library of the \<^verbatim>\<open>ptrace\<close> suite for arm64 (\<^verbatim>\<open>arch_test_ptrace.c\<close>) and the statements its test files share. A test forks;
  parent and child are two runs of the same program, told apart by what \<^verbatim>\<open>fork\<close> returns. The kernel's side of \<^verbatim>\<open>ptrace\<close>,
  \<^verbatim>\<open>wait\<close> and the semaphores is the record of parameters \<open>pt_os\<close>. The inline assembly of the child is a parameter
  as well: \<open>pt_brk\<close> is what has become of its static variables when it runs on after its \<^verbatim>\<open>brk\<close> instruction, where the tracer may
  have changed them.
\<close>

unbundle bit_operations_syntax

section \<open>What the kernel and the processor do\<close>

datatype pt_request =
    PTRACE_TRACEME | PTRACE_PEEKTEXT | PTRACE_PEEKDATA | PTRACE_PEEKUSER | PTRACE_POKETEXT | PTRACE_POKEDATA | PTRACE_POKEUSER
  | PTRACE_CONT | PTRACE_KILL | PTRACE_SINGLESTEP | PTRACE_ATTACH | PTRACE_DETACH | PTRACE_SYSCALL | PTRACE_SETOPTIONS
  | PTRACE_GETEVENTMSG | PTRACE_GETSIGINFO | PTRACE_SETSIGINFO | PTRACE_GETREGSET | PTRACE_SETREGSET

text \<open>\<^verbatim>\<open>req_code\<close> numbers the requests in the trace.\<close>

definition req_code :: "pt_request \<Rightarrow> int" where
  "req_code r = (case r of
     PTRACE_TRACEME \<Rightarrow> 0 | PTRACE_PEEKTEXT \<Rightarrow> 1 | PTRACE_PEEKDATA \<Rightarrow> 2 | PTRACE_PEEKUSER \<Rightarrow> 3 | PTRACE_POKETEXT \<Rightarrow> 4
   | PTRACE_POKEDATA \<Rightarrow> 5 | PTRACE_POKEUSER \<Rightarrow> 6 | PTRACE_CONT \<Rightarrow> 7 | PTRACE_KILL \<Rightarrow> 8 | PTRACE_SINGLESTEP \<Rightarrow> 9
   | PTRACE_ATTACH \<Rightarrow> 16 | PTRACE_DETACH \<Rightarrow> 17 | PTRACE_SYSCALL \<Rightarrow> 24 | PTRACE_SETOPTIONS \<Rightarrow> 0x4200
   | PTRACE_GETEVENTMSG \<Rightarrow> 0x4201 | PTRACE_GETSIGINFO \<Rightarrow> 0x4202 | PTRACE_SETSIGINFO \<Rightarrow> 0x4203
   | PTRACE_GETREGSET \<Rightarrow> 0x4204 | PTRACE_SETREGSET \<Rightarrow> 0x4205)"

record siginfo =
  si_signo :: int
  si_errno :: int
  si_code :: int
  si_addr :: u64

text \<open>
  The register sets, by the type the requests name. An array is the function from its indices: there are 31 general registers,
  with the stack pointer, the program counter and the state after them, 32 floating-point registers, and 16 pairs of address and
  control of debug registers.
\<close>

record user_pt_regs =
  regs :: "nat \<Rightarrow> u64"
  sp :: u64
  pc :: u64
  pstate :: u64

record user_fpsimd_state =
  vregs :: "nat \<Rightarrow> 128 word"
  fpsr :: u32
  fpcr :: u32

record user_hwdebug_state =
  dbg_info :: u32
  dbg_regs :: "nat \<Rightarrow> u64 \<times> u32"

definition NR_GREGS :: nat where "NR_GREGS = 31"
definition NR_FREGS :: nat where "NR_FREGS = 32"
definition NR_DBG_REGS :: nat where "NR_DBG_REGS = 16"

datatype regset_type = Prstatus | Prfpreg | Arm_tls | Arm_hw_break | Arm_hw_watch | Arm_system_call

definition nt_code :: "regset_type \<Rightarrow> int" where
  "nt_code n = (case n of Prstatus \<Rightarrow> 1 | Prfpreg \<Rightarrow> 2 | Arm_tls \<Rightarrow> 0x401 | Arm_hw_break \<Rightarrow> 0x402 | Arm_hw_watch \<Rightarrow> 0x403
     | Arm_system_call \<Rightarrow> 0x404)"

text \<open>
  \<open>pt_ptrace\<close> serves the requests whose arguments are numbers; the others have a function of their own. \<open>pt_clears_errno\<close>
  says whether the C library sets \<^verbatim>\<open>errno\<close> to 0 on a successful peek, which its manual leaves open. \<open>pt_var\<close> is the address of a static
  variable and \<open>pt_label\<close> that of the labelled instruction of an assembly statement.
\<close>

record 'k pt_os = "'k file_os" +
  pt_fork :: "'k \<Rightarrow> (int + int) \<times> 'k"
  pt_wait :: "'k \<Rightarrow> (int + int \<times> u32) \<times> 'k"
  pt_waitpid :: "int \<Rightarrow> 'k \<Rightarrow> (int + int \<times> u32) \<times> 'k"
  pt_kill :: "int \<Rightarrow> int \<Rightarrow> 'k \<Rightarrow> (int + int) \<times> 'k"
  pt_ptrace :: "pt_request \<Rightarrow> int \<Rightarrow> u64 \<Rightarrow> u64 \<Rightarrow> 'k \<Rightarrow> (int + u64) \<times> 'k"
  pt_geteventmsg :: "int \<Rightarrow> 'k \<Rightarrow> (int + u64) \<times> 'k"
  pt_getsiginfo :: "int \<Rightarrow> 'k \<Rightarrow> (int + siginfo) \<times> 'k"
  pt_setsiginfo :: "int \<Rightarrow> siginfo \<Rightarrow> 'k \<Rightarrow> (int + unit) \<times> 'k"
  pt_getgregs :: "int \<Rightarrow> 'k \<Rightarrow> (int + user_pt_regs) \<times> 'k"
  pt_setgregs :: "int \<Rightarrow> user_pt_regs \<Rightarrow> 'k \<Rightarrow> (int + unit) \<times> 'k"
  pt_getfpregs :: "int \<Rightarrow> 'k \<Rightarrow> (int + user_fpsimd_state) \<times> 'k"
  pt_setfpregs :: "int \<Rightarrow> user_fpsimd_state \<Rightarrow> 'k \<Rightarrow> (int + unit) \<times> 'k"
  pt_gettls :: "int \<Rightarrow> 'k \<Rightarrow> (int + u64) \<times> 'k"
  pt_settls :: "int \<Rightarrow> u64 \<Rightarrow> 'k \<Rightarrow> (int + unit) \<times> 'k"
  pt_gethw :: "regset_type \<Rightarrow> int \<Rightarrow> 'k \<Rightarrow> (int + user_hwdebug_state) \<times> 'k"
  pt_sethw :: "regset_type \<Rightarrow> int \<Rightarrow> nat \<Rightarrow> user_hwdebug_state \<Rightarrow> 'k \<Rightarrow> (int + unit) \<times> 'k"
  pt_getsysno :: "int \<Rightarrow> 'k \<Rightarrow> (int + u32) \<times> 'k"
  pt_setsysno :: "int \<Rightarrow> u32 \<Rightarrow> 'k \<Rightarrow> (int + unit) \<times> 'k"
  pt_clears_errno :: bool
  pt_var :: "string \<Rightarrow> u64"
  pt_label :: "string \<Rightarrow> u64"
  pt_brk :: "(string \<Rightarrow> u64 list option) \<Rightarrow> 'k \<Rightarrow> (string \<Rightarrow> u64 list option) \<times> 'k"
  pt_insns :: "string \<Rightarrow> 'k \<Rightarrow> 'k"
  pt_gpr :: "'k \<Rightarrow> nat \<Rightarrow> u64"
  pt_fpr :: "'k \<Rightarrow> nat \<Rightarrow> 128 word"
  pt_sem_init :: "u64 \<Rightarrow> 'k \<Rightarrow> (int + int) \<times> 'k"
  pt_sem_post :: "u64 \<Rightarrow> 'k \<Rightarrow> (int + int) \<times> 'k"
  pt_sem_wait :: "u64 \<Rightarrow> 'k \<Rightarrow> (int + int) \<times> 'k"
  pt_pipe :: "'k \<Rightarrow> (int + int \<times> int) \<times> 'k"
  pt_ioctl :: "int \<Rightarrow> u32 \<Rightarrow> 'k \<Rightarrow> (int + int) \<times> 'k"
  pt_sleep :: "nat \<Rightarrow> 'k \<Rightarrow> 'k"

section \<open>The calls\<close>

definition c_fork :: "('k, 'z) pt_os_scheme \<Rightarrow> ('k, int) prog" where
  "c_fork K = sys_int (Lib ''fork'') [] (pt_fork K)"

definition c_wait :: "('k, 'z) pt_os_scheme \<Rightarrow> ('k, int \<times> u32) prog" where
  "c_wait K = sys_call (Lib ''wait'') [] fst (-1, 0) (pt_wait K)"

definition c_waitpid :: "('k, 'z) pt_os_scheme \<Rightarrow> int \<Rightarrow> ('k, int \<times> u32) prog" where
  "c_waitpid K pid = sys_call (Lib ''waitpid'') [AInt pid] fst (-1, 0) (pt_waitpid K pid)"

definition c_kill :: "('k, 'z) pt_os_scheme \<Rightarrow> int \<Rightarrow> int \<Rightarrow> ('k, int) prog" where
  "c_kill K pid sig = sys_int (Lib ''kill'') [AInt pid, AInt sig] (pt_kill K pid sig)"

definition c_sem_init :: "('k, 'z) pt_os_scheme \<Rightarrow> u64 \<Rightarrow> ('k, int) prog" where
  "c_sem_init K sem = sys_int (Lib ''sem_init'') [AInt (uint sem)] (pt_sem_init K sem)"

definition c_sem_post :: "('k, 'z) pt_os_scheme \<Rightarrow> u64 \<Rightarrow> ('k, int) prog" where
  "c_sem_post K sem = sys_int (Lib ''sem_post'') [AInt (uint sem)] (pt_sem_post K sem)"

definition c_sem_wait :: "('k, 'z) pt_os_scheme \<Rightarrow> u64 \<Rightarrow> ('k, int) prog" where
  "c_sem_wait K sem = sys_int (Lib ''sem_wait'') [AInt (uint sem)] (pt_sem_wait K sem)"

text \<open>A request whose result is a status, and a peek, whose result is a word.\<close>

definition c_ptrace :: "('k, 'z) pt_os_scheme \<Rightarrow> pt_request \<Rightarrow> int \<Rightarrow> u64 \<Rightarrow> u64 \<Rightarrow> ('k, u64) prog" where
  "c_ptrace K req pid addr data =
     sys_call (Lib ''ptrace'') [AInt (req_code req), AInt pid, AInt (uint addr), AInt (uint data)] uint (-1) (pt_ptrace K req pid addr data)"

definition c_peek :: "('k, 'z) pt_os_scheme \<Rightarrow> pt_request \<Rightarrow> int \<Rightarrow> u64 \<Rightarrow> ('k, u64) prog" where
  "c_peek K req pid addr s =
     (case pt_ptrace K req pid addr 0 (kern s) of
        (Inl e, k) \<Rightarrow> (Val (-1), after e k (Called (Lib ''ptrace'') [AInt (req_code req), AInt pid, AInt (uint addr)] (-1)) s)
      | (Inr v, k) \<Rightarrow> (Val v, after (if pt_clears_errno K then 0 else errno s) k
          (Called (Lib ''ptrace'') [AInt (req_code req), AInt pid, AInt (uint addr)] (uint v)) s))"

text \<open>A request that fills in a structure: \<open>None\<close> when it fails.\<close>

definition get_call :: "pt_request \<Rightarrow> int \<Rightarrow> int \<Rightarrow> ('k \<Rightarrow> (int + 'a) \<times> 'k) \<Rightarrow> ('k, 'a option) prog" where
  "get_call req pid what f =
     sys_call (Lib ''ptrace'') [AInt (req_code req), AInt pid, AInt what] (\<lambda>r. case r of None \<Rightarrow> - 1 | Some _ \<Rightarrow> 0) None
       (\<lambda>k. case f k of (Inl e, k') \<Rightarrow> (Inl e, k') | (Inr v, k') \<Rightarrow> (Inr (Some v), k'))"

definition set_call :: "pt_request \<Rightarrow> int \<Rightarrow> int \<Rightarrow> ('k \<Rightarrow> (int + unit) \<times> 'k) \<Rightarrow> ('k, int) prog" where
  "set_call req pid what f =
     sys_int (Lib ''ptrace'') [AInt (req_code req), AInt pid, AInt what] (\<lambda>k. case f k of (Inl e, k') \<Rightarrow> (Inl e, k') | (Inr _, k') \<Rightarrow> (Inr 0, k'))"

text \<open>The macros of \<^verbatim>\<open>sys/wait.h\<close>.\<close>

definition WEXITSTATUS :: "u32 \<Rightarrow> u32" where
  "WEXITSTATUS st = drop_bit 8 (st AND 0xff00)"

definition WTERMSIG :: "u32 \<Rightarrow> u32" where
  "WTERMSIG st = st AND 0x7f"

definition WIFEXITED :: "u32 \<Rightarrow> bool" where
  "WIFEXITED st \<longleftrightarrow> WTERMSIG st = 0"

definition WIFSTOPPED :: "u32 \<Rightarrow> bool" where
  "WIFSTOPPED st \<longleftrightarrow> st AND 0xff = 0x7f"

definition WIFSIGNALED :: "u32 \<Rightarrow> bool" where
  "WIFSIGNALED st \<longleftrightarrow> WTERMSIG st \<noteq> 0 \<and> WTERMSIG st \<noteq> 0x7f"

definition SIGTRAP :: int where "SIGTRAP = 5"
definition SIGKILL :: int where "SIGKILL = 9"
definition SIGSTOP :: int where "SIGSTOP = 19"
definition TRAP_BRKPT :: int where "TRAP_BRKPT = 1"
definition TRAP_HWBKPT :: int where "TRAP_HWBKPT = 4"

definition brk_stop :: "('k, 'z) pt_os_scheme \<Rightarrow> string \<Rightarrow> ('k, unit) prog" where
  "brk_stop K var s =
     (case pt_brk K ((statics s)(var := Some [pt_label K ''brk''])) (kern s) of (st, k) \<Rightarrow> (Val (), s\<lparr>statics := st, kern := k\<rparr>))"

definition insns :: "('k, 'z) pt_os_scheme \<Rightarrow> string \<Rightarrow> ('k, unit) prog" where
  "insns K x s = (Val (), s\<lparr>kern := pt_insns K x (kern s)\<rparr>)"

definition get_word :: "string \<Rightarrow> ('k, u64) prog" where
  "get_word x = exec (get_static x) (\<lambda>v. ret (case v of Some (w # ws) \<Rightarrow> w | _ \<Rightarrow> 0))"

definition set_word :: "string \<Rightarrow> u64 \<Rightarrow> ('k, unit) prog" where
  "set_word x w = set_static x (Some [w])"

section \<open>The library\<close>

definition NOP_INST :: u64 where "NOP_INST = 0xd503201f"
definition BRK_INST :: u64 where "BRK_INST = 0xd4200000"

definition MODE_GET_INST_ADDR :: int where "MODE_GET_INST_ADDR = 1"
definition MODE_DO_INST :: int where "MODE_DO_INST = 2"
definition MODE_DO_STORE_INST :: int where "MODE_DO_STORE_INST = 3"

definition get_or_do_inst :: "('k, 'z) pt_os_scheme \<Rightarrow> int \<Rightarrow> ('k, u64) prog" where
  "get_or_do_inst K mode =
     (if mode = MODE_GET_INST_ADDR then ret (pt_label K ''nop'')
      else if mode = MODE_DO_INST then exec (insns K ''nop'') (\<lambda>_. ret 0)
      else ret (-1))"

text \<open>The buffer of the store instruction is a static variable of the caller, or \<^verbatim>\<open>NULL\<close>.\<close>

definition get_or_do_store_inst :: "('k, 'z) pt_os_scheme \<Rightarrow> int \<Rightarrow> string option \<Rightarrow> u64 \<Rightarrow> ('k, u64) prog" where
  "get_or_do_store_inst K mode buf change =
     (if mode = MODE_GET_INST_ADDR then ret (pt_label K ''str'')
      else if mode = MODE_DO_STORE_INST then
        (case buf of
           None \<Rightarrow> ret (-1)
         | Some x \<Rightarrow> exec (insns K ''str'') (\<lambda>_. exec (set_word x change) (\<lambda>_. ret 0)))
      else ret (-1))"

definition pre_getregset :: "('k, 'z) pt_os_scheme \<Rightarrow> ('k, unit) prog" where
  "pre_getregset K = exec (insns K ''register_write'') (\<lambda>_. insns K ''fpregs_write'')"

text \<open>\<^verbatim>\<open>if (ptrace(...)) { perror(msg); goto out; }\<close>, for both kinds of call.\<close>

definition regset_msg :: "string \<Rightarrow> string \<Rightarrow> string" where
  "regset_msg req nt = ''ptrace('' @ req @ '', '' @ nt @ '')''"

definition with_got :: "('k, 'a option) prog \<Rightarrow> string \<Rightarrow> ('k, 'b) prog \<Rightarrow> ('a \<Rightarrow> ('k, 'b) prog) \<Rightarrow> ('k, 'b) prog" where
  "with_got m msg bad f = exec m (\<lambda>r. case r of None \<Rightarrow> exec (perror msg) (\<lambda>_. bad) | Some v \<Rightarrow> f v)"

definition with_set :: "('k, int) prog \<Rightarrow> string \<Rightarrow> ('k, 'b) prog \<Rightarrow> ('k, 'b) prog \<Rightarrow> ('k, 'b) prog" where
  "with_set m msg bad f = exec m (\<lambda>r. if r \<noteq> 0 then exec (perror msg) (\<lambda>_. bad) else f)"

fun dump_gpr :: "nat \<Rightarrow> u64 list \<Rightarrow> ('k, unit) prog" where
  "dump_gpr i [] = ret ()"
| "dump_gpr i (x # xs) = exec (printf ''  x%02d = 0x%016llx'' [AInt (int i), AInt (uint x)]) (\<lambda>_. dump_gpr (Suc i) xs)"

fun dump_fpr :: "nat \<Rightarrow> 128 word list \<Rightarrow> ('k, unit) prog" where
  "dump_fpr i [] = ret ()"
| "dump_fpr i (x # xs) =
     exec (printf ''  q%02d = 0x%016lx %016lx'' [AInt (int i), AInt (uint (ucast (drop_bit 64 x) :: u64)), AInt (uint (ucast x :: u64))]) (\<lambda>_.
     dump_fpr (Suc i) xs)"

fun dump_dbg :: "nat \<Rightarrow> (u64 \<times> u32) list \<Rightarrow> ('k, unit) prog" where
  "dump_dbg i [] = ret ()"
| "dump_dbg i ((a, c) # xs) =
     exec (printf ''  dbg_regs[%02d].addr = 0x%016llx'' [AInt (int i), AInt (uint a)]) (\<lambda>_.
     exec (printf ''  dbg_regs[%02d].ctrl = 0x%08x'' [AInt (int i), AInt (uint c)]) (\<lambda>_.
     dump_dbg (Suc i) xs))"

definition dump_hw :: "string \<Rightarrow> user_hwdebug_state \<Rightarrow> ('k, unit) prog" where
  "dump_hw title st =
     exec (printf (''===== DUMP '' @ title @ '' ====='') []) (\<lambda>_.
     exec (printf ''  dbg_info = 0x%08x'' [AInt (uint (dbg_info st))]) (\<lambda>_.
     exec (dump_dbg 0 (map (dbg_regs st) [0..<NR_DBG_REGS])) (\<lambda>_.
     printf '''' [])))"

definition getregset_check :: "('k, 'z) pt_os_scheme \<Rightarrow> int \<Rightarrow> ('k, int) prog" where
  "getregset_check K cpid =
     with_got (get_call PTRACE_GETREGSET cpid (nt_code Prstatus) (pt_getgregs K cpid)) (regset_msg ''PTRACE_GETREGSET'' ''NT_PRSTATUS'') (ret (-1)) (\<lambda>gregs.
     exec (printf ''===== DUMP REGSET_GPR ====='' []) (\<lambda>_.
     exec (dump_gpr 0 (map (regs gregs) [0..<NR_GREGS])) (\<lambda>_.
     exec (printf ''  sp  = 0x%016llx'' [AInt (uint (sp gregs))]) (\<lambda>_.
     exec (printf ''  pc  = 0x%016llx'' [AInt (uint (pc gregs))]) (\<lambda>_.
     exec (printf ''  pstate = 0x%016llx'' [AInt (uint (pstate gregs))]) (\<lambda>_.
     exec (printf '''' []) (\<lambda>_.
     with_got (get_call PTRACE_GETREGSET cpid (nt_code Prfpreg) (pt_getfpregs K cpid)) (regset_msg ''PTRACE_GETREGSET'' ''NT_PRFPREG'') (ret (-1)) (\<lambda>fregs.
     exec (printf ''===== DUMP REGSET_FPR ====='' []) (\<lambda>_.
     exec (dump_fpr 0 (map (vregs fregs) [0..<NR_FREGS])) (\<lambda>_.
     exec (printf ''  fpsr = 0x%08x'' [AInt (uint (fpsr fregs))]) (\<lambda>_.
     exec (printf ''  fpcr = 0x%08x'' [AInt (uint (fpcr fregs))]) (\<lambda>_.
     exec (printf '''' []) (\<lambda>_.
     with_got (get_call PTRACE_GETREGSET cpid (nt_code Arm_tls) (pt_gettls K cpid)) (regset_msg ''PTRACE_GETREGSET'' ''NT_ARM_TLS'') (ret (-1)) (\<lambda>tls_val.
     exec (printf ''===== DUMP REGSET_TLS ====='' []) (\<lambda>_.
     exec (printf ''  tls = 0x%016lx'' [AInt (uint tls_val)]) (\<lambda>_.
     exec (printf '''' []) (\<lambda>_.
     with_got (get_call PTRACE_GETREGSET cpid (nt_code Arm_hw_break) (pt_gethw K Arm_hw_break cpid)) (regset_msg ''PTRACE_GETREGSET'' ''NT_ARM_HW_BREAK'') (ret (-1)) (\<lambda>bpoint_regs.
     exec (dump_hw ''REGSET_HW_BREAK'' bpoint_regs) (\<lambda>_.
     with_got (get_call PTRACE_GETREGSET cpid (nt_code Arm_hw_watch) (pt_gethw K Arm_hw_watch cpid)) (regset_msg ''PTRACE_GETREGSET'' ''NT_ARM_HW_WATCH'') (ret (-1)) (\<lambda>wpoint_regs.
     exec (dump_hw ''REGSET_HW_WATCH'' wpoint_regs) (\<lambda>_.
     with_got (get_call PTRACE_GETREGSET cpid (nt_code Arm_system_call) (pt_getsysno K cpid)) (regset_msg ''PTRACE_GETREGSET'' ''NT_ARM_SYSTEM_CALL'') (ret (-1)) (\<lambda>syscallno.
     exec (printf ''===== DUMP REGSET_SYSTEM_CALL ====='' []) (\<lambda>_.
     exec (printf ''  syscallno = 0x%08x'' [AInt (uint syscallno)]) (\<lambda>_.
     exec (printf '''' []) (\<lambda>_.
     ret 0)))))))))))))))))))))))))"

text \<open>The last general register that holds its own number.\<close>

fun find_magic :: "nat \<Rightarrow> (nat \<Rightarrow> u64) \<Rightarrow> nat option" where
  "find_magic 0 r = None"
| "find_magic (Suc i) r = (if r i = of_nat i then Some i else find_magic i r)"

text \<open>Writing a register set of one value, reading it back and restoring the old value.\<close>

definition rewrite_check :: "(('k, 'a option) prog) \<Rightarrow> ('a \<Rightarrow> ('k, int) prog) \<Rightarrow> string \<Rightarrow> 'a \<Rightarrow> ('k, int) prog \<Rightarrow> ('k, int) prog" where
  "rewrite_check rd wr nt v f =
     with_got rd (regset_msg ''PTRACE_GETREGSET'' nt) (ret (-1)) (\<lambda>org.
     with_set (wr v) (regset_msg ''PTRACE_SETREGSET'' nt) (ret (-1)) (
     with_got rd (regset_msg ''PTRACE_GETREGSET'' nt) (ret (-1)) (\<lambda>tmp.
     if tmp = v then
       exec (printf (regset_msg ''PTRACE_SETREGSET'' nt @ '' OK.'') []) (\<lambda>_.
       with_set (wr org) (regset_msg ''PTRACE_SETREGSET'' nt) (ret (-1)) f)
     else exec (printf (regset_msg ''PTRACE_SETREGSET'' nt @ '' failed.'') []) (\<lambda>_. ret (-1)))))"

text \<open>The numbers of the changed registers are left in the elements of the array \<open>regno\<close>.\<close>

definition setregset_check :: "('k, 'z) pt_os_scheme \<Rightarrow> int \<Rightarrow> ('k, int) prog" where
  "setregset_check K cpid =
     with_got (get_call PTRACE_GETREGSET cpid (nt_code Prstatus) (pt_getgregs K cpid)) (regset_msg ''PTRACE_GETREGSET'' ''NT_PRSTATUS'') (ret (-1)) (\<lambda>gregs.
     case find_magic NR_GREGS (regs gregs) of
       None \<Rightarrow> exec (printf ''REGSET_GPR why there is no magicno ???'' []) (\<lambda>_. ret (-1))
     | Some i \<Rightarrow>
         exec (set_word ''regno[0]'' (of_nat i)) (\<lambda>_.
         with_set (set_call PTRACE_SETREGSET cpid (nt_code Prstatus) (pt_setgregs K cpid (gregs\<lparr>regs := (regs gregs)(i := NOT (of_nat i))\<rparr>)))
           (regset_msg ''PTRACE_SETREGSET'' ''NT_PRSTATUS'') (ret (-1)) (
         with_got (get_call PTRACE_GETREGSET cpid (nt_code Prfpreg) (pt_getfpregs K cpid)) (regset_msg ''PTRACE_GETREGSET'' ''NT_PRFPREG'') (ret (-1)) (\<lambda>fregs.
         exec (set_word ''regno[1]'' 16) (\<lambda>_.
         with_set (set_call PTRACE_SETREGSET cpid (nt_code Prfpreg) (pt_setfpregs K cpid (fregs\<lparr>vregs := (vregs fregs)(16 := NOT 16)\<rparr>)))
           (regset_msg ''PTRACE_SETREGSET'' ''NT_PRFPREG'') (ret (-1)) (
         rewrite_check (get_call PTRACE_GETREGSET cpid (nt_code Arm_tls) (pt_gettls K cpid))
           (\<lambda>v. set_call PTRACE_SETREGSET cpid (nt_code Arm_tls) (pt_settls K cpid v)) ''NT_ARM_TLS'' 0x1234567890abcdef (
         rewrite_check (get_call PTRACE_GETREGSET cpid (nt_code Arm_system_call) (pt_getsysno K cpid))
           (\<lambda>v. set_call PTRACE_SETREGSET cpid (nt_code Arm_system_call) (pt_setsysno K cpid v)) ''NT_ARM_SYSTEM_CALL'' 0xfedcba09 (
         ret 0))))))))"

text \<open>The registers of the child itself: \<open>gregs\<close> was read by the caller; an index past the array has no defined value.\<close>

definition setregset_child_check :: "('k, 'z) pt_os_scheme \<Rightarrow> u64 \<Rightarrow> u64 \<Rightarrow> (nat \<Rightarrow> u64) \<Rightarrow> ('k, int) prog" where
  "setregset_child_check K gregno fregno gregs =
     (if unat gregno \<ge> NR_GREGS then stop (Undefined ''array index'')
      else if gregs (unat gregno) = NOT gregno then
        exec (printf (regset_msg ''PTRACE_SETREGSET'' ''NT_PRSTATUS'' @ '' OK.'') []) (\<lambda>_ s.
        let fpregs = pt_fpr K (kern s) in
        (if unat fregno \<ge> NR_FREGS then stop (Undefined ''array index'')
         else if fpregs (unat fregno) = NOT (ucast fregno) then
           exec (printf (regset_msg ''PTRACE_SETREGSET'' ''NT_PRFPREG'' @ '' OK.'') []) (\<lambda>_. ret 0)
         else exec (printf ''fpregs[%ld] != %lx'' [AInt (uint fregno), AInt (uint (NOT fregno))]) (\<lambda>_. ret (-1))) s)
      else exec (printf ''gregs[%ld] != %lx'' [AInt (uint gregno), AInt (uint (NOT gregno))]) (\<lambda>_. ret (-1)))"

definition hw_name :: "regset_type \<Rightarrow> string" where
  "hw_name n = (if n = Arm_hw_watch then ''NT_ARM_HW_WATCH'' else ''NT_ARM_HW_BREAK'')"

definition num_reg :: "user_hwdebug_state \<Rightarrow> nat" where
  "num_reg st = unat (dbg_info st AND 0xff)"

text \<open>The length the requests pass: the array starts at byte 8, an element has 16 bytes.\<close>

definition hw_len :: "user_hwdebug_state \<Rightarrow> nat" where
  "hw_len st = 8 + 16 * num_reg st"

definition hw_get :: "('k, 'z) pt_os_scheme \<Rightarrow> regset_type \<Rightarrow> int \<Rightarrow> ('k, user_hwdebug_state option) prog" where
  "hw_get K n cpid = get_call PTRACE_GETREGSET cpid (nt_code n) (pt_gethw K n cpid)"

definition hw_set :: "('k, 'z) pt_os_scheme \<Rightarrow> regset_type \<Rightarrow> int \<Rightarrow> nat \<Rightarrow> user_hwdebug_state \<Rightarrow> ('k, int) prog" where
  "hw_set K n cpid len st = set_call PTRACE_SETREGSET cpid (nt_code n) (pt_sethw K n cpid len st)"

definition set_hw_watchpt :: "('k, 'z) pt_os_scheme \<Rightarrow> int \<Rightarrow> u64 \<Rightarrow> ('k, int) prog" where
  "set_hw_watchpt K cpid addr =
     with_got (hw_get K Arm_hw_watch cpid) (regset_msg ''PTRACE_GETREGSET'' ''NT_ARM_HW_WATCH'') (ret (-1)) (\<lambda>wpoint_regs.
     let ctrl = push_bit 3 2 OR push_bit 5 (push_bit 8 1 - 1) OR (push_bit 1 2 OR 1) in
     with_set (hw_set K Arm_hw_watch cpid (hw_len wpoint_regs) (wpoint_regs\<lparr>dbg_regs := (dbg_regs wpoint_regs)(0 := (addr, ctrl))\<rparr>))
       (regset_msg ''PTRACE_SETREGSET'' ''NT_ARM_HW_WATCH'') (ret (-1)) (
     ret 0))"

fun clear_loop :: "nat \<Rightarrow> (nat \<Rightarrow> u64 \<times> u32) \<Rightarrow> nat \<Rightarrow> u64 \<times> u32" where
  "clear_loop 0 r = r"
| "clear_loop (Suc n) r = (clear_loop n r)(n := (0, 0))"

definition clear_hw :: "('k, 'z) pt_os_scheme \<Rightarrow> regset_type \<Rightarrow> int \<Rightarrow> ('k, int) prog" where
  "clear_hw K n cpid =
     with_got (hw_get K n cpid) (regset_msg ''PTRACE_GETREGSET'' (hw_name n)) (ret (-1)) (\<lambda>st.
     if num_reg st > NR_DBG_REGS then stop (Undefined ''array index'')
     else
       with_set (hw_set K n cpid (hw_len st) (st\<lparr>dbg_regs := clear_loop (num_reg st) (dbg_regs st)\<rparr>))
         (regset_msg ''PTRACE_SETREGSET'' (hw_name n)) (ret (-1)) (
       ret 0))"

definition clear_hw_watchpt :: "('k, 'z) pt_os_scheme \<Rightarrow> int \<Rightarrow> ('k, int) prog" where
  "clear_hw_watchpt K cpid = clear_hw K Arm_hw_watch cpid"

definition check_trap_addr :: "('k, 'z) pt_os_scheme \<Rightarrow> int \<Rightarrow> u64 \<Rightarrow> ('k, int) prog" where
  "check_trap_addr K cpid addr =
     with_got (get_call PTRACE_GETREGSET cpid (nt_code Prstatus) (pt_getgregs K cpid)) (regset_msg ''PTRACE_GETREGSET'' ''NT_PRSTATUS'') (ret (-1)) (\<lambda>gregs.
     if pc gregs = addr then exec (printf ''child is stopped change value addr.'' []) (\<lambda>_. ret 0)
     else
       exec (printf ''child is stopped not change value addr.'' []) (\<lambda>_.
       exec (printf ''expection:0x%lx, info.si_addr:0x%lx'' [AInt (uint addr), AInt (uint (pc gregs))]) (\<lambda>_.
       ret (-1))))"

definition set_hw_breakpt :: "('k, 'z) pt_os_scheme \<Rightarrow> int \<Rightarrow> u64 \<Rightarrow> ('k, int) prog" where
  "set_hw_breakpt K cpid addr =
     with_got (hw_get K Arm_hw_break cpid) (regset_msg ''PTRACE_GETREGSET'' ''NT_ARM_HW_BREAK'') (ret (-1)) (\<lambda>bpoint_regs.
     let ctrl = push_bit 3 0 OR push_bit 5 (push_bit 4 1 - 1) OR (push_bit 1 2 OR 1) in
     with_set (hw_set K Arm_hw_break cpid (hw_len bpoint_regs) (bpoint_regs\<lparr>dbg_regs := (dbg_regs bpoint_regs)(0 := (addr, ctrl))\<rparr>))
       (regset_msg ''PTRACE_SETREGSET'' ''NT_ARM_HW_BREAK'') (ret (-1)) (
     ret 0))"

definition clear_hw_breakpt :: "('k, 'z) pt_os_scheme \<Rightarrow> int \<Rightarrow> ('k, int) prog" where
  "clear_hw_breakpt K cpid = clear_hw K Arm_hw_break cpid"

text \<open>The number is read into the first four bytes of a variable that was 0.\<close>

definition get_check_syscallno :: "('k, 'z) pt_os_scheme \<Rightarrow> int \<Rightarrow> int \<Rightarrow> ('k, int) prog" where
  "get_check_syscallno K cpid expno =
     with_got (get_call PTRACE_GETREGSET cpid (nt_code Arm_system_call) (pt_getsysno K cpid)) (regset_msg ''PTRACE_GETREGSET'' ''NT_ARM_SYSTEM_CALL'') (ret (-1)) (\<lambda>sysno.
     if uint sysno = expno then exec (printf ''sysno check OK.'' []) (\<lambda>_. ret 0)
     else
       exec (printf ''sysno check NG.'' []) (\<lambda>_.
       exec (printf ''expection:0x%lx readsysno:0x%lx'' [AInt expno, AInt (uint sysno)]) (\<lambda>_.
       ret (-1))))"

text \<open>\<^verbatim>\<open>(val == -1) && errno\<close> after a peek.\<close>

definition with_peek :: "('k, u64) prog \<Rightarrow> string \<Rightarrow> ('k, 'b) prog \<Rightarrow> (u64 \<Rightarrow> ('k, 'b) prog) \<Rightarrow> ('k, 'b) prog" where
  "with_peek m msg bad f = exec m (\<lambda>v. exec get_errno (\<lambda>e. if v = -1 \<and> e \<noteq> 0 then exec (perror msg) (\<lambda>_. bad) else f v))"

definition with_req :: "('k, u64) prog \<Rightarrow> string \<Rightarrow> ('k, 'b) prog \<Rightarrow> ('k, 'b) prog \<Rightarrow> ('k, 'b) prog" where
  "with_req m msg bad f = exec m (\<lambda>r. if r \<noteq> 0 then exec (perror msg) (\<lambda>_. bad) else f)"

definition rewrite_brk_inst :: "('k, 'z) pt_os_scheme \<Rightarrow> int \<Rightarrow> string \<Rightarrow> ('k, int) prog" where
  "rewrite_brk_inst K cpid var =
     with_peek (c_peek K PTRACE_PEEKDATA cpid (pt_var K var)) ''ptrace(PTRACE_PEEKDATA)'' (ret (-1)) (\<lambda>addr.
     with_req (c_ptrace K PTRACE_POKETEXT cpid addr (push_bit 32 NOP_INST OR NOP_INST)) ''ptrace(PTRACE_POKETEXT)'' (ret (-1)) (
     ret 0))"

section \<open>Statements of the test files\<close>

text \<open>The start of a child, its stop, and the loops of the parent around it; \<open>out\<close> is the label behind the last request.\<close>

definition traceme :: "('k, 'z) pt_os_scheme \<Rightarrow> ('k, int) prog \<Rightarrow> ('k, int) prog" where
  "traceme K f = with_req (c_ptrace K PTRACE_TRACEME 0 0 0) ''ptrace(PTRACE_TRACEME)'' (ret (-1)) f"

definition stopped_or :: "int \<times> u32 \<Rightarrow> int \<Rightarrow> (u32 \<Rightarrow> ('k, int) prog) \<Rightarrow> ('k, int) prog" where
  "stopped_or r cpid f =
     (case r of (pid, status) \<Rightarrow>
       if pid = cpid then
         (if WIFSTOPPED status then f status
          else exec (printf ''child is not stopped.'' []) (\<lambda>_. ret (-1)))
       else exec (perror ''wait()'') (\<lambda>_. ret (-1)))"

definition wait_stopped :: "('k, 'z) pt_os_scheme \<Rightarrow> int \<Rightarrow> ('k, int) prog \<Rightarrow> ('k, int) prog" where
  "wait_stopped K cpid f = exec (c_wait K) (\<lambda>r. stopped_or r cpid (\<lambda>_. f))"

definition child_cont :: "('k, 'z) pt_os_scheme \<Rightarrow> int \<Rightarrow> int \<Rightarrow> ('k, int) prog" where
  "child_cont K cpid r = with_req (c_ptrace K PTRACE_CONT cpid 0 0) ''ptrace(PTRACE_CONT)'' (ret (-1)) (ret r)"

text \<open>The second stop of cases 6, 11, 12 and 17, by a trap at \<open>addr\<close>; every failed check continues the child.\<close>

definition check_print :: "bool \<Rightarrow> string \<Rightarrow> ('k, unit) prog \<Rightarrow> ('k, int) prog \<Rightarrow> ('k, int) prog \<Rightarrow> ('k, int) prog" where
  "check_print ok good bad cont f = (if ok then exec (printf good []) (\<lambda>_. f) else exec bad (\<lambda>_. cont))"

definition trap_stop ::
    "('k, 'z) pt_os_scheme \<Rightarrow> string \<Rightarrow> int \<Rightarrow> string \<times> int \<Rightarrow> u64 \<Rightarrow> string \<Rightarrow> string \<Rightarrow> ('k, int) prog \<Rightarrow> ('k, int) prog" where
  "trap_stop K pre cpid trap addr good bad f =
     (let cont = child_cont K cpid (-1) in
      exec (c_wait K) (\<lambda>(pid, status).
      if pid = cpid then
        (if WIFSTOPPED status then
           (if uint (WEXITSTATUS status) = SIGTRAP then
              exec (printf (pre @ ''child is stopped by SIGTRAP.'') []) (\<lambda>_.
              with_got (get_call PTRACE_GETSIGINFO cpid 0 (pt_getsiginfo K cpid)) (pre @ ''ptrace(PTRACE_GETSIGINFO)'') cont (\<lambda>info.
              check_print (si_signo info = SIGTRAP) (pre @ ''child si_signo == SIGTRAP'')
                (printf (pre @ ''child si_signo(%d) != SIGTRAP(%d)'') [AInt (si_signo info), AInt SIGTRAP]) cont (
              check_print (si_errno info = 0) (pre @ ''child si_errno == 0'')
                (printf (pre @ ''child si_errno(%d) != 0'') [AInt (si_errno info)]) cont (
              check_print (si_code info = snd trap) (pre @ ''child si_code == '' @ fst trap)
                (printf (pre @ ''child si_code(%d) != '' @ fst trap @ ''(%d)'') [AInt (si_code info), AInt (snd trap)]) cont (
              check_print (si_addr info = addr) (pre @ good)
                (exec (printf (pre @ bad) []) (\<lambda>_.
                 printf (pre @ ''expection:0x%lx, info.si_addr:0x%lx'') [AInt (uint addr), AInt (uint (si_addr info))])) cont f)))))
            else
              exec (printf (pre @ ''child is stopped by not SIGTRAP (%d).'') [AInt (uint (WEXITSTATUS status))]) (\<lambda>_. cont))
         else exec (printf (pre @ ''child is not stopped.'') []) (\<lambda>_. ret (-1)))
      else exec (perror (pre @ ''wait()'')) (\<lambda>_. ret (-1))))"

text \<open>The end of a parent: the child must have exited, with status 0 in the bits the macro looks at.\<close>

definition wait_child :: "('k, 'z) pt_os_scheme \<Rightarrow> int \<Rightarrow> ('k, string option) prog" where
  "wait_child K func_ret =
     exec (c_wait K) (\<lambda>(pid, status).
     if pid \<noteq> -1 then
       (if WEXITSTATUS status \<noteq> 0 then ret (Some ''TP failed.'')
        else if func_ret \<noteq> 0 then ret (Some ''TP failed.'')
        else ret None)
     else exec (perror ''wait()'') (\<lambda>_. ret (Some ''wait() failed.'')))"

definition fork_error :: "('k, string option) prog" where
  "fork_error = exec (perror ''fork()'') (\<lambda>_. ret (Some ''fork() failed.''))"

definition run_traced :: "('k, 'z) pt_os_scheme \<Rightarrow> ('k, int) prog \<Rightarrow> (int \<Rightarrow> ('k, int) prog) \<Rightarrow> ('k, string option) prog" where
  "run_traced K child parent =
     exec (c_fork K) (\<lambda>pid.
     if pid = -1 then fork_error
     else if pid = 0 then exec child (\<lambda>func_ret. stop (Exited func_ret))
     else exec (parent pid) (\<lambda>func_ret. wait_child K func_ret))"

text \<open>\<^verbatim>\<open>sizeof(sem_t)\<close> of the C library.\<close>

definition sem_size :: u64 where
  "sem_size = 32"

definition map_sem :: "('k, 'z) pt_os_scheme \<Rightarrow> ('k, u64) prog" where
  "map_sem K = mmap K 0 sem_size (PROT_READ OR PROT_WRITE) (MAP_SHARED OR MAP_ANONYMOUS) (-1) 0"

definition unmap_sems :: "('k, 'z) pt_os_scheme \<Rightarrow> u64 \<Rightarrow> u64 \<Rightarrow> ('k, int) prog" where
  "unmap_sems K cwait pwait =
     exec (munmap K cwait sem_size) (\<lambda>r1. exec (munmap K pwait sem_size) (\<lambda>r2. ret (r1 OR r2)))"

definition run_synced ::
    "('k, 'z) pt_os_scheme \<Rightarrow> (u64 \<Rightarrow> u64 \<Rightarrow> ('k, int) prog) \<Rightarrow> (u64 \<Rightarrow> u64 \<Rightarrow> int \<Rightarrow> ('k, int) prog) \<Rightarrow> ('k, string option) prog" where
  "run_synced K child parent =
     exec (map_sem K) (\<lambda>pwait.
     exec (map_sem K) (\<lambda>cwait.
     if pwait = MAP_FAILED \<or> cwait = MAP_FAILED then exec (perror ''mmap()'') (\<lambda>_. ret (Some ''mmap() failed.''))
     else
       exec (c_sem_init K pwait) (\<lambda>r1.
       exec (c_sem_init K cwait) (\<lambda>r2.
       if r1 OR r2 \<noteq> 0 then exec (perror ''sem_init()'') (\<lambda>_. ret (Some ''sem_init() failed.''))
       else
         exec (c_fork K) (\<lambda>pid.
         if pid = -1 then fork_error
         else if pid = 0 then
           exec (child cwait pwait) (\<lambda>func_ret.
           exec (unmap_sems K cwait pwait) (\<lambda>r.
           if r \<noteq> 0 then exec (perror ''[child] munmap()'') (\<lambda>_. stop (Exited (-1)))
           else stop (Exited func_ret)))
         else
           exec (parent pwait cwait pid) (\<lambda>func_ret.
           exec (unmap_sems K cwait pwait) (\<lambda>r.
           if r \<noteq> 0 then exec (perror ''[parent] munmap()'') (\<lambda>_. ret (Some ''munmap() failed.''))
           else wait_child K func_ret)))))))"

end
