(* ===== verification/Ptrace_Cases.thy ===== *)
theory Ptrace_Cases
  imports Ptrace_Lib Test_Drv
begin

text \<open>
  The 22 test cases of the \<^verbatim>\<open>ptrace\<close> suite, file by file: the child function, the parent function and the test function that forks
  and judges. \<^verbatim>\<open>goto cont\<close> is \<open>child_cont\<close> with \<open>-1\<close>, \<^verbatim>\<open>goto out\<close> is \<open>ret (-1)\<close>; a child that several files repeat is
  defined once. Case 21 goes through the device of the test driver.
\<close>

unbundle bit_operations_syntax

section \<open>Cases 0 to 7: requests and memory\<close>

definition ptrace_000 :: "('k, 'z) pt_os_scheme \<Rightarrow> ('k, string option) prog" where
  "ptrace_000 K =
     exec (c_fork K) (\<lambda>child_pid.
     if child_pid = -1 then ret (Some ''fork failed.'')
     else if child_pid = 0 then exec (\<lambda>s. (Val (), s\<lparr>kern := pt_sleep K 1 (kern s)\<rparr>)) (\<lambda>_. stop (Exited 0))
     else
       exec (c_ptrace K PTRACE_KILL child_pid 0 0) (\<lambda>result.
       exec get_errno (\<lambda>e.
       exec (printf ''ptrace()=%ld, errno=%d'' [AInt (sint result), AInt e]) (\<lambda>_.
       ret None))))"

definition child_001 :: "('k, 'z) pt_os_scheme \<Rightarrow> ('k, int) prog" where
  "child_001 K = traceme K (exec (brk_stop K ''inst_addr'') (\<lambda>_. ret 0))"

definition parent_001 :: "('k, 'z) pt_os_scheme \<Rightarrow> int \<Rightarrow> ('k, int) prog" where
  "parent_001 K cpid =
     wait_stopped K cpid (
     exec (printf ''child is stopped.'' []) (\<lambda>_.
     exec (rewrite_brk_inst K cpid ''inst_addr'') (\<lambda>_.
     child_cont K cpid 0)))"

definition ptrace_001 :: "('k, 'z) pt_os_scheme \<Rightarrow> ('k, string option) prog" where
  "ptrace_001 K = run_traced K (child_001 K) (parent_001 K)"

definition CHILD_MAGIC :: u64 where "CHILD_MAGIC = 0x1234567890abcdef"
definition PARENT_MAGIC :: u64 where "PARENT_MAGIC = 0xffaaffaaffaaffaa"

text \<open>Every parent but that of case 1 stops the test when the breakpoint cannot be rewritten.\<close>

definition after_brk :: "('k, 'z) pt_os_scheme \<Rightarrow> int \<Rightarrow> string \<Rightarrow> ('k, int) prog \<Rightarrow> ('k, int) prog" where
  "after_brk K cpid var f =
     wait_stopped K cpid (exec (rewrite_brk_inst K cpid var) (\<lambda>r. if r \<noteq> 0 then child_cont K cpid (-1) else f))"

definition child_002 :: "('k, 'z) pt_os_scheme \<Rightarrow> ('k, int) prog" where
  "child_002 K = traceme K (
     exec (set_word ''buf'' CHILD_MAGIC) (\<lambda>_.
     exec (brk_stop K ''inst_addr'') (\<lambda>_.
     exec (get_word ''buf'') (\<lambda>buf.
     if buf \<noteq> CHILD_MAGIC then exec (printf ''why child process buf rewrite ??? (0x%lx)'' [AInt (uint buf)]) (\<lambda>_. ret (-1))
     else ret 0))))"

definition parent_002 :: "('k, 'z) pt_os_scheme \<Rightarrow> int \<Rightarrow> ('k, int) prog" where
  "parent_002 K cpid =
     exec (set_word ''buf'' PARENT_MAGIC) (\<lambda>_.
     after_brk K cpid ''inst_addr'' (
     with_peek (c_peek K PTRACE_PEEKDATA cpid (pt_var K ''buf'')) ''ptrace(PTRACE_PEEKDATA)'' (child_cont K cpid (-1)) (\<lambda>read_val.
     exec (get_word ''buf'') (\<lambda>buf.
     if buf \<noteq> PARENT_MAGIC then
       exec (printf ''why parent process buf rewrite ??? (0x%lx)'' [AInt (uint buf)]) (\<lambda>_. child_cont K cpid (-1))
     else if read_val = CHILD_MAGIC then
       exec (printf ''PTRACE_PEEKDATA read_val(0x%lx) == 0x%lx'' [AInt (uint read_val), AInt (uint CHILD_MAGIC)]) (\<lambda>_. child_cont K cpid 0)
     else
       exec (printf ''PTRACE_PEEKDATA read_val(0x%lx) != 0x%lx'' [AInt (uint read_val), AInt (uint CHILD_MAGIC)]) (\<lambda>_. child_cont K cpid (-1))))))"

definition ptrace_002 :: "('k, 'z) pt_os_scheme \<Rightarrow> ('k, string option) prog" where
  "ptrace_002 K = run_traced K (child_002 K) (parent_002 K)"

definition child_003 :: "('k, 'z) pt_os_scheme \<Rightarrow> ('k, int) prog" where
  "child_003 K = traceme K (
     exec (get_or_do_inst K MODE_GET_INST_ADDR) (\<lambda>a.
     exec (set_word ''addr'' a) (\<lambda>_.
     exec (brk_stop K ''inst_addr'') (\<lambda>_.
     ret 0))))"

definition parent_003 :: "('k, 'z) pt_os_scheme \<Rightarrow> int \<Rightarrow> ('k, int) prog" where
  "parent_003 K cpid =
     after_brk K cpid ''inst_addr'' (
     with_peek (c_peek K PTRACE_PEEKDATA cpid (pt_var K ''addr'')) ''ptrace(PTRACE_PEEKDATA)'' (child_cont K cpid (-1)) (\<lambda>read_val.
     with_peek (c_peek K PTRACE_PEEKTEXT cpid read_val) ''ptrace(PTRACE_PEEKTEXT)'' (child_cont K cpid (-1)) (\<lambda>read_val.
     let inst_code = ucast (drop_bit 32 read_val) :: u32 in
     if ucast inst_code = NOP_INST then
       exec (printf ''PTRACE_PEEKTEXT inst_code(0x%x) == 0x%lx'' [AInt (uint inst_code), AInt (uint NOP_INST)]) (\<lambda>_. child_cont K cpid 0)
     else
       exec (printf ''PTRACE_PEEKTEXT inst_code(0x%x) != 0x%lx'' [AInt (uint inst_code), AInt (uint NOP_INST)]) (\<lambda>_. child_cont K cpid (-1)))))"

definition ptrace_003 :: "('k, 'z) pt_os_scheme \<Rightarrow> ('k, string option) prog" where
  "ptrace_003 K = run_traced K (child_003 K) (parent_003 K)"

text \<open>A request on the user area, which must be rejected: cases 4 and 7.\<close>

definition expect_eio :: "('k, 'z) pt_os_scheme \<Rightarrow> int \<Rightarrow> ('k, u64) prog \<Rightarrow> string \<Rightarrow> ('k, int) prog" where
  "expect_eio K cpid m name =
     exec m (\<lambda>read_val.
     exec get_errno (\<lambda>e.
     if read_val \<noteq> -1 \<and> e = 0 then exec (printf (''ptrace('' @ name @ '') why successed ???'') []) (\<lambda>_. child_cont K cpid (-1))
     else if e = EIO then exec (printf (''ptrace('' @ name @ '') expected errno EIO(%d) catch'') [AInt EIO]) (\<lambda>_. child_cont K cpid 0)
     else
       exec (printf (''ptrace('' @ name @ '') unexpected errno(%d)'') [AInt e]) (\<lambda>_.
       exec (printf ''expected errno = EIO(%d)'' [AInt EIO]) (\<lambda>_. child_cont K cpid (-1)))))"

definition parent_004 :: "('k, 'z) pt_os_scheme \<Rightarrow> int \<Rightarrow> ('k, int) prog" where
  "parent_004 K cpid = after_brk K cpid ''inst_addr'' (expect_eio K cpid (c_peek K PTRACE_PEEKUSER cpid 0) ''PTRACE_PEEKUSER'')"

definition ptrace_004 :: "('k, 'z) pt_os_scheme \<Rightarrow> ('k, string option) prog" where
  "ptrace_004 K = run_traced K (child_001 K) (parent_004 K)"

definition child_005 :: "('k, 'z) pt_os_scheme \<Rightarrow> ('k, int) prog" where
  "child_005 K = traceme K (
     exec (set_word ''buf'' CHILD_MAGIC) (\<lambda>_.
     exec (get_word ''buf'') (\<lambda>buf.
     exec (printf ''before PTRACE_POKEDATA buf(0x%lx)'' [AInt (uint buf)]) (\<lambda>_.
     exec (brk_stop K ''inst_addr'') (\<lambda>_.
     exec (get_word ''buf'') (\<lambda>buf.
     if buf = PARENT_MAGIC then exec (printf ''after PTRACE_POKEDATA buf(0x%lx) == 0x%lx'' [AInt (uint buf), AInt (uint PARENT_MAGIC)]) (\<lambda>_. ret 0)
     else exec (printf ''after PTRACE_POKEDATA buf(0x%lx) != 0x%lx'' [AInt (uint buf), AInt (uint PARENT_MAGIC)]) (\<lambda>_. ret (-1))))))))"

definition parent_005 :: "('k, 'z) pt_os_scheme \<Rightarrow> int \<Rightarrow> ('k, int) prog" where
  "parent_005 K cpid =
     exec (set_word ''buf'' CHILD_MAGIC) (\<lambda>_.
     after_brk K cpid ''inst_addr'' (
     with_req (c_ptrace K PTRACE_POKEDATA cpid (pt_var K ''buf'') PARENT_MAGIC) ''ptrace(PTRACE_POKEDATA)'' (child_cont K cpid (-1)) (
     exec (get_word ''buf'') (\<lambda>buf.
     if buf \<noteq> CHILD_MAGIC then
       exec (printf ''why parent process buf rewrite ??? (0x%lx)'' [AInt (uint buf)]) (\<lambda>_. child_cont K cpid (-1))
     else child_cont K cpid 0))))"

definition ptrace_005 :: "('k, 'z) pt_os_scheme \<Rightarrow> ('k, string option) prog" where
  "ptrace_005 K = run_traced K (child_005 K) (parent_005 K)"

definition do_inst_child :: "('k, 'z) pt_os_scheme \<Rightarrow> string \<Rightarrow> ('k, int) prog" where
  "do_inst_child K var = traceme K (
     exec (get_or_do_inst K MODE_GET_INST_ADDR) (\<lambda>a.
     exec (set_word ''addr'' a) (\<lambda>_.
     if a = -1 then exec (printf ''get_or_do_rewrite_inst(MODE_GET_INST_ADDR) failed.'' []) (\<lambda>_. ret (-1))
     else
       exec (brk_stop K var) (\<lambda>_.
       exec (get_or_do_inst K MODE_DO_INST) (\<lambda>r.
       if r \<noteq> 0 then exec (printf ''get_or_do_rewrite_inst(MODE_DO_INST) failed.'' []) (\<lambda>_. ret (-1))
       else ret 0)))))"

definition child_006 :: "('k, 'z) pt_os_scheme \<Rightarrow> ('k, int) prog" where
  "child_006 K = do_inst_child K ''inst_addr''"

text \<open>
  Cases 6 and 17 write a breakpoint over the instruction at the address the child stored and let the child run into it. What they
  test after the second peek is the first value.
\<close>

definition plant_brk :: "('k, 'z) pt_os_scheme \<Rightarrow> int \<Rightarrow> (u64 \<Rightarrow> u64 \<Rightarrow> ('k, int) prog) \<Rightarrow> ('k, int) prog" where
  "plant_brk K cpid f =
     with_peek (c_peek K PTRACE_PEEKDATA cpid (pt_var K ''addr'')) ''ptrace(PTRACE_PEEKDATA)'' (child_cont K cpid (-1)) (\<lambda>read_val.
     exec (c_peek K PTRACE_PEEKTEXT cpid read_val) (\<lambda>inst_val.
     exec get_errno (\<lambda>e.
     if read_val = -1 \<and> e \<noteq> 0 then exec (perror ''ptrace(PTRACE_PEEKTEXT)'') (\<lambda>_. child_cont K cpid (-1))
     else
       with_req (c_ptrace K PTRACE_POKETEXT cpid read_val ((inst_val AND 0xffffffff00000000) OR BRK_INST)) ''ptrace(PTRACE_POKETEXT)''
         (child_cont K cpid (-1)) (
       with_req (c_ptrace K PTRACE_CONT cpid 0 0) ''ptrace(PTRACE_CONT)'' (ret (-1)) (
       f read_val inst_val)))))"

definition parent_006 :: "('k, 'z) pt_os_scheme \<Rightarrow> int \<Rightarrow> ('k, int) prog" where
  "parent_006 K cpid =
     after_brk K cpid ''inst_addr'' (
     plant_brk K cpid (\<lambda>read_val inst_val.
     trap_stop K '''' cpid (''TRAP_BRKPT'', TRAP_BRKPT) read_val ''child is stopped change TEXT addr.'' ''child is stopped not change TEXT addr.'' (
     with_req (c_ptrace K PTRACE_POKETEXT cpid read_val inst_val) ''ptrace(PTRACE_POKETEXT)'' (child_cont K cpid (-1)) (
     child_cont K cpid 0))))"

definition ptrace_006 :: "('k, 'z) pt_os_scheme \<Rightarrow> ('k, string option) prog" where
  "ptrace_006 K = run_traced K (child_006 K) (parent_006 K)"

definition parent_007 :: "('k, 'z) pt_os_scheme \<Rightarrow> int \<Rightarrow> ('k, int) prog" where
  "parent_007 K cpid = after_brk K cpid ''inst_addr'' (expect_eio K cpid (c_ptrace K PTRACE_POKEUSER cpid 0 0) ''PTRACE_POKEUSER'')"

definition ptrace_007 :: "('k, 'z) pt_os_scheme \<Rightarrow> ('k, string option) prog" where
  "ptrace_007 K = run_traced K (child_001 K) (parent_007 K)"

section \<open>Cases 8 to 17: registers, signals, options, stepping\<close>

definition child_008 :: "('k, 'z) pt_os_scheme \<Rightarrow> ('k, int) prog" where
  "child_008 K = traceme K (exec (pre_getregset K) (\<lambda>_. exec (brk_stop K ''inst_addr'') (\<lambda>_. ret 0)))"

definition parent_008 :: "('k, 'z) pt_os_scheme \<Rightarrow> int \<Rightarrow> ('k, int) prog" where
  "parent_008 K cpid =
     after_brk K cpid ''inst_addr'' (
     exec (getregset_check K cpid) (\<lambda>r.
     if r \<noteq> 0 then exec (printf ''getregset_check failed.'' []) (\<lambda>_. child_cont K cpid (-1))
     else child_cont K cpid 0))"

definition ptrace_008 :: "('k, 'z) pt_os_scheme \<Rightarrow> ('k, string option) prog" where
  "ptrace_008 K = run_traced K (child_008 K) (parent_008 K)"

definition child_009 :: "('k, 'z) pt_os_scheme \<Rightarrow> u64 \<Rightarrow> u64 \<Rightarrow> ('k, int) prog" where
  "child_009 K swait swake = traceme K (exec (c_sem_post K swake) (\<lambda>_. exec (c_sem_wait K swait) (\<lambda>_. ret 0)))"

definition parent_009 :: "('k, 'z) pt_os_scheme \<Rightarrow> u64 \<Rightarrow> u64 \<Rightarrow> int \<Rightarrow> ('k, int) prog" where
  "parent_009 K swait swake cpid =
     exec (c_sem_wait K swait) (\<lambda>_.
     with_set (c_kill K cpid SIGSTOP) ''kill()'' (ret (-1)) (
     exec (c_sem_post K swake) (\<lambda>_.
     wait_stopped K cpid (
     with_got (get_call PTRACE_GETSIGINFO cpid 0 (pt_getsiginfo K cpid)) ''ptrace(PTRACE_GETSIGINFO)'' (child_cont K cpid (-1)) (\<lambda>info.
     exec (printf ''si_signo = 0x%x'' [AInt (si_signo info)]) (\<lambda>_.
     exec (printf ''si_errno = 0x%x'' [AInt (si_errno info)]) (\<lambda>_.
     exec (printf ''si_code  = 0x%x'' [AInt (si_code info)]) (\<lambda>_.
     if si_signo info \<noteq> SIGSTOP then
       exec (printf ''si_signo value invalid, expection SIGSTOP(0x%x)'' [AInt SIGSTOP]) (\<lambda>_. child_cont K cpid (-1))
     else if si_errno info \<noteq> 0 then exec (printf ''si_errno value invalid, expection 0'' []) (\<lambda>_. child_cont K cpid (-1))
     else if si_code info \<noteq> 0 then exec (printf ''si_code value invalid, expection 0'' []) (\<lambda>_. child_cont K cpid (-1))
     else child_cont K cpid 0))))))))"

definition ptrace_009 :: "('k, 'z) pt_os_scheme \<Rightarrow> ('k, string option) prog" where
  "ptrace_009 K = run_synced K (child_009 K) (parent_009 K)"

text \<open>
  \<^verbatim>\<open>register_read\<close> stores registers 0 to 29 into the zeroed array. Its assembly statement names the pointer as an output, so the
  address it stores to is the one the compiler left in the register it picked; what ends up in the array is the parameter \<open>pt_gpr\<close>.
\<close>

definition register_read :: "('k, 'z) pt_os_scheme \<Rightarrow> ('k, nat \<Rightarrow> u64) prog" where
  "register_read K s = (Val (\<lambda>i. if i < 30 then pt_gpr K (kern s) i else 0), s)"

definition child_010 :: "('k, 'z) pt_os_scheme \<Rightarrow> ('k, int) prog" where
  "child_010 K = traceme K (
     exec (pre_getregset K) (\<lambda>_.
     exec (brk_stop K ''inst_addr'') (\<lambda>_.
     exec (register_read K) (\<lambda>gregs.
     exec (get_word ''regno[0]'') (\<lambda>gregno.
     exec (get_word ''regno[1]'') (\<lambda>fregno.
     exec (setregset_child_check K gregno fregno gregs) (\<lambda>r.
     if r \<noteq> 0 then exec (printf ''setregset_child_check failed.'' []) (\<lambda>_. ret (-1))
     else ret 0)))))))"

definition parent_010 :: "('k, 'z) pt_os_scheme \<Rightarrow> int \<Rightarrow> ('k, int) prog" where
  "parent_010 K cpid =
     after_brk K cpid ''inst_addr'' (
     exec (setregset_check K cpid) (\<lambda>r.
     if r \<noteq> 0 then exec (printf ''setregset_check failed.'' []) (\<lambda>_. child_cont K cpid (-1))
     else
       exec (get_word ''regno[0]'') (\<lambda>gregno.
       with_req (c_ptrace K PTRACE_POKEDATA cpid (pt_var K ''regno[0]'') gregno) ''ptrace(PTRACE_POKEDATA)'' (child_cont K cpid (-1)) (
       exec (get_word ''regno[1]'') (\<lambda>fregno.
       with_req (c_ptrace K PTRACE_POKEDATA cpid (pt_var K ''regno[1]'') fregno) ''ptrace(PTRACE_POKEDATA)'' (child_cont K cpid (-1)) (
       child_cont K cpid 0))))))"

definition ptrace_010 :: "('k, 'z) pt_os_scheme \<Rightarrow> ('k, string option) prog" where
  "ptrace_010 K = run_traced K (child_010 K) (parent_010 K)"

definition child_011 :: "('k, 'z) pt_os_scheme \<Rightarrow> ('k, int) prog" where
  "child_011 K = traceme K (
     exec (get_or_do_store_inst K MODE_GET_INST_ADDR None 0) (\<lambda>a.
     exec (set_word ''addr'' a) (\<lambda>_.
     if a = -1 then exec (printf ''get_or_do_store_inst(MODE_GET_INST_ADDR) failed.'' []) (\<lambda>_. ret (-1))
     else
       exec (brk_stop K ''g_inst_addr'') (\<lambda>_.
       exec (get_or_do_store_inst K MODE_DO_STORE_INST (Some ''buf'') 0xcafecafecafecafe) (\<lambda>r.
       if r \<noteq> 0 then exec (printf ''get_or_do_store_inst(MODE_DO_STORE_INST) failed.'' []) (\<lambda>_. ret (-1))
       else ret 0)))))"

text \<open>Cases 11 and 12 arm a debug register and let the child run into it.\<close>

definition armed :: "('k, 'z) pt_os_scheme \<Rightarrow> int \<Rightarrow> (u64 \<Rightarrow> ('k, int) prog) \<Rightarrow> string \<Rightarrow> (u64 \<Rightarrow> ('k, int) prog) \<Rightarrow> ('k, int) prog" where
  "armed K cpid arm msg f =
     with_peek (c_peek K PTRACE_PEEKDATA cpid (pt_var K ''addr'')) ''ptrace(PTRACE_PEEKDATA)'' (child_cont K cpid (-1)) (\<lambda>inst_addr.
     exec (arm inst_addr) (\<lambda>r.
     if r \<noteq> 0 then exec (printf msg []) (\<lambda>_. child_cont K cpid (-1))
     else with_req (c_ptrace K PTRACE_CONT cpid 0 0) ''ptrace(PTRACE_CONT)'' (ret (-1)) (f inst_addr)))"

definition parent_011 :: "('k, 'z) pt_os_scheme \<Rightarrow> int \<Rightarrow> ('k, int) prog" where
  "parent_011 K cpid =
     after_brk K cpid ''g_inst_addr'' (
     armed K cpid (\<lambda>_. set_hw_watchpt K cpid (pt_var K ''buf'')) ''set_hw_watchpt failed.'' (\<lambda>inst_addr.
     trap_stop K '''' cpid (''TRAP_HWBKPT'', TRAP_HWBKPT) (pt_var K ''buf'') ''child si_addr == change value addr'' ''child si_addr != change value addr'' (
     exec (check_trap_addr K cpid inst_addr) (\<lambda>r.
     if r \<noteq> 0 then exec (printf ''check_trap_addr failed.'' []) (\<lambda>_. child_cont K cpid (-1))
     else
       exec (clear_hw_watchpt K cpid) (\<lambda>r.
       if r \<noteq> 0 then exec (printf ''clear_hw_watchpt failed.'' []) (\<lambda>_. child_cont K cpid (-1))
       else child_cont K cpid 0)))))"

definition ptrace_011 :: "('k, 'z) pt_os_scheme \<Rightarrow> ('k, string option) prog" where
  "ptrace_011 K = run_traced K (child_011 K) (parent_011 K)"

definition child_012 :: "('k, 'z) pt_os_scheme \<Rightarrow> ('k, int) prog" where
  "child_012 K = do_inst_child K ''g_inst_addr''"

definition parent_012 :: "('k, 'z) pt_os_scheme \<Rightarrow> int \<Rightarrow> ('k, int) prog" where
  "parent_012 K cpid =
     after_brk K cpid ''g_inst_addr'' (
     armed K cpid (\<lambda>inst_addr. set_hw_breakpt K cpid inst_addr) ''set_hw_breakpt failed.'' (\<lambda>inst_addr.
     trap_stop K '''' cpid (''TRAP_HWBKPT'', TRAP_HWBKPT) inst_addr ''child si_addr == hwbreakpoint addr'' ''child si_addr != hwbreakpoint addr'' (
     exec (clear_hw_breakpt K cpid) (\<lambda>r.
     if r \<noteq> 0 then exec (printf ''clear_hw_breakpt failed.'' []) (\<lambda>_. child_cont K cpid (-1))
     else child_cont K cpid 0))))"

definition ptrace_012 :: "('k, 'z) pt_os_scheme \<Rightarrow> ('k, string option) prog" where
  "ptrace_012 K = run_traced K (child_012 K) (parent_012 K)"

text \<open>The fields of \<^verbatim>\<open>write_info\<close> that are not set are left undefined by the code; \<open>junk\<close> stands for the address.\<close>

definition parent_013 :: "('k, 'z) pt_os_scheme \<Rightarrow> u64 \<Rightarrow> int \<Rightarrow> ('k, int) prog" where
  "parent_013 K junk cpid =
     after_brk K cpid ''inst_addr'' (
     with_got (get_call PTRACE_GETSIGINFO cpid 0 (pt_getsiginfo K cpid)) ''ptrace(PTRACE_GETSIGINFO)'' (child_cont K cpid (-1)) (\<lambda>org_info.
     let write_info = \<lparr>si_signo = si_signo org_info + 1, si_errno = si_errno org_info + 1, si_code = si_code org_info + 1, si_addr = junk\<rparr> in
     with_set (set_call PTRACE_SETSIGINFO cpid 0 (pt_setsiginfo K cpid write_info)) ''ptrace(PTRACE_SETSIGINFO)'' (child_cont K cpid (-1)) (
     with_got (get_call PTRACE_GETSIGINFO cpid 0 (pt_getsiginfo K cpid)) ''ptrace(PTRACE_GETSIGINFO)'' (child_cont K cpid (-1)) (\<lambda>tmp_info.
     if si_signo write_info \<noteq> si_signo tmp_info then exec (printf ''si_signo not change.'' []) (\<lambda>_. child_cont K cpid (-1))
     else if si_errno write_info \<noteq> si_errno tmp_info then exec (printf ''si_errno not change.'' []) (\<lambda>_. child_cont K cpid (-1))
     else if si_code write_info \<noteq> si_code tmp_info then exec (printf ''si_code not change.'' []) (\<lambda>_. child_cont K cpid (-1))
     else
       exec (printf ''siginfo change value check OK.'' []) (\<lambda>_.
       with_set (set_call PTRACE_SETSIGINFO cpid 0 (pt_setsiginfo K cpid org_info)) ''ptrace(PTRACE_SETSIGINFO)'' (child_cont K cpid (-1)) (
       child_cont K cpid 0))))))"

definition ptrace_013 :: "('k, 'z) pt_os_scheme \<Rightarrow> u64 \<Rightarrow> ('k, string option) prog" where
  "ptrace_013 K junk = run_traced K (child_001 K) (parent_013 K junk)"

definition PTRACE_O_TRACESYSGOOD :: u64 where "PTRACE_O_TRACESYSGOOD = 1"
definition PTRACE_O_TRACEFORK :: u64 where "PTRACE_O_TRACEFORK = 2"
definition PTRACE_O_TRACEVFORK :: u64 where "PTRACE_O_TRACEVFORK = 4"
definition PTRACE_O_TRACECLONE :: u64 where "PTRACE_O_TRACECLONE = 8"
definition PTRACE_O_TRACEEXEC :: u64 where "PTRACE_O_TRACEEXEC = 0x10"
definition PTRACE_O_TRACEVFORKDONE :: u64 where "PTRACE_O_TRACEVFORKDONE = 0x20"

definition parent_014 :: "('k, 'z) pt_os_scheme \<Rightarrow> int \<Rightarrow> ('k, int) prog" where
  "parent_014 K cpid =
     (let options = PTRACE_O_TRACESYSGOOD OR PTRACE_O_TRACEFORK OR PTRACE_O_TRACEVFORK OR PTRACE_O_TRACECLONE OR PTRACE_O_TRACEEXEC
        OR PTRACE_O_TRACEVFORKDONE in
     after_brk K cpid ''inst_addr'' (
     with_req (c_ptrace K PTRACE_SETOPTIONS cpid 0 options) ''ptrace(PTRACE_SETOPTIONS)'' (child_cont K cpid (-1)) (
     exec (printf ''set supported options, OK.'' []) (\<lambda>_.
     exec (c_ptrace K PTRACE_SETOPTIONS cpid 0 0x1234567890abcdef) (\<lambda>r.
     if r = 0 then exec (printf ''ptrace(PTRACE_SETOPTIONS) why successed illigal option ???'' []) (\<lambda>_. child_cont K cpid (-1))
     else
       exec get_errno (\<lambda>e.
       if e = EINVAL then exec (printf ''set illigal option, errno == EINVAL.'' []) (\<lambda>_. child_cont K cpid 0)
       else exec (printf ''set illigal option, errno(%d) != EINVAL(%d).'' [AInt e, AInt EINVAL]) (\<lambda>_. child_cont K cpid (-1))))))))"

definition ptrace_014 :: "('k, 'z) pt_os_scheme \<Rightarrow> ('k, string option) prog" where
  "ptrace_014 K = run_traced K (child_001 K) (parent_014 K)"

definition child_015 :: "('k, 'z) pt_os_scheme \<Rightarrow> ('k, int) prog" where
  "child_015 K = traceme K (
     exec (brk_stop K ''inst_addr'') (\<lambda>_.
     exec (c_fork K) (\<lambda>gcpid.
     if gcpid = -1 then exec (perror ''grandchild fork()'') (\<lambda>_. ret (-1))
     else if gcpid = 0 then stop (Exited 0)
     else
       exec (set_word ''eventpid'' (of_int gcpid)) (\<lambda>_.
       exec (get_word ''eventpid'') (\<lambda>eventpid.
       exec (printf ''eventpid = 0x%lx'' [AInt (uint eventpid)]) (\<lambda>_.
       exec (brk_stop K ''inst_addr'') (\<lambda>_.
       ret 0)))))))"

definition parent_015 :: "('k, 'z) pt_os_scheme \<Rightarrow> int \<Rightarrow> ('k, int) prog" where
  "parent_015 K cpid =
     after_brk K cpid ''inst_addr'' (
     with_req (c_ptrace K PTRACE_SETOPTIONS cpid 0 PTRACE_O_TRACEFORK) ''ptrace(PTRACE_SETOPTIONS)'' (child_cont K cpid (-1)) (
     with_req (c_ptrace K PTRACE_CONT cpid 0 0) ''ptrace(PTRACE_CONT)'' (ret (-1)) (
     wait_stopped K cpid (
     with_req (c_ptrace K PTRACE_CONT cpid 0 0) ''ptrace(PTRACE_CONT)'' (ret (-1)) (
     exec (c_waitpid K cpid) (\<lambda>r.
     stopped_or r cpid (\<lambda>_.
     exec (rewrite_brk_inst K cpid ''inst_addr'') (\<lambda>r.
     if r \<noteq> 0 then child_cont K cpid (-1)
     else
       with_peek (c_peek K PTRACE_PEEKDATA cpid (pt_var K ''eventpid'')) ''ptrace(PTRACE_PEEKDATA)'' (child_cont K cpid (-1)) (\<lambda>read_val.
       with_got (get_call PTRACE_GETEVENTMSG cpid 0 (pt_geteventmsg K cpid)) ''ptrace(PTRACE_GETEVENTMSG)'' (child_cont K cpid (-1)) (\<lambda>eventmsg.
       if read_val = eventmsg then
         exec (printf ''eventmsg value OK.'' []) (\<lambda>_.
         exec (c_kill K (sint (ucast eventmsg :: u32)) SIGKILL) (\<lambda>_.
         child_cont K cpid 0))
       else
         exec (printf ''eventmsg value NG.'' []) (\<lambda>_.
         exec (printf ''expection:0x%lx eventmsg:0x%lx'' [AInt (uint read_val), AInt (uint eventmsg)]) (\<lambda>_.
         child_cont K cpid (-1)))))))))))))"

definition ptrace_015 :: "('k, 'z) pt_os_scheme \<Rightarrow> ('k, string option) prog" where
  "ptrace_015 K = run_traced K (child_015 K) (parent_015 K)"

text \<open>The number of the system call \<^verbatim>\<open>getpid\<close> on arm64.\<close>

definition NR_getpid :: int where
  "NR_getpid = 172"

definition child_016 :: "('k, 'z) pt_os_scheme \<Rightarrow> ('k, int) prog" where
  "child_016 K = traceme K (exec (brk_stop K ''inst_addr'') (\<lambda>_. exec (insns K ''getpid'') (\<lambda>_. ret 0)))"

definition parent_016 :: "('k, 'z) pt_os_scheme \<Rightarrow> int \<Rightarrow> ('k, int) prog" where
  "parent_016 K cpid =
     after_brk K cpid ''inst_addr'' (
     with_req (c_ptrace K PTRACE_SYSCALL cpid 0 0) ''ptrace(PTRACE_SYSCALL)'' (child_cont K cpid (-1)) (
     wait_stopped K cpid (
     exec (get_check_syscallno K cpid NR_getpid) (\<lambda>r.
     if r \<noteq> 0 then exec (printf ''get_check_syscallno failed.'' []) (\<lambda>_. child_cont K cpid (-1))
     else child_cont K cpid 0))))"

definition ptrace_016 :: "('k, 'z) pt_os_scheme \<Rightarrow> ('k, string option) prog" where
  "ptrace_016 K = run_traced K (child_016 K) (parent_016 K)"

definition child_017 :: "('k, 'z) pt_os_scheme \<Rightarrow> ('k, int) prog" where
  "child_017 K = do_inst_child K ''inst_addr''"

fun step_loop :: "('k, 'z) pt_os_scheme \<Rightarrow> int \<Rightarrow> nat \<Rightarrow> nat \<Rightarrow> u64 \<Rightarrow> ('k, int) prog" where
  "step_loop K cpid i 0 read_val = child_cont K cpid 0"
| "step_loop K cpid i (Suc n) read_val =
     exec (printf ''[count%02d]'' [AInt (int i)]) (\<lambda>_.
     with_req (c_ptrace K PTRACE_SINGLESTEP cpid 0 0) ''  ptrace(PTRACE_SINGLESTEP)'' (child_cont K cpid (-1)) (
     trap_stop K ''  '' cpid (''TRAP_HWBKPT'', TRAP_HWBKPT) read_val ''child is stopped singlestep addr.'' ''child is stopped not singlestep addr.'' (
     step_loop K cpid (Suc i) n (read_val + 4))))"

definition parent_017 :: "('k, 'z) pt_os_scheme \<Rightarrow> int \<Rightarrow> ('k, int) prog" where
  "parent_017 K cpid =
     after_brk K cpid ''inst_addr'' (
     plant_brk K cpid (\<lambda>read_val inst_val.
     exec (c_wait K) (\<lambda>r.
     stopped_or r cpid (\<lambda>status.
     if uint (WEXITSTATUS status) \<noteq> SIGTRAP then
       exec (printf ''child is stopped by not SIGTRAP (%d).'' [AInt (uint (WEXITSTATUS status))]) (\<lambda>_. child_cont K cpid (-1))
     else
       with_req (c_ptrace K PTRACE_POKETEXT cpid read_val inst_val) ''ptrace(PTRACE_POKETEXT)'' (child_cont K cpid (-1)) (
       step_loop K cpid 0 5 (read_val + 4))))))"

definition ptrace_017 :: "('k, 'z) pt_os_scheme \<Rightarrow> ('k, string option) prog" where
  "ptrace_017 K = run_traced K (child_017 K) (parent_017 K)"

section \<open>Cases 18 to 21: killing, attaching, device memory\<close>

definition parent_018 :: "('k, 'z) pt_os_scheme \<Rightarrow> int \<Rightarrow> ('k, int) prog" where
  "parent_018 K cpid =
     wait_stopped K cpid (
     exec (rewrite_brk_inst K cpid ''inst_addr'') (\<lambda>_.
     with_req (c_ptrace K PTRACE_KILL cpid 0 0) ''ptrace(PTRACE_KILL)'' (ret (-1)) (
     ret 0)))"

definition ptrace_018 :: "('k, 'z) pt_os_scheme \<Rightarrow> ('k, string option) prog" where
  "ptrace_018 K =
     exec (c_fork K) (\<lambda>pid.
     if pid = -1 then fork_error
     else if pid = 0 then exec (child_001 K) (\<lambda>func_ret. stop (Exited func_ret))
     else
       exec (parent_018 K pid) (\<lambda>func_ret.
       exec (c_wait K) (\<lambda>(pid, status).
       if pid \<noteq> -1 then
         (if WIFSIGNALED status then
            (if uint (WTERMSIG status) \<noteq> SIGKILL then ret (Some ''child is not terminated by SIGKILL'')
             else exec (printf ''child terminated by SIGKILL'' []) (\<lambda>_. if func_ret \<noteq> 0 then ret (Some ''TP failed.'') else ret None))
          else ret (Some ''child is not terminated by signal''))
       else exec (perror ''wait()'') (\<lambda>_. ret (Some ''wait() failed.'')))))"

definition child_019 :: "('k, 'z) pt_os_scheme \<Rightarrow> u64 \<Rightarrow> u64 \<Rightarrow> ('k, int) prog" where
  "child_019 K swait swake = exec (c_sem_post K swake) (\<lambda>_. exec (c_sem_wait K swait) (\<lambda>_. ret 0))"

definition attach :: "('k, 'z) pt_os_scheme \<Rightarrow> u64 \<Rightarrow> u64 \<Rightarrow> int \<Rightarrow> ('k, int) prog \<Rightarrow> ('k, int) prog" where
  "attach K swait swake cpid f =
     exec (c_sem_wait K swait) (\<lambda>_.
     with_req (c_ptrace K PTRACE_ATTACH cpid 0 0) ''ptrace(PTRACE_ATTACH)'' (ret (-1)) (
     exec (c_sem_post K swake) (\<lambda>_.
     wait_stopped K cpid f)))"

definition parent_019 :: "('k, 'z) pt_os_scheme \<Rightarrow> u64 \<Rightarrow> u64 \<Rightarrow> int \<Rightarrow> ('k, int) prog" where
  "parent_019 K swait swake cpid = attach K swait swake cpid (exec (printf ''child is stopped.'' []) (\<lambda>_. child_cont K cpid 0))"

definition ptrace_019 :: "('k, 'z) pt_os_scheme \<Rightarrow> ('k, string option) prog" where
  "ptrace_019 K = run_synced K (child_019 K) (parent_019 K)"

definition parent_020 :: "('k, 'z) pt_os_scheme \<Rightarrow> u64 \<Rightarrow> u64 \<Rightarrow> int \<Rightarrow> ('k, int) prog" where
  "parent_020 K swait swake cpid =
     attach K swait swake cpid (
     with_req (c_ptrace K PTRACE_DETACH cpid 0 0) ''ptrace(PTRACE_DETACH)'' (ret (-1)) (
     exec (printf ''child detach OK.'' []) (\<lambda>_.
     ret 0)))"

definition ptrace_020 :: "('k, 'z) pt_os_scheme \<Rightarrow> ('k, string option) prog" where
  "ptrace_020 K = run_synced K (child_019 K) (parent_020 K)"

definition MAP_POPULATE :: u32 where "MAP_POPULATE = 0x8000"

definition c_ioctl :: "('k, 'z) pt_os_scheme \<Rightarrow> int \<Rightarrow> u32 \<Rightarrow> ('k, int) prog" where
  "c_ioctl K fd cmd = sys_int (Lib ''ioctl'') [AInt fd, AInt (uint cmd)] (pt_ioctl K fd cmd)"

definition c_pipe :: "('k, 'z) pt_os_scheme \<Rightarrow> ('k, int \<times> int \<times> int) prog" where
  "c_pipe K = sys_call (Lib ''pipe'') [] fst (-1, -1, -1)
     (\<lambda>k. case pt_pipe K k of (Inl e, k') \<Rightarrow> (Inl e, k') | (Inr (r, w), k') \<Rightarrow> (Inr (0, r, w), k'))"

fun load_bytes :: "('k, 'z) vm_os_scheme \<Rightarrow> u64 \<Rightarrow> nat \<Rightarrow> ('k, byte list) prog" where
  "load_bytes K a 0 = ret []"
| "load_bytes K a (Suc n) = exec (load K a) (\<lambda>b. exec (load_bytes K (a + 1) n) (\<lambda>bs. ret (b # bs)))"

definition string_bytes :: "string \<Rightarrow> byte list" where
  "string_bytes x = map (\<lambda>c. of_nat (of_char c)) x"

text \<open>The array \<open>addr\<close>: the address in hexadecimal notation and zeros, 32 bytes in all.\<close>

definition addr_size :: nat where
  "addr_size = 32"

definition addr_bytes :: "u64 \<Rightarrow> byte list" where
  "addr_bytes a = (let x = string_bytes (''0x'' @ show_base 16 (unat a)) in x @ replicate (addr_size - length x) 0)"

definition read_addr :: "byte list \<Rightarrow> u64" where
  "read_addr bs = fst (strtoul 0 (map (\<lambda>b. char_of (unat b)) (takeWhile (\<lambda>b. b \<noteq> 0) bs)))"

definition child_021 :: "('k, 'z) pt_os_scheme \<Rightarrow> page_config \<Rightarrow> int \<Rightarrow> ('k, string option) prog" where
  "child_021 K cfg writefd =
     exec (c_open K ''/dev/test_mck/mmap_dev2'' O_RDWR) (\<lambda>devfd.
     tp_assert (devfd \<noteq> -1) (Some ''open mmap_dev2 error.'') (
     exec (c_ioctl K devfd TEST_MCK_MMAP_DEV2_BUF_RESET) (\<lambda>state.
     tp_assert (state \<noteq> -1) (Some ''ioctl error.'') (
     exec (mmap K 0 (PAGE_SIZE cfg) (PROT_READ OR PROT_WRITE) (MAP_SHARED OR MAP_POPULATE) devfd 0) (\<lambda>devmap.
     tp_assert (devmap \<noteq> MAP_FAILED) (Some ''mmap error'') (
     exec (memset K devmap 0 (unat (PAGE_SIZE cfg))) (\<lambda>_.
     exec (c_write K writefd (addr_bytes devmap)) (\<lambda>state.
     tp_assert (state \<noteq> -1) (Some ''write error'') (
     exec (c_ptrace K PTRACE_TRACEME 0 0 0) (\<lambda>lstate.
     tp_assert (lstate \<noteq> -1) (Some ''ptrace(PTRACE_TRACEME)'') (
     exec (brk_stop K ''inst_addr'') (\<lambda>_.
     exec (load_bytes K devmap 8) (\<lambda>bs.
     tp_assert (le_word bs \<noteq> 0) (Some ''PTRACE_POKEDATA failed'') (
     exec (munmap K devmap (PAGE_SIZE cfg)) (\<lambda>_.
     exec (c_close K devfd) (\<lambda>_.
     ret None))))))))))))))))"

text \<open>A short read leaves the rest of the array zero. A failed rewrite of the breakpoint leaves the message \<^verbatim>\<open>NULL\<close>.\<close>

definition cont_021 :: "('k, 'z) pt_os_scheme \<Rightarrow> int \<Rightarrow> string option \<Rightarrow> ('k, string option) prog" where
  "cont_021 K cpid msg =
     exec (c_ptrace K PTRACE_CONT cpid 0 0) (\<lambda>lstate.
     ret (if lstate = -1 then Some ''ptrace(PTRACE_CONT)'' else msg))"

definition parent_021 :: "('k, 'z) pt_os_scheme \<Rightarrow> int \<Rightarrow> int \<Rightarrow> ('k, string option) prog" where
  "parent_021 K cpid readfd =
     exec (c_read K readfd addr_size) (\<lambda>(state, bs).
     if state = -1 then ret (Some ''read error'')
     else if length bs = addr_size \<and> 0 \<notin> set bs then stop (Undefined ''string without terminator'')
     else
       let devmap = read_addr bs in
       exec (c_wait K) (\<lambda>(pid, state).
       if pid \<noteq> cpid then cont_021 K cpid (Some ''wait error'')
       else if \<not> WIFSTOPPED state then cont_021 K cpid (Some ''child is not stopped.'')
       else
         exec (rewrite_brk_inst K cpid ''inst_addr'') (\<lambda>r.
         if r \<noteq> 0 then cont_021 K cpid None
         else
           exec (c_ptrace K PTRACE_POKEDATA cpid devmap 0xFFFFFFFF) (\<lambda>lstate.
           if lstate = -1 then cont_021 K cpid (Some ''ptrace(PTRACE_POKEDATA)'')
           else cont_021 K cpid None))))"

definition ptrace_021 :: "('k, 'z) pt_os_scheme \<Rightarrow> page_config \<Rightarrow> ('k, string option) prog" where
  "ptrace_021 K cfg =
     exec (c_pipe K) (\<lambda>(state, readfd, writefd).
     tp_assert (state = 0) (Some ''pipe error.'') (
     exec (c_fork K) (\<lambda>pid.
     tp_assert (pid \<noteq> -1) (Some ''fork error'') (
     if pid = 0 then
       exec (c_close K readfd) (\<lambda>_.
       exec (child_021 K cfg writefd) (\<lambda>msg.
       exec (c_close K writefd) (\<lambda>_.
       case msg of
         Some m \<Rightarrow> exec (printf ''%s'' [AStr m]) (\<lambda>_. stop (Exited (-1)))
       | None \<Rightarrow> stop (Exited 0))))
     else
       exec (c_close K writefd) (\<lambda>_.
       exec (parent_021 K pid readfd) (\<lambda>msg.
       exec (c_close K readfd) (\<lambda>_.
       tp_assert (msg = None) msg (
       exec (c_wait K) (\<lambda>(pid, state).
       tp_assert (pid \<noteq> -1) (Some ''wait error'') (
       tp_assert (WIFEXITED state) (Some ''WIFEXITED error.'') (
       tp_assert (WEXITSTATUS state = 0) (Some ''WEXITSTATUS error'') (
       ret None))))))))))))"

section \<open>The suite\<close>

definition ptrace_case :: "int \<Rightarrow> ('k, string option) prog \<Rightarrow> ('k, unit) test_case" where
  "ptrace_case n run =
     \<lparr>tc_suite = ''ptrace'', tc_num = n, tc_setup = (\<lambda>_ _. ret ()), tc_run = (\<lambda>_ _. run), tc_teardown = (\<lambda>_ _. ret ())\<rparr>"

definition ptrace_runs :: "('k, 'z) pt_os_scheme \<Rightarrow> page_config \<Rightarrow> u64 \<Rightarrow> (int \<times> ('k, string option) prog) list" where
  "ptrace_runs K cfg junk = [
     (0, ptrace_000 K), (1, ptrace_001 K), (2, ptrace_002 K), (3, ptrace_003 K), (4, ptrace_004 K), (5, ptrace_005 K),
     (6, ptrace_006 K), (7, ptrace_007 K), (8, ptrace_008 K), (9, ptrace_009 K), (10, ptrace_010 K), (11, ptrace_011 K),
     (12, ptrace_012 K), (13, ptrace_013 K junk), (14, ptrace_014 K), (15, ptrace_015 K), (16, ptrace_016 K), (17, ptrace_017 K),
     (18, ptrace_018 K), (19, ptrace_019 K), (20, ptrace_020 K), (21, ptrace_021 K cfg)]"

definition ptrace_cases :: "('k, 'z) pt_os_scheme \<Rightarrow> page_config \<Rightarrow> u64 \<Rightarrow> ('k, unit) test_case list" where
  "ptrace_cases K cfg junk = map (\<lambda>(n, run). ptrace_case n run) (ptrace_runs K cfg junk)"

end
