(* ===== verification/Ptrace_Tracee.thy ===== *)
theory Ptrace_Tracee
  imports Ptrace_Cases
begin

text \<open>
  A reference for the kernel's side of the \<^verbatim>\<open>ptrace\<close> suite: a tracee of which only memory, program counter, pending stop and debug registers are kept.
  A kernel refines it when its answers, seen through an abstraction of its state, are those of the reference. On every such kernel a child that has stopped in its
  breakpoint is driven by the parents of the cases the way they mean to: words are read and written, breakpoints are hit and taken back, instructions are stepped over,
  and the tests pass. Two lemmas at the end are about what the parents write: the planted breakpoint, and the debug registers.
\<close>

unbundle bit_operations_syntax

section \<open>A reference tracee\<close>

text \<open>
  A traced process as the debugging interface shows it: its memory in cells of 32 bits at multiples of 4, the program counter, the signal it is
  stopped by, and the debug registers. Of its instructions only the breakpoint is told apart; \<open>t_succ\<close> is where control goes from the others,
  \<open>t_store\<close> the address an instruction writes to, \<open>t_last\<close> the end of the program and \<open>t_exit\<close> the wait status it ends with.
\<close>

record tracee =
  t_mem :: "u64 \<Rightarrow> u32"
  t_pc :: u64
  t_stop :: "siginfo option"
  t_killed :: bool
  t_break :: user_hwdebug_state
  t_watch :: user_hwdebug_state
  t_succ :: "u64 \<Rightarrow> u64"
  t_store :: "u64 \<Rightarrow> u64 option"
  t_last :: u64
  t_exit :: "(u64 \<Rightarrow> u32) \<Rightarrow> u32"

definition peek :: "(u64 \<Rightarrow> u32) \<Rightarrow> u64 \<Rightarrow> u64" where
  "peek m a = ucast (m a) OR push_bit 32 (ucast (m (a + 4)))"

definition poke :: "(u64 \<Rightarrow> u32) \<Rightarrow> u64 \<Rightarrow> u64 \<Rightarrow> u64 \<Rightarrow> u32" where
  "poke m a v = m(a := ucast v, a + 4 := ucast (drop_bit 32 v))"

lemma u64_neq_plus [simp]: "(a :: u64) + 4 \<noteq> a" "a \<noteq> a + 4"
  by simp_all

lemma peek_poke [simp]: "peek (poke m a v) a = v"
  unfolding peek_def poke_def
  by (rule bit_word_eqI) (auto simp: bit_simps)

lemma poke_cells [simp]:
  "poke m a v a = ucast v" "poke m a v (a + 4) = ucast (drop_bit 32 v)" "b \<noteq> a \<Longrightarrow> b \<noteq> a + 4 \<Longrightarrow> poke m a v b = m b"
  by (simp_all add: poke_def)

lemma peek_other: "b \<noteq> a \<Longrightarrow> b \<noteq> a + 4 \<Longrightarrow> b + 4 \<noteq> a \<Longrightarrow> peek (poke m a v) b = peek m b"
  by (simp add: peek_def)

lemma peek_halves [simp]: "ucast (peek m a) = m a" "ucast (drop_bit 32 (peek m a)) = m (a + 4)"
  by (rule bit_word_eqI, auto simp: peek_def bit_simps dest: bit_imp_le_length)+

lemma poke_peek [simp]: "poke (poke m a v) a (peek m a) = m"
  by (rule ext) (simp add: poke_def)

definition hw_hit :: "user_hwdebug_state \<Rightarrow> u64 \<Rightarrow> bool" where
  "hw_hit st a = list_ex (\<lambda>i. fst (dbg_regs st i) = a \<and> bit (snd (dbg_regs st i)) 0) [0..<num_reg st]"

definition trap :: "int \<Rightarrow> u64 \<Rightarrow> tracee \<Rightarrow> tracee" where
  "trap code a T = T\<lparr>t_stop := Some \<lparr>si_signo = SIGTRAP, si_errno = 0, si_code = code, si_addr = a\<rparr>\<rparr>"

definition tstep :: "tracee \<Rightarrow> tracee" where
  "tstep T =
     (if hw_hit (t_break T) (t_pc T) then trap TRAP_HWBKPT (t_pc T) T
      else if t_mem T (t_pc T) = ucast BRK_INST then trap TRAP_BRKPT (t_pc T) T
      else case t_store T (t_pc T) of
          Some a \<Rightarrow> if hw_hit (t_watch T) a then trap TRAP_HWBKPT a T else T\<lparr>t_pc := t_succ T (t_pc T)\<rparr>
        | None \<Rightarrow> T\<lparr>t_pc := t_succ T (t_pc T)\<rparr>)"

primrec trun :: "nat \<Rightarrow> tracee \<Rightarrow> tracee" where
  "trun 0 T = T"
| "trun (Suc n) T = (if t_pc T = t_last T \<or> t_stop T \<noteq> None then T else trun n (tstep T))"

text \<open>Continuing runs to the next stop or the end; 16 instructions are more than the programs below have left.\<close>

definition resume :: "tracee \<Rightarrow> tracee" where
  "resume T = trun 16 (T\<lparr>t_stop := None\<rparr>)"

definition single :: "tracee \<Rightarrow> tracee" where
  "single T = (let U = tstep (T\<lparr>t_stop := None\<rparr>) in if t_stop U = None then trap TRAP_HWBKPT (t_pc U) U else U)"

definition known_options :: u64 where
  "known_options = 0x1000ff"

definition tracee_ptrace :: "pt_request \<Rightarrow> u64 \<Rightarrow> u64 \<Rightarrow> tracee \<Rightarrow> (int + u64) \<times> tracee" where
  "tracee_ptrace req a d T = (case req of
     PTRACE_PEEKTEXT \<Rightarrow> (Inr (peek (t_mem T) a), T)
   | PTRACE_PEEKDATA \<Rightarrow> (Inr (peek (t_mem T) a), T)
   | PTRACE_PEEKUSER \<Rightarrow> (Inl EIO, T)
   | PTRACE_POKETEXT \<Rightarrow> (Inr 0, T\<lparr>t_mem := poke (t_mem T) a d\<rparr>)
   | PTRACE_POKEDATA \<Rightarrow> (Inr 0, T\<lparr>t_mem := poke (t_mem T) a d\<rparr>)
   | PTRACE_POKEUSER \<Rightarrow> (Inl EIO, T)
   | PTRACE_CONT \<Rightarrow> (Inr 0, resume T)
   | PTRACE_KILL \<Rightarrow> (Inr 0, T\<lparr>t_killed := True\<rparr>)
   | PTRACE_SINGLESTEP \<Rightarrow> (Inr 0, single T)
   | PTRACE_SETOPTIONS \<Rightarrow> (if d AND NOT known_options = 0 then (Inr 0, T) else (Inl EINVAL, T))
   | _ \<Rightarrow> (Inr 0, T))"

definition wait_status :: "tracee \<Rightarrow> u32 option" where
  "wait_status T =
     (if t_killed T then Some (word_of_int SIGKILL)
      else case t_stop T of
          Some i \<Rightarrow> Some (push_bit 8 (word_of_int (si_signo i)) OR 0x7f)
        | None \<Rightarrow> if t_pc T = t_last T then Some (t_exit T (t_mem T)) else None)"

text \<open>A register set of \<open>len\<close> bytes is written: the registers it reaches.\<close>

definition write_hw :: "nat \<Rightarrow> user_hwdebug_state \<Rightarrow> user_hwdebug_state \<Rightarrow> user_hwdebug_state" where
  "write_hw len new old = old\<lparr>dbg_regs := (\<lambda>i. if 8 + 16 * i < len then dbg_regs new i else dbg_regs old i)\<rparr>"

text \<open>
  A kernel refines the reference for the child \<open>pid\<close> when, seen through \<open>V\<close>, its answers and its changes of state are those of the reference.
\<close>

definition answers :: "('k \<Rightarrow> tracee) \<Rightarrow> ('k \<Rightarrow> (int + 'a) \<times> 'k) \<Rightarrow> (tracee \<Rightarrow> (int + 'a) \<times> tracee) \<Rightarrow> bool" where
  "answers V f g \<longleftrightarrow> (\<forall>k. g (V k) = (fst (f k), V (snd (f k))))"

definition refines_tracee :: "('k, 'z) pt_os_scheme \<Rightarrow> ('k \<Rightarrow> tracee) \<Rightarrow> int \<Rightarrow> bool" where
  "refines_tracee K V pid \<longleftrightarrow>
     answers V (pt_fork K) (\<lambda>T. (Inr pid, T))
   \<and> answers V (pt_wait K) (\<lambda>T. (case wait_status T of Some st \<Rightarrow> Inr (pid, st) | None \<Rightarrow> Inl 10, T))
   \<and> (\<forall>req a d. answers V (pt_ptrace K req pid a d) (tracee_ptrace req a d))
   \<and> answers V (pt_getsiginfo K pid) (\<lambda>T. (case t_stop T of Some i \<Rightarrow> Inr i | None \<Rightarrow> Inl EINVAL, T))
   \<and> (\<forall>i. answers V (pt_setsiginfo K pid i) (\<lambda>T. (Inr (), T\<lparr>t_stop := Some i\<rparr>)))
   \<and> answers V (\<lambda>k. case pt_getgregs K pid k of (r, k') \<Rightarrow> (map_sum id user_pt_regs.pc r, k')) (\<lambda>T. (Inr (t_pc T), T))
   \<and> answers V (pt_gethw K Arm_hw_break pid) (\<lambda>T. (Inr (t_break T), T))
   \<and> answers V (pt_gethw K Arm_hw_watch pid) (\<lambda>T. (Inr (t_watch T), T))
   \<and> (\<forall>len st. answers V (pt_sethw K Arm_hw_break pid len st) (\<lambda>T. (Inr (), T\<lparr>t_break := write_hw len st (t_break T)\<rparr>)))
   \<and> (\<forall>len st. answers V (pt_sethw K Arm_hw_watch pid len st) (\<lambda>T. (Inr (), T\<lparr>t_watch := write_hw len st (t_watch T)\<rparr>)))"

section \<open>Running a tracer on the reference\<close>

definition view :: "('k \<Rightarrow> tracee) \<Rightarrow> 'k machine \<Rightarrow> tracee \<times> (string \<Rightarrow> u64 list option)" where
  "view V s = (V (kern s), statics s)"

definition drives :: "('k \<Rightarrow> tracee) \<Rightarrow> ('k, 'a) prog \<Rightarrow> tracee \<times> (string \<Rightarrow> u64 list option) \<Rightarrow> 'a
    \<Rightarrow> tracee \<times> (string \<Rightarrow> u64 list option) \<Rightarrow> bool" where
  "drives V m p v q \<longleftrightarrow> (\<forall>s. view V s = p \<longrightarrow> (\<exists>t. m s = (Val v, t) \<and> view V t = q))"

named_theorems drives_rules \<open>running a tracer on the reference\<close>

lemma drives_ret [drives_rules]: "drives V (ret v) p v p"
  by (simp add: drives_def ret_def)

lemma drives_exec: "drives V m p a q \<Longrightarrow> drives V (f a) q v r \<Longrightarrow> drives V (exec m f) p v r"
  unfolding drives_def exec_def by (metis (no_types, lifting) case_prod_conv run.simps(5))

lemma drives_print [drives_rules]: "drives V (f ()) p v r \<Longrightarrow> drives V (exec (printf fmt args) f) p v r"
  by (rule drives_exec [of _ _ _ "()" p]) (auto simp: drives_def emit_def view_def)

lemma drives_perror: "drives V (f ()) p v r \<Longrightarrow> drives V (exec (perror msg) f) p v r"
  by (rule drives_exec [of _ _ _ "()" p]) (auto simp: drives_def emit_def view_def perror_def exec_def get_errno_def)

lemma drives_set_word [drives_rules]: "drives V (f ()) (T, \<sigma>(x := Some [w])) v r \<Longrightarrow> drives V (exec (set_word x w) f) (T, \<sigma>) v r"
  by (rule drives_exec [of _ _ _ "()" "(T, \<sigma>(x := Some [w]))"]) (auto simp: drives_def set_word_def set_static_def view_def)

lemma drives_get_word [drives_rules]: "\<sigma> x = Some [w] \<Longrightarrow> drives V (f w) (T, \<sigma>) v r \<Longrightarrow> drives V (exec (get_word x) f) (T, \<sigma>) v r"
  by (rule drives_exec [of _ _ _ w "(T, \<sigma>)"]) (auto simp: drives_def get_word_def get_static_def view_def exec_def ret_def)

lemma drives_if: "b \<Longrightarrow> drives V m p v q \<Longrightarrow> drives V (if b then m else n) p v q"
  "\<not> b \<Longrightarrow> drives V n p v q \<Longrightarrow> drives V (if b then m else n) p v q"
  by simp_all

lemma drives_with [drives_rules]:
  "drives V m p (0 :: u64) q \<Longrightarrow> drives V g q v r \<Longrightarrow> drives V (with_req m msg bad g) p v r"
  "drives V m' p (0 :: int) q \<Longrightarrow> drives V g q v r \<Longrightarrow> drives V (with_set m' msg bad g) p v r"
  "drives V o' p (Some a) q \<Longrightarrow> drives V (h a) q v r \<Longrightarrow> drives V (with_got o' msg bad h) p v r"
  unfolding with_req_def with_set_def with_got_def by (auto elim!: drives_exec)

lemma drives_get_errno: "(\<And>e. drives V (f e) p v r) \<Longrightarrow> drives V (exec get_errno f) p v r"
  by (auto simp: drives_def exec_def get_errno_def)

lemma drives_with_peek [drives_rules]:
  "drives V m p w q \<Longrightarrow> w \<noteq> -1 \<Longrightarrow> drives V (f w) q v r \<Longrightarrow> drives V (with_peek m msg bad f) p v r"
  unfolding with_peek_def by (rule drives_exec, assumption, rule drives_get_errno) simp

lemma drives_check_print [drives_rules]: "b \<Longrightarrow> drives V g p v r \<Longrightarrow> drives V (check_print b good pr bad g) p v r"
  unfolding check_print_def by (simp add: drives_print)

text \<open>The calls on a kernel that refines the reference.\<close>

lemma drives_sys_call:
  assumes "answers V f g" and "g T = (Inr v, T')"
  shows "drives V (sys_call nm args enc bad f) (T, \<sigma>) v (T', \<sigma>)"
  using assms by (auto simp: drives_def sys_call_def answers_def view_def split: prod.splits sum.splits)

lemma answersD: "refines_tracee K V pid \<Longrightarrow> answers V (pt_ptrace K req pid a d) (tracee_ptrace req a d)"
  "refines_tracee K V pid \<Longrightarrow> answers V (pt_fork K) (\<lambda>T. (Inr pid, T))"
  "refines_tracee K V pid \<Longrightarrow> answers V (pt_wait K) (\<lambda>T. (case wait_status T of Some st \<Rightarrow> Inr (pid, st) | None \<Rightarrow> Inl 10, T))"
  by (simp_all add: refines_tracee_def)

lemma drives_requests [drives_rules]:
  assumes "refines_tracee K V pid"
  shows "drives V (c_ptrace K PTRACE_POKETEXT pid a d) (T, \<sigma>) 0 (T\<lparr>t_mem := poke (t_mem T) a d\<rparr>, \<sigma>)"
    and "drives V (c_ptrace K PTRACE_POKEDATA pid a d) (T, \<sigma>) 0 (T\<lparr>t_mem := poke (t_mem T) a d\<rparr>, \<sigma>)"
    and "drives V (c_ptrace K PTRACE_CONT pid 0 0) (T, \<sigma>) 0 (resume T, \<sigma>)"
    and "drives V (c_ptrace K PTRACE_SINGLESTEP pid 0 0) (T, \<sigma>) 0 (single T, \<sigma>)"
    and "drives V (c_ptrace K PTRACE_KILL pid 0 0) (T, \<sigma>) 0 (T\<lparr>t_killed := True\<rparr>, \<sigma>)"
  unfolding c_ptrace_def by (rule drives_sys_call [OF answersD(1) [OF assms]], simp add: tracee_ptrace_def)+

lemma drives_c_peek:
  assumes "answers V (pt_ptrace K req pid a 0) g" and "g T = (Inr w, T')"
  shows "drives V (c_peek K req pid a) (T, \<sigma>) w (T', \<sigma>)"
  using assms by (auto simp: drives_def c_peek_def answers_def view_def split: prod.splits sum.splits)

lemma drives_peek [drives_rules]:
  assumes "refines_tracee K V pid" and "peek (t_mem T) a = w"
  shows "drives V (c_peek K PTRACE_PEEKDATA pid a) (T, \<sigma>) w (T, \<sigma>)"
    and "drives V (c_peek K PTRACE_PEEKTEXT pid a) (T, \<sigma>) w (T, \<sigma>)"
  by (rule drives_c_peek [OF answersD(1) [OF assms(1)]], simp add: tracee_ptrace_def assms(2))+

lemma drives_wait [drives_rules]:
  "refines_tracee K V pid \<Longrightarrow> wait_status T = Some st \<Longrightarrow> drives V (f (pid, st)) (T, \<sigma>) v r \<Longrightarrow> drives V (exec (c_wait K) f) (T, \<sigma>) v r"
  unfolding c_wait_def by (rule drives_exec, rule drives_sys_call [OF answersD(3)]) simp_all


lemma drives_get_call:
  assumes "answers V f g" and "g T = (Inr v, T')"
  shows "drives V (get_call req pid n f) (T, \<sigma>) (Some v) (T', \<sigma>)"
  unfolding get_call_def
  by (rule drives_sys_call [where g = "\<lambda>T. case g T of (Inl e, U) \<Rightarrow> (Inl e, U) | (Inr w, U) \<Rightarrow> (Inr (Some w), U)"])
    (use assms in \<open>auto simp: answers_def split: prod.splits sum.splits\<close>)

lemma drives_set_call:
  assumes "answers V f g" and "g T = (Inr (), T')"
  shows "drives V (set_call req pid n f) (T, \<sigma>) 0 (T', \<sigma>)"
  unfolding set_call_def
  by (rule drives_sys_call [where g = "\<lambda>T. case g T of (Inl e, U) \<Rightarrow> (Inl e, U) | (Inr w, U) \<Rightarrow> (Inr 0, U)"])
    (use assms in \<open>auto simp: answers_def split: prod.splits sum.splits\<close>)

lemma drives_siginfo [drives_rules]:
  assumes "refines_tracee K V pid"
  shows "t_stop T = Some i \<Longrightarrow> drives V (get_call PTRACE_GETSIGINFO pid 0 (pt_getsiginfo K pid)) (T, \<sigma>) (Some i) (T, \<sigma>)"
    and "drives V (set_call PTRACE_SETSIGINFO pid 0 (pt_setsiginfo K pid i)) (T, \<sigma>) 0 (T\<lparr>t_stop := Some i\<rparr>, \<sigma>)"
  by (rule drives_get_call [where g = "\<lambda>T. (case t_stop T of Some i \<Rightarrow> Inr i | None \<Rightarrow> Inl EINVAL, T)"],
      use assms in \<open>simp_all add: refines_tracee_def\<close>)
    (rule drives_set_call [where g = "\<lambda>T. (Inr (), T\<lparr>t_stop := Some i\<rparr>)"], use assms in \<open>simp_all add: refines_tracee_def\<close>)

lemma drives_hw [drives_rules]:
  assumes "refines_tracee K V pid"
  shows "drives V (hw_get K Arm_hw_break pid) (T, \<sigma>) (Some (t_break T)) (T, \<sigma>)"
    and "drives V (hw_get K Arm_hw_watch pid) (T, \<sigma>) (Some (t_watch T)) (T, \<sigma>)"
    and "drives V (hw_set K Arm_hw_break pid len st) (T, \<sigma>) 0 (T\<lparr>t_break := write_hw len st (t_break T)\<rparr>, \<sigma>)"
    and "drives V (hw_set K Arm_hw_watch pid len st) (T, \<sigma>) 0 (T\<lparr>t_watch := write_hw len st (t_watch T)\<rparr>, \<sigma>)"
  unfolding hw_get_def hw_set_def
  by (rule drives_get_call [where g = "\<lambda>T. (Inr (t_break T), T)"], use assms in \<open>simp_all add: refines_tracee_def\<close>)
    (rule drives_get_call [where g = "\<lambda>T. (Inr (t_watch T), T)"] drives_set_call [where g = "\<lambda>T. (Inr (), T\<lparr>t_break := write_hw len st (t_break T)\<rparr>)"]
      drives_set_call [where g = "\<lambda>T. (Inr (), T\<lparr>t_watch := write_hw len st (t_watch T)\<rparr>)"],
     use assms in \<open>simp_all add: refines_tracee_def\<close>)+

lemma drives_child_cont [drives_rules]: "refines_tracee K V pid \<Longrightarrow> drives V (child_cont K pid r) (T, \<sigma>) r (resume T, \<sigma>)"
  unfolding child_cont_def by (rule drives_with, rule drives_requests, assumption, rule drives_ret)

text \<open>Calls that fail, and the two places in which the code expects that.\<close>

lemma drives_failing:
  assumes "\<And>s. view V s = p \<Longrightarrow> \<exists>t. m s = (Val a, t) \<and> view V t = q \<and> errno t = e" and "drives V (f e) q v r"
  shows "drives V (exec m (\<lambda>a'. if a' = a then exec get_errno f else g)) p v r"
  using assms unfolding drives_def exec_def get_errno_def by fastforce

lemma ptrace_fails:
  assumes "refines_tracee K V pid" and "tracee_ptrace req a d T = (Inl e, T)"
  shows "view V s = (T, \<sigma>) \<Longrightarrow> \<exists>t. c_ptrace K req pid a d s = (Val (-1), t) \<and> view V t = (T, \<sigma>) \<and> errno t = e"
    and "view V s = (T, \<sigma>) \<Longrightarrow> d = 0 \<Longrightarrow> \<exists>t. c_peek K req pid a s = (Val (-1), t) \<and> view V t = (T, \<sigma>) \<and> errno t = e"
  using answersD(1) [OF assms(1), of req a d] assms(2)
  by (auto simp: c_ptrace_def sys_call_def c_peek_def answers_def view_def split: prod.splits sum.splits)

lemma drives_expect_eio [drives_rules]:
  assumes "refines_tracee K V pid"
  shows "drives V (expect_eio K pid (c_peek K PTRACE_PEEKUSER pid 0) name) (T, \<sigma>) 0 (resume T, \<sigma>)"
    and "drives V (expect_eio K pid (c_ptrace K PTRACE_POKEUSER pid 0 0) name) (T, \<sigma>) 0 (resume T, \<sigma>)"
proof -
  have cont: "drives V (exec (printf fmt args) (\<lambda>_. child_cont K pid 0)) (T, \<sigma>) 0 (resume T, \<sigma>)" for fmt args
    by (intro drives_print drives_child_cont assms)
  have "drives V (expect_eio K pid m name) (T, \<sigma>) 0 (resume T, \<sigma>)"
    if "\<And>s. view V s = (T, \<sigma>) \<Longrightarrow> \<exists>t. m s = (Val (-1), t) \<and> view V t = (T, \<sigma>) \<and> errno t = EIO" for m
    unfolding expect_eio_def using cont that unfolding drives_def exec_def [of m] exec_def [of get_errno] get_errno_def by fastforce
  then show "drives V (expect_eio K pid (c_peek K PTRACE_PEEKUSER pid 0) name) (T, \<sigma>) 0 (resume T, \<sigma>)"
    and "drives V (expect_eio K pid (c_ptrace K PTRACE_POKEUSER pid 0 0) name) (T, \<sigma>) 0 (resume T, \<sigma>)"
    by (simp_all add: ptrace_fails [OF assms] tracee_ptrace_def)
qed

section \<open>A child in its breakpoint\<close>

text \<open>
  The child has stopped in the breakpoint at \<open>L\<close>, whose address it has stored in its variable \<open>var\<close>. From there it goes to the instructions the case
  looks at, six of them from \<open>A\<close> on, and ends behind them. No debug register is armed, and code and variables do not overlap.
\<close>

definition free_run :: "u64 \<Rightarrow> u64 \<Rightarrow> tracee \<Rightarrow> bool" where
  "free_run L A T \<longleftrightarrow>
     t_succ T L = A \<and> t_last T = A + 24 \<and> L \<noteq> A + 24
   \<and> (\<forall>i < 6. t_succ T (A + 4 * of_nat i) = A + 4 * of_nat (Suc i) \<and> A + 4 * of_nat i \<noteq> A + 24)
   \<and> (\<forall>a \<in> insert L {A + 4 * of_nat i |i. i < 6}. \<not> hw_hit (t_break T) a \<and> t_mem T a \<noteq> ucast BRK_INST
        \<and> (\<forall>b. t_store T a = Some b \<longrightarrow> \<not> hw_hit (t_watch T) b))"

lemma free_run_update [simp]:
  "free_run L A (T\<lparr>t_pc := a\<rparr>) = free_run L A T" "free_run L A (T\<lparr>t_stop := i\<rparr>) = free_run L A T" "free_run L A (T\<lparr>t_killed := b\<rparr>) = free_run L A T"
  by (simp_all add: free_run_def)

lemma free_run_step:
  assumes "free_run L A T" and "t_pc T \<in> insert L {A + 4 * of_nat i |i. i < 6}"
  shows "tstep T = T\<lparr>t_pc := t_succ T (t_pc T)\<rparr>"
  using assms unfolding free_run_def tstep_def by (auto split: option.splits)

lemma free_run_walk:
  assumes "free_run L A T" and "t_pc T = A + 4 * of_nat i" and "i \<le> 6" and "t_stop T = None" and "6 - i \<le> n"
  shows "trun n T = T\<lparr>t_pc := A + 24\<rparr>"
  using assms
proof (induction n arbitrary: i T)
  case 0
  then have "i = 6" by simp
  with 0 show ?case by simp
next
  case (Suc n)
  show ?case
  proof (cases "i = 6")
    case False
    with Suc.prems have i: "i < 6" by simp
    with Suc.prems have succ: "t_succ T (t_pc T) = A + 4 * of_nat (Suc i)" and "t_pc T \<noteq> t_last T"
      by (simp_all add: free_run_def)
    moreover have "tstep T = T\<lparr>t_pc := A + 4 * of_nat (Suc i)\<rparr>"
      using free_run_step [OF Suc.prems(1)] Suc.prems(2) i unfolding succ by blast
    moreover have "trun n (T\<lparr>t_pc := A + 4 * of_nat (Suc i)\<rparr>) = T\<lparr>t_pc := A + 4 * of_nat (Suc i)\<rparr>\<lparr>t_pc := A + 24\<rparr>"
      by (rule Suc.IH [where i = "Suc i"]) (use i Suc.prems in \<open>simp_all add: free_run_def\<close>)
    ultimately show ?thesis using Suc.prems by simp
  qed (use Suc.prems in \<open>simp add: free_run_def\<close>)
qed

lemma resume_ends:
  assumes "free_run L A T" and "t_pc T = A + 4 * of_nat i" and "i \<le> 6"
  shows "resume T = T\<lparr>t_stop := None, t_pc := A + 24\<rparr>"
  unfolding resume_def using free_run_walk [of L A "T\<lparr>t_stop := None\<rparr>" i 16] assms by (simp add: free_run_def)

lemma trun_numeral [simp]:
  "trun (numeral k) T = (if t_pc T = t_last T \<or> t_stop T \<noteq> None then T else trun (pred_numeral k) (tstep T))"
  by (simp add: numeral_eq_Suc)

lemma resume_ends_from_brk:
  assumes "free_run L A T" and "t_pc T = L"
  shows "resume T = T\<lparr>t_stop := None, t_pc := A + 24\<rparr>"
proof -
  have "tstep (T\<lparr>t_stop := None\<rparr>) = T\<lparr>t_stop := None, t_pc := A\<rparr>"
    using assms free_run_step [of L A "T\<lparr>t_stop := None\<rparr>"] by (simp add: free_run_def)
  moreover have "trun 15 (T\<lparr>t_stop := None, t_pc := A\<rparr>) = T\<lparr>t_stop := None, t_pc := A\<rparr>\<lparr>t_pc := A + 24\<rparr>"
    by (rule free_run_walk [where i = 0 and L = L]) (simp_all add: assms)
  ultimately show ?thesis using assms by (simp add: resume_def free_run_def trun_numeral [of "num.Bit0 (num.Bit0 (num.Bit0 (num.Bit0 num.One)))"] del: trun_numeral)
qed

text \<open>Going on from the breakpoint into a stop at \<open>A\<close>.\<close>

lemma resume_hits:
  assumes "t_pc T = L" and "L \<noteq> t_last T" and "A \<noteq> t_last T"
    and "tstep (T\<lparr>t_stop := None\<rparr>) = T\<lparr>t_stop := None, t_pc := A\<rparr>" and "tstep (T\<lparr>t_stop := None, t_pc := A\<rparr>) = trap c a (T\<lparr>t_stop := None, t_pc := A\<rparr>)"
  shows "resume T = trap c a (T\<lparr>t_stop := None, t_pc := A\<rparr>)"
  using assms by (simp add: resume_def trap_def)

definition unarmed :: "user_hwdebug_state \<Rightarrow> bool" where
  "unarmed st \<longleftrightarrow> 0 < num_reg st \<and> num_reg st \<le> NR_DBG_REGS \<and> (\<forall>i < num_reg st. snd (dbg_regs st i) = 0)"

definition insn_cells :: "u64 \<Rightarrow> u64 set" where
  "insn_cells A = set (map (\<lambda>i. A + 4 * of_nat i) [0..<7])"

definition at_brk :: "(string \<Rightarrow> u64) \<Rightarrow> string \<Rightarrow> u64 \<Rightarrow> u64 \<Rightarrow> tracee \<Rightarrow> bool" where
  "at_brk va var L A T \<longleftrightarrow>
     t_stop T = Some \<lparr>si_signo = SIGTRAP, si_errno = 0, si_code = TRAP_BRKPT, si_addr = L\<rparr> \<and> \<not> t_killed T \<and> t_pc T = L
   \<and> peek (t_mem T) (va var) = L \<and> peek (t_mem T) (va ''addr'') = A \<and> L \<noteq> -1 \<and> A \<noteq> -1
   \<and> t_succ T L = A \<and> t_last T = A + 24
   \<and> (\<forall>i < 6. t_succ T (A + 4 * of_nat i) = A + 4 * of_nat (Suc i) \<and> t_mem T (A + 4 * of_nat i) \<noteq> ucast BRK_INST)
   \<and> unarmed (t_break T) \<and> unarmed (t_watch T)
   \<and> L \<notin> insn_cells A \<and> L + 4 \<notin> insn_cells A
   \<and> (\<forall>x \<in> {var, ''addr'', ''buf''}. {va x, va x + 4} \<inter> ({L, L + 4} \<union> insn_cells A) = {})"

definition nops :: u64 where
  "nops = push_bit 32 NOP_INST OR NOP_INST"

definition patched :: "u64 \<Rightarrow> tracee \<Rightarrow> tracee" where
  "patched L T = T\<lparr>t_mem := poke (t_mem T) L nops\<rparr>"

lemma unarmed_hit [simp]: "unarmed st \<Longrightarrow> \<not> hw_hit st a"
  by (simp add: unarmed_def hw_hit_def list_ex_iff)

lemma insn_cellsI [intro]: "i \<le> 6 \<Longrightarrow> A + 4 * of_nat i \<in> insn_cells A"
  by (auto simp: insn_cells_def simp del: upt_Suc intro!: imageI)

lemma not_last: "i < 6 \<Longrightarrow> 4 * of_nat i \<noteq> (24 :: u64)"
proof -
  assume "i < 6"
  then have "i \<in> {0, 1, 2, 3, 4, 5}" by auto
  then show ?thesis by auto
qed

lemma insn_values [simp]: "(ucast nops :: u32) = 0xd503201f" "(ucast (drop_bit 32 nops) :: u32) = 0xd503201f" "(ucast BRK_INST :: u32) = 0xd4200000"
  by (simp_all add: nops_def NOP_INST_def BRK_INST_def push_bit_eq_mult)

lemma brk_in_low_half [simp]: "(ucast ((w AND 0xffffffff00000000) OR BRK_INST) :: u32) = 0xd4200000"
proof -
  have "(ucast ((w :: u64) AND push_bit 32 x) :: u32) = 0" for x by (rule bit_word_eqI) (auto simp: bit_simps)
  from this [of "0xffffffff"] have "(ucast (w AND 0xffffffff00000000) :: u32) = 0" by simp
  then show ?thesis by (simp add: unsigned_or_eq)
qed

lemma at_brk_apart:
  assumes "at_brk va var L A T"
  shows "a \<in> insn_cells A \<Longrightarrow> a \<noteq> L" and "a \<in> insn_cells A \<Longrightarrow> a \<noteq> L + 4"
    and "x \<in> {var, ''addr'', ''buf''} \<Longrightarrow> va x \<noteq> L" and "x \<in> {var, ''addr'', ''buf''} \<Longrightarrow> va x \<noteq> L + 4"
    and "x \<in> {var, ''addr'', ''buf''} \<Longrightarrow> va x + 4 \<noteq> L"
    and "x \<in> {var, ''addr'', ''buf''} \<Longrightarrow> a \<in> insn_cells A \<Longrightarrow> a \<noteq> va x" and "x \<in> {var, ''addr'', ''buf''} \<Longrightarrow> a \<in> insn_cells A \<Longrightarrow> a \<noteq> va x + 4"
  using assms unfolding at_brk_def by blast+

lemma at_brk_patched:
  assumes "at_brk va var L A T"
  shows "peek (t_mem (patched L T)) (va ''addr'') = A" and "peek (t_mem (patched L T)) (va ''buf'') = peek (t_mem T) (va ''buf'')"
    and "a \<in> insn_cells A \<Longrightarrow> t_mem (patched L T) a = t_mem T a" and "t_mem (patched L T) L = 0xd503201f"
  using at_brk_apart [OF assms] assms by (simp_all add: patched_def peek_other at_brk_def [of va var L A T])

lemma at_brk_free:
  assumes "at_brk va var L A T"
  shows "free_run L A (patched L T)"
proof -
  have "t_mem (patched L T) (A + 4 * of_nat i) \<noteq> ucast BRK_INST" if "i < 6" for i
    using at_brk_patched(3) [OF assms insn_cellsI, of i] assms that by (simp add: at_brk_def)
  moreover have "t_mem (patched L T) L \<noteq> ucast BRK_INST"
    by (simp add: at_brk_patched [OF assms])
  moreover have "L \<noteq> A + 24" using at_brk_apart(1) [OF assms insn_cellsI, of 6] by auto
  ultimately show ?thesis
    using assms by (auto simp: free_run_def at_brk_def patched_def not_last)
qed

section \<open>The cases on the reference\<close>

lemma stop_status [simp]: "WIFSTOPPED 0x57f" "uint (WEXITSTATUS 0x57f) = 5"
  by (simp_all add: WIFSTOPPED_def WEXITSTATUS_def)

lemma wait_status_trap: "\<not> t_killed T \<Longrightarrow> t_stop T = Some i \<Longrightarrow> si_signo i = SIGTRAP \<Longrightarrow> wait_status T = Some 0x57f"
  by (simp add: wait_status_def SIGTRAP_def)

lemma drives_wait_stopped [drives_rules]:
  "refines_tracee K V pid \<Longrightarrow> wait_status T = Some st \<Longrightarrow> WIFSTOPPED st \<Longrightarrow> drives V f (T, \<sigma>) v q \<Longrightarrow> drives V (wait_stopped K pid f) (T, \<sigma>) v q"
  unfolding wait_stopped_def stopped_or_def by (rule drives_wait) auto

lemma drives_rewrite_brk:
  "refines_tracee K V pid \<Longrightarrow> peek (t_mem T) (pt_var K var) = L \<Longrightarrow> L \<noteq> -1 \<Longrightarrow> drives V (rewrite_brk_inst K pid var) (T, \<sigma>) 0 (patched L T, \<sigma>)"
  unfolding rewrite_brk_inst_def patched_def nops_def
  by (rule drives_with_peek [OF drives_peek(1)], assumption, assumption, assumption, rule drives_with(1) [OF drives_requests(1)], assumption, rule drives_ret)

lemma drives_after_brk [drives_rules]:
  assumes "refines_tracee K V pid" and "at_brk (pt_var K) var L A T" and "drives V f (patched L T, \<sigma>) v q"
  shows "drives V (after_brk K pid var f) (T, \<sigma>) v q"
proof -
  have "wait_status T = Some 0x57f" using assms(2) by (simp add: at_brk_def wait_status_trap)
  moreover have "drives V (rewrite_brk_inst K pid var) (T, \<sigma>) 0 (patched L T, \<sigma>)"
    using assms(1,2) by (simp add: at_brk_def drives_rewrite_brk)
  then have "drives V (exec (rewrite_brk_inst K pid var) (\<lambda>r. if r \<noteq> 0 then child_cont K pid (-1) else f)) (T, \<sigma>) v q"
    by (rule drives_exec) (simp add: assms(3))
  ultimately show ?thesis unfolding after_brk_def by (rule drives_wait_stopped [OF assms(1) _ stop_status(1)])
qed

lemma drives_trap_stop [drives_rules]:
  assumes "refines_tracee K V pid" and "t_stop T = Some \<lparr>si_signo = SIGTRAP, si_errno = 0, si_code = code, si_addr = addr\<rparr>" and "\<not> t_killed T"
    and "drives V f (T, \<sigma>) v q"
  shows "drives V (trap_stop K pre pid (nm, code) addr good bad f) (T, \<sigma>) v q"
  unfolding trap_stop_def Let_def
  by (rule drives_wait [OF assms(1) wait_status_trap]) 
    (use assms in \<open>auto simp: SIGTRAP_def check_print_def intro!: drives_print drives_with(3) [OF drives_siginfo(1)]\<close>)

lemma drives_plant_brk [drives_rules]:
  assumes "refines_tracee K V pid" and "peek (t_mem T) (pt_var K ''addr'') = A" and "A \<noteq> -1"
    and "drives V (f A (peek (t_mem T) A)) (resume (T\<lparr>t_mem := poke (t_mem T) A ((peek (t_mem T) A AND 0xffffffff00000000) OR BRK_INST)\<rparr>), \<sigma>) v q"
  shows "drives V (plant_brk K pid f) (T, \<sigma>) v q"
  unfolding plant_brk_def
  by (rule drives_with_peek [OF drives_peek(1) [OF assms(1,2)] assms(3)], rule drives_exec [OF drives_peek(2) [OF assms(1) refl]], rule drives_get_errno)
    (use assms in \<open>auto intro!: drives_with(1) [OF drives_requests(1)] drives_with(1) [OF drives_requests(3)]\<close>)

lemma drives_armed [drives_rules]:
  assumes "refines_tracee K V pid" and "peek (t_mem T) (pt_var K ''addr'') = A" and "A \<noteq> -1"
    and "drives V (arm A) (T, \<sigma>) 0 (U, \<sigma>)" and "drives V (f A) (resume U, \<sigma>) v q"
  shows "drives V (armed K pid arm msg f) (T, \<sigma>) v q"
  unfolding armed_def
  by (rule drives_with_peek [OF drives_peek(1) [OF assms(1,2)] assms(3)], rule drives_exec [OF assms(4)])
    (use assms in \<open>auto intro!: drives_with(1) [OF drives_requests(3)]\<close>)

lemma run_traced_runs:
  assumes "refines_tracee K V pid" and "pid \<noteq> -1" and "pid \<noteq> 0" and "drives V (parent pid) (T, \<sigma>) 0 (U, \<sigma>')"
    and "wait_status U = Some st" and "WEXITSTATUS st = 0"
  shows "drives V (run_traced K child parent) (T, \<sigma>) None (U, \<sigma>')"
  unfolding run_traced_def c_fork_def
  by (rule drives_exec [OF drives_sys_call [OF answersD(2) [OF assms(1)] refl]])
    (use assms in \<open>auto simp: wait_child_def intro!: drives_exec [OF assms(4)] drives_wait drives_ret\<close>)

text \<open>What a case relies on in its child: what it has stored, which instruction stores, and the status it ends with.\<close>

definition child_exit :: "int \<Rightarrow> (string \<Rightarrow> u64) \<Rightarrow> (u64 \<Rightarrow> u32) \<Rightarrow> u32" where
  "child_exit n va m =
     (if n = 2 \<and> peek m (va ''buf'') \<noteq> CHILD_MAGIC \<or> n = 5 \<and> peek m (va ''buf'') \<noteq> PARENT_MAGIC then 0xff00 else 0)"

definition child_ready :: "int \<Rightarrow> (string \<Rightarrow> u64) \<Rightarrow> u64 \<Rightarrow> tracee \<Rightarrow> bool" where
  "child_ready n va A T \<longleftrightarrow>
     (n = 2 \<longrightarrow> peek (t_mem T) (va ''buf'') = CHILD_MAGIC) \<and> (n = 3 \<longrightarrow> t_mem T (A + 4) = ucast NOP_INST)
   \<and> t_store T = (\<lambda>a. if n = 11 \<and> a = A then Some (va ''buf'') else None)
   \<and> t_exit T = child_exit n va"

definition succeeds :: "('k \<Rightarrow> tracee) \<Rightarrow> ('k, int) prog \<Rightarrow> tracee \<times> (string \<Rightarrow> u64 list option) \<Rightarrow> bool" where
  "succeeds V m p \<longleftrightarrow> (\<exists>U \<sigma>. drives V m p 0 (U, \<sigma>) \<and> wait_status U = Some 0)"

definition ended :: "u64 \<Rightarrow> tracee \<Rightarrow> tracee" where
  "ended A T = T\<lparr>t_stop := None, t_pc := A + 24\<rparr>"

lemma ended_status: "\<not> t_killed T \<Longrightarrow> t_last T = A + 24 \<Longrightarrow> wait_status (ended A T) = Some (t_exit T (t_mem T))"
  by (simp add: wait_status_def ended_def)

lemma succeedsI: "drives V m p 0 (U, \<sigma>) \<Longrightarrow> wait_status U = Some 0 \<Longrightarrow> succeeds V m p"
  by (auto simp: succeeds_def)

lemma patched_fields [simp]:
  "t_stop (patched L T) = t_stop T" "t_pc (patched L T) = t_pc T" "t_killed (patched L T) = t_killed T" "t_break (patched L T) = t_break T"
  "t_watch (patched L T) = t_watch T" "t_succ (patched L T) = t_succ T" "t_store (patched L T) = t_store T" "t_last (patched L T) = t_last T"
  "t_exit (patched L T) = t_exit T"
  by (simp_all add: patched_def)

lemma at_brk_fields:
  assumes "at_brk va var L A T"
  shows "\<not> t_killed T" "t_last T = A + 24" "t_pc T = L" "L \<noteq> -1" "A \<noteq> -1" "t_succ T L = A" "unarmed (t_break T)" "unarmed (t_watch T)"
    "t_stop T = Some \<lparr>si_signo = SIGTRAP, si_errno = 0, si_code = TRAP_BRKPT, si_addr = L\<rparr>" "peek (t_mem T) (va var) = L"
  using assms by (simp_all add: at_brk_def)

lemma resume_patched: "at_brk va var L A T \<Longrightarrow> resume (patched L T) = ended A (patched L T)"
  by (simp add: resume_ends_from_brk [OF at_brk_free] at_brk_fields ended_def)

lemma patched_succeeds:
  assumes "at_brk va var L A T" and "child_ready n va A T" and "n \<noteq> 5" and "drives V m p 0 (ended A (patched L T), \<sigma>)"
  shows "succeeds V m p"
  using assms(2,3)
  by (intro succeedsI [OF assms(4)])
    (auto simp: ended_status at_brk_fields [OF assms(1)] child_ready_def child_exit_def at_brk_patched [OF assms(1)])

lemma parent_001_succeeds:
  assumes "refines_tracee K V pid" and "at_brk (pt_var K) ''inst_addr'' L A T" and "child_ready 1 (pt_var K) A T"
  shows "succeeds V (parent_001 K pid) (T, \<sigma>)"
proof (rule patched_succeeds [OF assms(2,3)])
  have w: "wait_status T = Some 0x57f" by (simp add: at_brk_fields [OF assms(2)] wait_status_trap)
  show "drives V (parent_001 K pid) (T, \<sigma>) 0 (ended A (patched L T), \<sigma>)"
    unfolding parent_001_def resume_patched [OF assms(2), symmetric]
    apply (rule drives_wait_stopped [OF assms(1) w stop_status(1)])
    apply (rule drives_print)
    apply (rule drives_exec [OF drives_rewrite_brk [OF assms(1) at_brk_fields(10) [OF assms(2)] at_brk_fields(4) [OF assms(2)]]])
    apply (rule drives_child_cont [OF assms(1)])
    done
qed simp

lemma parent_002_succeeds:
  assumes "refines_tracee K V pid" and "at_brk (pt_var K) ''inst_addr'' L A T" and "child_ready 2 (pt_var K) A T"
  shows "succeeds V (parent_002 K pid) (T, \<sigma>)"
proof (rule patched_succeeds [OF assms(2,3)])
  have buf: "peek (t_mem (patched L T)) (pt_var K ''buf'') = CHILD_MAGIC"
    using assms(3) by (simp add: at_brk_patched [OF assms(2)] child_ready_def)
  show "drives V (parent_002 K pid) (T, \<sigma>) 0 (ended A (patched L T), \<sigma>(''buf'' := Some [PARENT_MAGIC]))"
    unfolding parent_002_def resume_patched [OF assms(2), symmetric]
    by (rule drives_set_word, rule drives_after_brk [OF assms(1,2)], rule drives_with_peek [OF drives_peek(1) [OF assms(1) buf]], simp add: CHILD_MAGIC_def,
        rule drives_get_word, simp) (simp add: drives_print drives_child_cont assms(1))
qed simp

lemma peek_defined: "m (a + 4) \<noteq> 0xffffffff \<Longrightarrow> peek m a \<noteq> -1"
proof
  assume "peek m a = -1"
  then have "m (a + 4) = ucast (drop_bit 32 (-1 :: u64))" using peek_halves(2) [of m a] by simp
  also have "\<dots> = 0xffffffff" by (simp add: mask_eq_exp_minus_1)
  finally show "m (a + 4) \<noteq> 0xffffffff \<Longrightarrow> False" by simp
qed

lemma parent_003_succeeds:
  assumes "refines_tracee K V pid" and "at_brk (pt_var K) ''inst_addr'' L A T" and "child_ready 3 (pt_var K) A T"
  shows "succeeds V (parent_003 K pid) (T, \<sigma>)"
proof (rule patched_succeeds [OF assms(2,3)])
  have cell: "t_mem (patched L T) (A + 4) = 0xd503201f"
    using at_brk_patched(3) [OF assms(2) insn_cellsI, of 1] assms(3) by (simp add: child_ready_def NOP_INST_def)
  then have code: "ucast (drop_bit 32 (peek (t_mem (patched L T)) A)) = (0xd503201f :: u32)" by simp
  have "peek (t_mem (patched L T)) A \<noteq> -1"
    by (rule peek_defined) (simp add: cell)
  with code show "drives V (parent_003 K pid) (T, \<sigma>) 0 (ended A (patched L T), \<sigma>)"
    unfolding parent_003_def resume_patched [OF assms(2), symmetric]
    by (intro drives_after_brk [OF assms(1,2)] drives_with_peek [OF drives_peek(1) [OF assms(1) at_brk_patched(1) [OF assms(2)]]]
        drives_with_peek [OF drives_peek(2) [OF assms(1) refl]])
      (auto simp: Let_def NOP_INST_def at_brk_fields [OF assms(2)] intro!: drives_print drives_child_cont assms(1))
qed simp

lemma parent_004_007_succeed:
  assumes "refines_tracee K V pid" and "at_brk (pt_var K) ''inst_addr'' L A T"
  shows "child_ready 4 (pt_var K) A T \<Longrightarrow> succeeds V (parent_004 K pid) (T, \<sigma>)"
    and "child_ready 7 (pt_var K) A T \<Longrightarrow> succeeds V (parent_007 K pid) (T, \<sigma>)"
  unfolding parent_004_def parent_007_def
  by (rule patched_succeeds [OF assms(2)], assumption, simp,
      subst resume_patched [OF assms(2), symmetric], rule drives_after_brk [OF assms], rule drives_expect_eio [OF assms(1)])+

lemma free_run_poke:
  assumes "free_run L A T" and "b \<notin> insert L (insn_cells A)" and "b + 4 \<notin> insert L (insn_cells A)"
  shows "free_run L A (T\<lparr>t_mem := poke (t_mem T) b v\<rparr>)"
proof -
  have "poke (t_mem T) b v (A + 4 * of_nat i) = t_mem T (A + 4 * of_nat i)" if "i < 6" for i
    using insn_cellsI [of i A] that assms(2,3) by (intro poke_cells(3)) auto
  moreover have "poke (t_mem T) b v L = t_mem T L" using assms(2,3) by (intro poke_cells(3)) auto
  ultimately show ?thesis using assms(1) by (auto simp: free_run_def)
qed

lemma at_brk_buf:
  "at_brk va var L A T \<Longrightarrow> va ''buf'' \<notin> insert L (insn_cells A)" "at_brk va var L A T \<Longrightarrow> va ''buf'' + 4 \<notin> insert L (insn_cells A)"
  by (auto simp: at_brk_def)

lemma parent_005_succeeds:
  assumes "refines_tracee K V pid" and "at_brk (pt_var K) ''inst_addr'' L A T" and "child_ready 5 (pt_var K) A T"
  shows "succeeds V (parent_005 K pid) (T, \<sigma>)"
proof (rule succeedsI)
  let ?U = "patched L T\<lparr>t_mem := poke (t_mem (patched L T)) (pt_var K ''buf'') PARENT_MAGIC\<rparr>"
  have "free_run L A ?U"
    by (rule free_run_poke [OF at_brk_free [OF assms(2)] at_brk_buf [OF assms(2)]])
  then have U: "resume ?U = ended A ?U" by (simp add: resume_ends_from_brk at_brk_fields [OF assms(2)] ended_def)
  show "drives V (parent_005 K pid) (T, \<sigma>) 0 (ended A ?U, \<sigma>(''buf'' := Some [CHILD_MAGIC]))"
    unfolding parent_005_def U [symmetric]
    by (rule drives_set_word, rule drives_after_brk [OF assms(1,2)], rule drives_with(1) [OF drives_requests(2) [OF assms(1)]], rule drives_get_word, simp)
      (simp add: drives_child_cont assms(1))
  show "wait_status (ended A ?U) = Some 0"
    using assms(3) by (simp add: ended_status at_brk_fields [OF assms(2)] child_ready_def child_exit_def)
qed

text \<open>The breakpoint cases 6 and 17 write.\<close>

definition planted :: "u64 \<Rightarrow> tracee \<Rightarrow> tracee" where
  "planted A T = T\<lparr>t_mem := poke (t_mem T) A ((peek (t_mem T) A AND 0xffffffff00000000) OR BRK_INST)\<rparr>"

lemma resume_planted:
  assumes "at_brk va var L A T" and "t_store T = (\<lambda>_. None)"
  shows "resume (planted A (patched L T)) = trap TRAP_BRKPT A (planted A (patched L T)\<lparr>t_stop := None, t_pc := A\<rparr>)"
proof (rule resume_hits)
  have "A \<in> insn_cells A" "A + 4 \<in> insn_cells A" "A + 24 \<in> insn_cells A"
    using insn_cellsI [of 0 A] insn_cellsI [of 1 A] insn_cellsI [of 6 A] by simp_all
  then have "L \<noteq> A" "L \<noteq> A + 4" "L \<noteq> A + 24" using at_brk_apart(1) [OF assms(1)] by auto
  then have "t_mem (planted A (patched L T)) L = 0xd503201f" and last: "L \<noteq> t_last (planted A (patched L T))"
    by (simp_all add: planted_def at_brk_patched [OF assms(1)] at_brk_fields [OF assms(1)])
  then show "tstep (planted A (patched L T)\<lparr>t_stop := None\<rparr>) = planted A (patched L T)\<lparr>t_stop := None, t_pc := A\<rparr>"
    by (simp add: tstep_def planted_def at_brk_fields [OF assms(1)] assms(2))
  show "tstep (planted A (patched L T)\<lparr>t_stop := None, t_pc := A\<rparr>) = trap TRAP_BRKPT A (planted A (patched L T)\<lparr>t_stop := None, t_pc := A\<rparr>)"
    by (simp add: tstep_def planted_def at_brk_fields [OF assms(1)])
  show "L \<noteq> t_last (planted A (patched L T))" by (rule last)
qed (simp_all add: planted_def at_brk_fields [OF assms(1)])

lemma restored:
  "trap c a (planted A T\<lparr>t_stop := None, t_pc := A\<rparr>)\<lparr>t_mem := poke (t_mem (trap c a (planted A T\<lparr>t_stop := None, t_pc := A\<rparr>))) A (peek (t_mem T) A)\<rparr>
   = trap c a (T\<lparr>t_stop := None, t_pc := A\<rparr>)"
  by (simp add: trap_def planted_def)

lemma trap_fields [simp]:
  "t_stop (trap c a T) = Some \<lparr>si_signo = SIGTRAP, si_errno = 0, si_code = c, si_addr = a\<rparr>" "t_killed (trap c a T) = t_killed T"
  "t_pc (trap c a T) = t_pc T" "t_mem (trap c a T) = t_mem T" "free_run L A (trap c a T) = free_run L A T" "t_killed (planted A T) = t_killed T"
  by (simp_all add: trap_def planted_def)

lemma ended_absorbs [simp]:
  "ended A (trap c a T) = ended A T" "ended A (T\<lparr>t_stop := i\<rparr>) = ended A T" "ended A (T\<lparr>t_pc := b\<rparr>) = ended A T"
  by (simp_all add: ended_def trap_def)

lemma resume_at_insns: "free_run L A T \<Longrightarrow> t_pc T = A + 4 * of_nat i \<Longrightarrow> i \<le> 6 \<Longrightarrow> resume T = ended A T"
  by (simp add: resume_ends ended_def)

lemma parent_006_succeeds:
  assumes "refines_tracee K V pid" and "at_brk (pt_var K) ''inst_addr'' L A T" and "child_ready 6 (pt_var K) A T"
  shows "succeeds V (parent_006 K pid) (T, \<sigma>)"
proof (rule patched_succeeds [OF assms(2,3)])
  let ?S = "trap TRAP_BRKPT A (patched L T\<lparr>t_stop := None, t_pc := A\<rparr>)"
  have end': "resume ?S = ended A (patched L T)"
    using resume_at_insns [of L A ?S 0] at_brk_free [OF assms(2)] by simp
  have hit: "resume (planted A (patched L T)) = trap TRAP_BRKPT A (planted A (patched L T)\<lparr>t_stop := None, t_pc := A\<rparr>)"
    by (rule resume_planted [OF assms(2)]) (use assms(3) in \<open>simp add: child_ready_def\<close>)
  show "drives V (parent_006 K pid) (T, \<sigma>) 0 (ended A (patched L T), \<sigma>)"
    unfolding parent_006_def end' [symmetric] restored [of TRAP_BRKPT A A "patched L T", symmetric]
    apply (rule drives_after_brk [OF assms(1,2)])
    apply (rule drives_plant_brk [OF assms(1) at_brk_patched(1) [OF assms(2)] at_brk_fields(5) [OF assms(2)]])
    unfolding planted_def [symmetric] hit
    apply (rule drives_trap_stop [OF assms(1)], simp, simp add: at_brk_fields [OF assms(2)])
    by (rule drives_with(1) [OF drives_requests(1) [OF assms(1)]], rule drives_child_cont [OF assms(1)])
qed simp

text \<open>Stepping, case 17.\<close>

lemma single_free:
  assumes "free_run L A T" and "t_pc T = A + 4 * of_nat i" and "i < 6"
  shows "single T = trap TRAP_HWBKPT (A + 4 * of_nat (Suc i)) (T\<lparr>t_stop := None, t_pc := A + 4 * of_nat (Suc i)\<rparr>)"
proof -
  have "t_succ T (A + 4 * of_nat i) = A + 4 * of_nat (Suc i)" using assms unfolding free_run_def by blast
  moreover have "tstep (T\<lparr>t_stop := None\<rparr>) = T\<lparr>t_stop := None\<rparr>\<lparr>t_pc := t_succ (T\<lparr>t_stop := None\<rparr>) (t_pc (T\<lparr>t_stop := None\<rparr>))\<rparr>"
    by (rule free_run_step [of L A]) (use assms in auto)
  ultimately show ?thesis using assms(2) by (simp add: single_def)
qed

lemma drives_step_loop:
  assumes "refines_tracee K V pid" and "free_run L A S" and "\<not> t_killed S" and "t_pc S = A + 4 * of_nat i" and "i + n \<le> 6"
  shows "drives V (step_loop K pid c n (A + 4 * of_nat (Suc i))) (S, \<sigma>) 0 (ended A S, \<sigma>)"
  using assms(2-)
proof (induction n arbitrary: i c S)
  case 0
  then have "resume S = ended A S" by (simp add: resume_at_insns)
  then show ?case using drives_child_cont [OF assms(1), of 0 S] by simp
next
  case (Suc n)
  let ?S = "trap TRAP_HWBKPT (A + 4 * of_nat (Suc i)) (S\<lparr>t_stop := None, t_pc := A + 4 * of_nat (Suc i)\<rparr>)"
  have step: "single S = ?S" by (rule single_free) (use Suc.prems in simp_all)
  have "drives V (step_loop K pid (Suc c) n (A + 4 * of_nat (Suc (Suc i)))) (?S, \<sigma>) 0 (ended A ?S, \<sigma>)"
    by (rule Suc.IH) (use Suc.prems in simp_all)
  moreover have "A + 4 * of_nat (Suc i) + 4 = A + 4 * of_nat (Suc (Suc i))" by simp
  ultimately have next': "drives V (step_loop K pid (Suc c) n (A + 4 * of_nat (Suc i) + 4)) (?S, \<sigma>) 0 (ended A S, \<sigma>)" by (simp add: add.assoc add.left_commute)
  show ?case
    unfolding step_loop.simps
    by (rule drives_print, rule drives_with(1) [OF drives_requests(4) [OF assms(1)]], unfold step, rule drives_trap_stop [OF assms(1)])
      (use next' Suc.prems in simp_all)
qed

lemma parent_017_succeeds:
  assumes "refines_tracee K V pid" and "at_brk (pt_var K) ''inst_addr'' L A T" and "child_ready 17 (pt_var K) A T"
  shows "succeeds V (parent_017 K pid) (T, \<sigma>)"
proof (rule patched_succeeds [OF assms(2,3)])
  let ?S = "trap TRAP_BRKPT A (patched L T\<lparr>t_stop := None, t_pc := A\<rparr>)"
  let ?P = "trap TRAP_BRKPT A (planted A (patched L T)\<lparr>t_stop := None, t_pc := A\<rparr>)"
  have loop: "drives V (step_loop K pid 0 5 (A + 4)) (?S, \<sigma>) 0 (ended A (patched L T), \<sigma>)"
    using drives_step_loop [OF assms(1), of L A ?S 0 5 0] at_brk_free [OF assms(2)] by (simp add: at_brk_fields [OF assms(2)])
  have hit: "resume (planted A (patched L T)) = ?P"
    by (rule resume_planted [OF assms(2)]) (use assms(3) in \<open>simp add: child_ready_def\<close>)
  have stopped: "wait_status ?P = Some 0x57f"
    by (simp add: wait_status_trap at_brk_fields [OF assms(2)])
  show "drives V (parent_017 K pid) (T, \<sigma>) 0 (ended A (patched L T), \<sigma>)"
    unfolding parent_017_def
    apply (rule drives_after_brk [OF assms(1,2)])
    apply (rule drives_plant_brk [OF assms(1) at_brk_patched(1) [OF assms(2)] at_brk_fields(5) [OF assms(2)]])
    unfolding planted_def [symmetric] hit
    apply (rule drives_wait [OF assms(1) stopped])
    apply (simp add: stopped_or_def SIGTRAP_def)
    apply (rule drives_with(1) [OF drives_requests(1) [OF assms(1)]])
    unfolding restored by (rule loop)
qed simp

text \<open>Debug registers, cases 11 and 12.\<close>

definition arm_hw :: "u64 \<Rightarrow> u32 \<Rightarrow> user_hwdebug_state \<Rightarrow> user_hwdebug_state" where
  "arm_hw a c st = write_hw (hw_len st) (st\<lparr>dbg_regs := (dbg_regs st)(0 := (a, c))\<rparr>) st"

definition disarm_hw :: "user_hwdebug_state \<Rightarrow> user_hwdebug_state" where
  "disarm_hw st = write_hw (hw_len st) (st\<lparr>dbg_regs := clear_loop (num_reg st) (dbg_regs st)\<rparr>) st"

lemma clear_loop_value: "clear_loop n r i = (if i < n then (0, 0) else r i)"
  by (induction n) auto

lemma num_reg_arm [simp]: "num_reg (arm_hw a c st) = num_reg st" "num_reg (disarm_hw st) = num_reg st"
  by (simp_all add: arm_hw_def disarm_hw_def write_hw_def num_reg_def)

lemma armed_hit: "unarmed st \<Longrightarrow> bit c 0 \<Longrightarrow> hw_hit (arm_hw a c st) b \<longleftrightarrow> b = a"
  by (auto simp: hw_hit_def list_ex_iff unarmed_def arm_hw_def write_hw_def num_reg_def hw_len_def)

lemma disarm_unarmed: "0 < num_reg st \<Longrightarrow> num_reg st \<le> NR_DBG_REGS \<Longrightarrow> unarmed (disarm_hw st)"
  by (simp add: unarmed_def) (simp add: disarm_hw_def write_hw_def clear_loop_value hw_len_def)

lemma drives_set_hw:
  assumes "refines_tracee K V pid"
  shows "drives V (set_hw_watchpt K pid a) (T, \<sigma>) 0 (T\<lparr>t_watch := arm_hw a 0x1ff5 (t_watch T)\<rparr>, \<sigma>)"
    and "drives V (set_hw_breakpt K pid a) (T, \<sigma>) 0 (T\<lparr>t_break := arm_hw a 0x1e5 (t_break T)\<rparr>, \<sigma>)"
proof -
  have "push_bit 3 2 OR push_bit 5 (push_bit 8 1 - 1) OR (push_bit 1 2 OR 1) = (0x1ff5 :: u32)"
    "push_bit 3 0 OR push_bit 5 (push_bit 4 1 - 1) OR (push_bit 1 2 OR 1) = (0x1e5 :: u32)" by simp_all
  then show "drives V (set_hw_watchpt K pid a) (T, \<sigma>) 0 (T\<lparr>t_watch := arm_hw a 0x1ff5 (t_watch T)\<rparr>, \<sigma>)"
    and "drives V (set_hw_breakpt K pid a) (T, \<sigma>) 0 (T\<lparr>t_break := arm_hw a 0x1e5 (t_break T)\<rparr>, \<sigma>)"
    unfolding set_hw_watchpt_def set_hw_breakpt_def Let_def arm_hw_def
    by (simp_all only:, intro drives_with(3) [OF drives_hw(2) [OF assms]] drives_with(2) [OF drives_hw(4) [OF assms]] drives_with(3) [OF drives_hw(1) [OF assms]]
        drives_with(2) [OF drives_hw(3) [OF assms]] drives_ret)+
qed

lemma drives_clear_hw:
  assumes "refines_tracee K V pid"
  shows "num_reg (t_watch T) \<le> NR_DBG_REGS \<Longrightarrow> drives V (clear_hw_watchpt K pid) (T, \<sigma>) 0 (T\<lparr>t_watch := disarm_hw (t_watch T)\<rparr>, \<sigma>)"
    and "num_reg (t_break T) \<le> NR_DBG_REGS \<Longrightarrow> drives V (clear_hw_breakpt K pid) (T, \<sigma>) 0 (T\<lparr>t_break := disarm_hw (t_break T)\<rparr>, \<sigma>)"
  unfolding clear_hw_watchpt_def clear_hw_breakpt_def clear_hw_def disarm_hw_def
  by (rule drives_with(3) [OF drives_hw(2) [OF assms]], simp, rule drives_with(2) [OF drives_hw(4) [OF assms]], rule drives_ret)
    (rule drives_with(3) [OF drives_hw(1) [OF assms]], simp, rule drives_with(2) [OF drives_hw(3) [OF assms]], rule drives_ret)

lemma drives_check_trap_addr:
  assumes "refines_tracee K V pid"
  shows "drives V (check_trap_addr K pid (t_pc T)) (T, \<sigma>) 0 (T, \<sigma>)"
proof -
  have regs: "answers V (\<lambda>k. case pt_getgregs K pid k of (r, k') \<Rightarrow> (map_sum id user_pt_regs.pc r, k')) (\<lambda>T. (Inr (t_pc T), T))"
    using assms by (simp add: refines_tracee_def)
  show ?thesis
    unfolding drives_def
  proof (intro allI impI)
    fix s
    assume "view V s = (T, \<sigma>)"
    moreover obtain r k where "pt_getgregs K pid (kern s) = (r, k)" by force
    moreover from this regs have "map_sum id user_pt_regs.pc r = Inr (t_pc (V (kern s)))" "V k = V (kern s)"
      by (auto simp: answers_def dest!: spec [of _ "kern s"])
    ultimately show "\<exists>t. check_trap_addr K pid (t_pc T) s = (Val 0, t) \<and> view V t = (T, \<sigma>)"
      by (cases r) (auto simp: check_trap_addr_def with_got_def get_call_def exec_def sys_call_def emit_def ret_def view_def)
  qed
qed

lemma resume_watched:
  assumes "at_brk va var L A T" and "t_store T = (\<lambda>a. if a = A then Some b else None)"
  defines "U \<equiv> patched L T\<lparr>t_watch := arm_hw b 0x1ff5 (t_watch T)\<rparr>"
  shows "resume U = trap TRAP_HWBKPT b (U\<lparr>t_stop := None, t_pc := A\<rparr>)"
proof (rule resume_hits)
  have cells: "A \<in> insn_cells A" "A + 24 \<in> insn_cells A" using insn_cellsI [of 0 A] insn_cellsI [of 6 A] by simp_all
  then have "L \<noteq> A" "L \<noteq> A + 24" using at_brk_apart(1) [OF assms(1)] by auto
  then show "L \<noteq> t_last U" and "tstep (U\<lparr>t_stop := None\<rparr>) = U\<lparr>t_stop := None, t_pc := A\<rparr>"
    by (simp_all add: tstep_def U_def at_brk_patched [OF assms(1)] at_brk_fields [OF assms(1)] assms(2))
  have "t_mem T A \<noteq> 0xd4200000" using assms(1) by (auto simp: at_brk_def dest!: spec [of _ 0])
  then show "tstep (U\<lparr>t_stop := None, t_pc := A\<rparr>) = trap TRAP_HWBKPT b (U\<lparr>t_stop := None, t_pc := A\<rparr>)"
    using cells by (simp add: tstep_def U_def at_brk_patched [OF assms(1)] at_brk_fields [OF assms(1)] assms(2) armed_hit)
qed (simp_all add: U_def at_brk_fields [OF assms(1)])

lemma resume_breakpt:
  assumes "at_brk va var L A T" and "t_store T = (\<lambda>_. None)"
  defines "U \<equiv> patched L T\<lparr>t_break := arm_hw A 0x1e5 (t_break T)\<rparr>"
  shows "resume U = trap TRAP_HWBKPT A (U\<lparr>t_stop := None, t_pc := A\<rparr>)"
proof (rule resume_hits)
  have cells: "A \<in> insn_cells A" "A + 24 \<in> insn_cells A" using insn_cellsI [of 0 A] insn_cellsI [of 6 A] by simp_all
  then have "L \<noteq> A" "L \<noteq> A + 24" using at_brk_apart(1) [OF assms(1)] by auto
  then show "L \<noteq> t_last U" and "tstep (U\<lparr>t_stop := None\<rparr>) = U\<lparr>t_stop := None, t_pc := A\<rparr>"
    by (simp_all add: tstep_def U_def at_brk_patched [OF assms(1)] at_brk_fields [OF assms(1)] assms(2) armed_hit)
  show "tstep (U\<lparr>t_stop := None, t_pc := A\<rparr>) = trap TRAP_HWBKPT A (U\<lparr>t_stop := None, t_pc := A\<rparr>)"
    by (simp add: tstep_def U_def at_brk_fields [OF assms(1)] armed_hit)
qed (simp_all add: U_def at_brk_fields [OF assms(1)])

lemma free_run_hw:
  assumes "free_run L A T" and "unarmed st"
  shows "free_run L A (T\<lparr>t_watch := st\<rparr>)" and "free_run L A (T\<lparr>t_break := st\<rparr>)"
  using assms by (auto simp: free_run_def)

lemma unarmed_sizes: "unarmed st \<Longrightarrow> 0 < num_reg st" "unarmed st \<Longrightarrow> num_reg st \<le> NR_DBG_REGS"
  by (simp_all add: unarmed_def)

lemma parent_011_succeeds:
  assumes "refines_tracee K V pid" and "at_brk (pt_var K) ''g_inst_addr'' L A T" and "child_ready 11 (pt_var K) A T"
  shows "succeeds V (parent_011 K pid) (T, \<sigma>)"
proof (rule succeedsI)
  note fields = at_brk_fields [OF assms(2)]
  let ?U = "patched L T\<lparr>t_watch := arm_hw (pt_var K ''buf'') 0x1ff5 (t_watch T)\<rparr>"
  let ?S = "trap TRAP_HWBKPT (pt_var K ''buf'') (?U\<lparr>t_stop := None, t_pc := A\<rparr>)"
  let ?C = "?S\<lparr>t_watch := disarm_hw (t_watch ?S)\<rparr>"
  have hit: "resume ?U = ?S"
    by (rule resume_watched [OF assms(2)]) (use assms(3) in \<open>simp add: child_ready_def\<close>)
  have watch: "t_watch ?S = arm_hw (pt_var K ''buf'') 0x1ff5 (t_watch T)" by (simp add: trap_def)
  have "unarmed (disarm_hw (t_watch ?S))" unfolding watch by (rule disarm_unarmed) (simp_all add: unarmed_sizes fields)
  then have "free_run L A (patched L T\<lparr>t_watch := disarm_hw (t_watch ?S)\<rparr>)" by (rule free_run_hw(1) [OF at_brk_free [OF assms(2)]])
  then have "free_run L A ?C" by (simp add: trap_def free_run_def)
  then have end': "resume ?C = ended A ?C" by (rule resume_at_insns [where i = 0]) (simp_all add: trap_def)
  show "drives V (parent_011 K pid) (T, \<sigma>) 0 (ended A ?C, \<sigma>)"
    unfolding parent_011_def end' [symmetric]
    apply (rule drives_after_brk [OF assms(1,2)])
    apply (rule drives_armed [OF assms(1) at_brk_patched(1) [OF assms(2)] fields(5) drives_set_hw(1) [OF assms(1)]])
    unfolding patched_fields hit
    apply (rule drives_trap_stop [OF assms(1)], simp, simp add: fields)
    apply (rule drives_exec [OF drives_check_trap_addr [OF assms(1), of ?S, simplified]], simp)
    apply (rule drives_exec [OF drives_clear_hw(1) [OF assms(1)]], simp add: watch unarmed_sizes fields)
    by (simp add: drives_child_cont [OF assms(1)])
  show "wait_status (ended A ?C) = Some 0"
    using assms(3) by (simp add: ended_status trap_def fields child_ready_def child_exit_def)
qed

lemma parent_012_succeeds:
  assumes "refines_tracee K V pid" and "at_brk (pt_var K) ''g_inst_addr'' L A T" and "child_ready 12 (pt_var K) A T"
  shows "succeeds V (parent_012 K pid) (T, \<sigma>)"
proof (rule succeedsI)
  note fields = at_brk_fields [OF assms(2)]
  let ?U = "patched L T\<lparr>t_break := arm_hw A 0x1e5 (t_break T)\<rparr>"
  let ?S = "trap TRAP_HWBKPT A (?U\<lparr>t_stop := None, t_pc := A\<rparr>)"
  let ?C = "?S\<lparr>t_break := disarm_hw (t_break ?S)\<rparr>"
  have hit: "resume ?U = ?S"
    by (rule resume_breakpt [OF assms(2)]) (use assms(3) in \<open>simp add: child_ready_def\<close>)
  have brk: "t_break ?S = arm_hw A 0x1e5 (t_break T)" by (simp add: trap_def)
  have "unarmed (disarm_hw (t_break ?S))" unfolding brk by (rule disarm_unarmed) (simp_all add: unarmed_sizes fields)
  then have "free_run L A (patched L T\<lparr>t_break := disarm_hw (t_break ?S)\<rparr>)" by (rule free_run_hw(2) [OF at_brk_free [OF assms(2)]])
  then have "free_run L A ?C" by (simp add: trap_def free_run_def)
  then have end': "resume ?C = ended A ?C" by (rule resume_at_insns [where i = 0]) (simp_all add: trap_def)
  show "drives V (parent_012 K pid) (T, \<sigma>) 0 (ended A ?C, \<sigma>)"
    unfolding parent_012_def end' [symmetric]
    apply (rule drives_after_brk [OF assms(1,2)])
    apply (rule drives_armed [OF assms(1) at_brk_patched(1) [OF assms(2)] fields(5) drives_set_hw(2) [OF assms(1)]])
    unfolding patched_fields hit
    apply (rule drives_trap_stop [OF assms(1)], simp, simp add: fields)
    apply (rule drives_exec [OF drives_clear_hw(2) [OF assms(1)]], simp add: brk unarmed_sizes fields)
    by (simp add: drives_child_cont [OF assms(1)])
  show "wait_status (ended A ?C) = Some 0"
    using assms(3) by (simp add: ended_status trap_def fields child_ready_def child_exit_def)
qed

lemma parent_013_succeeds:
  assumes "refines_tracee K V pid" and "at_brk (pt_var K) ''inst_addr'' L A T" and "child_ready 13 (pt_var K) A T"
  shows "succeeds V (parent_013 K junk pid) (T, \<sigma>)"
proof (rule patched_succeeds [OF assms(2,3)])
  note fields = at_brk_fields [OF assms(2)]
  have "free_run L A (patched L T\<lparr>t_stop := i\<rparr>)" for i using at_brk_free [OF assms(2)] by simp
  then have resume: "resume (patched L T\<lparr>t_stop := i\<rparr>) = ended A (patched L T)" for i
    using resume_ends_from_brk by (simp add: fields ended_def)
  show "drives V (parent_013 K junk pid) (T, \<sigma>) 0 (ended A (patched L T), \<sigma>)"
    unfolding parent_013_def Let_def
    apply (rule drives_after_brk [OF assms(1,2)])
    apply (rule drives_with(3) [OF drives_siginfo(1) [OF assms(1)]], simp add: fields)
    apply (rule drives_with(2) [OF drives_siginfo(2) [OF assms(1)]])
    apply (rule drives_with(3) [OF drives_siginfo(1) [OF assms(1)]], simp)
    apply (simp, rule drives_print)
    apply (rule drives_with(2) [OF drives_siginfo(2) [OF assms(1)]])
    using drives_child_cont [OF assms(1), of 0 "patched L T\<lparr>t_stop := Some \<lparr>si_signo = SIGTRAP, si_errno = 0, si_code = TRAP_BRKPT, si_addr = L\<rparr>\<rparr>" \<sigma>]
    by (simp add: resume)
qed simp

lemma drives_set_options:
  assumes "refines_tracee K V pid" and "d AND NOT known_options = 0"
  shows "drives V (c_ptrace K PTRACE_SETOPTIONS pid 0 d) (T, \<sigma>) 0 (T, \<sigma>)"
  unfolding c_ptrace_def by (rule drives_sys_call [OF answersD(1) [OF assms(1)]]) (simp add: tracee_ptrace_def assms(2))

lemma drives_bad_options:
  assumes "refines_tracee K V pid" and "d AND NOT known_options \<noteq> 0" and "drives V (f EINVAL) (T, \<sigma>) v q"
  shows "drives V (exec (c_ptrace K PTRACE_SETOPTIONS pid 0 d) (\<lambda>r. if r = 0 then g else exec get_errno f)) (T, \<sigma>) v q"
proof -
  have "tracee_ptrace PTRACE_SETOPTIONS 0 d T = (Inl EINVAL, T)" using assms(2) by (simp add: tracee_ptrace_def)
  note fail = ptrace_fails(1) [OF assms(1) this]
  show ?thesis
    unfolding drives_def
  proof (intro allI impI)
    fix s assume "view V s = (T, \<sigma>)"
    with fail obtain t where "c_ptrace K PTRACE_SETOPTIONS pid 0 d s = (Val (-1), t)" "view V t = (T, \<sigma>)" "errno t = EINVAL" by blast
    with assms(3) show "\<exists>u. exec (c_ptrace K PTRACE_SETOPTIONS pid 0 d) (\<lambda>r. if r = 0 then g else exec get_errno f) s = (Val v, u) \<and> view V u = q"
      by (simp add: exec_def get_errno_def drives_def)
  qed
qed

lemma parent_014_succeeds:
  assumes "refines_tracee K V pid" and "at_brk (pt_var K) ''inst_addr'' L A T" and "child_ready 14 (pt_var K) A T"
  shows "succeeds V (parent_014 K pid) (T, \<sigma>)"
proof (rule patched_succeeds [OF assms(2,3)])
  show "drives V (parent_014 K pid) (T, \<sigma>) 0 (ended A (patched L T), \<sigma>)"
    unfolding parent_014_def Let_def resume_patched [OF assms(2), symmetric]
    apply (rule drives_after_brk [OF assms(1,2)])
    apply (rule drives_with(1) [OF drives_set_options [OF assms(1)]])
     apply (simp add: known_options_def PTRACE_O_TRACESYSGOOD_def PTRACE_O_TRACEFORK_def PTRACE_O_TRACEVFORK_def PTRACE_O_TRACECLONE_def
        PTRACE_O_TRACEEXEC_def PTRACE_O_TRACEVFORKDONE_def)
    apply (rule drives_print, rule drives_bad_options [OF assms(1)], simp add: known_options_def)
    by (simp add: drives_print drives_child_cont [OF assms(1)])
qed simp

lemma ptrace_018_passes:
  assumes "refines_tracee K V pid" and "pid \<noteq> -1" and "pid \<noteq> 0" and "at_brk (pt_var K) ''inst_addr'' L A T"
  shows "drives V (ptrace_018 K) (T, \<sigma>) None (patched L T\<lparr>t_killed := True\<rparr>, \<sigma>)"
proof -
  have w: "wait_status T = Some 0x57f" by (simp add: at_brk_fields [OF assms(4)] wait_status_trap)
  have "drives V (parent_018 K pid) (T, \<sigma>) 0 (patched L T\<lparr>t_killed := True\<rparr>, \<sigma>)"
    unfolding parent_018_def
    by (rule drives_wait_stopped [OF assms(1) w stop_status(1)],
        rule drives_exec [OF drives_rewrite_brk [OF assms(1) at_brk_fields(10) [OF assms(4)] at_brk_fields(4) [OF assms(4)]]],
        rule drives_with(1) [OF drives_requests(5) [OF assms(1)]], rule drives_ret)
  note parent = drives_exec [OF this]
  have dead: "wait_status (patched L T\<lparr>t_killed := True\<rparr>) = Some 9" by (simp add: wait_status_def SIGKILL_def)
  show ?thesis
    unfolding ptrace_018_def c_fork_def
    by (rule drives_exec [OF drives_sys_call [OF answersD(2) [OF assms(1)] refl]], simp add: assms(2,3), rule parent, rule drives_wait [OF assms(1) dead])
      (simp add: assms(2) WIFSIGNALED_def WTERMSIG_def SIGKILL_def drives_print drives_ret)
qed

section \<open>The tests pass\<close>

definition brk_var :: "int \<Rightarrow> string" where
  "brk_var n = (if n = 11 \<or> n = 12 then ''g_inst_addr'' else ''inst_addr'')"

lemma succeeding_parent_passes:
  assumes "succeeds V (parent pid) (V (kern s), statics s)" and "refines_tracee K V pid" and "pid \<noteq> -1" and "pid \<noteq> 0"
  shows "fst (run_traced K child parent s) = Val None"
proof -
  from assms(1) obtain U \<sigma> where "drives V (parent pid) (V (kern s), statics s) 0 (U, \<sigma>)" and st: "wait_status U = Some 0"
    by (auto simp: succeeds_def)
  then have "drives V (run_traced K child parent) (V (kern s), statics s) None (U, \<sigma>)"
    by (rule run_traced_runs [OF assms(2-4)]) (simp add: WEXITSTATUS_def)
  then show ?thesis by (auto simp: drives_def view_def)
qed

lemmas parents_succeed = parent_001_succeeds parent_002_succeeds parent_003_succeeds parent_004_007_succeed parent_005_succeeds parent_006_succeeds
  parent_011_succeeds parent_012_succeeds parent_013_succeeds parent_014_succeeds parent_017_succeeds

lemmas traced_tests = ptrace_001_def ptrace_002_def ptrace_003_def ptrace_004_def ptrace_005_def ptrace_006_def ptrace_007_def ptrace_011_def
  ptrace_012_def ptrace_013_def ptrace_014_def ptrace_017_def


text \<open>The reference itself as a kernel, and a child in it.\<close>

definition tracee_os :: "(string \<Rightarrow> u64) \<Rightarrow> int \<Rightarrow> tracee pt_os" where
  "tracee_os va pid = file_os.extend (failing_os EIO) (pt_os.fields
     (\<lambda>T. (Inr pid, T)) (\<lambda>T. (case wait_status T of Some st \<Rightarrow> Inr (pid, st) | None \<Rightarrow> Inl 10, T)) (\<lambda>_ T. (Inl 10, T)) (\<lambda>_ _ T. (Inr 0, T))
     (\<lambda>req _. tracee_ptrace req) (\<lambda>_ T. (Inr 0, T)) (\<lambda>_ T. (case t_stop T of Some i \<Rightarrow> Inr i | None \<Rightarrow> Inl EINVAL, T)) (\<lambda>_ i T. (Inr (), T\<lparr>t_stop := Some i\<rparr>))
     (\<lambda>_ T. (Inr \<lparr>regs = (\<lambda>_. 0), sp = 0, pc = t_pc T, pstate = 0\<rparr>, T)) (\<lambda>_ _ T. (Inr (), T))
     (\<lambda>_ T. (Inl EIO, T)) (\<lambda>_ _ T. (Inl EIO, T)) (\<lambda>_ T. (Inl EIO, T)) (\<lambda>_ _ T. (Inl EIO, T))
     (\<lambda>n _ T. (Inr (if n = Arm_hw_break then t_break T else t_watch T), T))
     (\<lambda>n _ len st T. (Inr (), if n = Arm_hw_break then T\<lparr>t_break := write_hw len st (t_break T)\<rparr> else T\<lparr>t_watch := write_hw len st (t_watch T)\<rparr>))
     (\<lambda>_ T. (Inl EIO, T)) (\<lambda>_ _ T. (Inl EIO, T)) False va (\<lambda>_. 0) (\<lambda>st T. (st, T)) (\<lambda>_ T. T) (\<lambda>_ _. 0) (\<lambda>_ _. 0)
     (\<lambda>_ T. (Inr 0, T)) (\<lambda>_ T. (Inr 0, T)) (\<lambda>_ T. (Inr 0, T)) (\<lambda>T. (Inl EIO, T)) (\<lambda>_ _ T. (Inl EIO, T)) (\<lambda>_ T. T))"

lemma tracee_os_fields:
  "pt_fork (tracee_os va pid) = (\<lambda>T. (Inr pid, T))" "pt_var (tracee_os va pid) = va"
  "pt_wait (tracee_os va pid) = (\<lambda>T. (case wait_status T of Some st \<Rightarrow> Inr (pid, st) | None \<Rightarrow> Inl 10, T))"
  "pt_ptrace (tracee_os va pid) req p = tracee_ptrace req"
  "pt_sem_post (tracee_os va pid) x T = (Inr 0, T)" "pt_sem_wait (tracee_os va pid) x T = (Inr 0, T)"
  by (simp_all add: tracee_os_def pt_os.defs file_os.defs failing_os_def)

lemma tracee_os_refines: "refines_tracee (tracee_os va pid) (\<lambda>T. T) pid"
  by (simp add: refines_tracee_def answers_def tracee_os_def pt_os.defs file_os.defs failing_os_def)

definition demo_var :: "string \<Rightarrow> u64" where
  "demo_var x = (if x = ''addr'' then 0x200 else if x = ''buf'' then 0x300 else 0x100)"

definition demo_tracee :: "int \<Rightarrow> tracee" where
  "demo_tracee n = \<lparr>t_mem = (\<lambda>_. 0)(0x100 := 0x1000, 0x200 := 0x2000, 0x1000 := 0xd4200000, 0x2004 := 0xd503201f), t_pc = 0x1000,
     t_stop = Some \<lparr>si_signo = SIGTRAP, si_errno = 0, si_code = TRAP_BRKPT, si_addr = 0x1000\<rparr>, t_killed = False,
     t_break = \<lparr>dbg_info = 4, dbg_regs = (\<lambda>_. (0, 0))\<rparr>, t_watch = \<lparr>dbg_info = 4, dbg_regs = (\<lambda>_. (0, 0))\<rparr>,
     t_succ = (\<lambda>a. if a = 0x1000 then 0x2000 else a + 4), t_store = (\<lambda>a. if n = 11 \<and> a = 0x2000 then Some 0x300 else None), t_last = 0x2018,
     t_exit = child_exit n demo_var\<rparr>"

lemma all_below_6: "(\<forall>i < 6. P i) \<longleftrightarrow> P 0 \<and> P 1 \<and> P 2 \<and> P 3 \<and> P 4 \<and> P (5 :: nat)"
proof
  assume "P 0 \<and> P 1 \<and> P 2 \<and> P 3 \<and> P 4 \<and> P 5"
  moreover have "i < 6 \<Longrightarrow> i \<in> {0, 1, 2, 3, 4, 5}" for i :: nat by auto
  ultimately show "\<forall>i < 6. P i" by blast
qed simp

lemma demo_at_brk: "at_brk demo_var (brk_var n) 0x1000 0x2000 (demo_tracee n)"
proof -
  have var: "demo_var (brk_var n) = 0x100" by (simp add: demo_var_def brk_var_def)
  have cells: "insn_cells 0x2000 = {0x2000, 0x2004, 0x2008, 0x200c, 0x2010, 0x2014, 0x2018}"
  proof -
    have "[0..<7] = [0, 1, 2, 3, 4, 5, 6]" by (simp add: upt_rec)
    then show ?thesis by (simp add: insn_cells_def del: set_upt)
  qed
  show ?thesis
    unfolding at_brk_def all_below_6 cells var
    by (simp add: demo_tracee_def peek_def unarmed_def num_reg_def NR_DBG_REGS_def var) (simp add: demo_var_def)
qed

lemma demo_ready: "n \<noteq> 2 \<Longrightarrow> child_ready n demo_var 0x2000 (demo_tracee n)"
  by (simp add: child_ready_def demo_tracee_def demo_var_def NOP_INST_def fun_eq_iff)


section \<open>What the parents write\<close>

lemma exec_c_peek:
  assumes "pt_ptrace K req pid a 0 (kern s) = (r, k)"
  shows "exec (c_peek K req pid a) f s = f (case r of Inl _ \<Rightarrow> -1 | Inr v \<Rightarrow> v) (after (case r of Inl e \<Rightarrow> e | Inr _ \<Rightarrow> if pt_clears_errno K then 0 else errno s) k
    (Called (Lib ''ptrace'') [AInt (req_code req), AInt pid, AInt (uint a)] (case r of Inl _ \<Rightarrow> -1 | Inr v \<Rightarrow> uint v)) s)"
  using assms by (cases r) (simp_all add: exec_def c_peek_def)

lemma exec_get_errno: "exec get_errno f s = f (errno s) s"
  by (simp add: exec_def get_errno_def)

lemma planted_halves:
  fixes v :: u64
  shows "(ucast ((v AND 0xffffffff00000000) OR BRK_INST) :: u32) = ucast BRK_INST" and "drop_bit 32 ((v AND 0xffffffff00000000) OR BRK_INST) = drop_bit 32 v"
proof -
  have "drop_bit 32 (v AND push_bit 32 (mask 32)) = drop_bit 32 v"
    by (rule bit_word_eqI) (auto simp: bit_simps dest: bit_imp_le_length)
  moreover have "push_bit 32 (mask 32) = (0xffffffff00000000 :: u64)" by (simp add: mask_eq_exp_minus_1 push_bit_eq_mult)
  ultimately have "drop_bit 32 (v AND 0xffffffff00000000) = drop_bit 32 v" by simp
  then show "drop_bit 32 ((v AND 0xffffffff00000000) OR BRK_INST) = drop_bit 32 v" by (simp add: BRK_INST_def)
qed simp

text \<open>
  C36. Cases 6 and 17 replace the lower half of the word at the child's address by the breakpoint instruction, keep the upper half, and hand the old word on to be put
  back. They do not notice when the old word could not be read: the test behind \<^verbatim>\<open>PTRACE_PEEKTEXT\<close> looks at the address read before, so after a failed
  request the next one writes \<^verbatim>\<open>0xffffffffd4200000\<close> into the child, and \<open>-1\<close> is what is put back later.
\<close>

theorem plant_brk_written_word:
  assumes "pt_ptrace K PTRACE_PEEKDATA pid (pt_var K ''addr'') 0 (kern s) = (Inr a, k1)" and "a \<noteq> -1"
    and "pt_ptrace K PTRACE_PEEKTEXT pid a 0 k1 = (r, k2)"
  shows "\<exists>t w old. plant_brk K pid f s =
      with_req (c_ptrace K PTRACE_POKETEXT pid a w) ''ptrace(PTRACE_POKETEXT)'' (child_cont K pid (-1))
        (with_req (c_ptrace K PTRACE_CONT pid 0 0) ''ptrace(PTRACE_CONT)'' (ret (-1)) (f a old)) t
    \<and> kern t = k2 \<and> (ucast w :: u32) = ucast BRK_INST \<and> drop_bit 32 w = drop_bit 32 old
    \<and> (case r of Inr v \<Rightarrow> old = v | Inl _ \<Rightarrow> old = -1 \<and> w = 0xffffffffd4200000)"
proof -
  let ?old = "case r of Inl _ \<Rightarrow> -1 | Inr v \<Rightarrow> v"
  let ?w = "(?old AND 0xffffffff00000000) OR BRK_INST"
  define t1 where "t1 = after (if pt_clears_errno K then 0 else errno s) k1
    (Called (Lib ''ptrace'') [AInt (req_code PTRACE_PEEKDATA), AInt pid, AInt (uint (pt_var K ''addr''))] (uint a)) s"
  then have k: "pt_ptrace K PTRACE_PEEKTEXT pid a 0 (kern t1) = (r, k2)" using assms(3) by simp
  define t2 where "t2 = after (case r of Inl e \<Rightarrow> e | Inr _ \<Rightarrow> if pt_clears_errno K then 0 else errno t1) k2
    (Called (Lib ''ptrace'') [AInt (req_code PTRACE_PEEKTEXT), AInt pid, AInt (uint a)] (case r of Inl _ \<Rightarrow> -1 | Inr v \<Rightarrow> uint v)) t1"
  have "plant_brk K pid f s = with_req (c_ptrace K PTRACE_POKETEXT pid a ?w) ''ptrace(PTRACE_POKETEXT)'' (child_cont K pid (-1))
        (with_req (c_ptrace K PTRACE_CONT pid 0 0) ''ptrace(PTRACE_CONT)'' (ret (-1)) (f a ?old)) t2"
    by (simp add: plant_brk_def with_peek_def exec_c_peek [OF assms(1)] exec_c_peek [OF k] exec_get_errno assms(2) t1_def [symmetric] t2_def [symmetric])
  moreover have "kern t2 = k2" by (simp add: t2_def)
  moreover have "case r of Inr v \<Rightarrow> ?old = v | Inl _ \<Rightarrow> ?old = -1 \<and> ?w = 0xffffffffd4200000"
    by (cases r) (simp_all add: BRK_INST_def)
  ultimately show ?thesis using planted_halves [of ?old] by blast
qed

lemma drives_state: "drives V m (V (kern s), statics s) v (T, \<sigma>) \<Longrightarrow> \<exists>t. m s = (Val v, t) \<and> V (kern t) = T \<and> statics t = \<sigma>"
  by (auto simp: drives_def view_def)

lemma arm_hw_regs: "0 < num_reg st \<Longrightarrow> arm_hw a c st = st\<lparr>dbg_regs := (dbg_regs st)(0 := (a, c))\<rparr>"
  by (auto simp: arm_hw_def write_hw_def hw_len_def fun_eq_iff intro!: user_hwdebug_state.equality)

lemma disarm_hw_regs: "disarm_hw st = st\<lparr>dbg_regs := (\<lambda>i. if i < num_reg st then (0, 0) else dbg_regs st i)\<rparr>"
  by (auto simp: disarm_hw_def write_hw_def hw_len_def clear_loop_value fun_eq_iff intro!: user_hwdebug_state.equality)


text \<open>A kernel that refuses to read instructions.\<close>

definition no_text_os :: "tracee pt_os" where
  "no_text_os = (tracee_os demo_var 7)\<lparr>pt_ptrace := (\<lambda>req _ a d T. if req = PTRACE_PEEKTEXT then (Inl EIO, T) else tracee_ptrace req a d T)\<rparr>"

theorem plant_brk_written_word_witness:
  "\<exists>t. plant_brk no_text_os 7 (\<lambda>_ _. ret 0) (fresh_process (demo_tracee 6)) =
      with_req (c_ptrace no_text_os PTRACE_POKETEXT 7 0x2000 0xffffffffd4200000) ''ptrace(PTRACE_POKETEXT)'' (child_cont no_text_os 7 (-1))
        (with_req (c_ptrace no_text_os PTRACE_CONT 7 0 0) ''ptrace(PTRACE_CONT)'' (ret (-1)) (ret 0)) t"
proof -
  have "pt_ptrace no_text_os PTRACE_PEEKDATA 7 (pt_var no_text_os ''addr'') 0 (kern (fresh_process (demo_tracee 6))) = (Inr 0x2000, demo_tracee 6)"
    by (simp add: no_text_os_def tracee_os_fields tracee_ptrace_def fresh_process_def demo_var_def) (simp add: demo_tracee_def peek_def)
  moreover have "(0x2000 :: u64) \<noteq> -1" by simp
  moreover have "pt_ptrace no_text_os PTRACE_PEEKTEXT 7 0x2000 0 (demo_tracee 6) = (Inl EIO, demo_tracee 6)" by (simp add: no_text_os_def)
  ultimately show ?thesis using plant_brk_written_word [of no_text_os 7 "fresh_process (demo_tracee 6)" "0x2000" "demo_tracee 6" "Inl EIO" "demo_tracee 6" "\<lambda>_ _. ret 0"]
    by auto
qed


end
