(* ===== verification/Ptrace_Suite.thy ===== *)
theory Ptrace_Suite
  imports Ptrace_Tracee
begin

text \<open>
  What the cases of the \<^verbatim>\<open>ptrace\<close> suite establish for every kernel: the last request of a case that passes, the verdict of a test function, and the
  schedules in which parent and child of the cases with semaphores block each other for ever. The concrete kernel is the reference tracee.
\<close>

unbundle bit_operations_syntax

section \<open>The last request\<close>

fun is_request :: "event \<Rightarrow> bool" where
  "is_request (Called nm args r) \<longleftrightarrow> nm = Lib ''ptrace''"
| "is_request (Printed fmt args) \<longleftrightarrow> False"

definition last_request :: "event list \<Rightarrow> event option" where
  "last_request tr = (let rs = filter is_request tr in if rs = [] then None else Some (last rs))"

lemma last_request_append [simp]:
  "last_request (tr @ [ev]) = (if is_request ev then Some ev else last_request tr)"
  by (simp add: last_request_def)

lemma last_request_quiet [simp]: "filter is_request evs = [] \<Longrightarrow> last_request (tr @ evs) = last_request tr"
  by (simp add: last_request_def)

definition done_request :: "pt_request \<Rightarrow> int \<Rightarrow> event" where
  "done_request req pid = Called (Lib ''ptrace'') [AInt (req_code req), AInt pid, AInt 0, AInt 0] 0"

text \<open>A parent function that returns 0 has made its last request \<open>req\<close>, and the request succeeded.\<close>

definition ends_with :: "pt_request \<Rightarrow> int \<Rightarrow> ('k, int) prog \<Rightarrow> bool" where
  "ends_with req pid m \<longleftrightarrow> (\<forall>s. wp m (\<lambda>r t. r = Val 0 \<longrightarrow> last_request (trace t) = Some (done_request req pid)) s)"

named_theorems ends_rules \<open>how parent functions end\<close>

lemma ends_ret [ends_rules]: "r \<noteq> 0 \<Longrightarrow> ends_with req pid (ret r)"
  by (simp add: ends_with_def wp_def ret_def)

lemma ends_stop [ends_rules]: "ends_with req pid (stop h)"
  by (simp add: ends_with_def wp_def stop_def)

lemma ends_exec [ends_rules]: "(\<And>a. ends_with req pid (f a)) \<Longrightarrow> ends_with req pid (exec m f)"
  by (simp add: ends_with_def, intro allI wp_exec wpI) (auto split: run.splits)

lemma ends_if [ends_rules]: "ends_with req pid m \<Longrightarrow> ends_with req pid n \<Longrightarrow> ends_with req pid (if b then m else n)"
  by simp

lemma ends_case [ends_rules]:
  "ends_with req pid m \<Longrightarrow> (\<And>a. ends_with req pid (f a)) \<Longrightarrow> ends_with req pid (case x of None \<Rightarrow> m | Some a \<Rightarrow> f a)"
  "(\<And>a b. ends_with req pid (g a b)) \<Longrightarrow> ends_with req pid (case y of (a, b) \<Rightarrow> g a b)"
  by (auto split: option.splits prod.splits)

lemma ends_Let [ends_rules]: "(\<And>a. ends_with req pid (f a)) \<Longrightarrow> ends_with req pid (let a = x in f a)"
  by simp

lemma uint_sys_zero: "uint (v :: u64) = 0 \<longleftrightarrow> v = 0"
  by (rule unsigned_eq_0_iff)

lemma ends_request:
  "ends_with req pid (with_req (c_ptrace K req pid 0 0) msg (ret (-1)) (ret r))"
  by (auto simp: ends_with_def wp_def with_req_def c_ptrace_def exec_def sys_call_def perror_def get_errno_def emit_def ret_def
      done_request_def split: prod.splits sum.splits)

lemma ends_child_cont [ends_rules]: "ends_with PTRACE_CONT pid (child_cont K pid r)"
  unfolding child_cont_def by (rule ends_request)

lemma ends_blocks [ends_rules]:
  "ends_with q pid bad \<Longrightarrow> (\<And>v. ends_with q pid (f v)) \<Longrightarrow> ends_with q pid (with_got m msg bad f)"
  "ends_with q pid bad \<Longrightarrow> ends_with q pid g \<Longrightarrow> ends_with q pid (with_set m' msg bad g)"
  "ends_with q pid bad \<Longrightarrow> ends_with q pid g \<Longrightarrow> ends_with q pid (with_req w msg bad g)"
  "ends_with q pid bad \<Longrightarrow> (\<And>v. ends_with q pid (h v)) \<Longrightarrow> ends_with q pid (with_peek w msg bad h)"
  "ends_with q pid bad \<Longrightarrow> ends_with q pid g \<Longrightarrow> ends_with q pid (check_print b good pr bad g)"
  "(\<And>st. ends_with q pid (i st)) \<Longrightarrow> ends_with q pid (stopped_or r cpid i)"
  "ends_with q pid g \<Longrightarrow> ends_with q pid (wait_stopped K cpid g)"
  "ends_with q pid g \<Longrightarrow> ends_with q pid (attach K swait swake cpid g)"
  unfolding with_got_def with_set_def with_req_def with_peek_def check_print_def stopped_or_def wait_stopped_def attach_def
  by ((intro ends_rules; simp)+)

lemma ends_cont_blocks [ends_rules]:
  "ends_with PTRACE_CONT pid g \<Longrightarrow> ends_with PTRACE_CONT pid (after_brk K pid var g)"
  "ends_with PTRACE_CONT pid g \<Longrightarrow> ends_with PTRACE_CONT pid (trap_stop K pre pid tr addr good bad g)"
  "ends_with PTRACE_CONT pid (expect_eio K pid m name)"
  "(\<And>a b. ends_with PTRACE_CONT pid (f a b)) \<Longrightarrow> ends_with PTRACE_CONT pid (plant_brk K pid f)"
  "(\<And>a. ends_with PTRACE_CONT pid (h a)) \<Longrightarrow> ends_with PTRACE_CONT pid (armed K pid arm msg h)"
  unfolding after_brk_def trap_stop_def expect_eio_def plant_brk_def armed_def Let_def
  by ((intro ends_rules; simp)+)

lemma ends_step_loop [ends_rules]: "ends_with PTRACE_CONT pid (step_loop K pid i n a)"
proof (induction n arbitrary: i a)
  case (Suc n)
  show ?case unfolding step_loop.simps by (intro ends_rules Suc)
qed (simp add: ends_child_cont)

lemmas parent_defs = parent_001_def parent_002_def parent_003_def parent_004_def parent_005_def parent_006_def parent_007_def parent_008_def
  parent_009_def parent_010_def parent_011_def parent_012_def parent_013_def parent_014_def parent_015_def parent_016_def parent_017_def parent_019_def

lemma parents_end_with_cont:
  "ends_with PTRACE_CONT pid (parent_001 K pid)" "ends_with PTRACE_CONT pid (parent_002 K pid)" "ends_with PTRACE_CONT pid (parent_003 K pid)"
  "ends_with PTRACE_CONT pid (parent_004 K pid)" "ends_with PTRACE_CONT pid (parent_005 K pid)" "ends_with PTRACE_CONT pid (parent_006 K pid)"
  "ends_with PTRACE_CONT pid (parent_007 K pid)" "ends_with PTRACE_CONT pid (parent_008 K pid)" "ends_with PTRACE_CONT pid (parent_009 K a b pid)"
  "ends_with PTRACE_CONT pid (parent_010 K pid)" "ends_with PTRACE_CONT pid (parent_011 K pid)" "ends_with PTRACE_CONT pid (parent_012 K pid)"
  "ends_with PTRACE_CONT pid (parent_013 K junk pid)" "ends_with PTRACE_CONT pid (parent_014 K pid)" "ends_with PTRACE_CONT pid (parent_015 K pid)"
  "ends_with PTRACE_CONT pid (parent_016 K pid)" "ends_with PTRACE_CONT pid (parent_017 K pid)" "ends_with PTRACE_CONT pid (parent_019 K a b pid)"
  unfolding parent_defs by ((intro ends_rules; simp)+)

text \<open>What follows the parent function, up to the verdict.\<close>

definition passed_with :: "pt_request \<Rightarrow> string option run \<Rightarrow> 'k machine \<Rightarrow> bool" where
  "passed_with req r t \<longleftrightarrow> (r = Val None \<longrightarrow> (\<exists>pid. last_request (trace t) = Some (done_request req pid)))"

lemma wp_wait_child:
  assumes "func_ret = 0 \<longrightarrow> last_request (trace s) = Some (done_request req pid)"
  shows "wp (wait_child K func_ret) (passed_with req) s"
  unfolding wait_child_def c_wait_def
  by (intro wp_rules wp_perror) (use assms in \<open>auto simp: passed_with_def\<close>)

lemma wp_parent:
  assumes "ends_with req pid m" and "\<And>r t. r = 0 \<longrightarrow> last_request (trace t) = Some (done_request req pid) \<Longrightarrow> wp (f r) (passed_with req) t"
  shows "wp (exec m f) (passed_with req) s"
proof (rule wp_exec, rule wp_mono)
  show "wp m (\<lambda>r t. r = Val 0 \<longrightarrow> last_request (trace t) = Some (done_request req pid)) s" using assms(1) by (simp add: ends_with_def)
qed (auto simp: assms(2) passed_with_def split: run.splits)

lemma run_traced_passed:
  assumes "\<And>pid. ends_with req pid (parent pid)"
  shows "wp (run_traced K child parent) (passed_with req) s"
  unfolding run_traced_def c_fork_def fork_error_def
  by (intro wp_rules wp_perror wp_parent [OF assms] wp_wait_child wpI)
    (auto simp: passed_with_def exec_def stop_def split: prod.splits run.splits)

lemma run_synced_passed:
  assumes "\<And>a b pid. ends_with req pid (parent a b pid)"
  shows "wp (run_synced K child parent) (passed_with req) s"
proof -
  have tail: "wp (exec (unmap_sems K a b) (\<lambda>r. if r \<noteq> 0 then exec (perror ''[parent] munmap()'') (\<lambda>_. ret (Some ''munmap() failed.''))
      else wait_child K func_ret)) (passed_with req) t"
    if "func_ret = 0 \<longrightarrow> last_request (trace t) = Some (done_request req pid)" for a b func_ret t pid
    unfolding unmap_sems_def munmap_def
    by (intro wp_rules wp_perror wp_wait_child [where pid = pid]) (use that in \<open>simp_all add: passed_with_def\<close>)
  have child: "wp (exec (child a b) (\<lambda>func_ret. exec (unmap_sems K a b) (\<lambda>r. if r \<noteq> 0 then exec (perror ''[child] munmap()'') (\<lambda>_. stop (Exited (-1)))
      else stop (Exited func_ret)))) (passed_with req) t" for a b t
    unfolding unmap_sems_def munmap_def
    by (intro wp_rules wp_perror wpI) (auto simp: passed_with_def split: run.splits intro!: wp_rules wp_perror)
  show ?thesis
    unfolding run_synced_def c_fork_def fork_error_def map_sem_def mmap_def c_sem_init_def
    by (intro wp_parent [OF assms] tail child wp_rules wp_perror) (assumption | simp add: passed_with_def)+
qed

lemma ends_detach: "ends_with PTRACE_DETACH pid (parent_020 K a b pid)"
proof -
  have "ends_with PTRACE_DETACH pid (with_req (c_ptrace K PTRACE_DETACH pid 0 0) ''ptrace(PTRACE_DETACH)'' (ret (-1))
      (exec (printf ''child detach OK.'' []) (\<lambda>_. ret 0)))"
    by (auto simp: ends_with_def wp_def with_req_def c_ptrace_def exec_def sys_call_def perror_def get_errno_def emit_def ret_def
        done_request_def last_request_def split: prod.splits sum.splits)
  then show ?thesis unfolding parent_020_def by (rule ends_blocks(8))
qed

lemma ends_kill: "ends_with PTRACE_KILL pid (parent_018 K pid)"
  unfolding parent_018_def by (rule ends_blocks(7), rule ends_exec, rule ends_request)

lemma ptrace_018_passed: "wp (ptrace_018 K) (passed_with PTRACE_KILL) s"
  unfolding ptrace_018_def c_fork_def fork_error_def c_wait_def
  by (intro wp_parent [OF ends_kill] wp_rules wp_perror wpI)
    (auto simp: passed_with_def exec_def stop_def split: prod.splits run.splits)

lemma traced_cases_passed:
  "wp (ptrace_001 K) (passed_with PTRACE_CONT) s"
  "wp (ptrace_002 K) (passed_with PTRACE_CONT) s"
  "wp (ptrace_003 K) (passed_with PTRACE_CONT) s"
  "wp (ptrace_004 K) (passed_with PTRACE_CONT) s"
  "wp (ptrace_005 K) (passed_with PTRACE_CONT) s"
  "wp (ptrace_006 K) (passed_with PTRACE_CONT) s"
  "wp (ptrace_007 K) (passed_with PTRACE_CONT) s"
  "wp (ptrace_008 K) (passed_with PTRACE_CONT) s"
  "wp (ptrace_009 K) (passed_with PTRACE_CONT) s"
  "wp (ptrace_010 K) (passed_with PTRACE_CONT) s"
  "wp (ptrace_011 K) (passed_with PTRACE_CONT) s"
  "wp (ptrace_012 K) (passed_with PTRACE_CONT) s"
  "wp (ptrace_013 K junk) (passed_with PTRACE_CONT) s"
  "wp (ptrace_014 K) (passed_with PTRACE_CONT) s"
  "wp (ptrace_015 K) (passed_with PTRACE_CONT) s"
  "wp (ptrace_016 K) (passed_with PTRACE_CONT) s"
  "wp (ptrace_017 K) (passed_with PTRACE_CONT) s"
  "wp (ptrace_019 K) (passed_with PTRACE_CONT) s"
  unfolding ptrace_001_def ptrace_002_def ptrace_003_def ptrace_004_def ptrace_005_def ptrace_006_def ptrace_007_def ptrace_008_def ptrace_009_def
    ptrace_010_def ptrace_011_def ptrace_012_def ptrace_013_def ptrace_014_def ptrace_015_def ptrace_016_def ptrace_017_def ptrace_019_def
  by (intro run_traced_passed run_synced_passed parents_end_with_cont)+

lemma ptrace_020_passed: "wp (ptrace_020 K) (passed_with PTRACE_DETACH) s"
  unfolding ptrace_020_def by (intro run_synced_passed ends_detach)

text \<open>Case 0 kills a child it does not trace and does not look at the result, and case 21 compares results with \<open>-1\<close> only.\<close>

definition last_request_of :: "int \<Rightarrow> pt_request" where
  "last_request_of n = (if n = 18 then PTRACE_KILL else if n = 20 then PTRACE_DETACH else PTRACE_CONT)"


section \<open>The verdict\<close>

lemma killed_status: "WIFSIGNALED st \<Longrightarrow> unat st < 256 \<Longrightarrow> WEXITSTATUS st = 0"
proof -
  assume "unat st < 256"
  then have "take_bit 8 st = st" by (simp add: word_unat_eq_iff take_bit_eq_mod unat_mod_distrib)
  moreover have low: "take_bit 8 st AND push_bit 8 w = 0" for w by (rule bit_word_eqI) (auto simp: bit_simps)
  ultimately have "st AND 0xff00 = take_bit 8 st AND 0xff00" by simp
  also have "\<dots> = 0" using low [of 255] by simp
  finally show ?thesis by (simp add: WEXITSTATUS_def)
qed

text \<open>
  C5. The verdict of the test functions: when \<^verbatim>\<open>fork\<close> and the final \<^verbatim>\<open>wait\<close> succeed, a test passes exactly when the parent function returned 0 and
  the eight bits of the wait status that \<^verbatim>\<open>WEXITSTATUS\<close> looks at are 0. A child that was killed by a signal has these bits 0, so such a
  test passes although its child never returned from the child function.
\<close>

theorem run_traced_verdict:
  assumes "pt_fork K (kern s) = (Inr pid, k1)" and "pid \<noteq> -1" and "pid \<noteq> 0"
    and "parent pid (after (errno s) k1 (Called (Lib ''fork'') [] pid) s) = (Val func_ret, t)"
    and "pt_wait K (kern t) = (Inr (p, st), k2)" and "p \<noteq> -1"
  shows "(fst (run_traced K child parent s) = Val None \<longleftrightarrow> func_ret = 0 \<and> WEXITSTATUS st = 0)
    \<and> (WIFSIGNALED st \<and> unat st < 256 \<longrightarrow> (fst (run_traced K child parent s) = Val None \<longleftrightarrow> func_ret = 0))"
proof -
  have "fst (run_traced K child parent s) = Val None \<longleftrightarrow> func_ret = 0 \<and> WEXITSTATUS st = 0"
    using assms by (simp add: run_traced_def c_fork_def wait_child_def c_wait_def run_simps ret_def)
  with killed_status show ?thesis by blast
qed

section \<open>Blocking\<close>

text \<open>
  The two processes of a case with semaphores, as the calls each has still to make. A \<^verbatim>\<open>sem_wait\<close> that succeeds needs a count; every other call
  can be made at any time, even the parent's \<^verbatim>\<open>wait\<close>: what blocks here blocks in every kernel.
\<close>

type_synonym schedule = "event list \<times> event list \<times> (int \<Rightarrow> nat)"

definition posts :: "int \<Rightarrow> event \<Rightarrow> bool" where
  "posts x e \<longleftrightarrow> e = Called (Lib ''sem_post'') [AInt x] 0"

definition waits :: "int \<Rightarrow> event \<Rightarrow> bool" where
  "waits x e \<longleftrightarrow> e = Called (Lib ''sem_wait'') [AInt x] 0"

definition may_run :: "event \<Rightarrow> (int \<Rightarrow> nat) \<Rightarrow> bool" where
  "may_run e sem \<longleftrightarrow> (\<forall>x. waits x e \<longrightarrow> 0 < sem x)"

definition sem_effect :: "event \<Rightarrow> (int \<Rightarrow> nat) \<Rightarrow> int \<Rightarrow> nat" where
  "sem_effect e sem x = (if posts x e then Suc (sem x) else if waits x e then sem x - 1 else sem x)"

inductive sched_step :: "schedule \<Rightarrow> schedule \<Rightarrow> bool" where
  parent_runs: "may_run e sem \<Longrightarrow> sched_step (e # p, c, sem) (p, c, sem_effect e sem)"
| child_runs: "may_run e sem \<Longrightarrow> sched_step (p, e # c, sem) (p, c, sem_effect e sem)"

definition can_complete :: "event list \<Rightarrow> event list \<Rightarrow> (int \<Rightarrow> nat) \<Rightarrow> bool" where
  "can_complete p c sem \<longleftrightarrow> (\<exists>sem'. sched_step\<^sup>*\<^sup>* (p, c, sem) ([], [], sem'))"

lemma can_complete_step: "sched_step (p, c, sem) (p', c', sem') \<Longrightarrow> can_complete p' c' sem' \<Longrightarrow> can_complete p c sem"
  unfolding can_complete_def by (meson converse_rtranclp_into_rtranclp)

text \<open>The counter of a semaphore nobody posts stays 0, so a process with a wait on it never ends.\<close>

definition blocked :: "int \<Rightarrow> schedule \<Rightarrow> bool" where
  "blocked x S = (case S of (p, c, sem) \<Rightarrow> list_all (\<lambda>e. \<not> posts x e) (p @ c) \<and> sem x = 0 \<and> list_ex (waits x) (p @ c))"

lemma blocked_step: "sched_step S T \<Longrightarrow> blocked x S \<Longrightarrow> blocked x T"
  by (induction rule: sched_step.induct) (auto simp: blocked_def sem_effect_def may_run_def)

lemma blocked_steps: "sched_step\<^sup>*\<^sup>* S T \<Longrightarrow> blocked x S \<Longrightarrow> blocked x T"
  by (induction rule: rtranclp_induct) (auto intro: blocked_step)

lemma blocked_for_ever: "blocked x (p, c, sem) \<Longrightarrow> \<not> can_complete p c sem"
  by (auto simp: can_complete_def blocked_def dest!: blocked_steps [where x = x])

lemma quiet_completes: "list_all (\<lambda>e. \<forall>x. \<not> waits x e) p \<Longrightarrow> can_complete p [] sem"
proof (induction p arbitrary: sem)
  case Nil
  then show ?case by (auto simp: can_complete_def)
next
  case (Cons e p)
  then show ?case by (auto simp: may_run_def intro!: can_complete_step [OF parent_runs])
qed

text \<open>The calls a program makes from a state.\<close>

definition calls :: "('k, 'a) prog \<Rightarrow> 'k machine \<Rightarrow> event list" where
  "calls m s = drop (length (trace s)) (trace (snd (m s)))"

text \<open>The shape of the two processes of cases 19 and 20; \<open>a\<close> is the semaphore the parent waits on, \<open>b\<close> that of the child.\<close>

lemma handshake_completes:
  assumes "x \<noteq> y" and "list_all (\<lambda>e. \<forall>z. \<not> waits z e) evs" and "\<forall>z. \<not> waits z ev \<and> \<not> posts z ev"
  shows "can_complete (Called (Lib ''sem_wait'') [AInt x] 0 # ev # Called (Lib ''sem_post'') [AInt y] 0 # evs)
    [Called (Lib ''sem_post'') [AInt x] 0, Called (Lib ''sem_wait'') [AInt y] 0] (\<lambda>_. 0)"
  by (rule can_complete_step [OF child_runs], simp add: may_run_def waits_def,
      rule can_complete_step [OF parent_runs], simp add: may_run_def waits_def sem_effect_def posts_def,
      rule can_complete_step [OF parent_runs], simp add: may_run_def assms,
      rule can_complete_step [OF parent_runs], simp add: may_run_def waits_def,
      rule can_complete_step [OF child_runs], simp add: may_run_def waits_def sem_effect_def posts_def assms [unfolded waits_def posts_def],
      rule quiet_completes, rule assms)

lemma handshake_blocks:
  assumes "x \<noteq> y" and "list_all (\<lambda>e. \<forall>z. \<not> posts z e) evs"
  shows "\<not> can_complete (Called (Lib ''sem_wait'') [AInt x] 0 # evs)
    [Called (Lib ''sem_post'') [AInt x] 0, Called (Lib ''sem_wait'') [AInt y] 0] (\<lambda>_. 0)"
  by (rule blocked_for_ever [of y]) (use assms in \<open>auto simp: blocked_def waits_def posts_def list_all_iff\<close>)

text \<open>What the parent does once it has attached, or failed to.\<close>

definition sem_ext :: "'k machine \<Rightarrow> 'k machine \<Rightarrow> bool" where
  "sem_ext s t \<longleftrightarrow> (\<exists>evs. trace t = trace s @ evs \<and> list_all (\<lambda>e. \<forall>x. \<not> waits x e \<and> \<not> posts x e) evs)"

definition sem_free :: "('k, 'a) prog \<Rightarrow> bool" where
  "sem_free m \<longleftrightarrow> (\<forall>s. sem_ext s (snd (m s)))"

lemma sem_ext_trans: "sem_ext s t \<Longrightarrow> sem_ext t u \<Longrightarrow> sem_ext s u"
  by (auto simp: sem_ext_def)

lemma sem_free_exec:
  assumes "sem_free m" and "\<And>a. sem_free (f a)"
  shows "sem_free (exec m f)"
  unfolding sem_free_def
proof
  fix s
  obtain r t where m: "m s = (r, t)" by force
  with assms(1) have st: "sem_ext s t" unfolding sem_free_def by (metis snd_conv)
  show "sem_ext s (snd (exec m f s))"
  proof (cases r)
    case (Val a)
    have "sem_ext t (snd (f a t))" using assms(2) by (simp add: sem_free_def)
    with st m Val show ?thesis by (auto simp: exec_def intro: sem_ext_trans)
  qed (use st m in \<open>simp add: exec_def\<close>)
qed

lemma sem_free_leaves:
  "sem_free (ret a)" "sem_free (stop h)" "sem_free get_errno" "sem_free (printf fmt args)" "sem_free (perror msg)"
  "nm \<noteq> Lib ''sem_wait'' \<Longrightarrow> nm \<noteq> Lib ''sem_post'' \<Longrightarrow> sem_free (sys_call nm args enc fail f)"
  by (auto simp: sem_free_def sem_ext_def ret_def stop_def get_errno_def emit_def perror_def exec_def sys_call_def waits_def posts_def
      split: prod.splits sum.splits)

lemma sem_free_if: "sem_free m \<Longrightarrow> sem_free n \<Longrightarrow> sem_free (if b then m else n)"
  by simp

lemma sem_free_case: "(\<And>a b. sem_free (g a b)) \<Longrightarrow> sem_free (case y of (a, b) \<Rightarrow> g a b)"
  by (cases y) simp

lemmas sem_free_rules = sem_free_exec sem_free_leaves sem_free_if sem_free_case

lemma sem_free_after_attach:
  "sem_free (wait_stopped K cpid (exec (printf ''child is stopped.'' []) (\<lambda>_. child_cont K cpid 0)))"
  "sem_free (wait_stopped K cpid (with_req (c_ptrace K PTRACE_DETACH cpid 0 0) ''ptrace(PTRACE_DETACH)'' (ret (-1))
     (exec (printf ''child detach OK.'' []) (\<lambda>_. ret 0))))"
  unfolding wait_stopped_def stopped_or_def child_cont_def with_req_def c_ptrace_def c_wait_def
  by (intro sem_free_rules; simp)+

lemma sem_free_calls: "sem_free m \<Longrightarrow> \<exists>evs. trace (snd (m s)) = trace s @ evs \<and> list_all (\<lambda>e. \<forall>x. \<not> waits x e \<and> \<not> posts x e) evs"
  by (simp add: sem_free_def sem_ext_def)

text \<open>Semaphores that work: neither call fails.\<close>

definition sems_work :: "('k, 'z) pt_os_scheme \<Rightarrow> bool" where
  "sems_work K \<longleftrightarrow> (\<forall>x k. fst (pt_sem_post K x k) = Inr 0 \<and> fst (pt_sem_wait K x k) = Inr 0)"

lemma sem_calls:
  assumes "sems_work K"
  shows "exec (c_sem_post K a) f s = f 0 (after (errno s) (snd (pt_sem_post K a (kern s))) (Called (Lib ''sem_post'') [AInt (uint a)] 0) s)"
    and "exec (c_sem_wait K a) f s = f 0 (after (errno s) (snd (pt_sem_wait K a (kern s))) (Called (Lib ''sem_wait'') [AInt (uint a)] 0) s)"
  using assms by (auto simp: sems_work_def c_sem_post_def c_sem_wait_def exec_def sys_call_def split: prod.splits sum.splits
      dest!: spec [of _ a]) (metis fst_conv sum.distinct(1) sum.inject(2) Inl_Inr_False)+

lemma child_019_calls:
  assumes "sems_work K"
  shows "calls (child_019 K b a) s = [Called (Lib ''sem_post'') [AInt (uint a)] 0, Called (Lib ''sem_wait'') [AInt (uint b)] 0]"
  by (simp add: calls_def child_019_def sem_calls [OF assms] ret_def)

lemma calls_sem_free: "sem_free m \<Longrightarrow> trace t = trace s @ evs \<Longrightarrow> m' s = m t \<Longrightarrow>
    \<exists>evs'. calls m' s = evs @ evs' \<and> list_all (\<lambda>e. \<forall>x. \<not> waits x e \<and> \<not> posts x e) evs'"
  using sem_free_calls [of m t] by (auto simp: calls_def)

definition attach_event :: "int \<Rightarrow> int \<Rightarrow> event" where
  "attach_event cpid r = Called (Lib ''ptrace'') [AInt (req_code PTRACE_ATTACH), AInt cpid, AInt 0, AInt 0] r"

lemma attach_succeeds:
  assumes "sems_work K" and "sem_free (wait_stopped K cpid f)"
    and "pt_ptrace K PTRACE_ATTACH cpid 0 0 (snd (pt_sem_wait K a (kern s))) = (Inr 0, k)"
  shows "\<exists>evs. calls (attach K a b cpid f) s =
      [Called (Lib ''sem_wait'') [AInt (uint a)] 0, attach_event cpid 0, Called (Lib ''sem_post'') [AInt (uint b)] 0] @ evs
    \<and> list_all (\<lambda>e. \<forall>x. \<not> waits x e \<and> \<not> posts x e) evs"
  by (rule calls_sem_free [OF assms(2)])
    (simp_all add: attach_def sem_calls [OF assms(1)] with_req_def c_ptrace_def exec_sys_call_Inr assms(3) attach_event_def)

lemma attach_fails:
  assumes "sems_work K"
    and "pt_ptrace K PTRACE_ATTACH cpid 0 0 (snd (pt_sem_wait K a (kern s))) = (r, k)" and "r \<noteq> Inr 0"
  shows "\<exists>evs. calls (attach K a b cpid f) s = Called (Lib ''sem_wait'') [AInt (uint a)] 0 # evs \<and> list_all (\<lambda>e. \<forall>x. \<not> posts x e) evs"
proof -
  have bad: "sem_free (exec (perror ''ptrace(PTRACE_ATTACH)'') (\<lambda>_. ret (-1 :: int)))"
    by (intro sem_free_rules)
  define v where "v = (case r of Inl _ \<Rightarrow> -1 | Inr w \<Rightarrow> w)"
  define t where "t = after (case r of Inl e \<Rightarrow> e | Inr _ \<Rightarrow> errno s) k (attach_event cpid (uint v))
    (after (errno s) (snd (pt_sem_wait K a (kern s))) (Called (Lib ''sem_wait'') [AInt (uint a)] 0) s)"
  have "trace t = trace s @ [Called (Lib ''sem_wait'') [AInt (uint a)] 0, attach_event cpid (uint v)]" by (simp add: t_def)
  moreover have "attach K a b cpid f s = exec (perror ''ptrace(PTRACE_ATTACH)'') (\<lambda>_. ret (-1)) t"
    using assms(2,3) by (cases r) (simp_all add: attach_def sem_calls [OF assms(1)] with_req_def c_ptrace_def exec_sys_call_Inr exec_sys_call_Inl
        attach_event_def t_def v_def)
  ultimately have
    "\<exists>evs. calls (attach K a b cpid f) s = [Called (Lib ''sem_wait'') [AInt (uint a)] 0, attach_event cpid (uint v)] @ evs
      \<and> list_all (\<lambda>e. \<forall>x. \<not> waits x e \<and> \<not> posts x e) evs" by (rule calls_sem_free [OF bad])
  then show ?thesis by (auto simp: attach_event_def posts_def list_all_iff)
qed

text \<open>
  C28. Cases 19 and 20: the parent waits for the child to start, attaches to it and posts the semaphore the child waits on. For every kernel with working
  semaphores, the two processes can run to their ends exactly when \<^verbatim>\<open>PTRACE_ATTACH\<close> succeeds. When it fails, the parent function returns
  without the post, so the child sleeps for ever and the parent waits for it for ever: the test hangs instead of failing.
\<close>

theorem attach_failure_hangs:
  assumes "sems_work K" and "pwait \<noteq> cwait"
    and "pt_ptrace K PTRACE_ATTACH cpid 0 0 (snd (pt_sem_wait K pwait (kern s))) = (r, k)"
  shows "(can_complete (calls (parent_019 K pwait cwait cpid) s) (calls (child_019 K cwait pwait) s') (\<lambda>_. 0) \<longleftrightarrow> r = Inr 0)
    \<and> (can_complete (calls (parent_020 K pwait cwait cpid) s) (calls (child_019 K cwait pwait) s') (\<lambda>_. 0) \<longleftrightarrow> r = Inr 0)"
proof -
  have neq: "uint pwait \<noteq> uint cwait" using assms(2) by (simp add: word_uint_eq_iff)
  have "can_complete (calls (attach K pwait cwait cpid f) s) (calls (child_019 K cwait pwait) s') (\<lambda>_. 0) \<longleftrightarrow> r = Inr 0"
    if "sem_free (wait_stopped K cpid f)" for f
  proof (cases "r = Inr 0")
    case True
    with assms(3) have "pt_ptrace K PTRACE_ATTACH cpid 0 0 (snd (pt_sem_wait K pwait (kern s))) = (Inr 0, k)" by simp
    from attach_succeeds [OF assms(1) that this, of cwait] obtain evs where
      run: "calls (attach K pwait cwait cpid f) s = [Called (Lib ''sem_wait'') [AInt (uint pwait)] 0, attach_event cpid 0,
         Called (Lib ''sem_post'') [AInt (uint cwait)] 0] @ evs" and quiet: "list_all (\<lambda>e. \<forall>x. \<not> waits x e \<and> \<not> posts x e) evs" by blast
    have "can_complete (calls (attach K pwait cwait cpid f) s) (calls (child_019 K cwait pwait) s') (\<lambda>_. 0)"
      unfolding run child_019_calls [OF assms(1)] append.simps
      by (rule handshake_completes) (use neq quiet in \<open>auto simp: list_all_iff attach_event_def waits_def posts_def\<close>)
    with True show ?thesis by simp
  next
    case False
    from attach_fails [OF assms(1,3) this, of cwait f] obtain evs where
      "calls (attach K pwait cwait cpid f) s = Called (Lib ''sem_wait'') [AInt (uint pwait)] 0 # evs" "list_all (\<lambda>e. \<forall>x. \<not> posts x e) evs" by blast
    with False neq show ?thesis
      using handshake_blocks [of "uint pwait" "uint cwait" evs] by (simp add: child_019_calls [OF assms(1)])
  qed
  from this [OF sem_free_after_attach(1)] this [OF sem_free_after_attach(2)] show ?thesis
    by (simp add: parent_019_def parent_020_def)
qed

section \<open>On the reference\<close>

lemma demo_case_passes: "fst (ptrace_001 (tracee_os demo_var 7) (fresh_process (demo_tracee 1))) = Val None"
  using parent_001_succeeds [OF tracee_os_refines [of demo_var 7], of "0x1000" "0x2000" "demo_tracee 1"] demo_at_brk [of 1] demo_ready [of 1]
  by (auto simp: ptrace_001_def brk_var_def tracee_os_fields fresh_process_def intro!: succeeding_parent_passes [OF _ tracee_os_refines [of demo_var 7]])


text \<open>A child that was killed by a signal, and a parent function that returns 0.\<close>

theorem run_traced_verdict_witness:
  "fst (run_traced (tracee_os demo_var 7) (ret 0) (\<lambda>_. ret 0) (fresh_process ((demo_tracee 1)\<lparr>t_killed := True\<rparr>))) = Val None"
  using run_traced_verdict [of "tracee_os demo_var 7" "fresh_process ((demo_tracee 1)\<lparr>t_killed := True\<rparr>)" 7 "(demo_tracee 1)\<lparr>t_killed := True\<rparr>" "\<lambda>_. ret 0" 0
      "after 0 ((demo_tracee 1)\<lparr>t_killed := True\<rparr>) (Called (Lib ''fork'') [] 7) (fresh_process ((demo_tracee 1)\<lparr>t_killed := True\<rparr>))" 7 9 "(demo_tracee 1)\<lparr>t_killed := True\<rparr>" "ret 0"]
  by (simp add: tracee_os_fields ret_def fresh_process_def wait_status_def SIGKILL_def WIFSIGNALED_def WTERMSIG_def)

text \<open>A kernel that allows no attaching.\<close>

definition no_attach_os :: "tracee pt_os" where
  "no_attach_os = (tracee_os demo_var 7)\<lparr>pt_ptrace := (\<lambda>req _ a d T. if req = PTRACE_ATTACH then (Inl EPERM, T) else tracee_ptrace req a d T)\<rparr>"

theorem attach_failure_hangs_witness:
  "\<not> can_complete (calls (parent_019 no_attach_os 0x5000 0x6000 7) (fresh_process (demo_tracee 1)))
      (calls (child_019 no_attach_os 0x6000 0x5000) (fresh_process (demo_tracee 1))) (\<lambda>_. 0)
   \<and> can_complete (calls (parent_019 (tracee_os demo_var 7) 0x5000 0x6000 7) (fresh_process (demo_tracee 1)))
      (calls (child_019 (tracee_os demo_var 7) 0x6000 0x5000) (fresh_process (demo_tracee 1))) (\<lambda>_. 0)"
proof -
  have works: "sems_work no_attach_os" "sems_work (tracee_os demo_var 7)"
    by (simp_all add: sems_work_def no_attach_os_def tracee_os_fields)
  show ?thesis
    using attach_failure_hangs [OF works(1), of "0x5000" "0x6000" 7 "fresh_process (demo_tracee 1)" "Inl EPERM" "demo_tracee 1" "fresh_process (demo_tracee 1)"]
      attach_failure_hangs [OF works(2), of "0x5000" "0x6000" 7 "fresh_process (demo_tracee 1)" "Inr 0" "demo_tracee 1" "fresh_process (demo_tracee 1)"]
    by (simp add: no_attach_os_def tracee_os_fields tracee_ptrace_def fresh_process_def)
qed

end
