(* ===== verification/Dev_Suites.thy ===== *)
theory Dev_Suites
  imports Ptrace_Cases
begin

text \<open>
  The suites that go through the devices of the test driver: \<^verbatim>\<open>mmap_dev\<close> (cases 0, 1 and 2) and \<^verbatim>\<open>writecombine\<close>. Case 1 maps the buffer of \<^verbatim>\<open>mmap_dev2\<close>
  privately and compares it with what the driver writes on a reset; the last section puts test, kernel and driver together.
\<close>

unbundle bit_operations_syntax

section \<open>Command line\<close>

record mmap_dev_args =
  arg_path :: "string option"
  arg_size :: u64

text \<open>Options the switch does not name are skipped; the structure is static and starts with zeros.\<close>

fun dev_opts :: "optres list \<Rightarrow> mmap_dev_args \<Rightarrow> mmap_dev_args" where
  "dev_opts [] args = args"
| "dev_opts (Opt c (Some optarg) # rs) args =
     dev_opts rs (if c = CHR ''d'' then args\<lparr>arg_path := Some optarg\<rparr>
       else if c = CHR ''s'' then args\<lparr>arg_size := fst (strtoul 10 optarg)\<rparr> else args)"
| "dev_opts (_ # rs) args = dev_opts rs args"

definition mmap_dev_setup :: "string list \<Rightarrow> mmap_dev_args" where
  "mmap_dev_setup argv = dev_opts (fst (getopt ''d:s:'' argv)) \<lparr>arg_path = None, arg_size = 0\<rparr>"

definition writecombine_setup :: "string list \<Rightarrow> mmap_dev_args" where
  "writecombine_setup argv = dev_opts (fst (getopt ''d:'' argv)) \<lparr>arg_path = None, arg_size = 0\<rparr>"

section \<open>The test functions\<close>

definition devmap_open :: "('k, 'z) pt_os_scheme \<Rightarrow> mmap_dev_args \<Rightarrow> u32 \<Rightarrow> (int \<Rightarrow> ('k, string option) prog) \<Rightarrow> ('k, string option) prog" where
  "devmap_open K args cmd f =
     (case arg_path args of
        None \<Rightarrow> ret (Some ''invalid argument(-d).'')
      | Some path \<Rightarrow>
          tp_assert (0 < arg_size args) (Some ''invalid argument(-s).'') (
          exec (c_open K path O_RDWR) (\<lambda>fd.
          exec (printf ''open(%s)=%d'' [AStr path, AInt fd]) (\<lambda>_.
          tp_assert (fd \<noteq> -1) (Some ''file open error.'') (
          exec (c_ioctl K fd cmd) (\<lambda>status.
          exec (printf ''ioctl()=%d'' [AInt status]) (\<lambda>_.
          tp_assert (status \<noteq> -1) (Some ''ioctl error.'') (
          f fd))))))))"

definition devmap_mmap :: "('k, 'z) pt_os_scheme \<Rightarrow> u64 \<Rightarrow> u32 \<Rightarrow> int \<Rightarrow> string \<Rightarrow> (u64 \<Rightarrow> ('k, string option) prog) \<Rightarrow> ('k, string option) prog" where
  "devmap_mmap K sz flags fd pre f =
     exec (mmap K 0 sz (PROT_READ OR PROT_WRITE) flags fd 0) (\<lambda>data.
     exec (printf (pre @ ''mmap()=%p'') [AInt (uint data)]) (\<lambda>_.
     tp_assert (data \<noteq> MAP_FAILED) (Some (pre @ ''mmap error.'')) (
     f data)))"

text \<open>\<^verbatim>\<open>pages\<close> is an \<^verbatim>\<open>int\<close>; a loop to a negative number makes no step.\<close>

definition devmap_pages :: "page_config \<Rightarrow> u64 \<Rightarrow> nat" where
  "devmap_pages cfg sz = nat (sint (ucast ((sz + PAGE_SIZE cfg - 1) div PAGE_SIZE cfg) :: u32))"

definition letter_Z :: byte where
  "letter_Z = of_nat (of_char CHR ''Z'')"

fun touch_pages :: "('k, 'z) vm_os_scheme \<Rightarrow> page_config \<Rightarrow> u64 \<Rightarrow> nat \<Rightarrow> nat \<Rightarrow> ('k, unit) prog" where
  "touch_pages K cfg data i 0 = ret ()"
| "touch_pages K cfg data i (Suc n) = exec (store K (data + PAGE_SIZE cfg * of_nat i) letter_Z) (\<lambda>_. touch_pages K cfg data (Suc i) n)"

text \<open>\<^verbatim>\<open>memcmp\<close> with the array \<^verbatim>\<open>buf\<close>, as a test for equality.\<close>

fun page_cmp :: "('k, 'z) vm_os_scheme \<Rightarrow> u64 \<Rightarrow> byte list \<Rightarrow> ('k, bool) prog" where
  "page_cmp K a [] = ret True"
| "page_cmp K a (b # bs) = exec (load K a) (\<lambda>c. if c \<noteq> b then ret False else page_cmp K (a + 1) bs)"

definition expected_page :: "page_config \<Rightarrow> int \<Rightarrow> byte list" where
  "expected_page cfg val = (replicate (2 ^ PAGE_SHIFT cfg) (of_int val))[0 := letter_Z]"

fun validate_pages :: "('k, 'z) vm_os_scheme \<Rightarrow> page_config \<Rightarrow> u64 \<Rightarrow> nat \<Rightarrow> int \<Rightarrow> nat \<Rightarrow> ('k, string option) prog \<Rightarrow> ('k, string option) prog" where
  "validate_pages K cfg data i val 0 f = f"
| "validate_pages K cfg data i val (Suc n) f =
     exec (page_cmp K (data + PAGE_SIZE cfg * of_nat i) (expected_page cfg val)) (\<lambda>same.
     tp_assert same (Some ''compare error.'') (
     validate_pages K cfg data (Suc i) (val + 1) n f))"

definition devmap_munmap :: "('k, 'z) pt_os_scheme \<Rightarrow> u64 \<Rightarrow> u64 \<Rightarrow> string \<Rightarrow> ('k, string option) prog \<Rightarrow> ('k, string option) prog" where
  "devmap_munmap K data sz msg f =
     exec (munmap K data sz) (\<lambda>status.
     exec (printf ''munmap()=%d'' [AInt status]) (\<lambda>_.
     tp_assert (status \<noteq> -1) (Some msg) f))"

definition devmap_close :: "('k, 'z) pt_os_scheme \<Rightarrow> int \<Rightarrow> ('k, string option) prog" where
  "devmap_close K fd = exec (c_close K fd) (\<lambda>_. ret None)"

definition mmap_dev_000 :: "('k, 'z) pt_os_scheme \<Rightarrow> page_config \<Rightarrow> mmap_dev_args \<Rightarrow> ('k, string option) prog" where
  "mmap_dev_000 K cfg args =
     devmap_open K args 0 (\<lambda>fd.
     devmap_mmap K (arg_size args) MAP_PRIVATE fd '''' (\<lambda>data.
     exec (touch_pages K cfg data 0 (devmap_pages cfg (arg_size args))) (\<lambda>_.
     devmap_munmap K data (arg_size args) ''munmap error.'' (
     devmap_close K fd))))"

definition mmap_dev_001 :: "('k, 'z) pt_os_scheme \<Rightarrow> page_config \<Rightarrow> mmap_dev_args \<Rightarrow> ('k, string option) prog" where
  "mmap_dev_001 K cfg args =
     devmap_open K args TEST_MCK_MMAP_DEV2_BUF_RESET (\<lambda>fd.
     devmap_mmap K (arg_size args) MAP_PRIVATE fd '''' (\<lambda>data.
     exec (touch_pages K cfg data 0 (devmap_pages cfg (arg_size args))) (\<lambda>_.
     validate_pages K cfg data 0 1 (devmap_pages cfg (arg_size args)) (
     devmap_munmap K data (arg_size args) ''munmap error.'' (
     devmap_close K fd)))))"

definition mmap_dev_002 :: "('k, 'z) pt_os_scheme \<Rightarrow> page_config \<Rightarrow> mmap_dev_args \<Rightarrow> ('k, string option) prog" where
  "mmap_dev_002 K cfg args =
     devmap_open K args TEST_MCK_MMAP_DEV2_BUF_RESET (\<lambda>fd.
     devmap_mmap K (arg_size args) MAP_SHARED fd '''' (\<lambda>data.
     exec (touch_pages K cfg data 0 (devmap_pages cfg (arg_size args))) (\<lambda>_.
     devmap_mmap K (arg_size args) MAP_SHARED fd ''peek '' (\<lambda>peek_data.
     validate_pages K cfg peek_data 0 1 (devmap_pages cfg (arg_size args)) (
     devmap_munmap K data (arg_size args) ''munmap error.'' (
     devmap_munmap K peek_data (arg_size args) ''peek munmap error.'' (
     devmap_close K fd)))))))"

text \<open>\<^verbatim>\<open>buf\<close> starts as \<^verbatim>\<open>NULL\<close>; the label \<^verbatim>\<open>out\<close> unmaps whatever is not.\<close>

definition writecombine_out :: "('k, 'z) pt_os_scheme \<Rightarrow> page_config \<Rightarrow> u64 \<Rightarrow> int \<Rightarrow> string option \<Rightarrow> ('k, string option) prog" where
  "writecombine_out K cfg buf fd r =
     exec (if buf \<noteq> 0 then munmap K buf (PAGE_SIZE cfg) else ret 0) (\<lambda>_.
     exec (if fd \<noteq> -1 then c_close K fd else ret 0) (\<lambda>_.
     ret r))"

definition writecombine_000 :: "('k, 'z) pt_os_scheme \<Rightarrow> page_config \<Rightarrow> mmap_dev_args \<Rightarrow> ('k, string option) prog" where
  "writecombine_000 K cfg args =
     (case arg_path args of
        None \<Rightarrow> ret (Some ''invalid argument(-d).'')
      | Some path \<Rightarrow>
          exec (c_open K path O_RDWR) (\<lambda>fd.
          if fd = -1 then exec (perror ''open() device file'') (\<lambda>_. writecombine_out K cfg 0 fd (Some ''open() error.''))
          else
            exec (mmap K 0 (PAGE_SIZE cfg) (PROT_READ OR PROT_WRITE) MAP_PRIVATE fd 0) (\<lambda>buf.
            if buf = MAP_FAILED then exec (perror ''mmap()'') (\<lambda>_. writecombine_out K cfg buf fd (Some ''mmap() error.''))
            else exec (store K buf letter_Z) (\<lambda>_. writecombine_out K cfg buf fd None))))"

section \<open>The suites\<close>

definition dev_case :: "string \<Rightarrow> int \<Rightarrow> (string list \<Rightarrow> mmap_dev_args) \<Rightarrow> (mmap_dev_args \<Rightarrow> ('k, string option) prog) \<Rightarrow> ('k, mmap_dev_args) test_case" where
  "dev_case name n setup_args run =
     \<lparr>tc_suite = name, tc_num = n, tc_setup = (\<lambda>_ argv. ret (setup_args argv)), tc_run = (\<lambda>_. run), tc_teardown = (\<lambda>_ _. ret ())\<rparr>"

definition dev_cases :: "('k, 'z) pt_os_scheme \<Rightarrow> page_config \<Rightarrow> ('k, mmap_dev_args) test_case list" where
  "dev_cases K cfg = [
     dev_case ''mmap_dev'' 0 mmap_dev_setup (mmap_dev_000 K cfg), dev_case ''mmap_dev'' 1 mmap_dev_setup (mmap_dev_001 K cfg),
     dev_case ''mmap_dev'' 2 mmap_dev_setup (mmap_dev_002 K cfg), dev_case ''writecombine'' 0 writecombine_setup (writecombine_000 K cfg)]"

section \<open>Test, kernel and driver\<close>

text \<open>
  The kernel between the test and the driver, as a view of its state: the mapping the test has made (start and number of pages), the memory of the
  process, and the state of the driver. The contract says that the device calls reach the driver's functions, that a page of a private mapping is a copy of the page
  the driver's fault function answers with, and that an access to a page the driver does not serve raises \<^verbatim>\<open>SIGBUS\<close>.
\<close>

record 'd dev_view =
  v_map :: "(u64 \<times> nat) option"
  v_mem :: "u64 \<Rightarrow> byte"
  v_drv :: "'d drv"

definition served :: "page_config \<Rightarrow> 'd drv \<Rightarrow> nat \<Rightarrow> nat \<Rightarrow> int + u64" where
  "served cfg d i j = dev2_page cfg (private_data (test_mck_devlist d ! i)) (of_nat j)"

abbreviation psize :: "page_config \<Rightarrow> nat" where
  "psize cfg \<equiv> 2 ^ PAGE_SHIFT cfg"

definition page_cell :: "page_config \<Rightarrow> u64 \<Rightarrow> nat \<Rightarrow> nat \<Rightarrow> u64" where
  "page_cell cfg data j x = data + of_nat (j * psize cfg + x)"

definition access_ok :: "page_config \<Rightarrow> ('k, 'z) pt_os_scheme \<Rightarrow> ('k \<Rightarrow> 'd dev_view) \<Rightarrow> nat \<Rightarrow> bool" where
  "access_ok cfg K V i \<longleftrightarrow> (\<forall>k data n j x b. v_map (V k) = Some (data, n) \<and> n * psize cfg \<le> SPACE \<and> j < n \<and> x < psize cfg \<longrightarrow>
     (case served cfg (v_drv (V k)) i j of
        Inr _ \<Rightarrow> fst (os_load K (page_cell cfg data j x) k) = Inr (v_mem (V k) (page_cell cfg data j x)) \<and> V (snd (os_load K (page_cell cfg data j x) k)) = V k
          \<and> fst (os_store K (page_cell cfg data j x) b k) = Inr ()
          \<and> V (snd (os_store K (page_cell cfg data j x) b k)) = V k\<lparr>v_mem := (v_mem (V k))(page_cell cfg data j x := b)\<rparr>
      | Inl _ \<Rightarrow> fst (os_store K (page_cell cfg data j x) b k) = Inl SIGBUS))"

definition copies :: "page_config \<Rightarrow> 'd drv \<Rightarrow> nat \<Rightarrow> u64 \<Rightarrow> nat \<Rightarrow> (u64 \<Rightarrow> byte) \<Rightarrow> bool" where
  "copies cfg d i data n m \<longleftrightarrow>
     (\<forall>j < n. \<forall>x < psize cfg. case served cfg d i j of Inr p \<Rightarrow> m (page_cell cfg data j x) = kmem d (p + of_nat x) | Inl _ \<Rightarrow> True)"

definition pages_of :: "page_config \<Rightarrow> u64 \<Rightarrow> nat" where
  "pages_of cfg sz = (unat sz + psize cfg - 1) div psize cfg"

definition dev2_contract :: "page_config \<Rightarrow> ('k, 'z) pt_os_scheme \<Rightarrow> ('k \<Rightarrow> 'd dev_view) \<Rightarrow> nat \<Rightarrow> string \<Rightarrow> bool" where
  "dev2_contract cfg K V i path \<longleftrightarrow>
     (\<forall>k. \<exists>fd k'. os_open K path O_RDWR k = (Inr fd, k') \<and> fd \<noteq> -1 \<and> V k' = V k)
   \<and> (\<forall>fd cmd k. \<exists>r t k'. test_mck_mmap_dev2_ioctl cfg \<lparr>f_private = Some i\<rparr> cmd 0 (fresh_process (v_drv (V k))) = (Val r, t)
        \<and> pt_ioctl K fd cmd k = (Inr r, k') \<and> V k' = V k\<lparr>v_drv := kern t\<rparr>)
   \<and> (\<forall>fd sz k. 0 < sz \<and> unat sz \<le> 2 ^ 40 \<longrightarrow> (\<exists>data m k'. os_mmap K 0 sz (PROT_READ OR PROT_WRITE) MAP_PRIVATE fd 0 k = (Inr data, k')
        \<and> data \<noteq> MAP_FAILED \<and> unat data + pages_of cfg sz * psize cfg \<le> SPACE
        \<and> copies cfg (v_drv (V k)) i data (pages_of cfg sz) m \<and> V k' = V k\<lparr>v_map := Some (data, pages_of cfg sz), v_mem := m\<rparr>))
   \<and> (\<forall>a len k. fst (os_munmap K a len k) = Inr 0)
   \<and> access_ok cfg K V i"

text \<open>Runs of a program, by the view and the handlers.\<close>

definition seen :: "('k \<Rightarrow> 'd dev_view) \<Rightarrow> 'k machine \<Rightarrow> 'd dev_view \<times> (int \<Rightarrow> int option)" where
  "seen V s = (V (kern s), handlers s)"

definition leads :: "('k \<Rightarrow> 'd dev_view) \<Rightarrow> ('k, 'a) prog \<Rightarrow> 'd dev_view \<times> (int \<Rightarrow> int option) \<Rightarrow> 'a \<Rightarrow> 'd dev_view \<times> (int \<Rightarrow> int option) \<Rightarrow> bool" where
  "leads V m x a y \<longleftrightarrow> (\<forall>s. seen V s = x \<longrightarrow> (\<exists>t. m s = (Val a, t) \<and> seen V t = y))"

definition results :: "('k \<Rightarrow> 'd dev_view) \<Rightarrow> ('k, 'a) prog \<Rightarrow> 'd dev_view \<times> (int \<Rightarrow> int option) \<Rightarrow> 'a run \<Rightarrow> bool" where
  "results V m x r \<longleftrightarrow> (\<forall>s. seen V s = x \<longrightarrow> fst (m s) = r)"

lemma leads_ret: "leads V (ret a) x a x"
  by (simp add: leads_def ret_def)

lemma results_ret: "results V (ret a) x (Val a)"
  by (simp add: results_def ret_def)

lemma leads_exec: "leads V m x a y \<Longrightarrow> leads V (f a) y b z \<Longrightarrow> leads V (exec m f) x b z"
  unfolding leads_def exec_def by (metis (no_types, lifting) case_prod_conv run.simps(5))

lemma results_exec: "leads V m x a y \<Longrightarrow> results V (f a) y r \<Longrightarrow> results V (exec m f) x r"
  unfolding leads_def results_def exec_def by (metis (no_types, lifting) case_prod_conv run.simps(5))

lemma results_halt: "results V m x (Halt h) \<Longrightarrow> results V (exec m f) x (Halt h)"
  unfolding results_def exec_def by (auto split: prod.splits run.splits dest: spec)

lemma results_print: "results V (f ()) x r \<Longrightarrow> results V (exec (printf fmt args) f) x r"
  by (rule results_exec [of _ _ _ "()" x]) (auto simp: leads_def emit_def seen_def)

lemma results_sys_call:
  assumes "\<And>k. V k = v \<Longrightarrow> \<exists>a k'. f k = (Inr a, k') \<and> P a (V k')" and "\<And>a w. P a w \<Longrightarrow> results V (g a) (w, h) r"
  shows "results V (exec (sys_call nm args enc bad f) g) (v, h) r"
  unfolding results_def
proof (intro allI impI)
  fix s assume s: "seen V s = (v, h)"
  then obtain a k' where f: "f (kern s) = (Inr a, k')" and "P a (V k')" using assms(1) [of "kern s"] by (auto simp: seen_def)
  from assms(2) [OF this(2)] s show "fst (exec (sys_call nm args enc bad f) g s) = r"
    by (simp add: exec_sys_call_Inr [of f, OF f] results_def seen_def)
qed

text \<open>The reset the test asks for: every byte of the buffer becomes the number of its page, counted from 1.\<close>

definition reset_drv :: "page_config \<Rightarrow> nat \<Rightarrow> 'd drv \<Rightarrow> 'd drv" where
  "reset_drv cfg i d = d\<lparr>kmem := reset_loop cfg (private_data (test_mck_devlist d ! i)) 0 1 (kmem d)\<rparr>"

lemma ioctl_resets:
  "test_mck_mmap_dev2_ioctl cfg \<lparr>f_private = Some i\<rparr> TEST_MCK_MMAP_DEV2_BUF_RESET 0 (fresh_process d) = (r, t)
   \<Longrightarrow> r = Val 0 \<and> kern t = reset_drv cfg i d"
  by (auto simp: test_mck_mmap_dev2_ioctl_def test_mck_mmap_dev2_buffer_reset_def mck_printk_def test_mck_ident_def exec_def emit_def ret_def
      get_dev_def get_drv_def upd_drv_def fresh_process_def logged_def reset_drv_def split: option.splits)

lemma served_reset [simp]: "served cfg (reset_drv cfg i d) i j = served cfg d i j"
  by (simp add: served_def reset_drv_def)

lemma small_page_number: "j < 2 ^ 41 \<Longrightarrow> unat (of_nat j :: u64) mod 2 ^ (64 - PAGE_SHIFT cfg) = j"
  by (cases cfg; simp add: unat_of_nat)

lemma served_iff:
  assumes "private_data (test_mck_devlist d ! i) \<noteq> 0" and "j < 2 ^ 41"
  shows "(\<exists>p. served cfg d i j = Inr p) \<longleftrightarrow> j \<le> psize cfg div 8"
  using dev2_page_iff [of cfg "private_data (test_mck_devlist d ! i)" "of_nat j"] small_page_number [OF assms(2), of cfg] assms(1)
  by (simp add: served_def)

lemma offset_in_pages: "j \<le> q \<Longrightarrow> x < P \<Longrightarrow> j * P + x < (q + 1) * (P :: nat)"
proof -
  assume "j \<le> q" and "x < P"
  then have "j * P \<le> q * P" by (intro mult_le_mono1)
  with \<open>x < P\<close> show ?thesis by (simp only: add_mult_distrib mult_1)
qed

lemma reset_page:
  assumes "served cfg d i j = Inr p" and "j < 2 ^ 41" and "x < psize cfg"
  shows "kmem (reset_drv cfg i d) (p + of_nat x) = of_int (1 + int j)"
proof -
  let ?buf = "private_data (test_mck_devlist d ! i)"
  have p: "p = ?buf + push_bit (PAGE_SHIFT cfg) (of_nat j)" and "?buf \<noteq> 0"
    using assms(1) by (auto simp: served_def dev2_page_def split: if_splits)
  then have "j \<le> psize cfg div 8" using served_iff [of d i j cfg] assms(1,2) by simp
  then have "j * psize cfg + x < unat (test_mck_mmap_dev2_buf_size cfg)"
    unfolding unat_buf_size using assms(3) by (rule offset_in_pages)
  moreover have "p + of_nat x = ?buf + of_nat (j * psize cfg + x)" by (simp add: p push_bit_eq_mult)
  ultimately show ?thesis
    using reset_loop_byte [of "j * psize cfg + x" cfg 0 ?buf 1 "kmem d"] assms(3) by (simp add: reset_drv_def add.assoc)
qed

text \<open>The number of pages the test computes, for sizes up to a terabyte.\<close>

lemma devmap_pages_eq:
  assumes "0 < sz" and "unat sz \<le> 2 ^ 40"
  shows "devmap_pages cfg sz = pages_of cfg sz" and "pages_of cfg sz < 2 ^ 31"
proof -
  have p: "0 < psize cfg" "psize cfg \<le> 2 ^ 16" "2 ^ 12 \<le> psize cfg" by (cases cfg; simp)+
  have "0 < unat sz" using assms(1) by (simp add: word_less_nat_alt)
  have add: "unat (sz + PAGE_SIZE cfg) = unat sz + psize cfg"
    using assms(2) p by (simp add: unat_word_ariths unat_page_size)
  then have "unat (sz + PAGE_SIZE cfg - 1) = unat sz + psize cfg - 1"
    by (subst unat_sub) (use p in \<open>simp_all add: word_le_nat_alt\<close>)
  then have d: "unat ((sz + PAGE_SIZE cfg - 1) div PAGE_SIZE cfg) = pages_of cfg sz"
    by (simp add: unat_div_distrib unat_page_size pages_of_def)
  have "pages_of cfg sz \<le> (2 ^ 40 + psize cfg - 1) div psize cfg" using assms(2) by (auto simp: pages_of_def intro!: div_le_mono)
  also have "\<dots> < 2 ^ 31" by (cases cfg; simp)
  finally show n: "pages_of cfg sz < 2 ^ 31" .
  have X: "uint ((sz + PAGE_SIZE cfg - 1) div PAGE_SIZE cfg) = int (pages_of cfg sz)" using d by (metis uint_nat)
  have "uint (ucast ((sz + PAGE_SIZE cfg - 1) div PAGE_SIZE cfg) :: u32) = int (pages_of cfg sz)"
    unfolding unsigned_ucast_eq X using n by (simp add: take_bit_eq_mod)
  then have "sint (ucast ((sz + PAGE_SIZE cfg - 1) div PAGE_SIZE cfg) :: u32) = int (pages_of cfg sz)"
    using n by (simp add: sint_uint signed_take_bit_int_eq_self)
  then show "devmap_pages cfg sz = pages_of cfg sz" by (simp add: devmap_pages_def)
qed

lemma ceiling_le: "0 < P \<Longrightarrow> (n + P - 1) div P \<le> q \<longleftrightarrow> n \<le> q * (P :: nat)"
proof -
  assume "0 < P"
  then have "(n + P - 1) div P < Suc q \<longleftrightarrow> n + P - 1 < Suc q * P" by (rule div_less_iff_less_mult)
  also have "\<dots> \<longleftrightarrow> n \<le> q * P" using \<open>0 < P\<close> by auto
  finally show ?thesis by (simp add: less_Suc_eq_le)
qed

lemma pages_of_small: "sz \<le> test_mck_mmap_dev2_buf_size cfg \<longleftrightarrow> pages_of cfg sz \<le> psize cfg div 8 + 1"
  by (simp only: word_le_nat_alt unat_buf_size pages_of_def ceiling_le [of "psize cfg"] zero_less_power zero_less_numeral)

section \<open>The loops\<close>

lemma cell_page: "data + PAGE_SIZE cfg * of_nat j = page_cell cfg data j 0"
  by (simp add: page_cell_def PAGE_SIZE_def push_bit_eq_mult mult.commute)

lemma cell_next: "page_cell cfg data j x + 1 = page_cell cfg data j (Suc x)"
  by (simp add: page_cell_def)

lemma cell_fits: "j < n \<Longrightarrow> x < P \<Longrightarrow> n * P \<le> M \<Longrightarrow> j * P + x < (M :: nat)"
proof -
  assume "j < n" and "x < P" and "n * P \<le> M"
  then have "j \<le> n - 1" "n - 1 + 1 = n" by simp_all
  with offset_in_pages [of j "n - 1" x P] \<open>x < P\<close> \<open>n * P \<le> M\<close> show ?thesis by (metis order_less_le_trans)
qed

lemma cell_inj:
  assumes "page_cell cfg data j x = page_cell cfg data j' x'" and "x < psize cfg" and "x' < psize cfg" and "j < n" and "j' < n" and "n * psize cfg \<le> SPACE"
  shows "j = j' \<and> x = x'"
proof -
  note fits = cell_fits [OF assms(4,2,6)] cell_fits [OF assms(5,3,6)]
  have "(of_nat (j * psize cfg + x) :: u64) = of_nat (j' * psize cfg + x')"
    using assms(1) by (simp only: page_cell_def add_left_cancel)
  then have "unat (of_nat (j * psize cfg + x) :: u64) = unat (of_nat (j' * psize cfg + x') :: u64)" by (rule arg_cong)
  then have "j * psize cfg + x = j' * psize cfg + x'" by (simp only: unat_of_nat_SPACE fits)
  then have "(j * psize cfg + x) div psize cfg = (j' * psize cfg + x') div psize cfg" "(j * psize cfg + x) mod psize cfg = (j' * psize cfg + x') mod psize cfg"
    by simp_all
  with assms(2,3) show ?thesis by simp
qed

lemma access_okD:
  assumes "access_ok cfg K V i" and "v_map (V k) = Some (data, n)" and "j < n" and "x < psize cfg" and "n * psize cfg \<le> SPACE"
  shows "served cfg (v_drv (V k)) i j = Inr p \<Longrightarrow> fst (os_load K (page_cell cfg data j x) k) = Inr (v_mem (V k) (page_cell cfg data j x))"
    and "served cfg (v_drv (V k)) i j = Inr p \<Longrightarrow> V (snd (os_load K (page_cell cfg data j x) k)) = V k"
    and "served cfg (v_drv (V k)) i j = Inr p \<Longrightarrow> fst (os_store K (page_cell cfg data j x) b k) = Inr ()"
    and "served cfg (v_drv (V k)) i j = Inr p \<Longrightarrow>
      V (snd (os_store K (page_cell cfg data j x) b k)) = V k\<lparr>v_mem := (v_mem (V k))(page_cell cfg data j x := b)\<rparr>"
    and "served cfg (v_drv (V k)) i j = Inl e \<Longrightarrow> fst (os_store K (page_cell cfg data j x) b k) = Inl SIGBUS"
proof -
  have "case served cfg (v_drv (V k)) i j of
        Inr _ \<Rightarrow> fst (os_load K (page_cell cfg data j x) k) = Inr (v_mem (V k) (page_cell cfg data j x)) \<and> V (snd (os_load K (page_cell cfg data j x) k)) = V k
          \<and> fst (os_store K (page_cell cfg data j x) b k) = Inr ()
          \<and> V (snd (os_store K (page_cell cfg data j x) b k)) = V k\<lparr>v_mem := (v_mem (V k))(page_cell cfg data j x := b)\<rparr>
      | Inl _ \<Rightarrow> fst (os_store K (page_cell cfg data j x) b k) = Inl SIGBUS"
    using assms unfolding access_ok_def by blast
  then show "served cfg (v_drv (V k)) i j = Inr p \<Longrightarrow> fst (os_load K (page_cell cfg data j x) k) = Inr (v_mem (V k) (page_cell cfg data j x))"
    and "served cfg (v_drv (V k)) i j = Inr p \<Longrightarrow> V (snd (os_load K (page_cell cfg data j x) k)) = V k"
    and "served cfg (v_drv (V k)) i j = Inr p \<Longrightarrow> fst (os_store K (page_cell cfg data j x) b k) = Inr ()"
    and "served cfg (v_drv (V k)) i j = Inr p \<Longrightarrow>
      V (snd (os_store K (page_cell cfg data j x) b k)) = V k\<lparr>v_mem := (v_mem (V k))(page_cell cfg data j x := b)\<rparr>"
    and "served cfg (v_drv (V k)) i j = Inl e \<Longrightarrow> fst (os_store K (page_cell cfg data j x) b k) = Inl SIGBUS"
    by simp_all
qed

lemma leads_store:
  assumes "access_ok cfg K V i" and "v_map v = Some (data, n)" and "j < n" and "x < psize cfg" and "served cfg (v_drv v) i j = Inr p"
    and "n * psize cfg \<le> SPACE"
  shows "leads V (store K (page_cell cfg data j x) b) (v, h) () (v\<lparr>v_mem := (v_mem v)(page_cell cfg data j x := b)\<rparr>, h)"
  unfolding leads_def
proof (intro allI impI)
  fix s assume s: "seen V s = (v, h)"
  then have "fst (os_store K (page_cell cfg data j x) b (kern s)) = Inr ()"
    "V (snd (os_store K (page_cell cfg data j x) b (kern s))) = v\<lparr>v_mem := (v_mem v)(page_cell cfg data j x := b)\<rparr>"
    using assms by (auto simp: seen_def access_okD)
  with s show "\<exists>t. store K (page_cell cfg data j x) b s = (Val (), t) \<and> seen V t = (v\<lparr>v_mem := (v_mem v)(page_cell cfg data j x := b)\<rparr>, h)"
    by (cases "os_store K (page_cell cfg data j x) b (kern s)") (simp add: store_def seen_def)
qed

lemma leads_load:
  assumes "access_ok cfg K V i" and "v_map v = Some (data, n)" and "j < n" and "x < psize cfg" and "served cfg (v_drv v) i j = Inr p"
    and "n * psize cfg \<le> SPACE"
  shows "leads V (load K (page_cell cfg data j x)) (v, h) (v_mem v (page_cell cfg data j x)) (v, h)"
  unfolding leads_def
proof (intro allI impI)
  fix s assume s: "seen V s = (v, h)"
  then have "fst (os_load K (page_cell cfg data j x) (kern s)) = Inr (v_mem v (page_cell cfg data j x))" "V (snd (os_load K (page_cell cfg data j x) (kern s))) = v"
    using assms by (auto simp: seen_def access_okD)
  with s show "\<exists>t. load K (page_cell cfg data j x) s = (Val (v_mem v (page_cell cfg data j x)), t) \<and> seen V t = (v, h)"
    by (cases "os_load K (page_cell cfg data j x) (kern s)") (simp add: load_def seen_def)
qed

lemma store_killed:
  assumes "access_ok cfg K V i" and "v_map v = Some (data, n)" and "j < n" and "0 < psize cfg" and "served cfg (v_drv v) i j = Inl e" and "h SIGBUS = None"
    and "n * psize cfg \<le> SPACE"
  shows "results V (store K (page_cell cfg data j 0) b) (v, h) (Halt (Killed SIGBUS))"
  unfolding results_def
proof (intro allI impI)
  fix s assume s: "seen V s = (v, h)"
  then have "fst (os_store K (page_cell cfg data j 0) b (kern s)) = Inl SIGBUS"
    using assms by (auto simp: seen_def access_okD)
  with s assms(6) show "fst (store K (page_cell cfg data j 0) b s) = Halt (Killed SIGBUS)"
    by (cases "os_store K (page_cell cfg data j 0) b (kern s)") (simp add: store_def seen_def raise_signal_def stop_def)
qed

fun touched :: "page_config \<Rightarrow> u64 \<Rightarrow> nat \<Rightarrow> nat \<Rightarrow> (u64 \<Rightarrow> byte) \<Rightarrow> u64 \<Rightarrow> byte" where
  "touched cfg data i 0 m = m"
| "touched cfg data i (Suc c) m = touched cfg data (Suc i) c (m(page_cell cfg data i 0 := letter_Z))"

lemma touched_value:
  assumes "j < n" and "x < psize cfg" and "i + c \<le> n" and "n * psize cfg \<le> SPACE"
  shows "touched cfg data i c m (page_cell cfg data j x) = (if x = 0 \<and> i \<le> j \<and> j < i + c then letter_Z else m (page_cell cfg data j x))"
  using assms(3)
proof (induction c arbitrary: i m)
  case (Suc c)
  have "page_cell cfg data j x = page_cell cfg data i 0 \<longleftrightarrow> j = i \<and> x = 0"
    using cell_inj [of cfg data j x i 0 n] assms Suc.prems by auto
  with Suc show ?case by auto
qed auto

lemma leads_touch:
  assumes "access_ok cfg K V d" and "\<And>j. i \<le> j \<Longrightarrow> j < i + c \<Longrightarrow> \<exists>p. served cfg (v_drv v) d j = Inr p" and "v_map v = Some (data, n)" and "i + c \<le> n"
    and "n * psize cfg \<le> SPACE"
  shows "leads V (touch_pages K cfg data i c) (v, h) () (v\<lparr>v_mem := touched cfg data i c (v_mem v)\<rparr>, h)"
  using assms(2-)
proof (induction c arbitrary: i v)
  case 0
  then show ?case by (simp add: leads_ret)
next
  case (Suc c)
  obtain p where p: "served cfg (v_drv v) d i = Inr p" using Suc.prems(1) [of i] by auto
  let ?v = "v\<lparr>v_mem := (v_mem v)(page_cell cfg data i 0 := letter_Z)\<rparr>"
  have "leads V (touch_pages K cfg data (Suc i) c) (?v, h) () (?v\<lparr>v_mem := touched cfg data (Suc i) c (v_mem ?v)\<rparr>, h)"
    by (rule Suc.IH) (use Suc.prems in simp_all)
  then show ?case
    unfolding touch_pages.simps cell_page
    by (intro leads_exec [OF leads_store [OF assms(1) Suc.prems(2) _ _ p]]) (use Suc.prems in simp_all)
qed

lemma touch_killed:
  assumes "access_ok cfg K V d" and "h SIGBUS = None" and "\<And>j. i \<le> j \<Longrightarrow> j < u \<Longrightarrow> \<exists>p. served cfg (v_drv v) d j = Inr p" and "served cfg (v_drv v) d u = Inl e"
    and "v_map v = Some (data, n)" and "i \<le> u" and "u < i + c" and "u < n" and "n * psize cfg \<le> SPACE"
  shows "results V (touch_pages K cfg data i c) (v, h) (Halt (Killed SIGBUS))"
  using assms(3-)
proof (induction c arbitrary: i v)
  case (Suc c)
  show ?case
  proof (cases "i = u")
    case True
    then show ?thesis
      unfolding touch_pages.simps cell_page using Suc.prems assms(2)
      by (intro results_halt store_killed [OF assms(1)]) simp_all
  next
    case False
    with Suc.prems(1) [of i] Suc.prems(4) obtain p where p: "served cfg (v_drv v) d i = Inr p" by auto
    show ?thesis
      unfolding touch_pages.simps cell_page
      by (rule results_exec [OF leads_store [OF assms(1) Suc.prems(3) _ _ p Suc.prems(7)]], use Suc.prems False in simp, simp, rule Suc.IH)
        (use Suc.prems False in simp_all)
  qed
qed simp

lemma leads_cmp:
  assumes "access_ok cfg K V d" and "v_map v = Some (data, n)" and "j < n" and "served cfg (v_drv v) d j = Inr p"
    and "n * psize cfg \<le> SPACE" and "x + length bs \<le> psize cfg" and "\<And>y. y < length bs \<Longrightarrow> v_mem v (page_cell cfg data j (x + y)) = bs ! y"
  shows "leads V (page_cmp K (page_cell cfg data j x) bs) (v, h) True (v, h)"
  using assms(6-)
proof (induction bs arbitrary: x)
  case (Cons b bs)
  have b: "v_mem v (page_cell cfg data j x) = b" using Cons.prems(2) [of 0] by simp
  have "leads V (page_cmp K (page_cell cfg data j (Suc x)) bs) (v, h) True (v, h)"
    by (rule Cons.IH) (use Cons.prems(1) Cons.prems(2) [of "Suc _"] in simp_all)
  then show ?case
    unfolding page_cmp.simps cell_next
    by (intro leads_exec [OF leads_load [OF assms(1-3) _ assms(4)]]) (use Cons.prems(1) b assms(5) in simp_all)
qed (simp add: leads_ret)

lemma expected_page_nth: "x < psize cfg \<Longrightarrow> expected_page cfg val ! x = (if x = 0 then letter_Z else of_int val)"
  by (simp add: expected_page_def nth_list_update)

lemma results_validate:
  assumes "access_ok cfg K V d" and "v_map v = Some (data, n)" and "\<And>j. j < n \<Longrightarrow> \<exists>p. served cfg (v_drv v) d j = Inr p"
    and "\<And>j x. j < n \<Longrightarrow> x < psize cfg \<Longrightarrow> v_mem v (page_cell cfg data j x) = (if x = 0 then letter_Z else of_int (1 + int j))"
    and "results V f (v, h) r" and "n * psize cfg \<le> SPACE" and "i + c \<le> n"
  shows "results V (validate_pages K cfg data i (1 + int i) c f) (v, h) r"
  using assms(7)
proof (induction c arbitrary: i)
  case 0
  then show ?case by (simp add: assms(5))
next
  case (Suc c)
  then obtain p where p: "served cfg (v_drv v) d i = Inr p" using assms(3) [of i] by auto
  have cmp: "leads V (page_cmp K (page_cell cfg data i 0) (expected_page cfg (1 + int i))) (v, h) True (v, h)"
    by (rule leads_cmp [OF assms(1,2) _ p assms(6)]) (use Suc.prems assms(4) in \<open>simp_all add: expected_page_nth, simp_all add: expected_page_def\<close>)
  have "results V (validate_pages K cfg data (Suc i) (1 + int i + 1) c f) (v, h) r"
    using Suc.IH [of "Suc i"] Suc.prems by (simp add: add.commute add.left_commute)
  then show ?case
    unfolding validate_pages.simps cell_page by (intro results_exec [OF cmp]) (simp only: tp_assert_simps)
qed

section \<open>The verdict of case 1\<close>

lemma contract_calls:
  assumes "dev2_contract cfg K V i path"
  shows "\<exists>fd k'. os_open K path O_RDWR k = (Inr fd, k') \<and> fd \<noteq> -1 \<and> V k' = V k"
    and "\<exists>k'. pt_ioctl K fd TEST_MCK_MMAP_DEV2_BUF_RESET k = (Inr 0, k') \<and> V k' = V k\<lparr>v_drv := reset_drv cfg i (v_drv (V k))\<rparr>"
    and "\<exists>k'. os_munmap K a len k = (Inr 0, k')" and "access_ok cfg K V i"
proof -
  show "\<exists>fd k'. os_open K path O_RDWR k = (Inr fd, k') \<and> fd \<noteq> -1 \<and> V k' = V k" and "access_ok cfg K V i"
    using assms unfolding dev2_contract_def by blast+
  obtain r t k' where "test_mck_mmap_dev2_ioctl cfg \<lparr>f_private = Some i\<rparr> TEST_MCK_MMAP_DEV2_BUF_RESET 0 (fresh_process (v_drv (V k))) = (Val r, t)"
    "pt_ioctl K fd TEST_MCK_MMAP_DEV2_BUF_RESET k = (Inr r, k')" "V k' = V k\<lparr>v_drv := kern t\<rparr>"
    using assms unfolding dev2_contract_def by blast
  with ioctl_resets show "\<exists>k'. pt_ioctl K fd TEST_MCK_MMAP_DEV2_BUF_RESET k = (Inr 0, k') \<and> V k' = V k\<lparr>v_drv := reset_drv cfg i (v_drv (V k))\<rparr>"
    by (metis run.inject(1))
  have "fst (os_munmap K a len k) = Inr 0" using assms unfolding dev2_contract_def by blast
  then show "\<exists>k'. os_munmap K a len k = (Inr 0, k')" by (metis prod.collapse)
qed

lemma contract_mmap:
  assumes "dev2_contract cfg K V i path" and "0 < sz" and "unat sz \<le> 2 ^ 40"
  shows "\<exists>data k'. os_mmap K 0 sz (PROT_READ OR PROT_WRITE) MAP_PRIVATE fd 0 k = (Inr data, k') \<and> data \<noteq> MAP_FAILED
    \<and> (\<exists>m. pages_of cfg sz * psize cfg \<le> SPACE \<and> copies cfg (v_drv (V k)) i data (pages_of cfg sz) m
        \<and> V k' = V k\<lparr>v_map := Some (data, pages_of cfg sz), v_mem := m\<rparr>)"
proof -
  have "\<exists>data m k'. os_mmap K 0 sz (PROT_READ OR PROT_WRITE) MAP_PRIVATE fd 0 k = (Inr data, k')
        \<and> data \<noteq> MAP_FAILED \<and> unat data + pages_of cfg sz * psize cfg \<le> SPACE
        \<and> copies cfg (v_drv (V k)) i data (pages_of cfg sz) m \<and> V k' = V k\<lparr>v_map := Some (data, pages_of cfg sz), v_mem := m\<rparr>"
    using assms unfolding dev2_contract_def by blast
  then show ?thesis by (metis add_leD2)
qed

text \<open>From the mapped buffer on: \<open>d\<close> is the driver after the reset.\<close>

lemma mapped_verdict:
  assumes K: "dev2_contract cfg K V i path" and "0 < sz" and sz: "unat sz \<le> 2 ^ 40" and buf: "private_data (test_mck_devlist d ! i) \<noteq> 0"
    and "h SIGBUS = None" and fits: "pages_of cfg sz * psize cfg \<le> SPACE" and m: "copies cfg (reset_drv cfg i d) i data (pages_of cfg sz) m"
    and v: "v_map v = Some (data, pages_of cfg sz)" "v_mem v = m" "v_drv v = reset_drv cfg i d"
  shows "results V (exec (touch_pages K cfg data 0 (pages_of cfg sz)) (\<lambda>_. validate_pages K cfg data 0 1 (pages_of cfg sz)
      (devmap_munmap K data sz ''munmap error.'' (devmap_close K fd)))) (v, h)
    (if sz \<le> test_mck_mmap_dev2_buf_size cfg then Val None else Halt (Killed SIGBUS))"
proof -
  let ?n = "pages_of cfg sz"
  note ok = contract_calls(4) [OF K]
  have "?n < 2 ^ 31" by (rule devmap_pages_eq(2)) (use assms in simp_all)
  then have serve: "(\<exists>p. served cfg (v_drv v) i j = Inr p) \<longleftrightarrow> j \<le> psize cfg div 8" if "j \<le> ?n" for j
    using served_iff [OF buf, of j cfg] that by (simp add: v)
  have tail: "results V (devmap_munmap K data sz ''munmap error.'' (devmap_close K fd)) (w, h) (Val None)" for w
    unfolding devmap_munmap_def munmap_def
    by (rule results_sys_call [where P = "\<lambda>a _. a = 0"], use contract_calls(3) [OF K] in blast, rule results_print)
      (simp add: devmap_close_def results_def c_close_def exec_sys_call_ignored)
  show ?thesis
  proof (cases "sz \<le> test_mck_mmap_dev2_buf_size cfg")
    case True
    then have all: "\<exists>p. served cfg (v_drv v) i j = Inr p" if "j < ?n" for j
      using serve [of j] that pages_of_small [of sz cfg] by simp
    let ?w = "v\<lparr>v_mem := touched cfg data 0 ?n m\<rparr>"
    have "leads V (touch_pages K cfg data 0 ?n) (v, h) () (?w, h)"
      using leads_touch [OF ok, of 0 ?n v data ?n h] all fits by (simp add: v)
    moreover have "results V (validate_pages K cfg data 0 (1 + int 0) ?n (devmap_munmap K data sz ''munmap error.'' (devmap_close K fd))) (?w, h) (Val None)"
    proof (rule results_validate [OF ok])
      fix j x assume jx: "j < ?n" "x < psize cfg"
      obtain p where p: "served cfg d i j = Inr p" using all [OF jx(1)] by (auto simp: v)
      have "m (page_cell cfg data j x) = kmem (reset_drv cfg i d) (p + of_nat x)"
        using m jx p unfolding copies_def by fastforce
      also have "\<dots> = of_int (1 + int j)" by (rule reset_page [OF p _ jx(2)]) (use jx(1) \<open>?n < 2 ^ 31\<close> in simp)
      finally show "v_mem ?w (page_cell cfg data j x) = (if x = 0 then letter_Z else of_int (1 + int j))"
        using touched_value [OF jx, of 0 ?n data m] fits jx(1) by simp
    qed (use all tail v fits in simp_all)
    ultimately show ?thesis using True by (simp add: results_exec)
  next
    case False
    then have n: "psize cfg div 8 + 1 < ?n" using pages_of_small [of sz cfg] by simp
    then have "\<not> (\<exists>p. served cfg (v_drv v) i (psize cfg div 8 + 1) = Inr p)" using serve [of "psize cfg div 8 + 1"] by simp
    then obtain e where "served cfg (v_drv v) i (psize cfg div 8 + 1) = Inl e" by (cases "served cfg (v_drv v) i (psize cfg div 8 + 1)") auto
    with n have "results V (touch_pages K cfg data 0 ?n) (v, h) (Halt (Killed SIGBUS))"
      by (intro touch_killed [OF ok, where u = "psize cfg div 8 + 1" and n = ?n]) (use serve v fits assms(5) in simp_all)
    with False show ?thesis by (simp add: results_halt)
  qed
qed

text \<open>
  C13. Test, kernel and driver together: for a loaded driver and a kernel that meets the contract, case 1 of \<^verbatim>\<open>mmap_dev\<close> with a size of up to a terabyte
  passes exactly for the sizes that the buffer of the driver holds (513 pages of 4 KiB, 8193 pages of 64 KiB): every page the fault function serves holds what
  the reset wrote and the test expects, also where the page number does not fit a byte. With any larger size the test is killed by \<^verbatim>\<open>SIGBUS\<close> at the first page behind the buffer.
\<close>

theorem mmap_dev_001_verdict:
  assumes "dev2_contract cfg K V i path" and "private_data (test_mck_devlist (v_drv (V (kern s))) ! i) \<noteq> 0" and "handlers s SIGBUS = None"
    and "arg_path args = Some path" and "0 < arg_size args" and "unat (arg_size args) \<le> 2 ^ 40"
  shows "fst (mmap_dev_001 K cfg args s) =
    (if arg_size args \<le> test_mck_mmap_dev2_buf_size cfg then Val None else Halt (Killed SIGBUS))"
proof -
  let ?v = "V (kern s)" and ?r = "if arg_size args \<le> test_mck_mmap_dev2_buf_size cfg then Val None else Halt (Killed SIGBUS)"
  let ?d = "reset_drv cfg i (v_drv ?v)"
  have mapped: "results V (devmap_mmap K (arg_size args) MAP_PRIVATE fd '''' (\<lambda>data.
     exec (touch_pages K cfg data 0 (devmap_pages cfg (arg_size args))) (\<lambda>_.
     validate_pages K cfg data 0 1 (devmap_pages cfg (arg_size args)) (
     devmap_munmap K data (arg_size args) ''munmap error.'' (devmap_close K fd))))) (?v\<lparr>v_drv := ?d\<rparr>, handlers s) ?r" for fd
    unfolding devmap_mmap_def mmap_def devmap_pages_eq(1) [OF assms(5,6)]
  proof (rule results_sys_call [where P = "\<lambda>data w. data \<noteq> MAP_FAILED \<and> (\<exists>m. pages_of cfg (arg_size args) * psize cfg \<le> SPACE
      \<and> copies cfg ?d i data (pages_of cfg (arg_size args)) m \<and> w = ?v\<lparr>v_drv := ?d, v_map := Some (data, pages_of cfg (arg_size args)), v_mem := m\<rparr>)"])
    fix k assume "V k = ?v\<lparr>v_drv := ?d\<rparr>"
    with contract_mmap [OF assms(1,5,6), of fd k]
    show "\<exists>a k'. os_mmap K 0 (arg_size args) (PROT_READ OR PROT_WRITE) MAP_PRIVATE fd 0 k = (Inr a, k') \<and> a \<noteq> MAP_FAILED
      \<and> (\<exists>m. pages_of cfg (arg_size args) * psize cfg \<le> SPACE \<and> copies cfg ?d i a (pages_of cfg (arg_size args)) m
        \<and> V k' = ?v\<lparr>v_drv := ?d, v_map := Some (a, pages_of cfg (arg_size args)), v_mem := m\<rparr>)" by auto
  next
    fix data w
    assume "data \<noteq> MAP_FAILED \<and> (\<exists>m. pages_of cfg (arg_size args) * psize cfg \<le> SPACE
      \<and> copies cfg ?d i data (pages_of cfg (arg_size args)) m \<and> w = ?v\<lparr>v_drv := ?d, v_map := Some (data, pages_of cfg (arg_size args)), v_mem := m\<rparr>)"
    then obtain m where "data \<noteq> MAP_FAILED" and fits: "pages_of cfg (arg_size args) * psize cfg \<le> SPACE"
      and m: "copies cfg ?d i data (pages_of cfg (arg_size args)) m"
      and w: "w = ?v\<lparr>v_drv := ?d, v_map := Some (data, pages_of cfg (arg_size args)), v_mem := m\<rparr>" by blast
    have "results V (exec (touch_pages K cfg data 0 (pages_of cfg (arg_size args))) (\<lambda>_. validate_pages K cfg data 0 1 (pages_of cfg (arg_size args))
      (devmap_munmap K data (arg_size args) ''munmap error.'' (devmap_close K fd)))) (w, handlers s) ?r"
      by (rule mapped_verdict [where h = "handlers s", OF assms(1,5,6,2,3) fits m]) (simp_all add: w)
    with \<open>data \<noteq> MAP_FAILED\<close> show "results V (exec (printf ([] @ ''mmap()=%p'') [AInt (uint data)]) (\<lambda>_. tp_assert (data \<noteq> MAP_FAILED) (Some ([] @ ''mmap error.''))
        (exec (touch_pages K cfg data 0 (pages_of cfg (arg_size args))) (\<lambda>_. validate_pages K cfg data 0 1 (pages_of cfg (arg_size args))
        (devmap_munmap K data (arg_size args) ''munmap error.'' (devmap_close K fd)))))) (w, handlers s) ?r"
      by (intro results_print) (simp only: tp_assert_simps simp_thms)
  qed
  have reset: "results V (exec (c_ioctl K fd TEST_MCK_MMAP_DEV2_BUF_RESET) (\<lambda>status. exec (printf ''ioctl()=%d'' [AInt status]) (\<lambda>_.
      tp_assert (status \<noteq> -1) (Some ''ioctl error.'') f))) (?v, handlers s) ?r"
    if "results V f (?v\<lparr>v_drv := ?d\<rparr>, handlers s) ?r" for fd f
    unfolding c_ioctl_def
    by (rule results_sys_call [where P = "\<lambda>r w. r = 0 \<and> w = ?v\<lparr>v_drv := ?d\<rparr>"])
      (use contract_calls(2) [OF assms(1)] that in \<open>fastforce intro!: results_print\<close>)+
  have "results V (exec (c_open K path O_RDWR) (\<lambda>fd. exec (printf ''open(%s)=%d'' [AStr path, AInt fd]) (\<lambda>_. tp_assert (fd \<noteq> -1) (Some ''file open error.'') (f fd))))
      (?v, handlers s) ?r"
    if "\<And>fd. results V (f fd) (?v, handlers s) ?r" for f
    unfolding c_open_def
    by (rule results_sys_call [where P = "\<lambda>fd w. fd \<noteq> -1 \<and> w = ?v"])
      (use contract_calls(1) [OF assms(1)] that in \<open>fastforce intro!: results_print\<close>)+
  from this [OF reset [OF mapped]] have "results V (mmap_dev_001 K cfg args) (?v, handlers s) ?r"
    using assms(5) by (simp only: mmap_dev_001_def devmap_open_def assms(4) option.case tp_assert_simps simp_thms)
  then show ?thesis by (simp add: results_def seen_def)
qed

section \<open>A kernel that meets the contract\<close>

text \<open>The mapping is made at a fixed address; what it shows is copied from the pages the driver serves.\<close>

definition dev_page :: "page_config \<Rightarrow> unit dev_view \<Rightarrow> nat \<Rightarrow> u64 \<Rightarrow> u64 \<Rightarrow> int + u64" where
  "dev_page cfg k i data a = served cfg (v_drv k) i (unat (a - data) div psize cfg)"

definition dev_copy :: "page_config \<Rightarrow> unit dev_view \<Rightarrow> nat \<Rightarrow> u64 \<Rightarrow> u64 \<Rightarrow> byte" where
  "dev_copy cfg k i data a = (case dev_page cfg k i data a of Inr p \<Rightarrow> kmem (v_drv k) (p + of_nat (unat (a - data) mod psize cfg)) | Inl _ \<Rightarrow> 0)"

definition dev_access :: "page_config \<Rightarrow> nat \<Rightarrow> u64 \<Rightarrow> unit dev_view \<Rightarrow> int option" where
  "dev_access cfg i a k = (case v_map k of None \<Rightarrow> Some SIGSEGV
     | Some (data, n) \<Rightarrow> (case dev_page cfg k i data a of Inr _ \<Rightarrow> None | Inl _ \<Rightarrow> Some SIGBUS))"

definition dev_os :: "page_config \<Rightarrow> nat \<Rightarrow> unit dev_view pt_os" where
  "dev_os cfg i = file_os.extend ((failing_os EIO)\<lparr>
       os_open := (\<lambda>_ _ k. (Inr 3, k)),
       os_mmap := (\<lambda>_ sz _ _ _ _ k. (Inr 0x10000000, k\<lparr>v_map := Some (0x10000000, pages_of cfg sz), v_mem := dev_copy cfg k i 0x10000000\<rparr>)),
       os_munmap := (\<lambda>_ _ k. (Inr 0, k\<lparr>v_map := None\<rparr>)),
       os_load := (\<lambda>a k. (case dev_access cfg i a k of None \<Rightarrow> Inr (v_mem k a) | Some sig \<Rightarrow> Inl sig, k)),
       os_store := (\<lambda>a b k. case dev_access cfg i a k of None \<Rightarrow> (Inr (), k\<lparr>v_mem := (v_mem k)(a := b)\<rparr>) | Some sig \<Rightarrow> (Inl sig, k))\<rparr>) (pt_os.fields
     (\<lambda>k. (Inl EIO, k)) (\<lambda>k. (Inl EIO, k)) (\<lambda>_ k. (Inl EIO, k)) (\<lambda>_ _ k. (Inl EIO, k))
     (\<lambda>_ _ _ _ k. (Inl EIO, k)) (\<lambda>_ k. (Inl EIO, k)) (\<lambda>_ k. (Inl EIO, k)) (\<lambda>_ _ k. (Inl EIO, k))
     (\<lambda>_ k. (Inl EIO, k)) (\<lambda>_ _ k. (Inl EIO, k)) (\<lambda>_ k. (Inl EIO, k)) (\<lambda>_ _ k. (Inl EIO, k)) (\<lambda>_ k. (Inl EIO, k)) (\<lambda>_ _ k. (Inl EIO, k))
     (\<lambda>_ _ k. (Inl EIO, k)) (\<lambda>_ _ _ _ k. (Inl EIO, k)) (\<lambda>_ k. (Inl EIO, k)) (\<lambda>_ _ k. (Inl EIO, k)) False (\<lambda>_. 0) (\<lambda>_. 0) (\<lambda>x k. (x, k)) (\<lambda>_ k. k)
     (\<lambda>_ _. 0) (\<lambda>_ _. 0) (\<lambda>_ k. (Inr 0, k)) (\<lambda>_ k. (Inr 0, k)) (\<lambda>_ k. (Inr 0, k)) (\<lambda>k. (Inl EIO, k))
     (\<lambda>fd cmd k. case test_mck_mmap_dev2_ioctl cfg \<lparr>f_private = Some i\<rparr> cmd 0 (fresh_process (v_drv k)) of
        (Val r, t) \<Rightarrow> (Inr r, k\<lparr>v_drv := kern t\<rparr>) | (Halt _, t) \<Rightarrow> (Inl EIO, k)) (\<lambda>_ k. k))"

lemma dev_os_fields:
  "os_open (dev_os cfg i) = (\<lambda>_ _ k. (Inr 3, k))"
  "os_mmap (dev_os cfg i) = (\<lambda>_ sz _ _ _ _ k. (Inr 0x10000000, k\<lparr>v_map := Some (0x10000000, pages_of cfg sz), v_mem := dev_copy cfg k i 0x10000000\<rparr>))"
  "os_munmap (dev_os cfg i) = (\<lambda>_ _ k. (Inr 0, k\<lparr>v_map := None\<rparr>))"
  "os_load (dev_os cfg i) = (\<lambda>a k. (case dev_access cfg i a k of None \<Rightarrow> Inr (v_mem k a) | Some sig \<Rightarrow> Inl sig, k))"
  "os_store (dev_os cfg i) = (\<lambda>a b k. case dev_access cfg i a k of None \<Rightarrow> (Inr (), k\<lparr>v_mem := (v_mem k)(a := b)\<rparr>) | Some sig \<Rightarrow> (Inl sig, k))"
  "pt_ioctl (dev_os cfg i) = (\<lambda>fd cmd k. case test_mck_mmap_dev2_ioctl cfg \<lparr>f_private = Some i\<rparr> cmd 0 (fresh_process (v_drv k)) of
     (Val r, t) \<Rightarrow> (Inr r, k\<lparr>v_drv := kern t\<rparr>) | (Halt _, t) \<Rightarrow> (Inl EIO, k))"
  by (simp_all add: dev_os_def pt_os.defs file_os.defs failing_os_def)

lemma cell_offset:
  assumes "j < n" and "x < psize cfg" and "n * psize cfg \<le> SPACE"
  shows "unat (page_cell cfg data j x - data) div psize cfg = j" and "unat (page_cell cfg data j x - data) mod psize cfg = x"
proof -
  have "page_cell cfg data j x - data = of_nat (j * psize cfg + x)" by (simp add: page_cell_def)
  then have "unat (page_cell cfg data j x - data) = j * psize cfg + x" by (simp only: unat_of_nat_SPACE cell_fits [OF assms])
  with assms(2) show "unat (page_cell cfg data j x - data) div psize cfg = j" and "unat (page_cell cfg data j x - data) mod psize cfg = x" by simp_all
qed

lemma dev_os_access: "access_ok cfg (dev_os cfg i) (\<lambda>k. k) i"
  unfolding access_ok_def
  by (auto simp: dev_os_fields dev_access_def dev_page_def cell_offset split: sum.splits)

lemma dev_os_copies: "n * psize cfg \<le> SPACE \<Longrightarrow> copies cfg (v_drv k) i data n (dev_copy cfg k i data)"
  unfolding copies_def by (auto simp: dev_copy_def dev_page_def cell_offset split: sum.splits)

lemma dev2_ioctl_returns: "\<exists>r t. test_mck_mmap_dev2_ioctl cfg \<lparr>f_private = Some i\<rparr> cmd 0 s = (Val r, t)"
  by (auto simp: test_mck_mmap_dev2_ioctl_def test_mck_mmap_dev2_buffer_reset_def mck_printk_def test_mck_ident_def exec_def emit_def ret_def
      get_dev_def get_drv_def upd_drv_def split: option.splits)

lemma pages_of_bound: "unat sz \<le> 2 ^ 40 \<Longrightarrow> pages_of cfg sz * psize cfg \<le> 2 ^ 41"
proof -
  assume sz: "unat sz \<le> 2 ^ 40"
  have "pages_of cfg sz * psize cfg \<le> unat sz + psize cfg - 1" by (simp add: pages_of_def)
  also have "psize cfg \<le> 2 ^ 16" by (cases cfg) simp_all
  with sz have "unat sz + psize cfg - 1 \<le> 2 ^ 41" by simp
  finally show ?thesis .
qed

lemma dev_os_contract: "dev2_contract cfg (dev_os cfg i) (\<lambda>k. k) i path"
  unfolding dev2_contract_def
proof (intro conjI allI impI)
  fix fd cmd and k :: "unit dev_view"
  obtain r t where "test_mck_mmap_dev2_ioctl cfg \<lparr>f_private = Some i\<rparr> cmd 0 (fresh_process (v_drv k)) = (Val r, t)" using dev2_ioctl_returns by blast
  then show "\<exists>r t k'. test_mck_mmap_dev2_ioctl cfg \<lparr>f_private = Some i\<rparr> cmd 0 (fresh_process (v_drv k)) = (Val r, t)
      \<and> pt_ioctl (dev_os cfg i) fd cmd k = (Inr r, k') \<and> k' = k\<lparr>v_drv := kern t\<rparr>" by (simp add: dev_os_fields)
next
  fix fd and sz :: u64 and k :: "unit dev_view" assume "0 < sz \<and> unat sz \<le> 2 ^ 40"
  then have "pages_of cfg sz * psize cfg \<le> 2 ^ 41" by (blast intro: pages_of_bound)
  then have "unat (0x10000000 :: u64) + pages_of cfg sz * psize cfg \<le> SPACE" by (simp add: SPACE_def)
  moreover from this have "copies cfg (v_drv k) i 0x10000000 (pages_of cfg sz) (dev_copy cfg k i 0x10000000)" by (intro dev_os_copies) simp
  ultimately show "\<exists>data m k'. os_mmap (dev_os cfg i) 0 sz (PROT_READ OR PROT_WRITE) MAP_PRIVATE fd 0 k = (Inr data, k')
      \<and> data \<noteq> MAP_FAILED \<and> unat data + pages_of cfg sz * psize cfg \<le> SPACE
      \<and> copies cfg (v_drv k) i data (pages_of cfg sz) m \<and> k' = k\<lparr>v_map := Some (data, pages_of cfg sz), v_mem := m\<rparr>"
    by (auto simp: dev_os_fields MAP_FAILED_def)
qed (auto simp: dev_os_fields dev_os_access)

definition demo_drv :: "unit dev_view" where
  "demo_drv = \<lparr>v_map = None, v_mem = (\<lambda>_. 0), v_drv = (module_image None (\<lambda>_. 0) ())\<lparr>test_mck_devlist :=
     map (\<lambda>n. \<lparr>suite = n, private_data = (if n = Mmap_dev2 then 0x100000 else 0), devno = 0, cdev = True, dev_class = True\<rparr>) test_suite_list\<rparr>\<rparr>"

lemma buf_size_4K: "test_mck_mmap_dev2_buf_size Pages4K = 0x201000"
  by code_simp

theorem mmap_dev_001_verdict_witness:
  "fst (mmap_dev_001 (dev_os Pages4K 1) Pages4K \<lparr>arg_path = Some ''/dev/test_mck/mmap_dev2'', arg_size = 0x201000\<rparr> (fresh_process demo_drv)) = Val None
   \<and> fst (mmap_dev_001 (dev_os Pages4K 1) Pages4K \<lparr>arg_path = Some ''/dev/test_mck/mmap_dev2'', arg_size = 0x201001\<rparr> (fresh_process demo_drv)) = Halt (Killed SIGBUS)"
  using mmap_dev_001_verdict [of Pages4K "dev_os Pages4K 1" "\<lambda>k. k" 1 "''/dev/test_mck/mmap_dev2''" "fresh_process demo_drv" "\<lparr>arg_path = Some ''/dev/test_mck/mmap_dev2'', arg_size = 0x201000\<rparr>"]
    mmap_dev_001_verdict [of Pages4K "dev_os Pages4K 1" "\<lambda>k. k" 1 "''/dev/test_mck/mmap_dev2''" "fresh_process demo_drv" "\<lparr>arg_path = Some ''/dev/test_mck/mmap_dev2'', arg_size = 0x201001\<rparr>"]
    dev_os_contract [of Pages4K 1 "''/dev/test_mck/mmap_dev2''"]
  by (simp add: demo_drv_def fresh_process_def test_suite_list_def buf_size_4K)

end
