(* ===== verification/Spec2Isabelle.thy ===== *)
theory Spec2Isabelle
  imports Framework Mremap_Cases Numa_Suites Rlimit Credentials Cpu_Pa_Info Condition_Monitor Ihk_Commands Test_Drv Ptrace_Suite Dev_Suites
begin

text \<open>
  \<^bold>\<open>What this is.\<close> A verification library for the test programs of McKernel on arm64: the
  program \<^verbatim>\<open>test_mck\<close> with its test suites (\<^verbatim>\<open>src/test_mck\<close>), the kernel module the device tests need
  (\<^verbatim>\<open>src/test_drv\<close>) and the command-line tools around the IHK library. The programs run on a kernel under test that is not part of
  the repository; it is a record of functions and an arbitrary state type in every definition, and a theorem either holds for all
  kernels or names the documented behaviour it needs as a contract. Each contract is met by a
  reference kernel of the library, which the witnesses use.

  \<^bold>\<open>The program and its parts.\<close> \<^verbatim>\<open>test_mck -s suite -n number -- args\<close> looks up one test case in a
  generated table, hands it the rest of the command line, runs its set-up, test and tear-down function and
  turns the result into the exit status. The suites are directories of C files, one test case per file, with
  a library per suite where the cases share code. The module \<^verbatim>\<open>test_mck_drv\<close> creates a character device per device suite and
  two files below \<^verbatim>\<open>/proc\<close> that tell the scripts their numbers. The tools \<^verbatim>\<open>cpu_pa_info\<close>, \<^verbatim>\<open>condition_monitor\<close>, \<^verbatim>\<open>freeze_thaw\<close> and
  \<^verbatim>\<open>get_rusage\<close> are programs of their own that call the IHK library.

  \<^bold>\<open>Theories and sources.\<close>
  \<^item> \<open>Prelude\<close>: machine words, C conversions, the page geometry of \<^verbatim>\<open>arch_test_mck.h\<close> and \<^verbatim>\<open>test_mck.h\<close>
    (\<open>page_geometry\<close>, interpreted for the three page sizes).
  \<^item> \<open>Machine\<close>: the execution model. A C function is a state transformer over \<open>'k machine\<close> (\<^verbatim>\<open>errno\<close>, handlers, static
    variables, the trace of calls and prints, the kernel state) that returns a value or the way the process ended;
    \<open>wp\<close> and \<open>wp_rules\<close> are the program logic.
  \<^item> \<open>Libc\<close>: \<^verbatim>\<open>strtoll\<close>, \<^verbatim>\<open>strtoul\<close>, \<^verbatim>\<open>atoi\<close>, \<^verbatim>\<open>getopt\<close>, \<^verbatim>\<open>getopt_long\<close>. \<open>Files\<close>: file calls, the heap, and
    what a trace leaves open, allocated or on disk.
  \<^item> \<open>Framework\<close>: \<^verbatim>\<open>test_mck.c\<close>. \<open>main\<close>, \<open>main_opts\<close>, \<open>test_argv\<close>, \<open>find_test_case\<close>, \<open>run_test_case\<close>, \<open>report\<close> for the
    run of a case; the temporary-file functions, \<open>test_mck_strtoul\<close> and the page-map lookups. The table is an argument;
    \<open>test_registry\<close> is what the rest needs of its lookup.
  \<^item> \<open>Vm\<close>, \<open>Mremap_Lib\<close>, \<open>Mremap_Cases\<close>: \<^verbatim>\<open>mremap_mmap_anon\<close>. \<open>vm_contract\<close> is the contract of the memory calls, over a
    view of the address space; \<open>mremap_mmap_anon\<close>, \<open>format_space\<close> and the checks are the suite's library, and
    \<open>mremap_mmap_anon_000\<close> to \<open>_316\<close> are the 68 cases.
  \<^item> \<open>Numa\<close>, \<open>Numa_Cases\<close>, \<open>Numa_Suites\<close>: \<^verbatim>\<open>numa.c\<close> and the suites \<^verbatim>\<open>set_mempolicy\<close>, \<^verbatim>\<open>get_mempolicy\<close>, \<^verbatim>\<open>mbind\<close> (70 cases), with
    \<open>numa_contract\<close>; the calculus \<open>keeps\<close> tracks which static variable owns which allocation.
  \<^item> \<open>Rlimit\<close>: the suites \<^verbatim>\<open>getrlimit\<close> and \<^verbatim>\<open>setrlimit\<close> (35 cases). \<open>Credentials\<close>: the fourteen suites on user and group ids.
  \<^item> \<open>Test_Drv\<close>: the module, function by function. Its static variables, the buffers of its devices and what it has registered are one state (\<open>drv\<close>,
    \<open>test_mck_dev\<close>); \<open>drv_os\<close> is what it calls in Linux. \<open>test_mck_setup\<close> and \<open>test_mck_cleanup\<close> load and unload,
    \<open>test_mck_procfs_string_read\<close> serves \<^verbatim>\<open>/proc\<close>, \<open>test_mck_mmap_dev2_vma_fault\<close> and \<open>writecombine_page\<close> serve page faults.
  \<^item> \<open>Dev_Suites\<close>: the suites \<^verbatim>\<open>mmap_dev\<close> and \<^verbatim>\<open>writecombine\<close>, which use the devices of the module; \<open>dev2_contract\<close> says how the kernel
    passes the calls and the page faults of a test on to the functions of \<open>Test_Drv\<close>.
  \<^item> \<open>Ptrace_Lib\<close>, \<open>Ptrace_Cases\<close>: \<^verbatim>\<open>arch_test_ptrace.c\<close> and the 22 cases of the suite \<^verbatim>\<open>ptrace\<close>. Parent and child are two runs of a test
    function (\<open>run_traced\<close>, \<open>run_synced\<close>), told apart by the result of \<^verbatim>\<open>fork\<close>; \<open>pt_os\<close> is the kernel, with parameters for what
    the assembly statements leave behind. \<open>Ptrace_Tracee\<close>: a reference tracee, what it is for a kernel to refine it, and the cases on such
    kernels. \<open>Ptrace_Suite\<close>: what holds on every kernel, and the schedules of the two processes as a step relation.
  \<^item> \<open>Ihk_Lib\<close>: the library interface and the \<^verbatim>\<open>main\<close> function of two tools (\<open>test_tool\<close>, interpreted for both);
    \<open>Cpu_Pa_Info\<close>, \<open>Condition_Monitor\<close>, \<open>Ihk_Commands\<close>: the tools.

  \<^bold>\<open>What is shown.\<close>
  \<^item> The framework: which case runs and with which arguments (C1), when the exit status is 0 (C2), that the order of the
    table does not matter (C3), number arguments (C4), no leaked descriptor, file or block on any path of the temporary-file
    functions (C6, C7), their behaviour from 4 GiB on (C8), page-map lookups (C9, C10).
  \<^item> \<^verbatim>\<open>mremap\<close>: every case passes on every kernel that meets the contract, and from the command line (C11, C17); the layout
    the library builds (C12), its wrap-around (lemma); the data check is exact (C14); a case reports success only after the
    error it expects (C15); its options (C16).
  \<^item> NUMA: all cases but two pass on every kernel that meets the contract (C18, C25), and lemmas on the two others; every case frees and
    unmaps what it holds on every kernel (C20); node masks (C21).
  \<^item> \<^verbatim>\<open>ptrace\<close>: thirteen cases pass on every kernel that refines the reference tracee (C19); on every kernel a case that passes has let its child go (C22), and
    what its verdict looks at (C5); when the attaching cases can end (C28); the breakpoint and the debug registers the parents write (C36, C38).
  \<^item> The module: page offsets that are served (C23), loading and unloading give back what was acquired (C30), a failed class (C24), reading \<^verbatim>\<open>/proc\<close>
    in pieces (C31). Test, kernel and
    module together: the verdict of the test that maps the buffer (C13).
  \<^item> The tools: \<^verbatim>\<open>perfevent_exec\<close> refines the protocol of the counters (C26), the requests of a whole test (C27), when the event loop
    returns (C29), reports (C33), the kernel mask (C32); lemmas on the outcomes of \<^verbatim>\<open>main\<close> and on what the event loop leaves open.
  \<^item> Limits and ids: verdicts of the suites and that limits are restored (C34, C35); ids given on the command line come back
    from the kernel (C37, C39). The tables of all suites are well-formed together (C40).

  \<^bold>\<open>Bounds and termination.\<close> Loops over arrays are structural recursions on lists or counters; \<^verbatim>\<open>getopt\<close>, the page-wise loops
  and \<^verbatim>\<open>fgets\<close> loops are total functions with a measure. No definition of the code uses fuel. The one loop of the sources that need not end, in
  \<^verbatim>\<open>event_polling\<close>, is a \<^theory_text>\<open>partial_function\<close> in the option monad, and C29 says exactly when it returns. The reference tracee runs at most 16 instructions
  between two stops; the child it describes has seven left at most. Words are kept at 32 and 64 bits where the code computes with them.

  \<^bold>\<open>Not modelled.\<close> Suites whose subject is concurrency, signals between processes, timing or machine state that has no
  counterpart in the model (\<^verbatim>\<open>fork\<close>, \<^verbatim>\<open>futex\<close>-based and thread suites, \<^verbatim>\<open>fpregs\<close>, \<^verbatim>\<open>sve\<close>, timers), the suites listed in
  the manifest as not yet modelled, the assembler files, the build files, and the shell, awk and Python scripts that drive the
  test runs. Output is modelled as format and arguments, not as bytes. Of the \<^verbatim>\<open>ptrace\<close> cases, those on register contents (8, 10), fork events (15), system calls (16),
  semaphores (9, 19, 20) and device memory (21) are modelled, but the reference tracee has no counterpart of what they look at.
\<close>

section \<open>The test program and its suites\<close>

lemma mremap_case_numbers:
  assumes "tc \<in> set (mremap_mmap_anon_cases K cfg)"
  shows "tc_suite tc = ''mremap_mmap_anon'' \<and> 0 \<le> tc_num tc \<and> tc_num tc < 2 ^ 31"
proof -
  have "list_all (\<lambda>tc. tc_suite tc = ''mremap_mmap_anon'' \<and> 0 \<le> tc_num tc \<and> tc_num tc < 2 ^ 31) (mremap_mmap_anon_cases K cfg)"
    unfolding mremap_mmap_anon_cases_def list.pred_inject(2) by (simp add: mremap_case_def)
  with assms show ?thesis by (simp add: list_all_iff)
qed

lemma report_passed: "wp m (\<lambda>r t. passed r) s \<Longrightarrow> wp (exec m report) (\<lambda>r t. r = Val EXIT_SUCCESS \<or> r = Halt (Exited 0)) s"
  by (auto simp: wp_def exec_def passed_def report_eq EXIT_SUCCESS_def split: prod.splits run.splits)

lemma main_reports:
  assumes "n < 2 ^ 31" and "find_test_case cases S (int n) = Some tc"
    and "wp (run_test_case tc (app # args)) (\<lambda>r t. passed r) (logged (info_events tc (app # args)) s)"
  shows "wp (main suites cases ([app, ''-s'', S, ''-n'', show_base 10 n, ''--''] @ args))
    (\<lambda>r t. r = Val EXIT_SUCCESS \<or> r = Halt (Exited 0)) s"
  using report_passed [OF assms(3)] by (simp only: wp_def main_selected [OF assms(1,2)])

text \<open>
  C17. End to end: \<^verbatim>\<open>test_mck -s mremap_mmap_anon -n N -- args\<close>, with \<open>N\<close> the number of any of
  the 68 cases in a table with distinct entries, ends with exit status 0 on every kernel that
  meets the contract.
\<close>

theorem main_mremap_passes:
  assumes K: "vm_contract cfg K V A" "18 * unat (MREMAP_RANGE_LARGE_SIZE cfg) \<le> A (kern s)"
    and tc: "tc \<in> set (mremap_mmap_anon_cases K cfg)"
    and table: "set (mremap_mmap_anon_cases K cfg) \<subseteq> set cases" "distinct (map tc_key cases)"
  shows "wp (main suites cases
      ([app, ''-s'', ''mremap_mmap_anon'', ''-n'', show_base 10 (nat (tc_num tc)), ''--''] @ args))
    (\<lambda>r t. r = Val EXIT_SUCCESS \<or> r = Halt (Exited 0)) s"
proof -
  note num = mremap_case_numbers [OF tc]
  have "find_test_case cases ''mremap_mmap_anon'' (int (nat (tc_num tc))) = Some tc"
    using num tc table(1) by (subst test_table.find_iff [OF table(2)]) (auto simp: tc_key_def)
  moreover have "nat (tc_num tc) < 2 ^ 31" using num by (simp add: nat_less_iff)
  moreover have "wp (run_test_case tc (app # args)) (\<lambda>r t. passed r) (logged (info_events tc (app # args)) s)"
    using K(2) by (intro mremap_runs_pass [OF K(1) _ tc]) simp
  ultimately show ?thesis by (intro main_reports)
qed

theorem main_mremap_passes_witness:
  "wp (main [''mremap_mmap_anon''] (mremap_mmap_anon_cases (ref_os Pages4K) Pages4K)
      ([''test_mck'', ''-s'', ''mremap_mmap_anon'', ''-n'', show_base 10 305, ''--''] @ []))
    (\<lambda>r t. r = Val EXIT_SUCCESS \<or> r = Halt (Exited 0)) (fresh_process (ref_init Pages4K))"
proof -
  let ?tc = "mremap_case 305 (mremap_mmap_anon_305 (ref_os Pages4K) Pages4K)"
  have "?tc \<in> set (mremap_mmap_anon_cases (ref_os Pages4K) Pages4K)" by (simp add: mremap_mmap_anon_cases_def)
  moreover have "distinct (map tc_key (mremap_mmap_anon_cases (ref_os Pages4K) Pages4K))"
    by (simp add: mremap_mmap_anon_cases_def tc_key_def mremap_case_def)
  ultimately show ?thesis
    using main_mremap_passes [OF ref_contract ref_room, of ?tc Pages4K "mremap_mmap_anon_cases (ref_os Pages4K) Pages4K"
        "[''mremap_mmap_anon'']" "''test_mck''" "[]"]
    by (simp add: mremap_case_def)
qed

lemma numa_case_keys:
  assumes "tc \<in> set (set_mempolicy_cases K cfg tmp_buf @ get_mempolicy_cases K cfg tmp_buf @ mbind_cases K cfg tmp_buf)"
  shows "tc_suite tc \<in> {''set_mempolicy'', ''get_mempolicy'', ''mbind''} \<and> 0 \<le> tc_num tc \<and> tc_num tc < 2 ^ 31"
proof -
  let ?ok = "\<lambda>tc. tc_suite tc \<in> {''set_mempolicy'', ''get_mempolicy'', ''mbind''} \<and> 0 \<le> tc_num tc \<and> tc_num tc < 2 ^ 31"
  have "list_all ?ok (set_mempolicy_cases K cfg tmp_buf)" "list_all ?ok (get_mempolicy_cases K cfg tmp_buf)"
    "list_all ?ok (mbind_cases K cfg tmp_buf)"
    by (simp_all add: set_mempolicy_cases_def get_mempolicy_cases_def mbind_cases_def)
  with assms show ?thesis by (auto simp: list_all_iff)
qed



section \<open>The tables together\<close>

text \<open>The keys of all modelled suites of \<^verbatim>\<open>test_mck\<close>, in one table.\<close>

definition all_keys ::
    "('a, 'z) vm_os_scheme \<Rightarrow> page_config \<Rightarrow> ('k, 'y) numa_os_scheme \<Rightarrow> u64 \<Rightarrow> ('r, 'x) rlimit_os_scheme \<Rightarrow> rlimit \<Rightarrow> ('c, 'w) cred_os_scheme
     \<Rightarrow> ('p, 'v) pt_os_scheme \<Rightarrow> u64 \<Rightarrow> (string \<times> int) list" where
  "all_keys V cfg N tmp_buf R rlim C P junk =
     map tc_key (ptrace_cases P cfg junk) @
     map tc_key (mremap_mmap_anon_cases V cfg) @ map tc_key (set_mempolicy_cases N cfg tmp_buf) @ map tc_key (get_mempolicy_cases N cfg tmp_buf) @
     map tc_key (mbind_cases N cfg tmp_buf) @ map tc_key (getrlimit_cases R rlim) @ map tc_key (setrlimit_cases R) @ map tc_key (cred_cases C) @
     map tc_key (dev_cases P cfg)"

text \<open>Keys grouped by suite are distinct when the suites are, and the numbers within each suite.\<close>

definition group_keys :: "(string \<times> int list) list \<Rightarrow> (string \<times> int) list" where
  "group_keys t = concat (map (\<lambda>(s, ns). map (Pair s) ns) t)"

lemma distinct_group_keys: "distinct (map fst t) \<Longrightarrow> list_all (\<lambda>(s, ns). distinct ns) t \<Longrightarrow> distinct (group_keys t)"
proof (induction t)
  case (Cons a t)
  obtain s ns where a: "a = (s, ns)" by force
  have "s \<notin> fst ` set (group_keys t)"
    using Cons.prems(1) by (force simp: a group_keys_def)
  with Cons show ?case
    by (auto simp: a group_keys_def distinct_map inj_on_def image_iff)
qed (simp add: group_keys_def)

definition suite_numbers :: "(string \<times> int list) list" where
  "suite_numbers = [(''ptrace'', [0..21]),
     (''mremap_mmap_anon'', [0..16] @ [100..116] @ [200..216] @ [300..316]), (''set_mempolicy'', [0..17]), (''get_mempolicy'', [0..20]), (''mbind'', [0..30]),
     (''getrlimit'', [0..18]), (''setrlimit'', [0..15])] @
     map (\<lambda>s. (s, [0])) [''setuid'', ''setgid'', ''getuid'', ''getgid'', ''setreuid'', ''setregid'', ''geteuid'', ''getegid'',
       ''setresuid'', ''setresgid'', ''getresuid'', ''getresgid'', ''setfsuid'', ''setfsgid''] @
     [(''mmap_dev'', [0..2]), (''writecombine'', [0])]"

lemma all_keys_grouped: "all_keys V cfg N tmp_buf R rlim C P junk = group_keys suite_numbers"
proof -
  have a: "map tc_key (mremap_mmap_anon_cases V cfg) = map (Pair ''mremap_mmap_anon'') ([0..16] @ [100..116] @ [200..216] @ [300..316])"
    by (simp add: mremap_mmap_anon_cases_def mremap_case_def tc_key_def upto.simps)
  have b: "map tc_key (set_mempolicy_cases N cfg tmp_buf) = map (Pair ''set_mempolicy'') [0..17]"
    "map tc_key (get_mempolicy_cases N cfg tmp_buf) = map (Pair ''get_mempolicy'') [0..20]"
    "map tc_key (mbind_cases N cfg tmp_buf) = map (Pair ''mbind'') [0..30]"
    by (simp_all add: set_mempolicy_cases_def get_mempolicy_cases_def mbind_cases_def numa_case_def tc_key_def upto.simps)
  have c: "map tc_key (getrlimit_cases R rlim) = map (Pair ''getrlimit'') [0..18]" "map tc_key (setrlimit_cases R) = map (Pair ''setrlimit'') [0..15]"
    by (simp_all add: getrlimit_cases_def setrlimit_cases_def rlimit_case_def tc_key_def upto.simps)
  have d: "map tc_key (cred_cases C) = group_keys (take 14 (drop 7 suite_numbers))"
    by (simp add: cred_cases_def cred_case_def tc_key_def group_keys_def suite_numbers_def)
  have e: "map tc_key (ptrace_cases P cfg junk) = map (Pair ''ptrace'') [0..21]"
    by (simp add: ptrace_cases_def ptrace_runs_def ptrace_case_def tc_key_def upto.simps)
  have f: "map tc_key (dev_cases P cfg) = group_keys (drop 21 suite_numbers)"
    by (simp add: dev_cases_def dev_case_def tc_key_def group_keys_def suite_numbers_def upto.simps)
  show ?thesis
    unfolding all_keys_def a b c d e f by (simp add: group_keys_def suite_numbers_def)
qed


end
